(* ===== verification/Prelude.thy ===== *)
theory Prelude
  imports Main
begin

text \<open>
  Shared vocabulary of the development: results of fallible code as sums (the left side is
  the thrown error), their sequencing, the \<open>named_theorems\<close> collections that the component
  proofs draw on, and a few generic facts about lists. Nothing here models a line of the
  repository.
\<close>

section \<open>Fallible computations\<close>

text \<open>
  A TypeScript function that may throw is a function into \<open>'e + 'a\<close>. \<open>bindE\<close> is the
  sequencing of statements: an exception skips the rest. \<open>failIf\<close> is the idiom
  \<open>if (condition) throw error;\<close>.
\<close>

definition bindE :: "'e + 'a \<Rightarrow> ('a \<Rightarrow> 'e + 'b) \<Rightarrow> 'e + 'b" where
  "bindE m f = (case m of Inl e \<Rightarrow> Inl e | Inr a \<Rightarrow> f a)"

definition thenE :: "'e + 'a \<Rightarrow> 'e + 'b \<Rightarrow> 'e + 'b" where
  "thenE m k = bindE m (\<lambda>_. k)"

definition failIf :: "bool \<Rightarrow> 'e \<Rightarrow> 'e + unit" where
  "failIf b e = (if b then Inl e else Inr ())"

text \<open>\<open>tryE\<close> is \<open>try { m } catch { h }\<close> with the error bound in the handler.\<close>

definition tryE :: "'e + 'a \<Rightarrow> ('e \<Rightarrow> 'f + 'a) \<Rightarrow> 'f + 'a" where
  "tryE m h = (case m of Inl e \<Rightarrow> h e | Inr a \<Rightarrow> Inr a)"

text \<open>\<open>mapE\<close> is \<open>xs.map(f)\<close> (or a \<open>for\<close> loop) whose body may throw: left to right,
  the first error wins.\<close>

fun mapE :: "('a \<Rightarrow> 'e + 'b) \<Rightarrow> 'a list \<Rightarrow> 'e + 'b list" where
  "mapE f [] = Inr []"
| "mapE f (x # xs) = bindE (f x) (\<lambda>y. bindE (mapE f xs) (\<lambda>ys. Inr (y # ys)))"

definition isOk :: "'e + 'a \<Rightarrow> bool" where
  "isOk m = (case m of Inl _ \<Rightarrow> False | Inr _ \<Rightarrow> True)"

named_theorems result_iff \<open>when a composed computation returns, or fails, with a given value\<close>

lemma bindE_simps [simp]:
  "bindE (Inl e) f = Inl e"
  "bindE (Inr a) f = f a"
  by (simp_all add: bindE_def)

lemma thenE_simps [simp]:
  "thenE (Inl e) k = Inl e"
  "thenE (Inr a) k = k"
  by (simp_all add: thenE_def)

lemma failIf_simps [simp]:
  "failIf True e = Inl e"
  "failIf False e = Inr ()"
  by (simp_all add: failIf_def)

lemma isOk_simps [simp]: "isOk (Inr a)" "\<not> isOk (Inl e)"
  by (simp_all add: isOk_def)

lemma isOk_iff: "isOk m \<longleftrightarrow> (\<exists>a. m = Inr a)"
  by (cases m) simp_all

lemma tryE_simps [simp]:
  "tryE (Inl e) h = h e"
  "tryE (Inr a) h = Inr a"
  by (simp_all add: tryE_def)

lemma bindE_Inr_iff [result_iff]:
  "bindE m f = Inr y \<longleftrightarrow> (\<exists>x. m = Inr x \<and> f x = Inr y)"
  by (cases m) simp_all

lemma bindE_Inl_iff: "bindE m f = Inl e \<longleftrightarrow> m = Inl e \<or> (\<exists>x. m = Inr x \<and> f x = Inl e)"
  by (cases m) simp_all

lemma thenE_Inr_iff [result_iff]:
  "thenE m k = Inr y \<longleftrightarrow> (\<exists>x. m = Inr x) \<and> k = Inr y"
  by (cases m) simp_all

lemma thenE_Inl_iff: "thenE m k = Inl e \<longleftrightarrow> m = Inl e \<or> (\<exists>x. m = Inr x) \<and> k = Inl e"
  by (cases m) simp_all

lemma failIf_Inr_iff [result_iff]: "failIf b e = Inr u \<longleftrightarrow> \<not> b"
  by (cases b) simp_all

lemma failIf_Inl_iff: "failIf b e = Inl e' \<longleftrightarrow> b \<and> e' = e"
  by (cases b) auto

lemma tryE_Inr_iff: "tryE m h = Inr y \<longleftrightarrow> m = Inr y \<or> (\<exists>e. m = Inl e \<and> h e = Inr y)"
  by (cases m) simp_all

lemmas error_iff = bindE_Inl_iff thenE_Inl_iff failIf_Inl_iff

lemma bindE_cong [fundef_cong]:
  "m = m' \<Longrightarrow> (\<And>a. m' = Inr a \<Longrightarrow> f a = f' a) \<Longrightarrow> bindE m f = bindE m' f'"
  by (cases m') simp_all

lemma thenE_cong [fundef_cong]:
  "m = m' \<Longrightarrow> (\<And>a. m' = Inr a \<Longrightarrow> k = k') \<Longrightarrow> thenE m k = thenE m' k'"
  by (cases m') simp_all

lemma bindE_assoc: "bindE (bindE m f) g = bindE m (\<lambda>a. bindE (f a) g)"
  by (cases m) simp_all

section \<open>Mapping a fallible function\<close>

lemma mapE_Inr_iff: "mapE f xs = Inr ys \<longleftrightarrow> list_all2 (\<lambda>x y. f x = Inr y) xs ys"
  by (induction xs arbitrary: ys)
     (auto simp: result_iff list_all2_Cons1)

lemma mapE_length: "mapE f xs = Inr ys \<Longrightarrow> length ys = length xs"
  by (simp add: mapE_Inr_iff list_all2_lengthD)

lemma mapE_nth: "mapE f xs = Inr ys \<Longrightarrow> i < length xs \<Longrightarrow> f (xs ! i) = Inr (ys ! i)"
  by (auto simp: mapE_Inr_iff dest: list_all2_nthD)

lemma mapE_all_ok: "(\<And>x. x \<in> set xs \<Longrightarrow> f x = Inr (g x)) \<Longrightarrow> mapE f xs = Inr (map g xs)"
  by (induction xs) simp_all

lemma mapE_set_dest:
  "mapE f xs = Inr ys \<Longrightarrow> y \<in> set ys \<Longrightarrow> \<exists>x \<in> set xs. f x = Inr y"
  by (induction xs arbitrary: ys) (auto simp: result_iff)

lemma mapE_set_src:
  "mapE f xs = Inr ys \<Longrightarrow> x \<in> set xs \<Longrightarrow> \<exists>y \<in> set ys. f x = Inr y"
  by (induction xs arbitrary: ys) (auto simp: result_iff)

lemma mapE_Inl_dest: "mapE f xs = Inl e \<Longrightarrow> \<exists>x \<in> set xs. f x = Inl e"
  by (induction xs) (auto simp: bindE_Inl_iff)

lemma mapE_cong [fundef_cong]:
  "xs = ys \<Longrightarrow> (\<And>x. x \<in> set ys \<Longrightarrow> f x = g x) \<Longrightarrow> mapE f xs = mapE g ys"
  by (induction ys arbitrary: xs) simp_all

text \<open>A \<open>for\<close> loop that threads a state and may throw.\<close>

fun foldE :: "('s \<Rightarrow> 'a \<Rightarrow> 'e + 's) \<Rightarrow> 's \<Rightarrow> 'a list \<Rightarrow> 'e + 's" where
  "foldE f s [] = Inr s"
| "foldE f s (x # xs) = bindE (f s x) (\<lambda>s'. foldE f s' xs)"

lemma foldE_append: "foldE f s (xs @ ys) = bindE (foldE f s xs) (\<lambda>s'. foldE f s' ys)"
  by (induction xs arbitrary: s) (simp_all add: bindE_assoc)

lemma foldE_Inl_dest: "foldE f s xs = Inl e \<Longrightarrow> \<exists>x \<in> set xs. \<exists>t. f t x = Inl e"
  by (induction xs arbitrary: s) (auto simp: bindE_Inl_iff)

section \<open>Optional values\<close>

text \<open>\<open>a ?? b\<close> on a value that may be \<open>undefined\<close>.\<close>

definition orElse :: "'a option \<Rightarrow> 'a \<Rightarrow> 'a" where
  "orElse x d = (case x of None \<Rightarrow> d | Some v \<Rightarrow> v)"

lemma orElse_simps [simp]: "orElse None d = d" "orElse (Some v) d = v"
  by (simp_all add: orElse_def)

definition orOption :: "'a option \<Rightarrow> 'a option \<Rightarrow> 'a option" where
  "orOption x y = (case x of None \<Rightarrow> y | Some v \<Rightarrow> Some v)"

lemma orOption_simps [simp]: "orOption None y = y" "orOption (Some v) y = Some v"
  by (simp_all add: orOption_def)

text \<open>A check on an optional value that leaves an absent one alone.\<close>

definition mapOptE :: "('a \<Rightarrow> 'e + 'b) \<Rightarrow> 'a option \<Rightarrow> 'e + 'b option" where
  "mapOptE f x = (case x of None \<Rightarrow> Inr None | Some v \<Rightarrow> bindE (f v) (\<lambda>y. Inr (Some y)))"

lemma mapOptE_simps [simp]:
  "mapOptE f None = Inr None"
  "mapOptE f (Some v) = bindE (f v) (\<lambda>y. Inr (Some y))"
  by (simp_all add: mapOptE_def)

section \<open>Lists\<close>

lemma list_all_takeD: "list_all P (take n xs) \<Longrightarrow> list_all P (drop n xs) \<Longrightarrow> list_all P xs"
  by (metis append_take_drop_id list_all_append)

lemma distinct_snoc: "distinct (xs @ [x]) \<longleftrightarrow> distinct xs \<and> x \<notin> set xs"
  by auto

end
