(* ===== verification/Js_Text.thy ===== *)
theory Js_Text
  imports Prelude "HOL-Library.Word"
begin

text \<open>
  JavaScript strings as the SDK's code sees them: sequences of UTF-16 code units, each a
  \<open>16 word\<close>. This theory holds the operations of the language's standard library that the
  sources under src/ call on strings (\<open>trim\<close>, \<open>split\<close>/\<open>join\<close>, \<open>startsWith\<close>,
  \<open>endsWith\<close>, \<open>toLowerCase\<close> on ASCII, decimal digits) and the lemmas about them that
  the components share. \<open>Js_Utf8\<close> adds the UTF-8 codecs.
\<close>

section \<open>Code units and strings\<close>

type_synonym code_unit = "16 word"
type_synonym jstr = "code_unit list"

text \<open>A source literal: \<open>lit ''abc''\<close> is the string \<open>"abc"\<close>.\<close>

definition lit :: "string \<Rightarrow> jstr" where
  "lit s = map of_char s"

definition unit_in :: "char \<Rightarrow> char \<Rightarrow> code_unit \<Rightarrow> bool" where
  "unit_in a b u \<longleftrightarrow> of_char a \<le> u \<and> u \<le> of_char b"

definition is_digit :: "code_unit \<Rightarrow> bool" where
  "is_digit u \<longleftrightarrow> unit_in CHR ''0'' CHR ''9'' u"

lemma length_lit [simp]: "length (lit s) = length s"
  by (simp add: lit_def)

lemma lit_Nil_iff [simp]: "lit s = [] \<longleftrightarrow> s = []" "[] = lit s \<longleftrightarrow> s = []"
  by (simp_all add: lit_def)

lemma of_char_unit_inj: "(of_char c :: code_unit) = of_char d \<longleftrightarrow> c = d"
proof -
  have unat_char: "unat (of_char c :: code_unit) = of_char c" for c
  proof -
    have "of_char c < (256 :: nat)" by (rule nat_of_char_less_256)
    then have "of_char c < (2 :: nat) ^ LENGTH(16)" by (rule less_le_trans) simp
    then have "unat (of_nat (of_char c) :: code_unit) = of_char c"
      by (simp only: unat_of_nat mod_less)
    then show ?thesis by (simp only: of_nat_of_char)
  qed
  have "c = d" if "(of_char c :: code_unit) = of_char d"
  proof -
    from that have "unat (of_char c :: code_unit) = unat (of_char d :: code_unit)" by (rule arg_cong)
    then have "(of_char c :: nat) = of_char d" by (simp only: unat_char)
    then show ?thesis by (simp only: of_char_eq_iff)
  qed
  then show ?thesis by blast
qed

lemma lit_eq_iff [simp]: "lit s = lit t \<longleftrightarrow> s = t"
proof -
  have "inj (of_char :: char \<Rightarrow> code_unit)" by (rule injI) (simp add: of_char_unit_inj)
  then show ?thesis by (simp add: lit_def inj_map_eq_map)
qed

section \<open>trim\<close>

text \<open>White space and line terminators of ECMAScript.\<close>

definition is_js_space :: "code_unit \<Rightarrow> bool" where
  "is_js_space u \<longleftrightarrow>
     (9 \<le> u \<and> u \<le> 13) \<or> u = 32 \<or> u = 0xA0 \<or> u = 0x1680 \<or> (0x2000 \<le> u \<and> u \<le> 0x200A) \<or>
     u = 0x2028 \<or> u = 0x2029 \<or> u = 0x202F \<or> u = 0x205F \<or> u = 0x3000 \<or> u = 0xFEFF"

definition trim :: "jstr \<Rightarrow> jstr" where
  "trim s = rev (dropWhile is_js_space (rev (dropWhile is_js_space s)))"

lemma trim_Nil [simp]: "trim [] = []"
  by (simp add: trim_def)

lemma trim_eq_Nil_iff: "trim s = [] \<longleftrightarrow> list_all is_js_space s"
proof
  assume "trim s = []"
  then have "\<forall>u \<in> set (dropWhile is_js_space s). is_js_space u"
    by (simp add: trim_def)
  moreover have "dropWhile is_js_space s = [] \<or> \<not> is_js_space (hd (dropWhile is_js_space s))"
    by (metis hd_dropWhile)
  ultimately have "dropWhile is_js_space s = []"
    by (metis list.set_sel(1))
  then show "list_all is_js_space s"
    by (simp add: list_all_iff dropWhile_eq_Nil_conv)
next
  assume "list_all is_js_space s"
  then have "dropWhile is_js_space s = []"
    by (simp add: list_all_iff dropWhile_eq_Nil_conv)
  then show "trim s = []"
    by (simp add: trim_def del: dropWhile_eq_Nil_conv)
qed

lemma trim_neq_Nil: "trim s \<noteq> [] \<Longrightarrow> s \<noteq> []"
  by auto

lemma set_trim: "set (trim s) \<subseteq> set s"
  unfolding trim_def by (auto dest!: set_dropWhileD)

lemma length_trim: "length (trim s) \<le> length s"
proof -
  have "length (dropWhile is_js_space (rev (dropWhile is_js_space s)))
      \<le> length (rev (dropWhile is_js_space s))"
    by (rule length_dropWhile_le)
  also have "\<dots> \<le> length s"
    by (simp add: length_dropWhile_le)
  finally show ?thesis by (simp add: trim_def)
qed

lemma trim_factor: "\<exists>u v. s = u @ trim s @ v"
proof -
  let ?d = "dropWhile is_js_space s"
  have "s = takeWhile is_js_space s @ ?d" by simp
  moreover have "?d = trim s @ rev (takeWhile is_js_space (rev ?d))"
    unfolding trim_def by (metis rev_append rev_rev_ident takeWhile_dropWhile_id)
  ultimately show ?thesis by metis
qed

section \<open>Prefixes, suffixes, occurrences\<close>

definition startsWith :: "jstr \<Rightarrow> jstr \<Rightarrow> bool" where
  "startsWith s p \<longleftrightarrow> take (length p) s = p"

definition endsWith :: "jstr \<Rightarrow> jstr \<Rightarrow> bool" where
  "endsWith s p \<longleftrightarrow> length p \<le> length s \<and> drop (length s - length p) s = p"

text \<open>\<open>occurs p s\<close>: \<open>s.includes(p)\<close>.\<close>

fun occurs :: "'a list \<Rightarrow> 'a list \<Rightarrow> bool" where
  "occurs p [] = (p = [])"
| "occurs p (c # cs) = (take (length p) (c # cs) = p \<or> occurs p cs)"

lemma startsWith_iff: "startsWith s p \<longleftrightarrow> (\<exists>t. s = p @ t)"
  unfolding startsWith_def by (metis append_eq_conv_conj append_take_drop_id)

lemma startsWith_append [simp]: "startsWith (p @ t) p"
  by (simp add: startsWith_def)

lemma startsWith_lit [simp]: "startsWith (lit s) (lit p) \<longleftrightarrow> take (length p) s = p"
proof -
  have "take (length p) (lit s) = lit (take (length p) s)" by (simp add: lit_def take_map)
  then show ?thesis by (simp add: startsWith_def)
qed

lemma endsWith_iff: "endsWith s p \<longleftrightarrow> (\<exists>t. s = t @ p)"
proof
  assume "endsWith s p"
  then have "s = take (length s - length p) s @ p"
    by (metis append_take_drop_id endsWith_def)
  then show "\<exists>t. s = t @ p" ..
qed (auto simp: endsWith_def)

lemma take_eq_iff_prefix: "take (length p) s = p \<longleftrightarrow> (\<exists>t. s = p @ t)"
  by (metis append_eq_conv_conj append_take_drop_id)

lemma occurs_iff: "occurs p s \<longleftrightarrow> (\<exists>u v. s = u @ p @ v)"
proof (induction s)
  case Nil
  then show ?case by auto
next
  case (Cons c cs)
  have "(\<exists>u v. c # cs = u @ p @ v) \<longleftrightarrow> (\<exists>v. c # cs = p @ v) \<or> (\<exists>u v. cs = u @ p @ v)"
    by (metis append_Cons append_self_conv2 list.sel(3) neq_Nil_conv tl_append2)
  then show ?case
    using Cons by (auto simp: take_eq_iff_prefix)
qed

lemma occurs_mono: "occurs p s \<Longrightarrow> occurs p (u @ s @ v)"
  unfolding occurs_iff by (metis append.assoc)

lemma occurs_trans: "occurs p q \<Longrightarrow> occurs q s \<Longrightarrow> occurs p s"
  unfolding occurs_iff by (metis append.assoc)

lemma occurs_set: "occurs p s \<Longrightarrow> set p \<subseteq> set s"
  unfolding occurs_iff by auto

lemma occurs_length: "occurs p s \<Longrightarrow> length p \<le> length s"
  unfolding occurs_iff by auto

section \<open>split and join\<close>

text \<open>
  \<open>s.split(sep)\<close> for a non-empty separator: leftmost matches, never overlapping. For an
  empty separator JavaScript splits into single code units; the sources never split by an
  empty string, and neither does any definition here.
\<close>

function split_on :: "'a list \<Rightarrow> 'a list \<Rightarrow> 'a list list" where
  "split_on sep [] = [[]]"
| "split_on sep (c # cs) =
     (if sep \<noteq> [] \<and> take (length sep) (c # cs) = sep
      then [] # split_on sep (drop (length sep) (c # cs))
      else (case split_on sep cs of [] \<Rightarrow> [[c]] | p # ps \<Rightarrow> (c # p) # ps))"
  by pat_completeness auto
termination
proof (relation "measure (\<lambda>(sep, s). length s)", goal_cases)
  case (2 sep c cs)
  then show ?case by (cases sep) auto
qed auto

fun join :: "'a list \<Rightarrow> 'a list list \<Rightarrow> 'a list" where
  "join sep [] = []"
| "join sep [p] = p"
| "join sep (p # q # ps) = p @ sep @ join sep (q # ps)"

declare split_on.simps(2) [simp del]

lemma split_on_neq_Nil [simp]: "split_on sep s \<noteq> []"
  by (induction sep s rule: split_on.induct) (auto simp: split_on.simps(2) split: list.splits)

lemma join_Cons: "ps \<noteq> [] \<Longrightarrow> join sep (p # ps) = p @ sep @ join sep ps"
  by (cases ps) simp_all

lemma join_split: "join sep (split_on sep s) = s"
proof (induction sep s rule: split_on.induct)
  case (1 sep)
  show ?case by simp
next
  case (2 sep c cs)
  show ?case
  proof (cases "sep \<noteq> [] \<and> take (length sep) (c # cs) = sep")
    case True
    then have "join sep (split_on sep (c # cs)) = sep @ drop (length sep) (c # cs)"
      using 2(1) by (simp add: split_on.simps(2) join_Cons)
    also have "\<dots> = c # cs"
      using True by (metis append_take_drop_id)
    finally show ?thesis .
  next
    case False
    obtain p ps where sp: "split_on sep cs = p # ps"
      by (meson neq_Nil_conv split_on_neq_Nil)
    moreover have "join sep ((c # p) # ps) = c # join sep (p # ps)"
      by (cases ps) simp_all
    moreover have "split_on sep (c # cs) = (c # p) # ps"
      using False sp by (auto simp: split_on.simps(2))
    ultimately show ?thesis
      using False 2(2) by simp
  qed
qed

text \<open>No piece contains the separator: what makes \<open>split\<close>/\<open>join\<close> a replacement of
  every match.\<close>

lemma occurs_Cons_split:
  assumes "sep \<noteq> []" "split_on sep cs = p # ps" "take (length sep) (c # cs) \<noteq> sep"
    "\<not> occurs sep p"
  shows "\<not> occurs sep (c # p)"
proof
  assume "occurs sep (c # p)"
  with assms(4) have t: "take (length sep) (c # p) = sep" by simp
  have "cs = join sep (p # ps)"
    using assms(2) join_split [of sep cs] by simp
  then obtain r where "cs = p @ r"
    by (cases ps) auto
  moreover have "length sep \<le> length (c # p)"
    using t by (metis length_take min.absorb_iff2 nat_le_linear take_all)
  ultimately have "take (length sep) (c # cs) = sep"
    using t by (metis append_Cons append_take_drop_id take_eq_iff_prefix append.assoc)
  with assms(3) show False by simp
qed

lemma split_on_pieces: "sep \<noteq> [] \<Longrightarrow> p \<in> set (split_on sep s) \<Longrightarrow> \<not> occurs sep p"
proof (induction sep s arbitrary: p rule: split_on.induct)
  case (1 sep)
  then show ?case by simp
next
  case (2 sep c cs)
  show ?case
  proof (cases "take (length sep) (c # cs) = sep")
    case True
    with 2 show ?thesis by (auto simp: split_on.simps(2))
  next
    case False
    obtain q qs where sp: "split_on sep cs = q # qs"
      by (meson neq_Nil_conv split_on_neq_Nil)
    have IH: "\<And>r. r \<in> set (split_on sep cs) \<Longrightarrow> \<not> occurs sep r"
      using 2(2) False "2.prems"(1) by blast
    have "\<not> occurs sep (c # q)"
      by (rule occurs_Cons_split [OF "2.prems"(1) sp False]) (use IH sp in auto)
    moreover have "split_on sep (c # cs) = (c # q) # qs"
      using False sp by (simp add: split_on.simps(2))
    ultimately show ?thesis
      using "2.prems"(2) IH sp by auto
  qed
qed

lemma split_on_absent: "\<not> occurs sep s \<Longrightarrow> split_on sep s = [s]"
  by (induction sep s rule: split_on.induct) (auto simp: split_on.simps(2))

lemma split_on_join_set: "p \<in> set (split_on sep s) \<Longrightarrow> occurs p s"
proof -
  have gen: "p \<in> set ps \<Longrightarrow> occurs p (join sep ps)" for ps
  proof (induction ps)
    case Nil
    then show ?case by simp
  next
    case (Cons q ps)
    show ?case
    proof (cases "ps = []")
      case True
      with Cons.prems have "q = p" by simp
      moreover have "occurs q q" unfolding occurs_iff by (metis append.left_neutral append.right_neutral)
      ultimately show ?thesis using True by simp
    next
      case False
      have "occurs p (join sep ps)" if "p \<in> set ps"
        using Cons.IH that .
      then show ?thesis
        using Cons.prems False
        by (auto simp: join_Cons occurs_iff) (metis append.assoc)
    qed
  qed
  show "p \<in> set (split_on sep s) \<Longrightarrow> occurs p s"
    using gen [of "split_on sep s"] by (simp add: join_split)
qed

section \<open>ASCII lower case\<close>

text \<open>
  \<open>toLowerCase\<close> on ASCII. The sources compare its result with ASCII literals that
  contain neither \<open>k\<close> nor a non-ASCII letter, so the two code points outside ASCII whose
  lower case is ASCII (U+212A, and U+0130 whose lower case is two units) never matter.
\<close>

definition lower_unit :: "code_unit \<Rightarrow> code_unit" where
  "lower_unit u = (if unit_in CHR ''A'' CHR ''Z'' u then u + 32 else u)"

definition toLowerCase :: "jstr \<Rightarrow> jstr" where
  "toLowerCase s = map lower_unit s"

lemma lower_unit_idem [simp]: "lower_unit (lower_unit u) = lower_unit u"
proof (cases "unit_in CHR ''A'' CHR ''Z'' u")
  case True
  then have "unat u \<ge> 65" "unat u \<le> 90"
    by (simp_all add: unit_in_def word_le_nat_alt)
  then have "unat (u + 32) = unat u + 32"
    by (simp add: unat_word_ariths)
  then have "\<not> unit_in CHR ''A'' CHR ''Z'' (u + 32)"
    using \<open>unat u \<ge> 65\<close> by (simp add: unit_in_def word_le_nat_alt)
  with True show ?thesis by (simp add: lower_unit_def)
next
  case False
  then show ?thesis by (simp add: lower_unit_def)
qed

lemma toLowerCase_idem [simp]: "toLowerCase (toLowerCase s) = toLowerCase s"
  by (simp add: toLowerCase_def)

section \<open>Decimal digits\<close>

definition digit_unit :: "nat \<Rightarrow> code_unit" where
  "digit_unit d = of_nat (48 + d)"

definition digit_value :: "code_unit \<Rightarrow> nat" where
  "digit_value u = unat u - 48"

fun dec_nat :: "nat \<Rightarrow> jstr" where
  "dec_nat n = (if n < 10 then [digit_unit n] else dec_nat (n div 10) @ [digit_unit (n mod 10)])"

declare dec_nat.simps [simp del]

definition dec_int :: "int \<Rightarrow> jstr" where
  "dec_int i = (if i < 0 then lit ''-'' @ dec_nat (nat (- i)) else dec_nat (nat i))"

definition parse_dec :: "jstr \<Rightarrow> nat" where
  "parse_dec s = foldl (\<lambda>n u. 10 * n + digit_value u) 0 s"

text \<open>\<open>/^\d+$/\<close>.\<close>

definition all_digits :: "jstr \<Rightarrow> bool" where
  "all_digits s \<longleftrightarrow> s \<noteq> [] \<and> list_all is_digit s"

lemma digit_unit_facts:
  assumes "d < 10"
  shows "is_digit (digit_unit d)" "digit_value (digit_unit d) = d"
proof -
  have "unat (of_nat (48 + d) :: code_unit) = 48 + d"
    using assms by (subst unat_of_nat) simp
  then have "unat (digit_unit d) = 48 + d"
    unfolding digit_unit_def .
  then show "is_digit (digit_unit d)" "digit_value (digit_unit d) = d"
    using assms by (simp_all add: is_digit_def unit_in_def word_le_nat_alt digit_value_def)
qed

lemma is_digit_value: "is_digit u \<Longrightarrow> digit_value u < 10"
  by (auto simp: is_digit_def unit_in_def word_le_nat_alt digit_value_def)

lemma parse_dec_snoc [simp]: "parse_dec (s @ [u]) = 10 * parse_dec s + digit_value u"
  by (simp add: parse_dec_def)

lemma parse_dec_nat [simp]: "parse_dec (dec_nat n) = n"
proof (induction n rule: dec_nat.induct)
  case (1 n)
  show ?case
  proof (cases "n < 10")
    case True
    then show ?thesis
      by (simp add: dec_nat.simps [of n] digit_unit_facts parse_dec_def)
  next
    case False
    with 1 show ?thesis
      by (simp add: dec_nat.simps [of n] digit_unit_facts)
  qed
qed

lemma all_digits_dec_nat [simp]: "all_digits (dec_nat n)"
proof (induction n rule: dec_nat.induct)
  case (1 n)
  then show ?case
    by (cases "n < 10") (simp_all add: dec_nat.simps [of n] digit_unit_facts all_digits_def)
qed

lemma dec_nat_neq_Nil [simp]: "dec_nat n \<noteq> []"
  using all_digits_dec_nat [of n] by (simp add: all_digits_def)

lemma dec_nat_inj: "dec_nat m = dec_nat n \<longleftrightarrow> m = n"
  by (metis parse_dec_nat)

lemma not_space_digit: "is_digit u \<Longrightarrow> \<not> is_js_space u"
  by (auto simp: is_digit_def unit_in_def is_js_space_def word_le_nat_alt)

lemma minus_not_digit: "\<not> is_digit (of_char CHR ''-'')"
  by (simp add: is_digit_def unit_in_def)

lemma dec_int_inj: "dec_int i = dec_int j \<longleftrightarrow> i = j"
proof
  assume eq: "dec_int i = dec_int j"
  have hd_pos: "is_digit (hd (dec_nat n))" for n
    using all_digits_dec_nat [of n] by (cases "dec_nat n") (auto simp: all_digits_def)
  have sign: "hd (dec_int k) = of_char CHR ''-'' \<longleftrightarrow> k < 0" for k
    using hd_pos [of "nat k"] minus_not_digit by (auto simp: dec_int_def lit_def)
  from eq sign have "i < 0 \<longleftrightarrow> j < 0" by metis
  with eq show "i = j"
    by (auto simp: dec_int_def dec_nat_inj lit_def split: if_splits)
qed simp

lemma dec_int_neq_Nil [simp]: "dec_int i \<noteq> []"
  by (simp add: dec_int_def)

lemma trim_dec_int_neq_Nil [simp]: "trim (dec_int i) \<noteq> []"
proof -
  have "\<exists>u \<in> set (dec_nat n). is_digit u" for n
    using all_digits_dec_nat [of n] by (cases "dec_nat n") (auto simp: all_digits_def)
  then obtain u where "u \<in> set (dec_int i)" "is_digit u"
    unfolding dec_int_def by (metis UnI2 set_append)
  then show ?thesis
    by (auto simp: trim_eq_Nil_iff list_all_iff dest: not_space_digit)
qed

end
