(* ===== verification/Js_Value.thy ===== *)
theory Js_Value
  imports Js_Text Complex_Main
begin

text \<open>
  JavaScript numbers and values. A number is an IEEE double: a finite one is the rational it
  denotes (the two zeros coincide, which no code under src/ can tell apart), the others are
  NaN and the infinities. \<open>round64\<close> is the rounding of a real result to a double,
  \<open>num_text\<close> is Number::toString. A value of type \<open>unknown\<close> is a \<open>jsval\<close>, whose objects
  are property lists in insertion order.
\<close>

section \<open>Numbers\<close>

datatype jsnum = Fin rat | NaN | PosInf | NegInf

definition num :: "int \<Rightarrow> jsnum" where
  "num i = Fin (of_int i)"

definition rat_integral :: "rat \<Rightarrow> bool" where
  "rat_integral r \<longleftrightarrow> of_int \<lfloor>r\<rfloor> = r"

definition isFinite :: "jsnum \<Rightarrow> bool" where
  "isFinite n = (case n of Fin r \<Rightarrow> True | _ \<Rightarrow> False)"

definition isInteger :: "jsnum \<Rightarrow> bool" where
  "isInteger n = (case n of Fin r \<Rightarrow> rat_integral r | _ \<Rightarrow> False)"

definition MAX_SAFE :: int where
  "MAX_SAFE = 9007199254740991"

definition isSafeInteger :: "jsnum \<Rightarrow> bool" where
  "isSafeInteger n =
     (case n of Fin r \<Rightarrow> rat_integral r \<and> \<bar>r\<bar> \<le> of_int MAX_SAFE | _ \<Rightarrow> False)"

text \<open>The relational operators: every comparison with NaN is false.\<close>

fun num_less :: "jsnum \<Rightarrow> jsnum \<Rightarrow> bool" where
  "num_less (Fin a) (Fin b) = (a < b)"
| "num_less (Fin a) PosInf = True"
| "num_less NegInf (Fin b) = True"
| "num_less NegInf PosInf = True"
| "num_less _ _ = False"

definition num_le :: "jsnum \<Rightarrow> jsnum \<Rightarrow> bool" where
  "num_le a b \<longleftrightarrow> num_less a b \<or> (a = b \<and> a \<noteq> NaN)"

definition num_int :: "jsnum \<Rightarrow> int" where
  "num_int n = (case n of Fin r \<Rightarrow> \<lfloor>r\<rfloor> | _ \<Rightarrow> 0)"

lemma rat_integral_of_int [simp]: "rat_integral (of_int i)"
  by (simp add: rat_integral_def)

lemma rat_integral_iff: "rat_integral r \<longleftrightarrow> (\<exists>i. r = of_int i)"
  unfolding rat_integral_def by (metis floor_of_int)

lemma isInteger_iff: "isInteger n \<longleftrightarrow> (\<exists>i. n = num i)"
  by (cases n) (auto simp: isInteger_def num_def rat_integral_iff)

lemma isSafeInteger_iff: "isSafeInteger n \<longleftrightarrow> (\<exists>i. n = num i \<and> \<bar>i\<bar> \<le> MAX_SAFE)"
proof (cases n)
  case (Fin r)
  have "\<bar>of_int i\<bar> \<le> (of_int MAX_SAFE :: rat) \<longleftrightarrow> \<bar>i\<bar> \<le> MAX_SAFE" for i
    by (metis of_int_abs of_int_le_iff)
  with Fin show ?thesis
    by (auto simp: isSafeInteger_def num_def rat_integral_iff)
qed (simp_all add: isSafeInteger_def num_def)

lemma num_inj [simp]: "num i = num j \<longleftrightarrow> i = j"
  by (simp add: num_def)

lemma num_int_num [simp]: "num_int (num i) = i"
  by (simp add: num_int_def num_def)

lemma isInteger_num [simp]: "isInteger (num i)"
  by (auto simp: isInteger_iff)

lemma num_less_num [simp]: "num_less (num i) (num j) \<longleftrightarrow> i < j"
  by (simp add: num_def)

lemma num_le_num [simp]: "num_le (num i) (num j) \<longleftrightarrow> i \<le> j"
  by (auto simp: num_le_def) (simp_all add: num_def)

section \<open>Rounding to a double\<close>

fun bit_size :: "nat \<Rightarrow> nat" where
  "bit_size n = (if n = 0 then 0 else Suc (bit_size (n div 2)))"

declare bit_size.simps [simp del]

definition pow2 :: "int \<Rightarrow> rat" where
  "pow2 e = (if 0 \<le> e then 2 ^ nat e else 1 / 2 ^ nat (- e))"

definition pow10 :: "int \<Rightarrow> rat" where
  "pow10 e = (if 0 \<le> e then 10 ^ nat e else 1 / 10 ^ nat (- e))"

text \<open>The binary exponent of a positive rational.\<close>

definition floor_log2 :: "rat \<Rightarrow> int" where
  "floor_log2 r =
     (let (p, q) = quotient_of r; e = int (bit_size (nat p)) - int (bit_size (nat q))
      in if pow2 e \<le> r then e else e - 1)"

definition round_half_even :: "rat \<Rightarrow> int" where
  "round_half_even x =
     (let f = \<lfloor>x\<rfloor>; d = x - of_int f
      in if d < 1 / 2 then f else if 1 / 2 < d then f + 1 else if even f then f else f + 1)"

definition round64 :: "rat \<Rightarrow> jsnum" where
  "round64 r =
     (if r = 0 then Fin 0
      else let e = max (floor_log2 \<bar>r\<bar> - 52) (- 1074);
               v = of_int (round_half_even (\<bar>r\<bar> / pow2 e)) * pow2 e
           in if 2 ^ 1024 \<le> v then (if r < 0 then NegInf else PosInf) else Fin (sgn r * v))"

section \<open>Number::toString\<close>

text \<open>
  An integer of at most \<open>2 ^ 53\<close> prints as its decimal digits. Any other finite number
  prints the fewest digits that read back as the same double: \<open>shortest x n k\<close> looks for
  them from \<open>k\<close> on, where \<open>10 ^ (n - 1) \<le> x < 10 ^ n\<close>; seventeen always suffice.
\<close>

fun shortest_from :: "nat \<Rightarrow> rat \<Rightarrow> int \<Rightarrow> nat \<Rightarrow> int \<times> nat" where
  "shortest_from 0 x n k = (round_half_even (x * pow10 (int k - n)), k)"
| "shortest_from (Suc fuel) x n k =
     (let s = round_half_even (x * pow10 (int k - n))
      in if round64 (of_int s * pow10 (n - int k)) = Fin x then (s, k)
         else shortest_from fuel x n (Suc k))"

definition decimal_exponent :: "rat \<Rightarrow> int" where
  "decimal_exponent x =
     (let (p, q) = quotient_of x; e = int (length (dec_nat (nat p))) - int (length (dec_nat (nat q)))
      in if pow10 e \<le> x then e + 1 else e)"

definition exponent_text :: "int \<Rightarrow> jstr" where
  "exponent_text e = lit ''e'' @ (if 0 \<le> e then lit ''+'' else lit ''-'') @ dec_nat (nat \<bar>e\<bar>)"

definition digits_text :: "jstr \<Rightarrow> int \<Rightarrow> jstr" where
  "digits_text ds n =
     (let k = int (length ds) in
      if k \<le> n \<and> n \<le> 21 then ds @ replicate (nat (n - k)) (of_char CHR ''0'')
      else if 0 < n \<and> n \<le> 21 then take (nat n) ds @ lit ''.'' @ drop (nat n) ds
      else if - 6 < n \<and> n \<le> 0 then lit ''0.'' @ replicate (nat (- n)) (of_char CHR ''0'') @ ds
      else if k = 1 then ds @ exponent_text (n - 1)
      else take 1 ds @ lit ''.'' @ drop 1 ds @ exponent_text (n - 1))"

definition positive_text :: "rat \<Rightarrow> jstr" where
  "positive_text x =
     (let n = decimal_exponent x; (s, k) = shortest_from 16 x n 1
      in if s = 10 ^ k then digits_text (lit ''1'') (n + 1) else digits_text (dec_nat (nat s)) n)"

definition num_text :: "jsnum \<Rightarrow> jstr" where
  "num_text n =
     (case n of
        NaN \<Rightarrow> lit ''NaN''
      | PosInf \<Rightarrow> lit ''Infinity''
      | NegInf \<Rightarrow> lit ''-Infinity''
      | Fin r \<Rightarrow>
          if rat_integral r \<and> \<bar>r\<bar> \<le> 2 ^ 53 then dec_int \<lfloor>r\<rfloor>
          else if r < 0 then lit ''-'' @ positive_text (- r) else positive_text r)"

lemma num_text_safe: "\<bar>i\<bar> \<le> MAX_SAFE \<Longrightarrow> num_text (num i) = dec_int i"
proof -
  assume "\<bar>i\<bar> \<le> MAX_SAFE"
  then have "of_int \<bar>i\<bar> \<le> (of_int MAX_SAFE :: rat)" by (simp only: of_int_le_iff)
  then have "\<bar>of_int i\<bar> \<le> (9007199254740991 :: rat)" by (simp add: MAX_SAFE_def)
  then show ?thesis by (simp add: num_text_def num_def)
qed

section \<open>Values\<close>

datatype jsval =
    JUndef
  | JNull
  | JBool bool
  | JNum jsnum
  | JBig int
  | JStr jstr
  | JArr "jsval list"
  | JObj "(jstr \<times> jsval) list"

text \<open>The own property of an object, \<open>undefined\<close> when there is none.\<close>

definition own_prop :: "(jstr \<times> jsval) list \<Rightarrow> jstr \<Rightarrow> jsval" where
  "own_prop ps k = (case map_of ps k of None \<Rightarrow> JUndef | Some v \<Rightarrow> v)"

definition hasOwn :: "(jstr \<times> jsval) list \<Rightarrow> jstr \<Rightarrow> bool" where
  "hasOwn ps k \<longleftrightarrow> k \<in> fst ` set ps"

text \<open>\<open>target[key] = value\<close> on an object literal or a record: in place when the key is
  there, else at the end.\<close>

fun set_prop :: "(jstr \<times> 'a) list \<Rightarrow> jstr \<Rightarrow> 'a \<Rightarrow> (jstr \<times> 'a) list" where
  "set_prop [] k v = [(k, v)]"
| "set_prop ((k', v') # ps) k v = (if k' = k then (k, v) # ps else (k', v') # set_prop ps k v)"

lemma map_of_set_prop: "map_of (set_prop ps k v) = (map_of ps)(k \<mapsto> v)"
  by (induction ps k v rule: set_prop.induct) auto

lemma keys_set_prop: "fst ` set (set_prop ps k v) = insert k (fst ` set ps)"
  by (induction ps k v rule: set_prop.induct) auto

lemma distinct_set_prop: "distinct (map fst ps) \<Longrightarrow> distinct (map fst (set_prop ps k v))"
proof (induction ps k v rule: set_prop.induct)
  case (1 k v)
  show ?case by simp
next
  case (2 k' v' ps k v)
  have "k' \<in> fst ` set (set_prop ps k v) \<longleftrightarrow> k' = k \<or> k' \<in> fst ` set ps"
    by (simp add: keys_set_prop)
  with 2 show ?case by auto
qed

lemma own_prop_Nil [simp]: "own_prop [] k = JUndef"
  by (simp add: own_prop_def)

lemma own_prop_Cons [simp]: "own_prop ((k', v) # ps) k = (if k' = k then v else own_prop ps k)"
  by (simp add: own_prop_def)

lemma own_prop_not_has: "\<not> hasOwn ps k \<Longrightarrow> own_prop ps k = JUndef"
  by (auto simp: own_prop_def hasOwn_def map_of_eq_None_iff split: option.splits)
     (metis fst_conv image_eqI map_of_SomeD)

text \<open>\<open>typeof v === "object" && v !== null && !Array.isArray(v)\<close>.\<close>

definition record_of :: "jsval \<Rightarrow> (jstr \<times> jsval) list option" where
  "record_of v = (case v of JObj ps \<Rightarrow> Some ps | _ \<Rightarrow> None)"

lemma record_of_simps [simp]:
  "record_of (JObj ps) = Some ps" "record_of JUndef = None" "record_of JNull = None"
  "record_of (JBool b) = None" "record_of (JNum n) = None" "record_of (JBig i) = None"
  "record_of (JStr s) = None" "record_of (JArr vs) = None"
  by (simp_all add: record_of_def)

lemma record_of_Some: "record_of v = Some ps \<longleftrightarrow> v = JObj ps"
  by (cases v) simp_all

definition js_opt :: "('a \<Rightarrow> jsval) \<Rightarrow> 'a option \<Rightarrow> jsval" where
  "js_opt f x = (case x of None \<Rightarrow> JUndef | Some v \<Rightarrow> f v)"

lemma js_opt_simps [simp]: "js_opt f None = JUndef" "js_opt f (Some v) = f v"
  by (simp_all add: js_opt_def)

end
