(* ===== verification/Js_Utf8.thy ===== *)
theory Js_Utf8
  imports Js_Text
begin

text \<open>
  The text codecs of the platform that the sources use: \<open>TextEncoder\<close> (UTF-16 to UTF-8,
  a lone surrogate becomes U+FFFD), and \<open>TextDecoder\<close> as the decoder state machine of the
  Encoding standard, in its fatal and its replacing mode, with the byte order mark dropped.
  The main facts: decoding inverts encoding on well-formed text, the decoder may be fed in
  chunks, and the encoded length bounds that the byte limits of the SDK rest on.
\<close>

section \<open>Surrogates and scalar values\<close>

type_synonym byte = "8 word"

definition is_lead :: "code_unit \<Rightarrow> bool" where
  "is_lead u \<longleftrightarrow> 0xD800 \<le> u \<and> u \<le> 0xDBFF"

definition is_trail :: "code_unit \<Rightarrow> bool" where
  "is_trail u \<longleftrightarrow> 0xDC00 \<le> u \<and> u \<le> 0xDFFF"

definition combine_pair :: "code_unit \<Rightarrow> code_unit \<Rightarrow> nat" where
  "combine_pair hi lo = 0x10000 + (unat hi - 0xD800) * 0x400 + (unat lo - 0xDC00)"

definition lone_scalar :: "code_unit \<Rightarrow> nat" where
  "lone_scalar u = (if is_lead u \<or> is_trail u then 0xFFFD else unat u)"

fun scalars :: "jstr \<Rightarrow> nat list" where
  "scalars [] = []"
| "scalars [u] = [lone_scalar u]"
| "scalars (u # v # us) =
     (if is_lead u \<and> is_trail v then combine_pair u v # scalars us
      else lone_scalar u # scalars (v # us))"

definition scalar_value :: "nat \<Rightarrow> bool" where
  "scalar_value c \<longleftrightarrow> c < 0xD800 \<or> (0xE000 \<le> c \<and> c < 0x110000)"

definition units_of_scalar :: "nat \<Rightarrow> jstr" where
  "units_of_scalar c =
     (if c < 0x10000 then [of_nat c]
      else [of_nat (0xD800 + (c - 0x10000) div 0x400), of_nat (0xDC00 + (c - 0x10000) mod 0x400)])"

definition units_of :: "nat list \<Rightarrow> jstr" where
  "units_of cs = concat (map units_of_scalar cs)"

text \<open>A string is well formed when it is the UTF-16 form of some scalar values.\<close>

definition well_formed_utf16 :: "jstr \<Rightarrow> bool" where
  "well_formed_utf16 s \<longleftrightarrow> (\<exists>cs. list_all scalar_value cs \<and> s = units_of cs)"

lemma unat_unit_of_nat: "n < 65536 \<Longrightarrow> unat (of_nat n :: code_unit) = n"
  by (subst unat_of_nat) simp

lemma unat_byte_of_nat: "n < 256 \<Longrightarrow> unat (of_nat n :: byte) = n"
  by (subst unat_of_nat) simp

lemma is_lead_unat: "is_lead u \<longleftrightarrow> 0xD800 \<le> unat u \<and> unat u \<le> 0xDBFF"
  by (simp add: is_lead_def word_le_nat_alt)

lemma is_trail_unat: "is_trail u \<longleftrightarrow> 0xDC00 \<le> unat u \<and> unat u \<le> 0xDFFF"
  by (simp add: is_trail_def word_le_nat_alt)

lemma unat_unit_less: "unat (u :: code_unit) < 65536"
proof -
  have "unat u < 2 ^ LENGTH(16)" by (rule unsigned_less)
  then show ?thesis by simp
qed

lemma combine_pair_bounds:
  "is_lead u \<Longrightarrow> is_trail v \<Longrightarrow> 0x10000 \<le> combine_pair u v \<and> combine_pair u v < 0x110000"
  by (auto simp: is_lead_unat is_trail_unat combine_pair_def)

lemma units_of_combine_pair:
  assumes "is_lead u" "is_trail v"
  shows "units_of_scalar (combine_pair u v) = [u, v]"
proof -
  obtain a b where ab: "unat u = 0xD800 + a" "unat v = 0xDC00 + b" "a < 0x400" "b < 0x400"
    using assms by (auto simp: is_lead_unat is_trail_unat intro: that [of "unat u - 0xD800" "unat v - 0xDC00"])
  have "combine_pair u v = 0x10000 + (a * 0x400 + b)"
    using ab by (simp add: combine_pair_def)
  moreover have "(a * 0x400 + b) div 0x400 = a" "(a * 0x400 + b) mod 0x400 = b"
    using ab by auto
  ultimately have "units_of_scalar (combine_pair u v) = [of_nat (unat u), of_nat (unat v)]"
    using ab by (simp add: units_of_scalar_def)
  then show ?thesis by simp
qed

lemma units_of_lone: "\<not> is_lead u \<Longrightarrow> \<not> is_trail u \<Longrightarrow> units_of_scalar (lone_scalar u) = [u]"
  using unat_unit_less [of u] by (simp add: lone_scalar_def units_of_scalar_def)

lemma scalar_value_lone: "scalar_value (lone_scalar u)"
  using unat_unit_less [of u]
  by (auto simp: lone_scalar_def scalar_value_def is_lead_unat is_trail_unat)

lemma scalar_value_pair: "is_lead u \<Longrightarrow> is_trail v \<Longrightarrow> scalar_value (combine_pair u v)"
  using combine_pair_bounds [of u v] by (simp add: scalar_value_def)

lemma scalars_valid: "list_all scalar_value (scalars s)"
  by (induction s rule: scalars.induct) (auto simp: scalar_value_lone scalar_value_pair)

lemma units_of_scalar_pair:
  assumes "scalar_value c" "\<not> c < 0x10000"
  shows "\<exists>u v. units_of_scalar c = [u, v] \<and> is_lead u \<and> is_trail v \<and> combine_pair u v = c"
proof -
  define a where "a = (c - 0x10000) div 0x400"
  define b where "b = (c - 0x10000) mod 0x400"
  have bnd: "a < 0x400" "b < 0x400"
    using assms by (auto simp: a_def b_def scalar_value_def)
  have c: "c = 0x10000 + (a * 0x400 + b)"
    using assms(2) unfolding a_def b_def by simp
  let ?u = "of_nat (0xD800 + a) :: code_unit" and ?v = "of_nat (0xDC00 + b) :: code_unit"
  have u: "unat ?u = 0xD800 + a" and v: "unat ?v = 0xDC00 + b"
    using bnd by (intro unat_unit_of_nat; simp)+
  have "units_of_scalar c = [?u, ?v]"
    using assms(2) by (simp add: units_of_scalar_def a_def b_def)
  moreover have "is_lead ?u" "is_trail ?v"
    using bnd by (auto simp only: is_lead_unat is_trail_unat u v)
  moreover have "combine_pair ?u ?v = c"
    unfolding combine_pair_def u v using c by simp
  ultimately show ?thesis by blast
qed

lemma units_of_scalar_single:
  assumes "scalar_value c" "c < 0x10000"
  shows "\<exists>u. units_of_scalar c = [u] \<and> \<not> is_lead u \<and> \<not> is_trail u \<and> lone_scalar u = c"
proof -
  have "unat (of_nat c :: code_unit) = c"
    using assms by (intro unat_unit_of_nat) simp
  with assms show ?thesis
    by (auto simp: units_of_scalar_def is_lead_unat is_trail_unat lone_scalar_def scalar_value_def)
qed

lemma scalars_not_lead:
  "\<not> is_lead u \<Longrightarrow> scalars (u # us) = lone_scalar u # scalars us"
  by (cases us) simp_all

lemma scalars_units_of: "list_all scalar_value cs \<Longrightarrow> scalars (units_of cs) = cs"
proof (induction cs)
  case Nil
  then show ?case by (simp add: units_of_def)
next
  case (Cons c cs)
  then have IH: "scalars (units_of cs) = cs" and c: "scalar_value c" by simp_all
  show ?case
  proof (cases "c < 0x10000")
    case True
    with c obtain u where "units_of_scalar c = [u]" "\<not> is_lead u" "lone_scalar u = c"
      using units_of_scalar_single by blast
    with IH show ?thesis by (simp add: units_of_def scalars_not_lead)
  next
    case False
    with c obtain u v where "units_of_scalar c = [u, v]" "is_lead u" "is_trail v"
      "combine_pair u v = c"
      using units_of_scalar_pair by blast
    with IH show ?thesis by (simp add: units_of_def)
  qed
qed

lemma well_formed_scalars: "well_formed_utf16 s \<Longrightarrow> units_of (scalars s) = s"
  by (auto simp: well_formed_utf16_def scalars_units_of)

section \<open>TextEncoder\<close>

definition utf8_of_scalar :: "nat \<Rightarrow> byte list" where
  "utf8_of_scalar c =
     (if c < 0x80 then [of_nat c]
      else if c < 0x800 then [of_nat (0xC0 + c div 64), of_nat (0x80 + c mod 64)]
      else if c < 0x10000
        then [of_nat (0xE0 + c div 4096), of_nat (0x80 + c div 64 mod 64), of_nat (0x80 + c mod 64)]
      else [of_nat (0xF0 + c div 262144), of_nat (0x80 + c div 4096 mod 64),
            of_nat (0x80 + c div 64 mod 64), of_nat (0x80 + c mod 64)])"

definition utf8_encode :: "jstr \<Rightarrow> byte list" where
  "utf8_encode s = concat (map utf8_of_scalar (scalars s))"

text \<open>\<open>new TextEncoder().encode(s).length\<close>.\<close>

definition utf8_length :: "jstr \<Rightarrow> nat" where
  "utf8_length s = length (utf8_encode s)"

lemma utf8_length_Nil [simp]: "utf8_length [] = 0"
  by (simp add: utf8_length_def utf8_encode_def)

lemma utf8_of_scalar_length: "1 \<le> length (utf8_of_scalar c) \<and> length (utf8_of_scalar c) \<le> 4"
  by (simp add: utf8_of_scalar_def)

lemma utf8_lone_length: "length (utf8_of_scalar (lone_scalar u)) \<le> 3"
  using unat_unit_less [of u] by (simp add: utf8_of_scalar_def lone_scalar_def)

lemma utf8_length_le: "utf8_length s \<le> 3 * length s"
proof (induction s rule: scalars.induct)
  case 1
  show ?case by simp
next
  case (2 u)
  show ?case using utf8_lone_length [of u] by (simp add: utf8_length_def utf8_encode_def)
next
  case (3 u v us)
  show ?case
  proof (cases "is_lead u \<and> is_trail v")
    case True
    with 3(1) utf8_of_scalar_length [of "combine_pair u v"] show ?thesis
      by (simp add: utf8_length_def utf8_encode_def)
  next
    case False
    then have "scalars (u # v # us) = lone_scalar u # scalars (v # us)" by auto
    with 3(2) False utf8_lone_length [of u] show ?thesis
      by (simp add: utf8_length_def utf8_encode_def del: scalars.simps)
  qed
qed

lemma utf8_length_ascii: "list_all (\<lambda>u. u < 0x80) s \<Longrightarrow> utf8_length s = length s"
proof (induction s)
  case Nil
  then show ?case by simp
next
  case (Cons u us)
  then have u: "unat u < 128" by (simp add: word_less_nat_alt)
  then have "\<not> is_lead u" "\<not> is_trail u" by (simp_all add: is_lead_unat is_trail_unat)
  with u Cons show ?case
    by (simp add: utf8_length_def utf8_encode_def scalars_not_lead lone_scalar_def utf8_of_scalar_def)
qed

section \<open>TextDecoder\<close>

text \<open>
  The decoder of the Encoding standard: \<open>Dec cp needed lo hi\<close> holds the partial code
  point, how many continuation bytes are still due and the range the next one must be in.
\<close>

datatype decoder = Dec nat nat nat nat

datatype decoded = Scalar nat | Malformed

definition decoder_start :: decoder where
  "decoder_start = Dec 0 0 0x80 0xBF"

definition start_byte :: "nat \<Rightarrow> decoder \<times> decoded list" where
  "start_byte b =
     (if b < 0x80 then (decoder_start, [Scalar b])
      else if 0xC2 \<le> b \<and> b \<le> 0xDF then (Dec (b - 0xC0) 1 0x80 0xBF, [])
      else if 0xE0 \<le> b \<and> b \<le> 0xEF then
        (Dec (b - 0xE0) 2 (if b = 0xE0 then 0xA0 else 0x80) (if b = 0xED then 0x9F else 0xBF), [])
      else if 0xF0 \<le> b \<and> b \<le> 0xF4 then
        (Dec (b - 0xF0) 3 (if b = 0xF0 then 0x90 else 0x80) (if b = 0xF4 then 0x8F else 0xBF), [])
      else (decoder_start, [Malformed]))"

fun decoder_step :: "decoder \<Rightarrow> byte \<Rightarrow> decoder \<times> decoded list" where
  "decoder_step (Dec cp needed lo hi) byte =
     (let b = unat byte in
      if needed = 0 then start_byte b
      else if lo \<le> b \<and> b \<le> hi then
        (let cp' = cp * 64 + (b - 0x80) in
         if needed = 1 then (decoder_start, [Scalar cp']) else (Dec cp' (needed - 1) 0x80 0xBF, []))
      else (let (d, out) = start_byte b in (d, Malformed # out)))"

fun decoder_run :: "decoder \<Rightarrow> byte list \<Rightarrow> decoder \<times> decoded list" where
  "decoder_run d [] = (d, [])"
| "decoder_run d (b # bs) =
     (let (d1, o1) = decoder_step d b; (d2, o2) = decoder_run d1 bs in (d2, o1 @ o2))"

fun decoder_flush :: "decoder \<Rightarrow> decoded list" where
  "decoder_flush (Dec cp needed lo hi) = (if needed = 0 then [] else [Malformed])"

definition decode_all :: "byte list \<Rightarrow> decoded list" where
  "decode_all bs = (let (d, out) = decoder_run decoder_start bs in out @ decoder_flush d)"

fun fatal_scalars :: "decoded list \<Rightarrow> nat list option" where
  "fatal_scalars [] = Some []"
| "fatal_scalars (Scalar c # ds) = map_option ((#) c) (fatal_scalars ds)"
| "fatal_scalars (Malformed # ds) = None"

fun replaced_scalar :: "decoded \<Rightarrow> nat" where
  "replaced_scalar (Scalar c) = c"
| "replaced_scalar Malformed = 0xFFFD"

definition drop_bom :: "nat list \<Rightarrow> nat list" where
  "drop_bom cs = (case cs of [] \<Rightarrow> [] | c # cs' \<Rightarrow> if c = 0xFEFF then cs' else cs)"

text \<open>\<open>new TextDecoder("utf-8", { fatal: true }).decode(bytes)\<close>; \<open>None\<close> is its
  \<open>TypeError\<close>.\<close>

definition utf8_decode_fatal :: "byte list \<Rightarrow> jstr option" where
  "utf8_decode_fatal bs = map_option (units_of \<circ> drop_bom) (fatal_scalars (decode_all bs))"

text \<open>\<open>new TextDecoder().decode(bytes)\<close>.\<close>

definition utf8_decode_replacing :: "byte list \<Rightarrow> jstr" where
  "utf8_decode_replacing bs = units_of (drop_bom (map replaced_scalar (decode_all bs)))"

text \<open>The same decoder fed chunk by chunk with \<open>{ stream: true }\<close> and flushed at the
  end.\<close>

fun decode_chunks_from :: "decoder \<Rightarrow> byte list list \<Rightarrow> decoded list" where
  "decode_chunks_from d [] = decoder_flush d"
| "decode_chunks_from d (c # cs) =
     (let (d', out) = decoder_run d c in out @ decode_chunks_from d' cs)"

lemma decoder_run_append:
  "decoder_run d (xs @ ys) =
     (let (d1, o1) = decoder_run d xs; (d2, o2) = decoder_run d1 ys in (d2, o1 @ o2))"
  by (induction xs arbitrary: d) (auto simp: Let_def split: prod.splits)

lemma decode_chunks_concat:
  "decode_chunks_from d cs =
     (let (d', out) = decoder_run d (concat cs) in out @ decoder_flush d')"
proof (induction cs arbitrary: d)
  case Nil
  then show ?case by simp
next
  case (Cons c cs)
  show ?case
    by (simp add: Cons.IH decoder_run_append Let_def split: prod.splits)
qed

lemma decode_chunks_all: "decode_chunks_from decoder_start cs = decode_all (concat cs)"
  by (simp add: decode_chunks_concat decode_all_def)

section \<open>Decoding inverts encoding\<close>

lemma decoder_run_Cons:
  "decoder_step d b = (d1, o1) \<Longrightarrow> decoder_run d (b # bs) =
     (let (d2, o2) = decoder_run d1 bs in (d2, o1 @ o2))"
  by simp

lemma step_start: "b < 256 \<Longrightarrow> decoder_step decoder_start (of_nat b) = start_byte b"
  by (simp add: decoder_start_def unat_byte_of_nat)

lemma step_cont:
  "0 < n \<Longrightarrow> lo \<le> 0x80 + b \<Longrightarrow> 0x80 + b \<le> hi \<Longrightarrow> b < 64 \<Longrightarrow>
   decoder_step (Dec cp n lo hi) (of_nat (0x80 + b)) =
     (if n = 1 then (decoder_start, [Scalar (cp * 64 + b)])
      else (Dec (cp * 64 + b) (n - 1) 0x80 0xBF, []))"
  using unat_byte_of_nat [of "0x80 + b"] by (simp add: Let_def del: of_nat_add)

lemma decode_scalar:
  assumes "scalar_value c"
  shows "decoder_run decoder_start (utf8_of_scalar c) = (decoder_start, [Scalar c])"
proof -
  consider "c < 0x80" | "0x80 \<le> c" "c < 0x800" | "0x800 \<le> c" "c < 0x10000" | "0x10000 \<le> c"
    by linarith
  then show ?thesis
  proof cases
    case 1
    then show ?thesis
      using step_start [of c] by (simp add: utf8_of_scalar_def start_byte_def)
  next
    case 2
    define a b where "a = c div 64" and "b = c mod 64"
    have c: "c = a * 64 + b" "b < 64" "2 \<le> a" "a < 32"
      using 2 by (auto simp: a_def b_def)
    have "utf8_of_scalar c = [of_nat (0xC0 + a), of_nat (0x80 + b)]"
      using 2 by (simp add: utf8_of_scalar_def a_def b_def)
    moreover have "decoder_step decoder_start (of_nat (0xC0 + a)) = (Dec a 1 0x80 0xBF, [])"
      using c step_start [of "0xC0 + a"] by (simp add: start_byte_def del: of_nat_add)
    moreover have "decoder_step (Dec a 1 0x80 0xBF) (of_nat (0x80 + b)) =
        (decoder_start, [Scalar c])"
      using c by (subst step_cont) auto
    ultimately show ?thesis
      by (simp add: Let_def del: decoder_step.simps of_nat_add)
  next
    case 3
    define a b d where "a = c div 4096" and "b = c div 64 mod 64" and "d = c mod 64"
    have ab: "a * 64 + b = c div 64"
      using div_mult_mod_eq [of "c div 64" 64] by (simp add: a_def b_def div_mult2_eq [symmetric])
    have c: "c = (a * 64 + b) * 64 + d" "b < 64" "d < 64" "a < 16"
      using 3 unfolding ab by (auto simp: a_def b_def d_def)
    have lo: "a = 0 \<longrightarrow> 32 \<le> b" and hi: "a = 13 \<longrightarrow> b < 32"
      using 3 assms c by (auto simp: scalar_value_def)
    have "utf8_of_scalar c = [of_nat (0xE0 + a), of_nat (0x80 + b), of_nat (0x80 + d)]"
      using 3 by (simp add: utf8_of_scalar_def a_def b_def d_def)
    moreover have "decoder_step decoder_start (of_nat (0xE0 + a)) =
        (Dec a 2 (if a = 0 then 0xA0 else 0x80) (if a = 13 then 0x9F else 0xBF), [])"
      using c step_start [of "0xE0 + a"] by (simp add: start_byte_def del: of_nat_add)
    moreover have "decoder_step (Dec a 2 (if a = 0 then 0xA0 else 0x80) (if a = 13 then 0x9F else 0xBF))
        (of_nat (0x80 + b)) = (Dec (a * 64 + b) 1 0x80 0xBF, [])"
      using c lo hi by (subst step_cont) auto
    moreover have "decoder_step (Dec (a * 64 + b) 1 0x80 0xBF) (of_nat (0x80 + d)) =
        (decoder_start, [Scalar c])"
      using c by (subst step_cont) auto
    ultimately show ?thesis
      by (simp add: Let_def del: decoder_step.simps of_nat_add)
  next
    case 4
    define a b d e where "a = c div 262144" and "b = c div 4096 mod 64"
      and "d = c div 64 mod 64" and "e = c mod 64"
    have ab: "a * 64 + b = c div 4096"
      using div_mult_mod_eq [of "c div 4096" 64] by (simp add: a_def b_def div_mult2_eq [symmetric])
    have abd: "(a * 64 + b) * 64 + d = c div 64"
      using div_mult_mod_eq [of "c div 64" 64] unfolding ab by (simp add: d_def div_mult2_eq [symmetric])
    have c: "c = ((a * 64 + b) * 64 + d) * 64 + e" "b < 64" "d < 64" "e < 64"
      unfolding abd by (auto simp: b_def d_def e_def)
    have a: "a < 5" using assms 4 by (auto simp: a_def scalar_value_def)
    have lo: "a = 0 \<longrightarrow> 16 \<le> b" and hi: "a = 4 \<longrightarrow> b < 16"
      using 4 assms c by (auto simp: scalar_value_def)
    have "utf8_of_scalar c =
        [of_nat (0xF0 + a), of_nat (0x80 + b), of_nat (0x80 + d), of_nat (0x80 + e)]"
      using 4 by (simp add: utf8_of_scalar_def a_def b_def d_def e_def)
    moreover have "decoder_step decoder_start (of_nat (0xF0 + a)) =
        (Dec a 3 (if a = 0 then 0x90 else 0x80) (if a = 4 then 0x8F else 0xBF), [])"
      using a step_start [of "0xF0 + a"] by (simp add: start_byte_def del: of_nat_add)
    moreover have "decoder_step (Dec a 3 (if a = 0 then 0x90 else 0x80) (if a = 4 then 0x8F else 0xBF))
        (of_nat (0x80 + b)) = (Dec (a * 64 + b) 2 0x80 0xBF, [])"
      using c lo hi by (subst step_cont) auto
    moreover have "decoder_step (Dec (a * 64 + b) 2 0x80 0xBF) (of_nat (0x80 + d)) =
        (Dec ((a * 64 + b) * 64 + d) 1 0x80 0xBF, [])"
      using c by (subst step_cont) auto
    moreover have "decoder_step (Dec ((a * 64 + b) * 64 + d) 1 0x80 0xBF) (of_nat (0x80 + e)) =
        (decoder_start, [Scalar c])"
      using c by (subst step_cont) auto
    ultimately show ?thesis
      by (simp add: Let_def del: decoder_step.simps of_nat_add)
  qed
qed

lemma decode_scalars:
  "list_all scalar_value cs \<Longrightarrow>
   decoder_run decoder_start (concat (map utf8_of_scalar cs)) = (decoder_start, map Scalar cs)"
  by (induction cs) (simp_all add: decoder_run_append decode_scalar)

lemma fatal_scalars_Scalar [simp]: "fatal_scalars (map Scalar cs) = Some cs"
  by (induction cs) simp_all

lemma decode_all_encode: "decode_all (utf8_encode s) = map Scalar (scalars s)"
  using decode_scalars [OF scalars_valid [of s]]
  by (simp add: decode_all_def utf8_encode_def decoder_start_def)

lemma utf8_decode_fatal_encode:
  assumes "well_formed_utf16 s" "take 1 s \<noteq> [0xFEFF]"
  shows "utf8_decode_fatal (utf8_encode s) = Some s"
proof -
  have "drop_bom (scalars s) = scalars s"
  proof (cases s rule: scalars.cases)
    case 1
    then show ?thesis by (simp add: drop_bom_def)
  next
    case (2 u)
    then have "u \<noteq> 0xFEFF" using assms(2) by simp
    then have "unat u \<noteq> 0xFEFF"
      by (simp add: word_unat_eq_iff)
    with 2 show ?thesis by (simp add: drop_bom_def lone_scalar_def)
  next
    case (3 u v us)
    have "u \<noteq> 0xFEFF" using assms(2) 3 by simp
    then have "unat u \<noteq> 0xFEFF"
      by (simp add: word_unat_eq_iff)
    moreover have "combine_pair u v \<noteq> 0xFEFF" if "is_lead u" "is_trail v"
      using combine_pair_bounds [OF that] by simp
    ultimately show ?thesis
      using 3 by (auto simp: drop_bom_def lone_scalar_def)
  qed
  then show ?thesis
    using well_formed_scalars [OF assms(1)]
    by (simp add: utf8_decode_fatal_def decode_all_encode)
qed

section \<open>ASCII text\<close>

lemma ascii_well_formed: "list_all (\<lambda>u. u < 0x80) s \<Longrightarrow> well_formed_utf16 s"
proof -
  assume s: "list_all (\<lambda>u. u < 0x80) s"
  have "units_of (map unat s) = s \<and> list_all scalar_value (map unat s)" using s
  proof (induction s)
    case (Cons u s)
    then have "unat u < 0x80" by (simp add: word_less_nat_alt)
    with Cons show ?case by (simp add: units_of_def units_of_scalar_def scalar_value_def)
  qed (simp add: units_of_def)
  then show ?thesis unfolding well_formed_utf16_def by metis
qed

end
