(* ===== verification/Json.thy ===== *)
theory Json
  imports Js_Value Js_Utf8
begin

text \<open>
  \<open>JSON.parse\<close> and the quoting of \<open>JSON.stringify\<close>, which the payload, redaction and
  response code of src/ calls. The parser recurses with a fuel of one more than the text is
  long; every call spends input, so \<open>json_parse\<close> never runs out (\<open>json_fuel_enough\<close>).
\<close>

section \<open>Quoting\<close>

definition hex_digit :: "nat \<Rightarrow> code_unit" where
  "hex_digit d = (if d < 10 then of_nat (48 + d) else of_nat (87 + d))"

definition hex4 :: "nat \<Rightarrow> jstr" where
  "hex4 n = [hex_digit (n div 4096 mod 16), hex_digit (n div 256 mod 16),
             hex_digit (n div 16 mod 16), hex_digit (n mod 16)]"

definition backslash :: code_unit where
  "backslash = 0x5C"

definition dquote :: code_unit where
  "dquote = 0x22"

definition escaped :: "code_unit \<Rightarrow> jstr" where
  "escaped u =
     (if u = 8 then [backslash, of_char CHR ''b'']
      else if u = 9 then [backslash, of_char CHR ''t'']
      else if u = 10 then [backslash, of_char CHR ''n'']
      else if u = 12 then [backslash, of_char CHR ''f'']
      else if u = 13 then [backslash, of_char CHR ''r'']
      else if u = dquote then [backslash, dquote]
      else if u = backslash then [backslash, backslash]
      else if u < 32 then [backslash, of_char CHR ''u''] @ hex4 (unat u)
      else [u])"

text \<open>A lone surrogate is escaped, a pair is kept (well-formed \<open>JSON.stringify\<close>).\<close>

fun quote_body :: "jstr \<Rightarrow> jstr" where
  "quote_body [] = []"
| "quote_body [u] =
     (if is_lead u \<or> is_trail u then [backslash, of_char CHR ''u''] @ hex4 (unat u) else escaped u)"
| "quote_body (u # v # us) =
     (if is_lead u \<and> is_trail v then u # v # quote_body us
      else (if is_lead u \<or> is_trail u then [backslash, of_char CHR ''u''] @ hex4 (unat u)
            else escaped u) @ quote_body (v # us))"

definition json_quote :: "jstr \<Rightarrow> jstr" where
  "json_quote s = [dquote] @ quote_body s @ [dquote]"

section \<open>Lexing\<close>

definition json_space :: "code_unit \<Rightarrow> bool" where
  "json_space u \<longleftrightarrow> u = 9 \<or> u = 10 \<or> u = 13 \<or> u = 32"

definition skip_ws :: "jstr \<Rightarrow> jstr" where
  "skip_ws s = dropWhile json_space s"

definition hex_value :: "code_unit \<Rightarrow> nat option" where
  "hex_value u =
     (if is_digit u then Some (unat u - 48)
      else if unit_in CHR ''a'' CHR ''f'' u then Some (unat u - 87)
      else if unit_in CHR ''A'' CHR ''F'' u then Some (unat u - 55)
      else None)"

definition hex4_value :: "code_unit \<Rightarrow> code_unit \<Rightarrow> code_unit \<Rightarrow> code_unit \<Rightarrow> code_unit option" where
  "hex4_value a b c d =
     (case (hex_value a, hex_value b, hex_value c, hex_value d) of
        (Some w, Some x, Some y, Some z) \<Rightarrow> Some (of_nat (((w * 16 + x) * 16 + y) * 16 + z))
      | _ \<Rightarrow> None)"

definition simple_escape :: "code_unit \<Rightarrow> code_unit option" where
  "simple_escape u =
     (if u = dquote \<or> u = backslash \<or> u = of_char CHR ''/'' then Some u
      else if u = of_char CHR ''b'' then Some 8
      else if u = of_char CHR ''t'' then Some 9
      else if u = of_char CHR ''n'' then Some 10
      else if u = of_char CHR ''f'' then Some 12
      else if u = of_char CHR ''r'' then Some 13
      else None)"

text \<open>The code unit an escape stands for, after its backslash.\<close>

definition json_escape :: "jstr \<Rightarrow> (code_unit \<times> jstr) option" where
  "json_escape cs =
     (case cs of
        [] \<Rightarrow> None
      | e # r \<Rightarrow>
          if e = of_char CHR ''u'' then
            (case r of
               w # x # y # z # r' \<Rightarrow> map_option (\<lambda>u. (u, r')) (hex4_value w x y z)
             | _ \<Rightarrow> None)
          else map_option (\<lambda>u. (u, r)) (simple_escape e))"

lemma json_escape_length: "json_escape cs = Some (u, r) \<Longrightarrow> length r < length cs"
  by (auto simp: json_escape_def split: list.splits if_splits)

text \<open>The body of a string literal, after its opening quote; the rest follows the closing
  quote.\<close>

function json_string :: "jstr \<Rightarrow> (jstr \<times> jstr) option" where
  "json_string [] = None"
| "json_string (c # cs) =
     (if c = dquote then Some ([], cs)
      else if c = backslash then
        (case json_escape cs of
           None \<Rightarrow> None
         | Some (u, r) \<Rightarrow> map_option (\<lambda>(s, t). (u # s, t)) (json_string r))
      else if c < 32 then None
      else map_option (\<lambda>(s, t). (c # s, t)) (json_string cs))"
  by pat_completeness auto
termination
  by (relation "measure length") (auto dest: json_escape_length)

definition span_digits :: "jstr \<Rightarrow> jstr \<times> jstr" where
  "span_digits s = (takeWhile is_digit s, dropWhile is_digit s)"

text \<open>\<open>-?(0|[1-9]\d*)(\.\d+)?([eE][+-]?\d+)?\<close>, read as a double.\<close>

definition json_fraction :: "jstr \<Rightarrow> (jstr \<times> jstr) option" where
  "json_fraction s =
     (case s of
        c # r \<Rightarrow>
          if c = of_char CHR ''.'' then
            (let (ds, r') = span_digits r in if ds = [] then None else Some (ds, r'))
          else Some ([], s)
      | [] \<Rightarrow> Some ([], s))"

definition json_exponent :: "jstr \<Rightarrow> (int \<times> jstr) option" where
  "json_exponent s =
     (case s of
        c # r \<Rightarrow>
          if c = of_char CHR ''e'' \<or> c = of_char CHR ''E'' then
            (let (neg, r1) =
                   (case r of
                      d # r' \<Rightarrow>
                        if d = of_char CHR ''-'' then (True, r')
                        else if d = of_char CHR ''+'' then (False, r')
                        else (False, r)
                    | [] \<Rightarrow> (False, r));
                 (ds, r2) = span_digits r1
             in if ds = [] then None
                else Some (if neg then - int (parse_dec ds) else int (parse_dec ds), r2))
          else Some (0, s)
      | [] \<Rightarrow> Some (0, s))"

definition json_number :: "jstr \<Rightarrow> (jsnum \<times> jstr) option" where
  "json_number s =
     (let (neg, s1) = (case s of c # r \<Rightarrow> if c = of_char CHR ''-'' then (True, r) else (False, s)
                               | [] \<Rightarrow> (False, s));
          (ip, s2) = span_digits s1
      in if ip = [] \<or> (1 < length ip \<and> hd ip = of_char CHR ''0'') then None
         else (case json_fraction s2 of
                 None \<Rightarrow> None
               | Some (fp, s3) \<Rightarrow>
                   (case json_exponent s3 of
                      None \<Rightarrow> None
                    | Some (e, s4) \<Rightarrow>
                        (let m = of_nat (parse_dec (ip @ fp)) * pow10 (e - int (length fp))
                         in Some (round64 (if neg then - m else m), s4)))))"

section \<open>Parsing\<close>

text \<open>An object keeps the first position of a repeated key and its last value, as
  \<open>JSON.parse\<close> does.\<close>

definition build_object :: "(jstr \<times> jsval) list \<Rightarrow> (jstr \<times> jsval) list" where
  "build_object ps = foldl (\<lambda>acc (k, v). set_prop acc k v) [] ps"

fun json_value :: "nat \<Rightarrow> jstr \<Rightarrow> (jsval \<times> jstr) option"
  and json_elements :: "nat \<Rightarrow> jstr \<Rightarrow> (jsval list \<times> jstr) option"
  and json_members :: "nat \<Rightarrow> jstr \<Rightarrow> ((jstr \<times> jsval) list \<times> jstr) option" where
  "json_value 0 s = None"
| "json_value (Suc n) s =
     (case skip_ws s of
        [] \<Rightarrow> None
      | c # cs \<Rightarrow>
          if c = of_char CHR ''{'' then
            (case skip_ws cs of
               [] \<Rightarrow> None
             | d # r \<Rightarrow>
                 if d = of_char CHR ''}'' then Some (JObj [], r)
                 else map_option (\<lambda>(ps, t). (JObj (build_object ps), t)) (json_members n cs))
          else if c = of_char CHR ''['' then
            (case skip_ws cs of
               [] \<Rightarrow> None
             | d # r \<Rightarrow>
                 if d = of_char CHR '']'' then Some (JArr [], r)
                 else map_option (\<lambda>(vs, t). (JArr vs, t)) (json_elements n cs))
          else if c = dquote then map_option (\<lambda>(t, r). (JStr t, r)) (json_string cs)
          else if startsWith (c # cs) (lit ''true'') then Some (JBool True, drop 4 (c # cs))
          else if startsWith (c # cs) (lit ''false'') then Some (JBool False, drop 5 (c # cs))
          else if startsWith (c # cs) (lit ''null'') then Some (JNull, drop 4 (c # cs))
          else map_option (\<lambda>(x, r). (JNum x, r)) (json_number (c # cs)))"
| "json_elements 0 s = None"
| "json_elements (Suc n) s =
     (case json_value n s of
        None \<Rightarrow> None
      | Some (v, r) \<Rightarrow>
          (case skip_ws r of
             [] \<Rightarrow> None
           | d # r' \<Rightarrow>
               if d = of_char CHR '']'' then Some ([v], r')
               else if d = of_char CHR '','' then
                 map_option (\<lambda>(vs, t). (v # vs, t)) (json_elements n r')
               else None))"
| "json_members 0 s = None"
| "json_members (Suc n) s =
     (case skip_ws s of
        [] \<Rightarrow> None
      | c # cs \<Rightarrow>
          if c \<noteq> dquote then None
          else
            (case json_string cs of
               None \<Rightarrow> None
             | Some (k, r0) \<Rightarrow>
                 (case skip_ws r0 of
                    [] \<Rightarrow> None
                  | e # r1 \<Rightarrow>
                      if e \<noteq> of_char CHR '':'' then None
                      else
                        (case json_value n r1 of
                           None \<Rightarrow> None
                         | Some (v, r2) \<Rightarrow>
                             (case skip_ws r2 of
                                [] \<Rightarrow> None
                              | d # r3 \<Rightarrow>
                                  if d = of_char CHR ''}'' then Some ([(k, v)], r3)
                                  else if d = of_char CHR '','' then
                                    map_option (\<lambda>(ps, t). ((k, v) # ps, t)) (json_members n r3)
                                  else None)))))"

text \<open>\<open>JSON.parse(text)\<close>; \<open>None\<close> is its \<open>SyntaxError\<close>.\<close>

definition json_parse :: "jstr \<Rightarrow> jsval option" where
  "json_parse s =
     (case json_value (Suc (2 * length s)) s of
        None \<Rightarrow> None
      | Some (v, r) \<Rightarrow> if skip_ws r = [] then Some v else None)"

section \<open>A quoted string reads back\<close>

lemma unat_hex_digit: "d < 16 \<Longrightarrow> unat (hex_digit d) = (if d < 10 then 48 + d else 87 + d)"
  unfolding hex_digit_def using unat_unit_of_nat [of "48 + d"] unat_unit_of_nat [of "87 + d"]
  by (simp del: of_nat_add)

lemma hex_value_digit: "d < 16 \<Longrightarrow> hex_value (hex_digit d) = Some d"
  using unat_hex_digit [of d]
  by (auto simp: hex_value_def is_digit_def unit_in_def word_le_nat_alt split: if_splits)

lemma hex4_value_hex4:
  "hex4_value (hex_digit (unat u div 4096 mod 16)) (hex_digit (unat u div 256 mod 16))
     (hex_digit (unat u div 16 mod 16)) (hex_digit (unat u mod 16)) = Some u"
proof -
  let ?n = "unat u"
  have n: "?n < 65536" by (rule unat_unit_less)
  have "?n div 4096 mod 16 = ?n div 4096" using n by simp
  moreover have "?n div 4096 * 16 + ?n div 256 mod 16 = ?n div 256"
    using div_mult_mod_eq [of "?n div 256" 16] by (simp add: div_mult2_eq [symmetric])
  moreover have "?n div 256 * 16 + ?n div 16 mod 16 = ?n div 16"
    using div_mult_mod_eq [of "?n div 16" 16] by (simp add: div_mult2_eq [symmetric])
  moreover have "?n div 16 * 16 + ?n mod 16 = ?n" by simp
  ultimately have E: "((?n div 4096 mod 16 * 16 + ?n div 256 mod 16) * 16 + ?n div 16 mod 16) * 16
      + ?n mod 16 = ?n" by simp
  have d: "hex_value (hex_digit (k mod 16)) = Some (k mod 16)" for k
    by (rule hex_value_digit) simp
  show ?thesis
    unfolding hex4_value_def d by (simp only: prod.case option.case E) simp
qed

lemma json_string_hex4:
  "json_string ([backslash, of_char CHR ''u''] @ hex4 (unat u) @ t) =
     map_option (\<lambda>(s, r). (u # s, r)) (json_string t)"
  by (simp add: hex4_def hex4_value_hex4 backslash_def dquote_def json_escape_def)

lemma json_string_escaped:
  "json_string (escaped u @ t) = map_option (\<lambda>(s, r). (u # s, r)) (json_string t)"
proof (cases "u < 32 \<and> u \<noteq> 8 \<and> u \<noteq> 9 \<and> u \<noteq> 10 \<and> u \<noteq> 12 \<and> u \<noteq> 13")
  case True
  then have "escaped u = [backslash, of_char CHR ''u''] @ hex4 (unat u)"
    by (auto simp: escaped_def dquote_def backslash_def)
  then show ?thesis using json_string_hex4 [of u t] by simp
next
  case False
  then show ?thesis
    by (auto simp: escaped_def simple_escape_def backslash_def dquote_def json_escape_def)
qed

lemma json_string_plain:
  "is_lead u \<or> is_trail u \<Longrightarrow> json_string (u # t) = map_option (\<lambda>(s, r). (u # s, r)) (json_string t)"
  by (auto simp: is_lead_unat is_trail_unat dquote_def backslash_def word_less_nat_alt)

lemma json_string_quote_body: "json_string (quote_body s @ dquote # r) = Some (s, r)"
proof (induction s rule: quote_body.induct)
  case 1
  show ?case by simp
next
  case (2 u)
  show ?case
    using json_string_hex4 [of u "dquote # r"] json_string_escaped [of u "dquote # r"]
    by simp
next
  case (3 u v us)
  show ?case
  proof (cases "is_lead u \<and> is_trail v")
    case True
    then show ?thesis
      using 3(1) json_string_plain [of u "v # quote_body us @ dquote # r"]
        json_string_plain [of v "quote_body us @ dquote # r"]
      by (simp del: json_string.simps)
  next
    case False
    define h where "h = (if is_lead u \<or> is_trail u
        then [backslash, of_char CHR ''u''] @ hex4 (unat u) else escaped u)"
    have q: "quote_body (u # v # us) = h @ quote_body (v # us)"
      using False by (auto simp: h_def)
    have "json_string (h @ t) = map_option (\<lambda>(s, r). (u # s, r)) (json_string t)" for t
      using json_string_hex4 [of u t] json_string_escaped [of u t] by (simp add: h_def)
    then show ?thesis
      using 3(2) False by (simp add: q del: quote_body.simps json_string.simps)
  qed
qed

section \<open>The fuel is enough\<close>

lemma map_option_pair_Some:
  "map_option (\<lambda>(a, b). (f a, b)) m = Some (x, r) \<longleftrightarrow> (\<exists>a. m = Some (a, r) \<and> x = f a)"
  by (cases m) auto

lemma json_string_length: "json_string s = Some (t, r) \<Longrightarrow> length r < length s"
proof (induction s arbitrary: t r rule: json_string.induct)
  case 1
  then show ?case by simp
next
  case (2 c cs)
  consider "c = dquote" | "c \<noteq> dquote" "c = backslash" | "c \<noteq> dquote" "c \<noteq> backslash"
    by blast
  then show ?case
  proof cases
    case 1
    with "2.prems" show ?thesis by simp
  next
    case bs: 2
    with "2.prems" obtain u r' t' where e: "json_escape cs = Some (u, r')"
      and "json_string r' = Some (t', r)"
      by (auto simp: map_option_pair_Some split: option.splits if_splits)
    then have "length r < length r'"
      using "2.IH"(1) [OF bs e refl] by simp
    with json_escape_length [OF e] show ?thesis by simp
  next
    case 3
    with "2.prems" "2.IH"(2) show ?thesis
      by (fastforce simp: map_option_pair_Some split: if_splits)
  qed
qed

lemma json_fraction_length: "json_fraction s = Some (ds, r) \<Longrightarrow> length r \<le> length s"
  by (auto simp: json_fraction_def span_digits_def Let_def split: list.splits if_splits)
     (metis le_SucI length_dropWhile_le)+

lemma json_exponent_length: "json_exponent s = Some (e, r) \<Longrightarrow> length r \<le> length s"
  by (auto simp: json_exponent_def span_digits_def Let_def split: list.splits if_splits prod.splits)
     (metis le_SucI length_dropWhile_le length_Cons)+

lemma json_number_length: "json_number s = Some (x, r) \<Longrightarrow> length r < length s"
proof -
  assume a: "json_number s = Some (x, r)"
  define s1 where "s1 = (case s of c # t \<Rightarrow> if c = of_char CHR ''-'' then t else s | [] \<Rightarrow> s)"
  have s1: "length s1 \<le> length s" by (auto simp: s1_def split: list.splits)
  have eq: "snd (case s of c # t \<Rightarrow> if c = of_char CHR ''-'' then (True, t) else (False, s)
      | [] \<Rightarrow> (False, s)) = s1"
    by (auto simp: s1_def split: list.splits)
  from a obtain fp s3 e where ne: "takeWhile is_digit s1 \<noteq> []"
    and f: "json_fraction (dropWhile is_digit s1) = Some (fp, s3)"
    and x: "json_exponent s3 = Some (e, r)"
    unfolding json_number_def span_digits_def eq [symmetric]
    by (auto simp: Let_def split: prod.splits if_splits option.splits)
  have "length (dropWhile is_digit s1) < length s1"
    using ne by (metis add.commute add_diff_cancel_left' length_append length_greater_0_conv
        less_add_same_cancel2 takeWhile_dropWhile_id)
  with s1 json_fraction_length [OF f] json_exponent_length [OF x] show ?thesis by simp
qed

lemma skip_ws_Cons: "skip_ws s = c # cs \<Longrightarrow> length cs < length s"
  unfolding skip_ws_def by (metis Suc_le_lessD length_Cons length_dropWhile_le)

lemma json_lengths:
  "(\<forall>s v r. json_value n s = Some (v, r) \<longrightarrow> length r < length s) \<and>
   (\<forall>s vs r. json_elements n s = Some (vs, r) \<longrightarrow> length r < length s) \<and>
   (\<forall>s ps r. json_members n s = Some (ps, r) \<longrightarrow> length r < length s)"
proof (induction n)
  case 0
  show ?case by simp
next
  case (Suc n)
  then have V: "\<And>s v r. json_value n s = Some (v, r) \<Longrightarrow> length r < length s"
    and E: "\<And>s vs r. json_elements n s = Some (vs, r) \<Longrightarrow> length r < length s"
    and M: "\<And>s ps r. json_members n s = Some (ps, r) \<Longrightarrow> length r < length s"
    by blast+
  have "length r < length s" if "json_value (Suc n) s = Some (v, r)" for s v r
    using that
    by (auto simp: map_option_pair_Some split: list.splits if_splits
        dest!: skip_ws_Cons json_string_length E M json_number_length)
  moreover have "length r < length s" if "json_elements (Suc n) s = Some (vs, r)" for s vs r
    using that
    by (auto simp: map_option_pair_Some split: list.splits if_splits option.splits
        dest!: skip_ws_Cons E V)
  moreover have "length r < length s" if "json_members (Suc n) s = Some (ps, r)" for s ps r
    using that
    by (auto simp: map_option_pair_Some split: list.splits if_splits option.splits
        dest!: skip_ws_Cons json_string_length M V)
  ultimately show ?case by blast
qed

lemmas json_value_length = json_lengths [THEN conjunct1, rule_format]

lemma json_fuel_step:
  "(\<forall>s. 2 * length s < n \<longrightarrow> json_value (Suc n) s = json_value n s) \<and>
   (\<forall>s. 2 * length s + 1 < n \<longrightarrow> json_elements (Suc n) s = json_elements n s) \<and>
   (\<forall>s. 2 * length s + 1 < n \<longrightarrow> json_members (Suc n) s = json_members n s)"
proof (induction n)
  case 0
  show ?case by simp
next
  case (Suc n)
  then have V: "\<And>s. 2 * length s < n \<Longrightarrow> json_value (Suc n) s = json_value n s"
    and E: "\<And>s. 2 * length s + 1 < n \<Longrightarrow> json_elements (Suc n) s = json_elements n s"
    and M: "\<And>s. 2 * length s + 1 < n \<Longrightarrow> json_members (Suc n) s = json_members n s"
    by blast+
  have "json_value (Suc (Suc n)) s = json_value (Suc n) s" if "2 * length s < Suc n" for s
  proof (cases "skip_ws s")
    case Nil
    then show ?thesis by simp
  next
    case (Cons c cs)
    then have "2 * length cs + 1 < n" using that skip_ws_Cons [OF Cons] by simp
    from E [OF this] M [OF this] show ?thesis
      by (simp only: json_value.simps(2) Cons list.case)
  qed
  moreover have "json_elements (Suc (Suc n)) s = json_elements (Suc n) s"
    if l: "2 * length s + 1 < Suc n" for s
  proof (cases "json_value n s")
    case None
    moreover have "json_value (Suc n) s = json_value n s" using l by (intro V) simp
    ultimately show ?thesis by (simp del: json_value.simps)
  next
    case (Some vr)
    obtain v r where vr: "vr = (v, r)" by (cases vr)
    have eq: "json_value (Suc n) s = json_value n s" using l by (intro V) simp
    show ?thesis
    proof (cases "skip_ws r")
      case Nil
      with Some eq vr show ?thesis by (simp del: json_value.simps)
    next
      case (Cons d r')
      have "length r < length s" using Some vr json_value_length by blast
      then have "2 * length r' + 1 < n" using skip_ws_Cons [OF Cons] l by simp
      from E [OF this] show ?thesis
        using Some eq vr Cons by (simp only: json_elements.simps(2) option.case prod.case list.case)
    qed
  qed
  moreover have "json_members (Suc (Suc n)) s = json_members (Suc n) s"
    if l: "2 * length s + 1 < Suc n" for s
  proof -
    have step: "json_value (Suc n) r1 = json_value n r1" if "length r1 < length s" for r1
      using l that by (intro V) simp
    have rest: "json_members (Suc n) r3 = json_members n r3" if "length r3 + 2 \<le> length s" for r3
      using l that by (intro M) simp
    show ?thesis
    proof (cases "skip_ws s")
      case Nil
      then show ?thesis by simp
    next
      case (Cons c cs)
      show ?thesis
      proof (cases "c = dquote")
        case False
        with Cons show ?thesis by simp
      next
        case True
        show ?thesis
        proof (cases "json_string cs")
          case None
          with Cons True show ?thesis by simp
        next
          case (Some kr)
          obtain k r0 where kr: "kr = (k, r0)" by (cases kr)
          show ?thesis
          proof (cases "skip_ws r0")
            case Nil
            with Cons True Some kr show ?thesis by simp
          next
            case c2: (Cons e r1)
            have l1: "length r1 + 3 \<le> length s"
              using skip_ws_Cons [OF Cons] json_string_length [of cs k r0] Some kr skip_ws_Cons [OF c2]
              by simp
            then have v: "json_value (Suc n) r1 = json_value n r1" by (intro step) simp
            have m: "json_members (Suc n) r3 = json_members n r3"
              if "json_value n r1 = Some (w, r2)" "skip_ws r2 = d # r3" for w r2 d r3
              using l1 json_value_length [OF that(1)] skip_ws_Cons [OF that(2)]
              by (intro rest) simp
            from Cons True Some kr c2 v show ?thesis
              by (subst (1 2) json_members.simps(2))
                 (auto simp del: json_value.simps json_members.simps
                   split: option.splits list.splits intro!: m arg_cong [of _ _ "map_option _"])
          qed
        qed
      qed
    qed
  qed
  ultimately show ?case by blast
qed

lemma json_fuel_enough: "2 * length s < n \<Longrightarrow> json_value n s = json_value (Suc (2 * length s)) s"
proof (induction n)
  case 0
  then show ?case by simp
next
  case (Suc n)
  show ?case
  proof (cases "2 * length s < n")
    case True
    with Suc.IH json_fuel_step [of n] show ?thesis by simp
  next
    case False
    with Suc.prems have "n = 2 * length s" by simp
    then show ?thesis by simp
  qed
qed

end
