(* ===== verification/Sdk_Error.thy ===== *)
theory Sdk_Error
  imports Js_Value
begin

text \<open>
  The errors the SDK throws (src/src/errors.ts): \<open>MedallionError\<close> with its code, its
  subclass \<open>MedallionApiError\<close>, and the foreign errors of the platform that the SDK catches
  and wraps. A code is the constructor spelled like the source's string. The text of a
  message is kept where it carries data (an API error, a query failure); the fixed sentences
  of the validation errors are not part of the model.
\<close>

section \<open>Codes\<close>

datatype (plugins only: code) error_code =
    MEDALLION_ABORTED
  | MEDALLION_AMBIGUOUS_CREDENTIALS
  | MEDALLION_AMBIGUOUS_JSON_PAYLOAD
  | MEDALLION_AMBIGUOUS_ROW_PAYLOAD
  | MEDALLION_API_ERROR
  | MEDALLION_DUPLICATE_IDEMPOTENCY_KEY
  | MEDALLION_EMPTY_CDC_PRIMARY_KEY
  | MEDALLION_FETCH_UNAVAILABLE
  | MEDALLION_INVALID_AUDIT_FILTER
  | MEDALLION_INVALID_AUDIT_ORIGIN
  | MEDALLION_INVALID_AUDIT_OUTCOME
  | MEDALLION_INVALID_BATCH_SIZE
  | MEDALLION_INVALID_CDC_OPERATION
  | MEDALLION_INVALID_CONNECTOR_ID
  | MEDALLION_INVALID_CREDENTIAL
  | MEDALLION_INVALID_EVENT
  | MEDALLION_INVALID_HEADER_VALUE
  | MEDALLION_INVALID_ID
  | MEDALLION_INVALID_IDEMPOTENCY_KEY
  | MEDALLION_INVALID_INGEST_RESPONSE
  | MEDALLION_INVALID_JSON_BODY
  | MEDALLION_INVALID_JSON_RESPONSE
  | MEDALLION_INVALID_LIST_RESPONSE
  | MEDALLION_INVALID_OPTIONS
  | MEDALLION_INVALID_PAGE_SIZE
  | MEDALLION_INVALID_PAGE_TOKEN
  | MEDALLION_INVALID_PUBLISH_RESPONSE
  | MEDALLION_INVALID_QUERY
  | MEDALLION_INVALID_RETRY_OPTIONS
  | MEDALLION_INVALID_ROW
  | MEDALLION_INVALID_SCHEMA
  | MEDALLION_INVALID_TABLE_ID
  | MEDALLION_INVALID_TIMEOUT
  | MEDALLION_INVALID_TIMESTAMP
  | MEDALLION_INVALID_TIMESTAMP_RANGE
  | MEDALLION_INVALID_WORKSPACE_ID
  | MEDALLION_MISSING_CDC_ENTITY_ID
  | MEDALLION_MISSING_CONNECTOR_ID
  | MEDALLION_MISSING_IDEMPOTENCY_KEY
  | MEDALLION_MISSING_WORKSPACE_ID
  | MEDALLION_NETWORK_ERROR
  | MEDALLION_PAGINATION_LIMIT
  | MEDALLION_PROTECTED_HEADER
  | MEDALLION_PROTOCOL_DECODE_FAILED
  | MEDALLION_PROTOCOL_ENCODE_FAILED
  | MEDALLION_PROTOCOL_METHOD_NOT_FOUND
  | MEDALLION_PROTOCOL_METHOD_UNSUPPORTED
  | MEDALLION_QUERY_FAILED
  | MEDALLION_QUERY_POLL_LIMIT
  | MEDALLION_REDIRECT_REJECTED
  | MEDALLION_REPEATED_CURSOR
  | MEDALLION_RESPONSE_TOO_LARGE
  | MEDALLION_RESULT_CONSUMED
  | MEDALLION_SERVER_DERIVED_FIELD
  | MEDALLION_TIMEOUT
  | MEDALLION_TIMESTAMP_OUT_OF_RANGE
  | MEDALLION_UNSAFE_ID
  | MEDALLION_WORKSPACE_SELECTOR_CONFLICT

section \<open>Errors\<close>

text \<open>The error object that \<open>sanitizedErrorCause\<close> builds.\<close>

record safe_cause =
  sc_name :: jstr
  sc_message :: jstr

text \<open>Anything else that code under src/ may catch: \<open>instanceof Error\<close>,
  \<open>instanceof DOMException\<close>, \<open>name\<close> and \<open>message\<close>.\<close>

record foreign_error =
  fe_is_error :: bool
  fe_is_dom :: bool
  fe_name :: jstr
  fe_message :: jstr

record medallion_error =
  err_code :: error_code
  err_requestId :: "jstr option"
  err_cause :: "safe_cause option"
  err_text :: "jstr option"

record error_detail =
  ed_type :: jstr
  ed_value :: jstr

record api_error =
  ae_message :: jstr
  ae_status :: int
  ae_requestId :: "jstr option"
  ae_connectCode :: "jstr option"
  ae_errorInfoDomain :: "jstr option"
  ae_errorInfoReason :: "jstr option"
  ae_errorInfoMetadata :: "(jstr \<times> jstr) list"
  ae_details :: "error_detail list"
  ae_cause :: "safe_cause option"

datatype thrown =
    Medallion medallion_error
  | Api api_error
  | Foreign foreign_error

text \<open>\<open>new MedallionError(message, { code })\<close> and the same with a request id.\<close>

definition medErr :: "error_code \<Rightarrow> thrown" where
  "medErr c = Medallion \<lparr>err_code = c, err_requestId = None, err_cause = None, err_text = None\<rparr>"

definition medErrR :: "error_code \<Rightarrow> jstr option \<Rightarrow> thrown" where
  "medErrR c r = Medallion \<lparr>err_code = c, err_requestId = r, err_cause = None, err_text = None\<rparr>"

text \<open>\<open>error instanceof MedallionError\<close>: the API error is a subclass.\<close>

definition isMedallionError :: "thrown \<Rightarrow> bool" where
  "isMedallionError e = (case e of Foreign _ \<Rightarrow> False | _ \<Rightarrow> True)"

definition code_of :: "thrown \<Rightarrow> error_code option" where
  "code_of e =
     (case e of Medallion m \<Rightarrow> Some (err_code m) | Api _ \<Rightarrow> Some MEDALLION_API_ERROR
      | Foreign _ \<Rightarrow> None)"

lemma code_of_simps [simp]:
  "code_of (medErr c) = Some c"
  "code_of (medErrR c r) = Some c"
  "code_of (Api a) = Some MEDALLION_API_ERROR"
  by (simp_all add: code_of_def medErr_def medErrR_def)

lemma isMedallionError_simps [simp]:
  "isMedallionError (medErr c)" "isMedallionError (medErrR c r)"
  "isMedallionError (Medallion m)" "isMedallionError (Api a)"
  "\<not> isMedallionError (Foreign f)"
  by (simp_all add: isMedallionError_def medErr_def medErrR_def)

lemma medErr_inject [simp]:
  "medErr c = medErr d \<longleftrightarrow> c = d"
  "medErrR c r = medErrR d q \<longleftrightarrow> c = d \<and> r = q"
  by (auto simp: medErr_def medErrR_def)

section \<open>Sanitised causes\<close>

definition safe_names :: "jstr list" where
  "safe_names = [lit ''AbortError'', lit ''TimeoutError'', lit ''TypeError'']"

definition safe_message :: "jstr \<Rightarrow> jstr" where
  "safe_message n =
     (if n = lit ''AbortError'' then lit ''The request operation was aborted.''
      else if n = lit ''TimeoutError'' then lit ''The request operation timed out.''
      else if n = lit ''TypeError'' then lit ''A network or protocol error occurred.''
      else lit ''A request error occurred.'')"

definition sanitizedErrorCause :: "foreign_error option \<Rightarrow> safe_cause option" where
  "sanitizedErrorCause v =
     (case v of
        None \<Rightarrow> None
      | Some e \<Rightarrow>
          if \<not> fe_is_error e then None
          else
            (let normalizedName =
                   (if fe_name e \<in> set safe_names then fe_name e else lit ''Error'')
             in Some \<lparr>sc_name = normalizedName, sc_message = safe_message normalizedName\<rparr>))"

definition safe_cause_of :: "jstr \<Rightarrow> safe_cause" where
  "safe_cause_of n = \<lparr>sc_name = n, sc_message = safe_message n\<rparr>"

definition safe_causes :: "safe_cause list" where
  "safe_causes = map safe_cause_of (safe_names @ [lit ''Error''])"

lemma sanitized_in_safe_causes: "sanitizedErrorCause v = Some c \<Longrightarrow> c \<in> set safe_causes"
  by (auto simp: sanitizedErrorCause_def safe_causes_def safe_cause_of_def Let_def
      split: option.splits if_splits)

end
