(* ===== verification/Canonical_Json.thy ===== *)
theory Canonical_Json
  imports Json Sdk_Error "HOL-Library.List_Lexorder"
begin

text \<open>
  Canonical JSON of caller data (\<open>canonicalJson\<close> and \<open>jsonString\<close> of src/src/payload.ts).
  The caller's value may be any JavaScript object graph, so it is a reference into a heap of
  arrays (with holes) and objects (with accessors, symbols, prototypes); the set of ancestors
  of the code detects cycles. The function is total, the result does not depend on the order
  in which properties were created, and a cyclic value is refused.
\<close>

section \<open>Caller data\<close>

datatype hval =
    HUndef | HNull | HBool bool | HNum jsnum | HBig int | HStr jstr | HFunction | HSymbol | HRef nat

text \<open>An own property: a data property with its enumerability, or an accessor.\<close>

datatype hprop = DataProp bool hval | Accessor

datatype hobj =
    HArray "hval option list"
  | HObject bool bool "(jstr \<times> hprop) list"

text \<open>
  \<open>HArray items\<close>, a hole being \<open>None\<close>; \<open>HObject plain symbols props\<close>: whether the prototype
  is \<open>Object.prototype\<close> or null, whether there are symbol keys, and the string-keyed own
  properties (with distinct keys). A heap is a list of objects, a reference its index.
\<close>

type_synonym heap = "hobj list"

definition invalid_json :: thrown where
  "invalid_json = medErr MEDALLION_INVALID_JSON_BODY"

section \<open>The canonical form\<close>

definition json_array :: "jstr list \<Rightarrow> jstr" where
  "json_array ts = lit ''['' @ join (lit '','') ts @ lit '']''"

definition json_object :: "jstr list \<Rightarrow> jstr" where
  "json_object ts = lit ''{'' @ join (lit '','') ts @ lit ''}''"

definition has_holes :: "hval option list \<Rightarrow> bool" where
  "has_holes items \<longleftrightarrow> list_ex (\<lambda>i. i = None) items"

text \<open>One round of the loop over the sorted keys; \<open>f\<close> is the recursive call, and a property
  that is not enumerable gives no entry.\<close>

definition canonical_entry :: "(hval \<Rightarrow> thrown + jstr) \<Rightarrow> jstr \<times> hprop \<Rightarrow> thrown + jstr option" where
  "canonical_entry f e =
     (case snd e of
        Accessor \<Rightarrow> Inl invalid_json
      | DataProp enumerable v \<Rightarrow>
          if \<not> enumerable then Inr None
          else bindE (f v) (\<lambda>t. Inr (Some (json_quote (fst e) @ lit '':'' @ t))))"

lemma canonical_entry_cong [fundef_cong]:
  "e = e' \<Longrightarrow> (\<And>b v. snd e' = DataProp b v \<Longrightarrow> f v = g v) \<Longrightarrow> canonical_entry f e = canonical_entry g e'"
  by (auto simp: canonical_entry_def split: hprop.splits)

definition sorted_props :: "(jstr \<times> 'a) list \<Rightarrow> (jstr \<times> 'a) list" where
  "sorted_props ps = sort_key fst ps"

definition free_refs :: "heap \<Rightarrow> nat list \<Rightarrow> nat set" where
  "free_refs h ancestors = {..<length h} - set ancestors"

lemma free_refs_less:
  "i < length h \<Longrightarrow> i \<notin> set ancestors \<Longrightarrow> card (free_refs h (i # ancestors)) < card (free_refs h ancestors)"
  unfolding free_refs_def by (intro psubset_card_mono) auto

function canonicalJson :: "heap \<Rightarrow> nat list \<Rightarrow> hval \<Rightarrow> thrown + jstr" where
  "canonicalJson h ancestors v =
     (case v of
        HNull \<Rightarrow> Inr (lit ''null'')
      | HStr s \<Rightarrow> Inr (json_quote s)
      | HBool b \<Rightarrow> Inr (if b then lit ''true'' else lit ''false'')
      | HNum n \<Rightarrow> if \<not> isFinite n then Inl invalid_json else Inr (num_text n)
      | HRef i \<Rightarrow>
          if i \<in> set ancestors then Inl invalid_json
          else if \<not> i < length h then Inl invalid_json
          else
            (case h ! i of
               HArray items \<Rightarrow>
                 if has_holes items then Inl invalid_json
                 else bindE (mapE (\<lambda>item. canonicalJson h (i # ancestors) (the item)) items)
                        (\<lambda>ts. Inr (json_array ts))
             | HObject plain symbols props \<Rightarrow>
                 if \<not> plain then Inl invalid_json
                 else if symbols then Inl invalid_json
                 else bindE (mapE (canonical_entry (\<lambda>w. canonicalJson h (i # ancestors) w))
                               (sorted_props props))
                        (\<lambda>ts. Inr (json_object (List.map_filter id ts))))
      | _ \<Rightarrow> Inl invalid_json)"
  by pat_completeness auto
termination
  by (relation "measure (\<lambda>(h, ancestors, v). card (free_refs h ancestors))") (auto intro: free_refs_less)

declare canonicalJson.simps [simp del]

text \<open>\<open>jsonString\<close>: undefined is the empty object, and every exception is the same error.\<close>

definition jsonString :: "heap \<Rightarrow> hval \<Rightarrow> thrown + jstr" where
  "jsonString h v = (if v = HUndef then Inr (lit ''{}'') else canonicalJson h [] v)"

definition rawOrJsonString :: "heap \<Rightarrow> hval \<Rightarrow> jstr option \<Rightarrow> thrown + jstr" where
  "rawOrJsonString h v raw =
     (case raw of
        None \<Rightarrow> jsonString h v
      | Some t \<Rightarrow>
          if v \<noteq> HUndef then Inl (medErr MEDALLION_AMBIGUOUS_JSON_PAYLOAD)
          else (case json_parse t of None \<Rightarrow> Inl invalid_json | Some _ \<Rightarrow> Inr t))"

lemma canonicalJson_error: "canonicalJson h ancestors v = Inl e \<Longrightarrow> e = invalid_json"
proof (induction h ancestors v arbitrary: e rule: canonicalJson.induct)
  case (1 h ancestors v)
  show ?case
  proof (cases v)
    case (HRef i)
    show ?thesis
    proof (cases "i \<in> set ancestors \<or> \<not> i < length h")
      case True
      with HRef "1.prems" show ?thesis by (subst (asm) canonicalJson.simps) (auto split: if_splits)
    next
      case free: False
      show ?thesis
      proof (cases "h ! i")
        case (HArray items)
        with "1.prems" "1.IH"(1) [OF HRef _ _ HArray] free show ?thesis
          by (subst (asm) canonicalJson.simps)
             (auto simp: HRef bindE_Inl_iff split: if_splits dest!: mapE_Inl_dest)
      next
        case (HObject plain symbols props)
        have entry: "e' = invalid_json"
          if "canonical_entry (canonicalJson h (i # ancestors)) x = Inl e'" "x \<in> set (sorted_props props)"
            "plain" "\<not> symbols" for e' x
          using that "1.IH"(2) [OF HRef _ _ HObject _ _ that(2)] free
          by (auto simp: canonical_entry_def bindE_Inl_iff split: hprop.splits if_splits)
        with "1.prems" HObject free show ?thesis
          by (subst (asm) canonicalJson.simps)
             (auto simp: HRef bindE_Inl_iff split: if_splits dest!: mapE_Inl_dest)
      qed
    qed
  qed (use "1.prems" in \<open>subst (asm) canonicalJson.simps, auto split: if_splits\<close>)+
qed

section \<open>The order of properties does not matter\<close>

text \<open>Two objects with the same own properties, created in any order.\<close>

fun same_object :: "hobj \<Rightarrow> hobj \<Rightarrow> bool" where
  "same_object (HArray a) (HArray b) = (a = b)"
| "same_object (HObject p s ps) (HObject q t qs) =
     (p = q \<and> s = t \<and> distinct (map fst ps) \<and> distinct (map fst qs) \<and> set ps = set qs)"
| "same_object _ _ = False"

definition same_heap :: "heap \<Rightarrow> heap \<Rightarrow> bool" where
  "same_heap h h' \<longleftrightarrow> list_all2 same_object h h'"

lemma sorted_props_same:
  assumes "distinct (map fst ps)" "distinct (map fst qs)" "set ps = set qs"
  shows "sorted_props ps = sorted_props qs"
proof -
  have "map fst (sorted_props ps) = map fst (sorted_props qs)"
  proof (rule sorted_distinct_set_unique)
    show "sorted (map fst (sorted_props ps))" "sorted (map fst (sorted_props qs))"
      by (simp_all add: sorted_props_def)
    show "distinct (map fst (sorted_props ps))" "distinct (map fst (sorted_props qs))"
      using assms by (simp_all add: sorted_props_def distinct_map)
    show "set (map fst (sorted_props ps)) = set (map fst (sorted_props qs))"
      using assms by (simp add: sorted_props_def)
  qed
  moreover have "set (sorted_props ps) = set (sorted_props qs)" using assms by (simp add: sorted_props_def)
  moreover have "inj_on fst (set (sorted_props ps) \<union> set (sorted_props qs))"
    using assms by (simp add: sorted_props_def distinct_map)
  ultimately show ?thesis by (metis map_inj_on)
qed

lemma canonical_entry_eq:
  "(\<And>b v. snd e = DataProp b v \<Longrightarrow> f v = g v) \<Longrightarrow> canonical_entry f e = canonical_entry g e"
  by (rule canonical_entry_cong) auto

lemma canonicalJson_same_heap:
  "same_heap h h' \<Longrightarrow> canonicalJson h ancestors v = canonicalJson h' ancestors v"
proof (induction h ancestors v rule: canonicalJson.induct)
  case (1 h ancestors v)
  have len: "length h' = length h" using "1.prems" by (simp add: same_heap_def list_all2_lengthD)
  show ?case
  proof (cases v)
    case (HRef i)
    show ?thesis
    proof (cases "i \<in> set ancestors \<or> \<not> i < length h")
      case True
      with HRef len show ?thesis by (subst (1 2) canonicalJson.simps) auto
    next
      case free: False
      then have same: "same_object (h ! i) (h' ! i)"
        using "1.prems" by (simp add: same_heap_def list_all2_nthD)
      show ?thesis
      proof (cases "h ! i")
        case (HArray items)
        with same have h': "h' ! i = HArray items" by (cases "h' ! i") auto
        have "mapE (\<lambda>item. canonicalJson h (i # ancestors) (the item)) items =
            mapE (\<lambda>item. canonicalJson h' (i # ancestors) (the item)) items" if "\<not> has_holes items"
          using "1.IH"(1) [OF HRef _ _ HArray that _ "1.prems"] free by (intro mapE_cong) auto
        with HRef HArray h' free len show ?thesis
          by (subst (1 2) canonicalJson.simps) (cases "has_holes items"; simp)
      next
        case (HObject plain symbols ps)
        with same obtain qs where h': "h' ! i = HObject plain symbols qs"
          and ps: "distinct (map fst ps)" "distinct (map fst qs)" "set ps = set qs"
          by (cases "h' ! i") auto
        have "mapE (canonical_entry (canonicalJson h (i # ancestors))) (sorted_props ps) =
            mapE (canonical_entry (canonicalJson h' (i # ancestors))) (sorted_props ps)"
          if "plain" "\<not> symbols"
          using "1.IH"(2) [OF HRef _ _ HObject _ _ _ _ "1.prems"] free that
          by (intro mapE_cong canonical_entry_eq) auto
        with HRef HObject h' free len sorted_props_same [OF ps] show ?thesis
          by (subst (1 2) canonicalJson.simps) (cases plain; cases symbols; simp)
      qed
    qed
  qed (subst (1 2) canonicalJson.simps, simp)+
qed

text \<open>
  C40. The JSON of a payload is canonical: two object graphs that differ only in the order in
  which the properties of their objects were created give the same text (and the same error),
  so the same event gets the same bytes whoever built it.
\<close>

theorem canonicalJson_order_independent:
  assumes "same_heap h h'"
  shows "jsonString h v = jsonString h' v"
  using canonicalJson_same_heap [OF assms] by (simp add: jsonString_def)

theorem canonicalJson_order_independent_witness:
  "jsonString [HObject True False [(lit ''b'', DataProp True (HNum (num 1))), (lit ''a'', DataProp True HNull)]]
     (HRef 0) = Inr (lit ''{\"a\":null,\"b\":1}'') \<and>
   jsonString [HObject True False [(lit ''b'', DataProp True (HNum (num 1))), (lit ''a'', DataProp True HNull)]]
     (HRef 0) =
   jsonString [HObject True False [(lit ''a'', DataProp True HNull), (lit ''b'', DataProp True (HNum (num 1)))]]
     (HRef 0)"
proof
  show "jsonString [HObject True False [(lit ''b'', DataProp True (HNum (num 1))), (lit ''a'', DataProp True HNull)]]
     (HRef 0) = Inr (lit ''{\"a\":null,\"b\":1}'')"
    by code_simp
  show "jsonString [HObject True False [(lit ''b'', DataProp True (HNum (num 1))), (lit ''a'', DataProp True HNull)]]
     (HRef 0) =
   jsonString [HObject True False [(lit ''a'', DataProp True HNull), (lit ''b'', DataProp True (HNum (num 1)))]]
     (HRef 0)"
    by (rule canonicalJson_order_independent) (auto simp: same_heap_def)
qed

section \<open>Cycles\<close>

text \<open>The values an object shows: array items, and enumerable data properties.\<close>

fun shown_values :: "hobj \<Rightarrow> hval list" where
  "shown_values (HArray items) = List.map_filter id items"
| "shown_values (HObject plain symbols ps) =
     List.map_filter (\<lambda>e. case snd e of DataProp True v \<Rightarrow> Some v | _ \<Rightarrow> None) ps"

definition refers :: "heap \<Rightarrow> nat rel" where
  "refers h = {(i, j). i < length h \<and> HRef j \<in> set (shown_values (h ! i))}"

lemma canonical_child:
  assumes "canonicalJson h ancestors (HRef i) = Inr s" "(i, j) \<in> refers h"
  shows "i \<notin> set ancestors \<and> (\<exists>t. canonicalJson h (i # ancestors) (HRef j) = Inr t)"
proof -
  have free: "i \<notin> set ancestors" "i < length h"
    using assms(1) by (subst (asm) canonicalJson.simps, simp split: if_splits)+
  have "\<exists>t. canonicalJson h (i # ancestors) (HRef j) = Inr t"
  proof (cases "h ! i")
    case (HArray items)
    with assms free obtain ts where ts: "mapE (\<lambda>item. canonicalJson h (i # ancestors) (the item)) items = Inr ts"
      by (subst (asm) canonicalJson.simps) (auto simp: result_iff split: if_splits)
    have "Some (HRef j) \<in> set items"
      using assms(2) HArray by (auto simp: refers_def map_filter_def)
    from mapE_set_src [OF ts this] show ?thesis by auto
  next
    case (HObject plain symbols ps)
    with assms free obtain ts where ts: "mapE (canonical_entry (canonicalJson h (i # ancestors)))
        (sorted_props ps) = Inr ts"
      by (subst (asm) canonicalJson.simps) (auto simp: result_iff split: if_splits)
    obtain k where "(k, DataProp True (HRef j)) \<in> set (sorted_props ps)"
      using assms(2) HObject
      by (auto simp: refers_def map_filter_def sorted_props_def split: hprop.splits bool.splits)
    from mapE_set_src [OF ts this] show ?thesis
      by (auto simp: canonical_entry_def result_iff)
  qed
  with free show ?thesis by blast
qed

lemma canonical_descendant:
  assumes "(i, j) \<in> (refers h)\<^sup>+" "canonicalJson h ancestors (HRef i) = Inr s"
  shows "\<exists>ancestors' t. i \<in> set ancestors' \<and> canonicalJson h ancestors' (HRef j) = Inr t"
  using assms(1)
proof (induction rule: trancl_induct)
  case (base j)
  with canonical_child [OF assms(2)] show ?case by (meson list.set_intros(1))
next
  case (step j k)
  then obtain ancestors' t where "i \<in> set ancestors'" "canonicalJson h ancestors' (HRef j) = Inr t"
    by blast
  with canonical_child [OF _ step(2)] show ?case by (meson list.set_intros(2))
qed

text \<open>
  Serialising caller data always ends, and a cyclic value is refused: when an object of the
  payload can be reached from itself through array items and enumerable properties, the result
  is the invalid-JSON error.
\<close>

theorem cyclic_payload_refused:
  assumes "(i, i) \<in> (refers h)\<^sup>+"
  shows "jsonString h (HRef i) = Inl invalid_json"
proof (rule ccontr)
  assume "jsonString h (HRef i) \<noteq> Inl invalid_json"
  then obtain s where s: "canonicalJson h [] (HRef i) = Inr s"
    using canonicalJson_error [of h "[]" "HRef i"]
    by (cases "canonicalJson h [] (HRef i)") (auto simp: jsonString_def)
  from canonical_descendant [OF assms s] obtain ancestors' t
    where "i \<in> set ancestors'" "canonicalJson h ancestors' (HRef i) = Inr t" by blast
  then show False by (subst (asm) canonicalJson.simps) simp
qed

theorem cyclic_payload_refused_witness:
  "jsonString [HArray [Some (HRef 1)], HObject True False [(lit ''up'', DataProp True (HRef 0))]] (HRef 0) =
     Inl invalid_json"
proof (rule cyclic_payload_refused)
  let ?h = "[HArray [Some (HRef 1)], HObject True False [(lit ''up'', DataProp True (HRef 0))]]"
  have "(0, 1) \<in> refers ?h" "(1, 0) \<in> refers ?h"
    by (simp_all add: refers_def map_filter_simps)
  then show "(0, 0) \<in> (refers ?h)\<^sup>+" by (meson r_into_trancl' trancl_into_trancl)
qed

end
