(* ===== verification/Ids.thy ===== *)
theory Ids
  imports Sdk_Error
begin

text \<open>
  Identifiers (src/src/ids.ts): an id is given as a string, a number or a bigint and is sent
  as a string. A number is accepted only in the range where doubles are exact.
\<close>

section \<open>The operations\<close>

definition normalizeId :: "jsval \<Rightarrow> thrown + jstr" where
  "normalizeId v =
     (case v of
        JStr s \<Rightarrow> Inr s
      | JBig i \<Rightarrow> Inr (dec_int i)
      | JNum n \<Rightarrow> if \<not> isSafeInteger n then Inl (medErr MEDALLION_UNSAFE_ID) else Inr (num_text n)
      | _ \<Rightarrow> Inl (medErr MEDALLION_INVALID_ID))"

record actor_ref =
  ar_type :: "jstr option"
  ar_id :: jsval
  ar_provider :: "jstr option"

record normalized_actor_ref =
  nar_type :: "jstr option"
  nar_id :: jstr
  nar_provider :: "jstr option"

definition normalizeActorRef :: "actor_ref \<Rightarrow> thrown + normalized_actor_ref" where
  "normalizeActorRef actor =
     bindE (normalizeId (ar_id actor)) (\<lambda>i.
       Inr \<lparr>nar_type = ar_type actor, nar_id = i, nar_provider = ar_provider actor\<rparr>)"

definition actorPrincipalFromRef :: "normalized_actor_ref \<Rightarrow> jstr" where
  "actorPrincipalFromRef actor =
     (let parts = List.map_filter
            (\<lambda>v. case v of None \<Rightarrow> None | Some s \<Rightarrow> if s = [] then None else Some s)
            [nar_type actor, nar_provider actor, Some (nar_id actor)]
      in join (lit '':'') parts)"

record resource_ref =
  rr_type :: jstr
  rr_id :: jsval

record normalized_resource_ref =
  nrr_type :: jstr
  nrr_id :: jstr

definition normalizeResourceRef :: "resource_ref \<Rightarrow> thrown + normalized_resource_ref" where
  "normalizeResourceRef resource =
     bindE (normalizeId (rr_id resource)) (\<lambda>i. Inr \<lparr>nrr_type = rr_type resource, nrr_id = i\<rparr>)"

text \<open>The loop over \<open>Object.entries\<close>: the keys of a record are distinct, so the keys and
  their order are kept, but assigning a string to \<open>__proto__\<close> of an object literal has no
  effect.\<close>

definition normalizeIdRecord :: "(jstr \<times> jsval) list \<Rightarrow> thrown + (jstr \<times> jstr) list" where
  "normalizeIdRecord vs =
     bindE (mapE (\<lambda>e. bindE (normalizeId (snd e)) (\<lambda>i. Inr (fst e, i))) vs) (\<lambda>es.
       Inr (filter (\<lambda>e. fst e \<noteq> lit ''__proto__'') es))"

section \<open>Which ids there are\<close>

lemma isSafeInteger_num [simp]: "isSafeInteger (num i) \<longleftrightarrow> \<bar>i\<bar> \<le> MAX_SAFE"
  by (auto simp: isSafeInteger_iff)

lemma normalizeId_num:
  "normalizeId (JNum n) = Inr s \<longleftrightarrow> (\<exists>i. n = num i \<and> \<bar>i\<bar> \<le> MAX_SAFE \<and> s = dec_int i)"
  by (auto simp: normalizeId_def isSafeInteger_iff num_text_safe split: if_splits)

text \<open>
  An id is accepted exactly when it is a string, a bigint, or a number that is a safe
  integer, and its text is that string or the decimal digits; so an id given as a number, as a
  bigint or as its digits is the same id, and no two different numbers give the same one.
\<close>

theorem normalizeId_iff:
  "(normalizeId v = Inr s \<longleftrightarrow>
      v = JStr s \<or> (\<exists>i. s = dec_int i \<and> (v = JBig i \<or> v = JNum (num i) \<and> \<bar>i\<bar> \<le> MAX_SAFE))) \<and>
   (\<forall>m n t. normalizeId (JNum m) = Inr t \<and> normalizeId (JNum n) = Inr t \<longrightarrow> m = n)"
proof
  show "normalizeId v = Inr s \<longleftrightarrow>
      v = JStr s \<or> (\<exists>i. s = dec_int i \<and> (v = JBig i \<or> v = JNum (num i) \<and> \<bar>i\<bar> \<le> MAX_SAFE))"
  proof (cases v)
    case (JNum n)
    then show ?thesis using normalizeId_num [of n s] by auto
  qed (auto simp: normalizeId_def)
  show "\<forall>m n t. normalizeId (JNum m) = Inr t \<and> normalizeId (JNum n) = Inr t \<longrightarrow> m = n"
    by (auto simp: normalizeId_num dec_int_inj)
qed

theorem normalizeId_iff_witness:
  "normalizeId (JNum (num 42)) = Inr (dec_int 42) \<and> normalizeId (JBig 42) = Inr (dec_int 42)"
  using normalizeId_iff [THEN conjunct1, of "JNum (num 42)" "dec_int 42"]
    normalizeId_iff [THEN conjunct1, of "JBig 42" "dec_int 42"]
  by (auto simp: MAX_SAFE_def)

lemma normalizeIdRecord_keys:
  assumes "normalizeIdRecord vs = Inr ws"
  shows "map fst ws = filter (\<lambda>k. k \<noteq> lit ''__proto__'') (map fst vs)"
proof -
  obtain es where es: "mapE (\<lambda>e. bindE (normalizeId (snd e)) (\<lambda>i. Inr (fst e, i))) vs = Inr es"
    and ws: "ws = filter (\<lambda>e. fst e \<noteq> lit ''__proto__'') es"
    using assms by (auto simp: normalizeIdRecord_def result_iff)
  from es have "map fst es = map fst vs"
    by (induction vs arbitrary: es) (auto simp: result_iff)
  then show ?thesis by (simp add: ws filter_map o_def flip: \<open>map fst es = map fst vs\<close>)
qed

end
