(* ===== verification/Js_Date.thy ===== *)
theory Js_Date
  imports Js_Text
begin

text \<open>
  The proleptic Gregorian calendar as ECMAScript's \<open>Date\<close> has it: day numbers from 1970 and
  back, and the ISO form of a time value. \<open>daysInMonth\<close> is the helper of
  src/src/payload.ts; the lemmas say that the day number counts days.
\<close>

section \<open>Days\<close>

definition leap_year :: "int \<Rightarrow> bool" where
  "leap_year y \<longleftrightarrow> y mod 4 = 0 \<and> (y mod 100 \<noteq> 0 \<or> y mod 400 = 0)"

definition daysInMonth :: "int \<Rightarrow> int \<Rightarrow> int" where
  "daysInMonth year month =
     (if month = 2 then (if leap_year year then 29 else 28)
      else if month \<in> set [4, 6, 9, 11] then 30 else 31)"

text \<open>DayFromYear of the language definition.\<close>

definition day_from_year :: "int \<Rightarrow> int" where
  "day_from_year y = 365 * (y - 1970) + (y - 1969) div 4 - (y - 1901) div 100 + (y - 1601) div 400"

definition days_before_month :: "int \<Rightarrow> int \<Rightarrow> int" where
  "days_before_month y m =
     (if m \<le> 1 then 0 else if m = 2 then 31
      else (if leap_year y then 1 else 0) +
        (if m = 3 then 59 else if m = 4 then 90 else if m = 5 then 120 else if m = 6 then 151
         else if m = 7 then 181 else if m = 8 then 212 else if m = 9 then 243
         else if m = 10 then 273 else if m = 11 then 304 else if m = 12 then 334 else 365))"

definition day_number :: "int \<Rightarrow> int \<Rightarrow> int \<Rightarrow> int" where
  "day_number y m d = day_from_year y + days_before_month y m + (d - 1)"

definition valid_date :: "int \<Rightarrow> int \<Rightarrow> int \<Rightarrow> bool" where
  "valid_date y m d \<longleftrightarrow> 1 \<le> m \<and> m \<le> 12 \<and> 1 \<le> d \<and> d \<le> daysInMonth y m"

definition next_date :: "int \<times> int \<times> int \<Rightarrow> int \<times> int \<times> int" where
  "next_date = (\<lambda>(y, m, d).
     if d < daysInMonth y m then (y, m, d + 1)
     else if m < 12 then (y, m + 1, 1) else (y + 1, 1, 1))"

definition year_length :: "int \<Rightarrow> int" where
  "year_length y = (if leap_year y then 366 else 365)"

lemma div_step:
  fixes x k :: int
  assumes "1 < k"
  shows "(x + 1) div k = x div k + (if (x + 1) mod k = 0 then 1 else 0)"
proof -
  have d: "(x + 1) div k = x div k + (x mod k + 1) div k"
    using assms div_add1_eq [of x 1 k] by simp
  have m: "(x + 1) mod k = (x mod k + 1) mod k" by (simp add: mod_simps)
  have r: "0 \<le> x mod k" "x mod k < k" using assms by simp_all
  show ?thesis
  proof (cases "x mod k + 1 = k")
    case True
    with d m assms show ?thesis by simp
  next
    case False
    with r have "0 < x mod k + 1" "x mod k + 1 < k" by linarith+
    with d m show ?thesis by simp
  qed
qed

lemma shift_mod: "k dvd s \<Longrightarrow> (y - s) mod k = 0 \<longleftrightarrow> y mod k = 0" for y s k :: int
  by (metis dvd_diff dvd_eq_mod_eq_0 diff_add_cancel dvd_add)

lemma leap_mods: "y mod 400 = 0 \<Longrightarrow> y mod 100 = 0" "y mod 100 = 0 \<Longrightarrow> y mod 4 = 0" for y :: int
  using dvd_trans [of 100 400 y] dvd_trans [of 4 100 y] by (simp_all add: dvd_eq_mod_eq_0)

lemma day_from_year_Suc: "day_from_year (y + 1) = day_from_year y + year_length y"
proof -
  have a: "(y + 1 - 1969) div 4 = (y - 1969) div 4 + (if y mod 4 = 0 then 1 else 0)"
    using div_step [of 4 "y - 1969"] shift_mod [of 4 1968 y] by (simp add: algebra_simps)
  have b: "(y + 1 - 1901) div 100 = (y - 1901) div 100 + (if y mod 100 = 0 then 1 else 0)"
    using div_step [of 100 "y - 1901"] shift_mod [of 100 1900 y] by (simp add: algebra_simps)
  have c: "(y + 1 - 1601) div 400 = (y - 1601) div 400 + (if y mod 400 = 0 then 1 else 0)"
    using div_step [of 400 "y - 1601"] shift_mod [of 400 1600 y] by (simp add: algebra_simps)
  have gen: "365 * (y + 1 - 1970) + (p + i) - (q + j) + (r + k) =
      365 * (y - 1970) + p - q + r + 365 + i - j + k" for p q r i j k :: int
    by simp
  have "day_from_year (y + 1) = day_from_year y + 365 +
      (if y mod 4 = 0 then 1 else 0) - (if y mod 100 = 0 then 1 else 0) + (if y mod 400 = 0 then 1 else 0)"
    unfolding day_from_year_def a b c by (rule gen)
  moreover have "year_length y = 365 +
      (if y mod 4 = 0 then 1 else 0) - (if y mod 100 = 0 then 1 else 0) + (if y mod 400 = 0 then 1 else 0)"
    using leap_mods [of y] unfolding year_length_def leap_year_def
    by (cases "y mod 4 = 0"; cases "y mod 100 = 0"; cases "y mod 400 = 0") simp_all
  ultimately show ?thesis by linarith
qed

lemma month_cases:
  "1 \<le> m \<Longrightarrow> m \<le> 12 \<Longrightarrow> m \<in> {1, 2, 3, 4, 5, 6, 7, 8, 9, 10, 11, 12}" for m :: int
  by (simp, arith)

lemma days_before_month_Suc:
  "1 \<le> m \<Longrightarrow> m \<le> 12 \<Longrightarrow> days_before_month y (m + 1) =
     (if m = 12 then year_length y else days_before_month y m + daysInMonth y m)"
proof -
  assume "1 \<le> m" "m \<le> 12"
  then have "m \<in> {1, 2, 3, 4, 5, 6, 7, 8, 9, 10, 11, 12}" by (rule month_cases)
  then show ?thesis
    by (auto simp: days_before_month_def daysInMonth_def year_length_def)
qed

lemma day_number_next:
  assumes "valid_date y m d" "next_date (y, m, d) = (y', m', d')"
  shows "valid_date y' m' d' \<and> day_number y' m' d' = day_number y m d + 1"
proof -
  have m: "1 \<le> m" "m \<le> 12" and d: "1 \<le> d" "d \<le> daysInMonth y m"
    using assms(1) by (auto simp: valid_date_def)
  have pos: "1 \<le> daysInMonth y'' m''" for y'' m'' by (simp add: daysInMonth_def)
  consider "d < daysInMonth y m" | "d = daysInMonth y m" "m < 12" | "d = daysInMonth y m" "m = 12"
    using m d by linarith
  then show ?thesis
  proof cases
    case 1
    with assms(2) m d show ?thesis by (auto simp: next_date_def valid_date_def day_number_def)
  next
    case 2
    with assms(2) have e: "y' = y" "m' = m + 1" "d' = 1" by (auto simp: next_date_def)
    have "days_before_month y (m + 1) = days_before_month y m + daysInMonth y m"
      using days_before_month_Suc [OF m] 2 by simp
    with e 2 m pos show ?thesis by (simp add: valid_date_def day_number_def)
  next
    case 3
    with assms(2) have e: "y' = y + 1" "m' = 1" "d' = 1" by (auto simp: next_date_def)
    have "days_before_month y 12 + daysInMonth y 12 = year_length y"
      by (simp add: days_before_month_def daysInMonth_def year_length_def)
    with e 3 pos day_from_year_Suc [of y] show ?thesis
      by (simp add: valid_date_def day_number_def days_before_month_def)
  qed
qed

lemma day_from_year_mono_nat: "day_from_year y + 365 * int n \<le> day_from_year (y + int n)"
proof (induction n)
  case (Suc n)
  have "day_from_year (y + int (Suc n)) = day_from_year (y + int n) + year_length (y + int n)"
    using day_from_year_Suc [of "y + int n"] by (simp add: algebra_simps)
  then show ?case using Suc by (simp add: year_length_def)
qed simp

lemma day_from_year_mono: "y \<le> z \<Longrightarrow> day_from_year y + 365 * (z - y) \<le> day_from_year z"
  using day_from_year_mono_nat [of y "nat (z - y)"] by simp

lemma day_in_year:
  "valid_date y m d \<Longrightarrow> day_from_year y \<le> day_number y m d \<and> day_number y m d < day_from_year (y + 1)"
proof -
  assume v: "valid_date y m d"
  then have "m \<in> {1, 2, 3, 4, 5, 6, 7, 8, 9, 10, 11, 12}"
    by (intro month_cases) (simp_all add: valid_date_def)
  with v show ?thesis
    by (auto simp: valid_date_def day_number_def days_before_month_def daysInMonth_def
        day_from_year_Suc year_length_def split: if_splits)
qed

section \<open>From a day to its date\<close>

function year_down :: "int \<Rightarrow> int \<Rightarrow> int" where
  "year_down n y = (if n < day_from_year y then year_down n (y - 1) else y)"
  by pat_completeness auto
termination
proof (relation "measure (\<lambda>(n, y). nat (day_from_year y - n))", goal_cases)
  case (2 n y)
  have "day_from_year (y - 1) < day_from_year y"
    using day_from_year_mono [of "y - 1" y] by simp
  with 2 show ?case by simp
qed simp

function year_up :: "int \<Rightarrow> int \<Rightarrow> int" where
  "year_up n y = (if day_from_year (y + 1) \<le> n then year_up n (y + 1) else y)"
  by pat_completeness auto
termination
proof (relation "measure (\<lambda>(n, y). nat (n - day_from_year y))", goal_cases)
  case (2 n y)
  have "day_from_year y < day_from_year (y + 1)"
    using day_from_year_mono [of y "y + 1"] by simp
  with 2 show ?case by simp
qed simp

declare year_down.simps [simp del] year_up.simps [simp del]

definition year_of_day :: "int \<Rightarrow> int" where
  "year_of_day n = year_up n (year_down n (1970 + n div 366))"

function month_from :: "int \<Rightarrow> int \<Rightarrow> int \<Rightarrow> int" where
  "month_from y k m =
     (if m < 12 \<and> days_before_month y (m + 1) \<le> k then month_from y k (m + 1) else m)"
  by pat_completeness auto
termination by (relation "measure (\<lambda>(y, k, m). nat (12 - m))") auto

declare month_from.simps [simp del]

definition date_of_day :: "int \<Rightarrow> int \<times> int \<times> int" where
  "date_of_day n =
     (let y = year_of_day n; k = n - day_from_year y; m = month_from y k 1
      in (y, m, k - days_before_month y m + 1))"

lemma year_down_le: "day_from_year (year_down n y) \<le> n"
proof (induction n y rule: year_down.induct)
  case (1 n y)
  then show ?case by (subst year_down.simps) auto
qed

lemma year_up_bounds:
  "day_from_year y \<le> n \<Longrightarrow>
   day_from_year (year_up n y) \<le> n \<and> n < day_from_year (year_up n y + 1)"
proof (induction n y rule: year_up.induct)
  case (1 n y)
  then show ?case by (subst (1 2) year_up.simps) auto
qed

lemma year_of_day_bounds:
  "day_from_year (year_of_day n) \<le> n \<and> n < day_from_year (year_of_day n + 1)"
  using year_up_bounds [OF year_down_le] by (simp add: year_of_day_def)

lemma year_of_day_unique:
  assumes "day_from_year y \<le> n" "n < day_from_year (y + 1)"
  shows "year_of_day n = y"
proof -
  let ?z = "year_of_day n"
  have "\<not> ?z < y" using day_from_year_mono [of "?z + 1" y] year_of_day_bounds [of n] assms by force
  moreover have "\<not> y < ?z" using day_from_year_mono [of "y + 1" ?z] year_of_day_bounds [of n] assms by force
  ultimately show ?thesis by simp
qed

lemma month_from_start:
  assumes "1 \<le> m" "m \<le> 12" "days_before_month y m \<le> k"
    "m < 12 \<Longrightarrow> k < days_before_month y (m + 1)"
  shows "month_from y k m = m"
  using assms by (subst month_from.simps) auto

lemma days_before_month_mono:
  "1 \<le> a \<Longrightarrow> a \<le> b \<Longrightarrow> b \<le> 12 \<Longrightarrow> days_before_month y a \<le> days_before_month y b"
proof -
  assume "1 \<le> a" "a \<le> b" "b \<le> 12"
  then have "a \<in> {1, 2, 3, 4, 5, 6, 7, 8, 9, 10, 11, 12}" "b \<in> {1, 2, 3, 4, 5, 6, 7, 8, 9, 10, 11, 12}"
    by (intro month_cases; linarith)+
  with \<open>a \<le> b\<close> show ?thesis by (auto simp: days_before_month_def)
qed

lemma month_from_finds:
  assumes "1 \<le> a" "a \<le> m" "m \<le> 12" "days_before_month y m \<le> k"
    "m < 12 \<Longrightarrow> k < days_before_month y (m + 1)"
  shows "month_from y k a = m"
  using assms
proof (induction "nat (m - a)" arbitrary: a)
  case 0
  then have "a = m" by simp
  with 0 month_from_start show ?case by blast
next
  case (Suc n)
  then have lt: "a < m" by simp
  then have "days_before_month y (a + 1) \<le> k"
    using days_before_month_mono [of "a + 1" m y] Suc.prems by simp
  moreover have "month_from y k (a + 1) = m" using Suc lt by (intro Suc.hyps(1)) auto
  ultimately show ?case using lt Suc.prems(3) by (subst month_from.simps) simp
qed

lemma date_of_day_number:
  assumes "valid_date y m d"
  shows "date_of_day (day_number y m d) = (y, m, d)"
proof -
  have y: "year_of_day (day_number y m d) = y"
    using day_in_year [OF assms] year_of_day_unique by blast
  have m: "1 \<le> m" "m \<le> 12" and d: "1 \<le> d" "d \<le> daysInMonth y m"
    using assms by (simp_all add: valid_date_def)
  let ?k = "days_before_month y m + (d - 1)"
  have "m < 12 \<Longrightarrow> ?k < days_before_month y (m + 1)"
    using days_before_month_Suc [OF m, of y] d by simp
  then have "month_from y ?k 1 = m" using m d by (intro month_from_finds) auto
  moreover have "day_number y m d - day_from_year y = ?k" by (simp add: day_number_def)
  ultimately show ?thesis by (simp add: date_of_day_def y Let_def)
qed

section \<open>toISOString\<close>

definition pad_zero :: "nat \<Rightarrow> jstr \<Rightarrow> jstr" where
  "pad_zero n s = replicate (n - length s) (of_char CHR ''0'') @ s"

definition MS_PER_DAY :: int where
  "MS_PER_DAY = 86400000"

definition year_text :: "int \<Rightarrow> jstr" where
  "year_text y =
     (if 0 \<le> y \<and> y \<le> 9999 then pad_zero 4 (dec_int y)
      else (if y < 0 then lit ''-'' else lit ''+'') @ pad_zero 6 (dec_int \<bar>y\<bar>))"

definition toISOString :: "int \<Rightarrow> jstr" where
  "toISOString t =
     (let (y, m, d) = date_of_day (t div MS_PER_DAY); r = t mod MS_PER_DAY
      in year_text y @ lit ''-'' @ pad_zero 2 (dec_int m) @ lit ''-'' @ pad_zero 2 (dec_int d) @
         lit ''T'' @ pad_zero 2 (dec_int (r div 3600000)) @ lit '':'' @
         pad_zero 2 (dec_int (r div 60000 mod 60)) @ lit '':'' @
         pad_zero 2 (dec_int (r div 1000 mod 60)) @ lit ''.'' @ pad_zero 3 (dec_int (r mod 1000)) @
         lit ''Z'')"

end
