(* ===== verification/Timestamps.thy ===== *)
theory Timestamps
  imports Js_Date Sdk_Error
begin

text \<open>
  RFC 3339 timestamps (\<open>parseRfc3339Instant\<close> and \<open>occurredAt\<close> of src/src/payload.ts): the
  regular expression as a parser, the range checks, and the instant in seconds and
  nanoseconds. The lemmas bound the instant and show that the ISO form of a date is read back
  as the same instant.
\<close>

section \<open>The regular expression\<close>

record rfc3339_fields =
  rf_year :: int
  rf_month :: int
  rf_day :: int
  rf_hour :: int
  rf_minute :: int
  rf_second :: int
  rf_fraction :: jstr
  rf_sign :: int
  rf_offsetHour :: int
  rf_offsetMinute :: int

definition digits_n :: "nat \<Rightarrow> jstr \<Rightarrow> (int \<times> jstr) option" where
  "digits_n n s =
     (if n \<le> length s \<and> list_all is_digit (take n s)
      then Some (int (parse_dec (take n s)), drop n s) else None)"

definition expect :: "char \<Rightarrow> jstr \<Rightarrow> jstr option" where
  "expect c s = (case s of [] \<Rightarrow> None | u # r \<Rightarrow> if u = of_char c then Some r else None)"

text \<open>\<open>(?:\.(\d{1,9}))?\<close>: what follows the digits cannot be a digit.\<close>

definition match_fraction :: "jstr \<Rightarrow> (jstr \<times> jstr) option" where
  "match_fraction s =
     (case expect CHR ''.'' s of
        None \<Rightarrow> Some ([], s)
      | Some r \<Rightarrow>
          (let ds = takeWhile is_digit r
           in if 1 \<le> length ds \<and> length ds \<le> 9 then Some (ds, dropWhile is_digit r) else None))"

text \<open>\<open>(?:Z|([+-])(\d{2}):(\d{2}))$\<close>: sign, hours and minutes.\<close>

definition match_offset :: "jstr \<Rightarrow> (int \<times> int \<times> int) option" where
  "match_offset s =
     (if s = lit ''Z'' then Some (1, 0, 0)
      else
        (let sign = (if expect CHR ''+'' s \<noteq> None then 1 else - 1) in
         Option.bind (orOption (expect CHR ''+'' s) (expect CHR ''-'' s)) (\<lambda>r1.
         Option.bind (digits_n 2 r1) (\<lambda>(oh, r2).
         Option.bind (expect CHR '':'' r2) (\<lambda>r3.
         Option.bind (digits_n 2 r3) (\<lambda>(om, r4).
           if r4 = [] then Some (sign, oh, om) else None))))))"

definition match_rfc3339 :: "jstr \<Rightarrow> rfc3339_fields option" where
  "match_rfc3339 s =
     Option.bind (digits_n 4 s) (\<lambda>(year, s1).
     Option.bind (expect CHR ''-'' s1) (\<lambda>s2.
     Option.bind (digits_n 2 s2) (\<lambda>(month, s3).
     Option.bind (expect CHR ''-'' s3) (\<lambda>s4.
     Option.bind (digits_n 2 s4) (\<lambda>(day, s5).
     Option.bind (expect CHR ''T'' s5) (\<lambda>s6.
     Option.bind (digits_n 2 s6) (\<lambda>(hour, s7).
     Option.bind (expect CHR '':'' s7) (\<lambda>s8.
     Option.bind (digits_n 2 s8) (\<lambda>(minute, s9).
     Option.bind (expect CHR '':'' s9) (\<lambda>s10.
     Option.bind (digits_n 2 s10) (\<lambda>(sec, s11).
     Option.bind (match_fraction s11) (\<lambda>(fraction, s12).
     Option.bind (match_offset s12) (\<lambda>(sign, oh, om).
       Some \<lparr>rf_year = year, rf_month = month, rf_day = day, rf_hour = hour, rf_minute = minute,
             rf_second = sec, rf_fraction = fraction, rf_sign = sign, rf_offsetHour = oh,
             rf_offsetMinute = om\<rparr>)))))))))))))"

section \<open>The instant\<close>

record rfc3339_instant =
  seconds :: int
  nanos :: int

definition padEnd_zero :: "nat \<Rightarrow> jstr \<Rightarrow> jstr" where
  "padEnd_zero n s = s @ replicate (n - length s) (of_char CHR ''0'')"

text \<open>\<open>Date.parse\<close> on a text that matched and passed the checks: milliseconds, the fraction
  cut to three digits.\<close>

definition date_parse :: "rfc3339_fields \<Rightarrow> int" where
  "date_parse f =
     (day_number (rf_year f) (rf_month f) (rf_day f) * 86400 + rf_hour f * 3600 +
        rf_minute f * 60 + rf_second f -
        rf_sign f * (rf_offsetHour f * 3600 + rf_offsetMinute f * 60)) * 1000 +
     int (parse_dec (take 3 (padEnd_zero 9 (rf_fraction f))))"

definition parseRfc3339Instant :: "jstr \<Rightarrow> rfc3339_instant option" where
  "parseRfc3339Instant v =
     (case match_rfc3339 v of
        None \<Rightarrow> None
      | Some f \<Rightarrow>
          if rf_year f < 1 \<or> rf_month f < 1 \<or> rf_month f > 12 \<or> rf_day f < 1 \<or>
             rf_day f > daysInMonth (rf_year f) (rf_month f) \<or> rf_hour f > 23 \<or>
             rf_minute f > 59 \<or> rf_second f > 59 \<or> rf_offsetHour f > 23 \<or> rf_offsetMinute f > 59
          then None
          else Some \<lparr>seconds = date_parse f div 1000,
                     nanos = int (parse_dec (padEnd_zero 9 (rf_fraction f)))\<rparr>)"

text \<open>\<open>string | Date | undefined\<close>; a \<open>Date\<close> is its time value, none when it is invalid.\<close>

datatype timestamp_input = TimeText jstr | TimeDate "int option"

definition occurredAt :: "timestamp_input option \<Rightarrow> thrown + jstr option" where
  "occurredAt v =
     (case v of
        None \<Rightarrow> Inr None
      | Some (TimeDate None) \<Rightarrow> Inl (medErr MEDALLION_INVALID_TIMESTAMP)
      | Some (TimeDate (Some t)) \<Rightarrow> Inr (Some (toISOString t))
      | Some (TimeText s) \<Rightarrow>
          if parseRfc3339Instant s = None then Inl (medErr MEDALLION_INVALID_TIMESTAMP)
          else Inr (Some s))"

section \<open>Bounds\<close>

lemma parse_dec_less: "list_all is_digit s \<Longrightarrow> parse_dec s < 10 ^ length s"
proof (induction s rule: rev_induct)
  case Nil
  then show ?case by (simp add: parse_dec_def)
next
  case (snoc u s)
  then have "parse_dec s < 10 ^ length s" "digit_value u < 10" by (simp_all add: is_digit_value)
  then have "10 * parse_dec s + digit_value u < 10 * 10 ^ length s" by linarith
  then show ?case by simp
qed

lemma digits_n_bounds: "digits_n n s = Some (v, r) \<Longrightarrow> 0 \<le> v \<and> v < 10 ^ n"
proof -
  assume "digits_n n s = Some (v, r)"
  then have d: "n \<le> length s" "list_all is_digit (take n s)" and v: "v = int (parse_dec (take n s))"
    by (auto simp: digits_n_def split: if_splits)
  have "parse_dec (take n s) < 10 ^ n" using parse_dec_less [OF d(2)] d(1) by simp
  then have "int (parse_dec (take n s)) < int (10 ^ n)" by (simp only: of_nat_less_iff)
  then show ?thesis by (simp add: v)
qed

lemma zero_digit: "is_digit (of_char CHR ''0'')"
  by (simp add: is_digit_def unit_in_def)

lemma padEnd_fraction:
  assumes "list_all is_digit s" "length s \<le> 9"
  shows "int (parse_dec (padEnd_zero 9 s)) < 10 ^ 9"
    "int (parse_dec (take 3 (padEnd_zero 9 s))) < 1000"
proof -
  have all: "list_all is_digit (padEnd_zero 9 s)"
    using assms(1) zero_digit by (auto simp: padEnd_zero_def list_all_iff)
  have len: "length (padEnd_zero 9 s) = 9" using assms(2) by (simp add: padEnd_zero_def)
  from parse_dec_less [OF all] len show "int (parse_dec (padEnd_zero 9 s)) < 10 ^ 9"
    by simp
  have "list_all is_digit (take 3 (padEnd_zero 9 s))"
    using all set_take_subset [of 3 "padEnd_zero 9 s"] by (auto simp: list_all_iff)
  from parse_dec_less [OF this] len show "int (parse_dec (take 3 (padEnd_zero 9 s))) < 1000"
    by simp
qed

lemma match_fraction_digits:
  "match_fraction s = Some (f, r) \<Longrightarrow> list_all is_digit f \<and> length f \<le> 9"
  by (auto simp: match_fraction_def Let_def list_all_iff split: option.splits if_splits
      dest: set_takeWhileD)

lemma match_offset_sign: "match_offset s = Some (sg, oh, om) \<Longrightarrow> (sg = 1 \<or> sg = - 1) \<and> 0 \<le> oh \<and> 0 \<le> om"
  by (auto simp: match_offset_def Let_def bind_eq_Some_conv split: if_splits dest: digits_n_bounds)

lemma match_rfc3339_fields:
  assumes "match_rfc3339 s = Some f"
  shows "0 \<le> rf_year f \<and> rf_year f \<le> 9999 \<and> 0 \<le> rf_hour f \<and> 0 \<le> rf_minute f \<and> 0 \<le> rf_second f \<and>
     list_all is_digit (rf_fraction f) \<and> length (rf_fraction f) \<le> 9 \<and>
     (rf_sign f = 1 \<or> rf_sign f = - 1) \<and> 0 \<le> rf_offsetHour f \<and> 0 \<le> rf_offsetMinute f"
  using assms
  by (auto simp: match_rfc3339_def bind_eq_Some_conv
      dest!: digits_n_bounds match_fraction_digits match_offset_sign)

lemma day_number_bounds:
  assumes "valid_date y m d" "1 \<le> y" "y \<le> 9999"
  shows "- 719162 \<le> day_number y m d" "day_number y m d \<le> 2932896"
proof -
  have "day_from_year 1 = - 719162" "day_from_year 10000 = 2932897"
    by (simp_all add: day_from_year_def)
  moreover have "day_from_year 1 \<le> day_from_year y" using day_from_year_mono [of 1 y] assms(2) by simp
  moreover have "day_from_year (y + 1) \<le> day_from_year 10000"
    using day_from_year_mono [of "y + 1" 10000] assms(3) by simp
  ultimately show "- 719162 \<le> day_number y m d" "day_number y m d \<le> 2932896"
    using day_in_year [OF assms(1)] by linarith+
qed

text \<open>The instant in nanoseconds.\<close>

definition instant_ns :: "rfc3339_instant \<Rightarrow> int" where
  "instant_ns i = seconds i * 10 ^ 9 + nanos i"

lemma parsed_fields:
  assumes "parseRfc3339Instant s = Some i"
  obtains f where "match_rfc3339 s = Some f" "valid_date (rf_year f) (rf_month f) (rf_day f)"
    "1 \<le> rf_year f" "rf_year f \<le> 9999" "0 \<le> rf_hour f" "rf_hour f \<le> 23" "0 \<le> rf_minute f"
    "rf_minute f \<le> 59" "0 \<le> rf_second f" "rf_second f \<le> 59"
    "rf_sign f = 1 \<or> rf_sign f = - 1" "0 \<le> rf_offsetHour f" "rf_offsetHour f \<le> 23"
    "0 \<le> rf_offsetMinute f" "rf_offsetMinute f \<le> 59"
    "seconds i = day_number (rf_year f) (rf_month f) (rf_day f) * 86400 + rf_hour f * 3600 +
        rf_minute f * 60 + rf_second f -
        rf_sign f * (rf_offsetHour f * 3600 + rf_offsetMinute f * 60)"
    "nanos i = int (parse_dec (padEnd_zero 9 (rf_fraction f)))" "0 \<le> nanos i" "nanos i < 10 ^ 9"
proof -
  obtain f where f: "match_rfc3339 s = Some f"
    and ok: "\<not> (rf_year f < 1 \<or> rf_month f < 1 \<or> rf_month f > 12 \<or> rf_day f < 1 \<or>
             rf_day f > daysInMonth (rf_year f) (rf_month f) \<or> rf_hour f > 23 \<or>
             rf_minute f > 59 \<or> rf_second f > 59 \<or> rf_offsetHour f > 23 \<or> rf_offsetMinute f > 59)"
    and i: "i = \<lparr>seconds = date_parse f div 1000, nanos = int (parse_dec (padEnd_zero 9 (rf_fraction f)))\<rparr>"
    using assms by (auto simp: parseRfc3339Instant_def split: option.splits if_splits)
  note fields = match_rfc3339_fields [OF f]
  have frac: "int (parse_dec (padEnd_zero 9 (rf_fraction f))) < 10 ^ 9"
    "int (parse_dec (take 3 (padEnd_zero 9 (rf_fraction f)))) < 1000"
    using padEnd_fraction fields by blast+
  have "date_parse f div 1000 = day_number (rf_year f) (rf_month f) (rf_day f) * 86400 + rf_hour f * 3600 +
        rf_minute f * 60 + rf_second f - rf_sign f * (rf_offsetHour f * 3600 + rf_offsetMinute f * 60)"
    unfolding date_parse_def using frac(2) by (subst div_mult_self3) simp_all
  with that [OF f] ok fields frac i show thesis by (simp add: valid_date_def)
qed

lemma parsed_bounds:
  assumes "parseRfc3339Instant s = Some i"
  shows "- 62135683140 \<le> seconds i \<and> seconds i \<le> 253402387139 \<and> 0 \<le> nanos i \<and> nanos i < 10 ^ 9"
proof -
  from assms obtain f where f0: "match_rfc3339 s = Some f" and f: "valid_date (rf_year f) (rf_month f) (rf_day f)"
    "1 \<le> rf_year f" "rf_year f \<le> 9999" "0 \<le> rf_hour f" "rf_hour f \<le> 23" "0 \<le> rf_minute f"
    "rf_minute f \<le> 59" "0 \<le> rf_second f" "rf_second f \<le> 59"
    "rf_sign f = 1 \<or> rf_sign f = - 1" "0 \<le> rf_offsetHour f" "rf_offsetHour f \<le> 23"
    "0 \<le> rf_offsetMinute f" "rf_offsetMinute f \<le> 59"
    "seconds i = day_number (rf_year f) (rf_month f) (rf_day f) * 86400 + rf_hour f * 3600 +
        rf_minute f * 60 + rf_second f -
        rf_sign f * (rf_offsetHour f * 3600 + rf_offsetMinute f * 60)"
    "nanos i = int (parse_dec (padEnd_zero 9 (rf_fraction f)))" "0 \<le> nanos i" "nanos i < 10 ^ 9"
    by (rule parsed_fields)
  note days = day_number_bounds [OF f(1-3)]
  from f(10) show ?thesis
  proof
    assume "rf_sign f = 1"
    with f days show ?thesis by simp
  next
    assume "rf_sign f = - 1"
    with f days show ?thesis by simp
  qed
qed

section \<open>Reading back the ISO form\<close>

lemma month_from_bounds:
  assumes "1 \<le> a" "a \<le> 12" "days_before_month y a \<le> k" "k < year_length y"
  shows "1 \<le> month_from y k a \<and> month_from y k a \<le> 12 \<and>
     days_before_month y (month_from y k a) \<le> k \<and> k < days_before_month y (month_from y k a + 1)"
  using assms
proof (induction y k a rule: month_from.induct)
  case (1 y k a)
  show ?case
  proof (cases "a < 12 \<and> days_before_month y (a + 1) \<le> k")
    case True
    with "1.IH" "1.prems" show ?thesis by (subst (1 2 3 4) month_from.simps) simp
  next
    case False
    have "k < days_before_month y (a + 1)"
    proof (cases "a = 12")
      case True
      with days_before_month_Suc [of 12 y] "1.prems" show ?thesis by simp
    qed (use False "1.prems" in linarith)
    with False "1.prems" show ?thesis by (subst (1 2 3 4) month_from.simps) simp
  qed
qed

lemma date_of_day_valid:
  assumes "date_of_day n = (y, m, d)"
  shows "valid_date y m d \<and> day_number y m d = n"
proof -
  let ?k = "n - day_from_year y"
  have y: "y = year_of_day n" and m: "m = month_from y ?k 1" and d: "d = ?k - days_before_month y m + 1"
    using assms by (auto simp: date_of_day_def Let_def)
  have k: "0 \<le> ?k" "?k < year_length y"
    using year_of_day_bounds [of n] day_from_year_Suc [of y] by (simp_all add: y)
  have b: "1 \<le> m" "m \<le> 12" "days_before_month y m \<le> ?k" "?k < days_before_month y (m + 1)"
  proof -
    have "days_before_month y 1 = 0" by (simp add: days_before_month_def)
    then have "1 \<le> m \<and> m \<le> 12 \<and> days_before_month y m \<le> ?k \<and> ?k < days_before_month y (m + 1)"
      using month_from_bounds [of 1 y ?k] k by (simp add: m [symmetric])
    then show "1 \<le> m" "m \<le> 12" "days_before_month y m \<le> ?k" "?k < days_before_month y (m + 1)"
      by blast+
  qed
  have "?k < days_before_month y m + daysInMonth y m"
  proof (cases "m = 12")
    case True
    with k show ?thesis
      by (cases "leap_year y") (simp_all add: days_before_month_def daysInMonth_def year_length_def)
  qed (use days_before_month_Suc [OF b(1,2), of y] b(4) in simp)
  with b d show ?thesis by (simp add: valid_date_def day_number_def)
qed

lemma length_dec_nat: "n < 10 ^ k \<Longrightarrow> 0 < k \<Longrightarrow> length (dec_nat n) \<le> k"
proof (induction k arbitrary: n)
  case (Suc k)
  show ?case
  proof (cases "n < 10")
    case True
    then show ?thesis by (simp add: dec_nat.simps [of n])
  next
    case False
    then have "n div 10 < 10 ^ k" "0 < k" using Suc.prems(1) by (cases k; simp add: less_mult_imp_div_less)+
    with Suc.IH have "length (dec_nat (n div 10)) \<le> k" by blast
    with False show ?thesis by (simp add: dec_nat.simps [of n])
  qed
qed simp

lemma parse_dec_zeros: "parse_dec (replicate z (of_char CHR ''0'') @ s) = parse_dec s"
proof (induction z)
  case (Suc z)
  have "digit_value (of_char CHR ''0'') = 0" by (simp add: digit_value_def)
  with Suc show ?case by (simp add: parse_dec_def)
qed simp

lemma digits_pad:
  assumes "0 \<le> i" "i < 10 ^ n" "0 < n"
  shows "digits_n n (pad_zero n (dec_int i) @ r) = Some (i, r)"
    and "list_all is_digit (pad_zero n (dec_int i))" and "length (pad_zero n (dec_int i)) = n"
proof -
  have i: "dec_int i = dec_nat (nat i)" using assms(1) by (simp add: dec_int_def)
  have "nat i < 10 ^ n" using assms(1,2) by (simp add: nat_less_iff)
  then have len: "length (dec_nat (nat i)) \<le> n" using assms(3) by (rule length_dec_nat)
  then show l: "length (pad_zero n (dec_int i)) = n" by (simp add: pad_zero_def i)
  show all: "list_all is_digit (pad_zero n (dec_int i))"
    using all_digits_dec_nat [of "nat i"] zero_digit
    by (auto simp: pad_zero_def i all_digits_def list_all_iff)
  have "parse_dec (pad_zero n (dec_int i)) = nat i" by (simp only: pad_zero_def i parse_dec_zeros parse_dec_nat)
  with l all assms(1) show "digits_n n (pad_zero n (dec_int i) @ r) = Some (i, r)"
    by (simp add: digits_n_def)
qed

lemma expect_lit: "expect c (lit [c] @ r) = Some r"
  by (simp add: expect_def lit_def)

lemma parse_dec_append_zeros: "parse_dec (s @ replicate n (of_char CHR ''0'')) = parse_dec s * 10 ^ n"
proof (induction n)
  case (Suc n)
  have "digit_value (of_char CHR ''0'') = 0" by (simp add: digit_value_def)
  then have "parse_dec ((s @ replicate n (of_char CHR ''0'')) @ [of_char CHR ''0'']) =
      10 * parse_dec (s @ replicate n (of_char CHR ''0''))"
    by (simp only: parse_dec_snoc)
  with Suc show ?case by (simp add: replicate_append_same)
qed simp

lemma match_fraction_ms:
  assumes "0 \<le> i" "i < 1000"
  shows "match_fraction (lit ''.'' @ pad_zero 3 (dec_int i) @ lit ''Z'') =
     Some (pad_zero 3 (dec_int i), lit ''Z'')"
proof -
  let ?p = "pad_zero 3 (dec_int i)"
  have all: "list_all is_digit ?p" and len: "length ?p = 3"
    using digits_pad(2,3) [of i 3] assms by simp_all
  have z: "\<not> is_digit (of_char CHR ''Z'')" by (simp add: is_digit_def unit_in_def)
  have "takeWhile is_digit (?p @ lit ''Z'') = ?p" "dropWhile is_digit (?p @ lit ''Z'') = lit ''Z''"
    using all z by (simp_all add: lit_def list_all_iff takeWhile_append2 dropWhile_append2)
  then show ?thesis by (simp only: match_fraction_def expect_lit) (simp add: len)
qed

lemma match_toISOString:
  assumes "date_of_day (t div MS_PER_DAY) = (y, m, d)" "0 \<le> y" "y \<le> 9999"
  shows "match_rfc3339 (toISOString t) = Some
     \<lparr>rf_year = y, rf_month = m, rf_day = d, rf_hour = t mod MS_PER_DAY div 3600000,
      rf_minute = t mod MS_PER_DAY div 60000 mod 60, rf_second = t mod MS_PER_DAY div 1000 mod 60,
      rf_fraction = pad_zero 3 (dec_int (t mod MS_PER_DAY mod 1000)), rf_sign = 1,
      rf_offsetHour = 0, rf_offsetMinute = 0\<rparr>"
proof -
  let ?r = "t mod MS_PER_DAY"
  have v: "valid_date y m d" using date_of_day_valid [OF assms(1)] by simp
  then have md: "0 \<le> m" "m < 10 ^ 2" "0 \<le> d" "d < 10 ^ 2"
    by (auto simp: valid_date_def daysInMonth_def split: if_splits)
  have r: "0 \<le> ?r" "?r < 86400000" by (simp_all add: MS_PER_DAY_def)
  have h: "0 \<le> ?r div 3600000" "?r div 3600000 < 10 ^ 2"
    "0 \<le> ?r div 60000 mod 60" "?r div 60000 mod 60 < 10 ^ 2"
    "0 \<le> ?r div 1000 mod 60" "?r div 1000 mod 60 < 10 ^ 2" "0 \<le> ?r mod 1000" "?r mod 1000 < 1000"
    using r by simp_all
  have y: "0 \<le> y" "y < 10 ^ 4" using assms by simp_all
  have yt: "year_text y = pad_zero 4 (dec_int y)" using assms by (simp add: year_text_def)
  note steps = digits_pad(1) [OF y] digits_pad(1) [OF md(1,2)] digits_pad(1) [OF md(3,4)]
    digits_pad(1) [OF h(1,2)] digits_pad(1) [OF h(3,4)] digits_pad(1) [OF h(5,6)] expect_lit
    match_fraction_ms [OF h(7,8)]
  show ?thesis
    unfolding toISOString_def assms(1) match_rfc3339_def
    by (simp add: yt steps Let_def match_offset_def)
qed

lemma parse_toISOString:
  assumes "- 62135596800000 \<le> t" "t \<le> 253402300799999"
  shows "parseRfc3339Instant (toISOString t) =
       Some \<lparr>seconds = t div 1000, nanos = t mod 1000 * 1000000\<rparr>"
proof -
  obtain y m d where ymd: "date_of_day (t div MS_PER_DAY) = (y, m, d)" by (metis prod_cases3)
  let ?r = "t mod MS_PER_DAY"
  let ?f = "pad_zero 3 (dec_int (?r mod 1000))"
  have v: "valid_date y m d" and n: "day_number y m d = t div MS_PER_DAY"
    using date_of_day_valid [OF ymd] by simp_all
  have r: "0 \<le> ?r" "?r < 86400000" by (simp_all add: MS_PER_DAY_def)
  have "- 719162 \<le> t div MS_PER_DAY" "t div MS_PER_DAY < 2932897"
    using assms by (simp_all add: MS_PER_DAY_def)
  with n day_in_year [OF v] have yb: "day_from_year y < 2932897" "- 719162 < day_from_year (y + 1)"
    by simp_all
  have e: "day_from_year 1 = - 719162" "day_from_year 10000 = 2932897"
    by (simp_all add: day_from_year_def)
  have "y \<le> 9999" using day_from_year_mono [of 10000 y] yb e by (cases "10000 \<le> y") auto
  moreover have "1 \<le> y" using day_from_year_mono [of "y + 1" 1] yb e by (cases "y + 1 \<le> 1") auto
  ultimately have y: "0 \<le> y" "1 \<le> y" "y \<le> 9999" by simp_all
  have p: "parse_dec ?f = nat (?r mod 1000)" "length ?f = 3"
  proof -
    have b: "0 \<le> ?r mod 1000" "?r mod 1000 < 10 ^ 3" by simp_all
    then show "length ?f = 3" by (intro digits_pad(3)) simp_all
    have "digits_n 3 (?f @ []) = Some (?r mod 1000, [])" using b by (intro digits_pad(1)) simp_all
    then show "parse_dec ?f = nat (?r mod 1000)" by (auto simp: digits_n_def split: if_splits)
  qed
  have pad: "padEnd_zero 9 ?f = ?f @ replicate 6 (of_char CHR ''0'')" using p(2) by (simp add: padEnd_zero_def)
  have ns: "int (parse_dec (padEnd_zero 9 ?f)) = ?r mod 1000 * 1000000"
    unfolding pad parse_dec_append_zeros p(1) by simp
  have ms: "int (parse_dec (take 3 (padEnd_zero 9 ?f))) = ?r mod 1000"
    using p by (simp add: pad)
  have hms: "?r div 3600000 * 3600 + ?r div 60000 mod 60 * 60 + ?r div 1000 mod 60 = ?r div 1000"
  proof -
    have a: "?r div 60000 = ?r div 1000 div 60" "?r div 3600000 = ?r div 1000 div 60 div 60"
      using r by (simp_all add: zdiv_zmult2_eq [symmetric])
    have "?r div 1000 div 60 div 60 * 60 + ?r div 1000 div 60 mod 60 = ?r div 1000 div 60" by simp
    moreover have "?r div 1000 div 60 * 60 + ?r div 1000 mod 60 = ?r div 1000" by simp
    ultimately show ?thesis unfolding a by linarith
  qed
  have whole: "t div MS_PER_DAY * 86400 + ?r div 1000 = t div 1000"
  proof -
    have "t = ?r + t div MS_PER_DAY * 86400 * 1000" by (simp add: MS_PER_DAY_def)
    then have "t div 1000 = (?r + t div MS_PER_DAY * 86400 * 1000) div 1000" by simp
    also have "\<dots> = t div MS_PER_DAY * 86400 + ?r div 1000" by (subst div_mult_self1) simp_all
    finally show ?thesis by simp
  qed
  have ms': "?r mod 1000 = t mod 1000"
  proof -
    have "(1000 :: int) dvd MS_PER_DAY" by (simp add: MS_PER_DAY_def)
    then show ?thesis by (simp add: mod_mod_cancel)
  qed
  have b: "?r div 3600000 \<le> 23" "?r div 60000 mod 60 \<le> 59" "?r div 1000 mod 60 \<le> 59"
    using r by simp_all
  define f where "f =
     \<lparr>rf_year = y, rf_month = m, rf_day = d, rf_hour = ?r div 3600000,
      rf_minute = ?r div 60000 mod 60, rf_second = ?r div 1000 mod 60,
      rf_fraction = ?f, rf_sign = 1, rf_offsetHour = 0, rf_offsetMinute = 0\<rparr>"
  have match: "match_rfc3339 (toISOString t) = Some f"
    unfolding f_def by (rule match_toISOString [OF ymd y(1,3)])
  have sum: "t div MS_PER_DAY * 86400 + ?r div 3600000 * 3600 + ?r div 60000 mod 60 * 60 +
      ?r div 1000 mod 60 = t div 1000"
    by (simp only: add.assoc hms [unfolded add.assoc] whole)
  have "date_parse f = (t div 1000 - 1 * (0 * 3600 + 0 * 60)) * 1000 + t mod 1000"
    by (simp only: date_parse_def f_def rfc3339_fields.select_convs n sum ms [unfolded ms'] ms')
  then have "date_parse f div 1000 = t div 1000" by simp
  moreover have "int (parse_dec (padEnd_zero 9 (rf_fraction f))) = t mod 1000 * 1000000"
    by (simp only: f_def rfc3339_fields.select_convs ns [unfolded ms'] ms')
  moreover have "\<not> (rf_year f < 1 \<or> rf_month f < 1 \<or> rf_month f > 12 \<or> rf_day f < 1 \<or>
      rf_day f > daysInMonth (rf_year f) (rf_month f) \<or> rf_hour f > 23 \<or>
      rf_minute f > 59 \<or> rf_second f > 59 \<or> rf_offsetHour f > 23 \<or> rf_offsetMinute f > 59)"
    unfolding f_def rfc3339_fields.select_convs using v y b unfolding valid_date_def by linarith
  ultimately show ?thesis
    by (simp only: parseRfc3339Instant_def match option.case if_False)
qed

text \<open>
  A \<open>Date\<close> survives its ISO form: for every time value from year 1 through year 9999, the
  text that \<open>toISOString\<close> gives is an accepted timestamp, and it denotes exactly the seconds
  and the nanoseconds of the date.
\<close>

theorem timestamp_of_date:
  assumes "- 62135596800000 \<le> t" "t \<le> 253402300799999"
  shows "occurredAt (Some (TimeDate (Some t))) = Inr (Some (toISOString t)) \<and>
     parseRfc3339Instant (toISOString t) =
       Some \<lparr>seconds = t div 1000, nanos = t mod 1000 * 1000000\<rparr>"
  using parse_toISOString [OF assms] by (simp add: occurredAt_def)

theorem timestamp_of_date_witness:
  "parseRfc3339Instant (toISOString (- 1)) = Some \<lparr>seconds = - 1, nanos = 999000000\<rparr>"
  using timestamp_of_date [of "- 1"] by simp

end
