(* ===== verification/Payload.thy ===== *)
theory Payload
  imports Canonical_Json Ids Timestamps Js_Utf8
begin

text \<open>
  The remaining helpers of src/src/payload.ts: ids and idempotency keys with their byte limits
  (counted in UTF-8), the check for valid Unicode, and the removal of undefined members.
\<close>

section \<open>The operations\<close>

definition exceeds_bytes :: "nat option \<Rightarrow> jstr \<Rightarrow> bool" where
  "exceeds_bytes maxBytes s = (case maxBytes of None \<Rightarrow> False | Some n \<Rightarrow> utf8_length s > n)"

definition validatedId :: "jstr \<Rightarrow> nat option \<Rightarrow> thrown + jstr" where
  "validatedId v maxBytes =
     (if trim v = [] then Inl (medErr MEDALLION_INVALID_EVENT)
      else if exceeds_bytes maxBytes v then Inl (medErr MEDALLION_INVALID_EVENT)
      else Inr v)"

definition requiredId :: "jsval \<Rightarrow> nat option \<Rightarrow> thrown + jstr" where
  "requiredId v maxBytes = bindE (normalizeId v) (\<lambda>s. validatedId s maxBytes)"

definition optionalId :: "jsval \<Rightarrow> nat option \<Rightarrow> thrown + jstr option" where
  "optionalId v maxBytes =
     (if v = JUndef then Inr None
      else bindE (normalizeId v) (\<lambda>s. bindE (validatedId s maxBytes) (\<lambda>t. Inr (Some t))))"

fun hasValidUnicodeScalars :: "jstr \<Rightarrow> bool" where
  "hasValidUnicodeScalars [] = True"
| "hasValidUnicodeScalars (u # us) =
     (if is_lead u then
        (case us of
           [] \<Rightarrow> False
         | v # vs \<Rightarrow> if \<not> is_trail v then False else hasValidUnicodeScalars vs)
      else if is_trail u then False
      else hasValidUnicodeScalars us)"

definition requiredIdempotencyKey :: "jsval \<Rightarrow> nat option \<Rightarrow> thrown + jstr" where
  "requiredIdempotencyKey input maxBytes =
     (case input of
        JStr s \<Rightarrow>
          if s = [] then Inl (medErr MEDALLION_MISSING_IDEMPOTENCY_KEY)
          else if \<not> hasValidUnicodeScalars s then Inl (medErr MEDALLION_INVALID_IDEMPOTENCY_KEY)
          else if exceeds_bytes maxBytes s then Inl (medErr MEDALLION_INVALID_IDEMPOTENCY_KEY)
          else Inr s
      | _ \<Rightarrow> Inl (medErr MEDALLION_MISSING_IDEMPOTENCY_KEY))"

definition compactRecord :: "(jstr \<times> jsval) list \<Rightarrow> (jstr \<times> jsval) list" where
  "compactRecord ps = filter (\<lambda>p. snd p \<noteq> JUndef) ps"

lemma own_prop_compact:
  "distinct (map fst ps) \<Longrightarrow> own_prop (compactRecord ps) k = own_prop ps k"
proof (induction ps)
  case (Cons p ps)
  obtain k' v where p: "p = (k', v)" by (cases p)
  have "own_prop (compactRecord ps) k' = JUndef" if "k' \<notin> fst ` set ps"
    using that by (intro own_prop_not_has) (auto simp: hasOwn_def compactRecord_def)
  with Cons p show ?case by (auto simp: compactRecord_def)
qed (simp add: compactRecord_def)

section \<open>Valid Unicode\<close>

lemma units_of_Cons: "units_of (c # cs) = units_of_scalar c @ units_of cs"
  by (simp add: units_of_def)

lemma valid_scalars_step: "well_formed_utf16 us \<Longrightarrow> scalar_value c \<Longrightarrow> well_formed_utf16 (units_of_scalar c @ us)"
proof -
  assume "well_formed_utf16 us" "scalar_value c"
  then obtain cs where "list_all scalar_value cs" "us = units_of cs" by (auto simp: well_formed_utf16_def)
  with \<open>scalar_value c\<close> have "list_all scalar_value (c # cs)" "units_of_scalar c @ us = units_of (c # cs)"
    by (simp_all add: units_of_Cons)
  then show ?thesis unfolding well_formed_utf16_def by blast
qed

lemma valid_implies_well_formed: "hasValidUnicodeScalars s \<Longrightarrow> well_formed_utf16 s"
proof (induction s rule: hasValidUnicodeScalars.induct)
  case 1
  have "list_all scalar_value [] \<and> [] = units_of []" by (simp add: units_of_def)
  then show ?case unfolding well_formed_utf16_def by blast
next
  case (2 u us)
  show ?case
  proof (cases "is_lead u")
    case True
    with "2.prems" obtain v vs where us: "us = v # vs" "is_trail v" "hasValidUnicodeScalars vs"
      by (auto split: list.splits if_splits)
    with True "2.IH"(1) [OF True us(1)] have "well_formed_utf16 vs" by simp
    from valid_scalars_step [OF this scalar_value_pair [OF True us(2)]] units_of_combine_pair [OF True us(2)]
    show ?thesis by (simp add: us(1))
  next
    case False
    with "2.prems" have "\<not> is_trail u" "hasValidUnicodeScalars us" by (auto split: if_splits)
    with False "2.IH"(2) have "well_formed_utf16 us" by simp
    from valid_scalars_step [OF this scalar_value_lone [of u]] units_of_lone [OF False \<open>\<not> is_trail u\<close>]
    show ?thesis by simp
  qed
qed

lemma well_formed_implies_valid: "list_all scalar_value cs \<Longrightarrow> hasValidUnicodeScalars (units_of cs)"
proof (induction cs)
  case Nil
  then show ?case by (simp add: units_of_def)
next
  case (Cons c cs)
  then have IH: "hasValidUnicodeScalars (units_of cs)" and c: "scalar_value c" by simp_all
  show ?case
  proof (cases "c < 0x10000")
    case True
    with c obtain u where "units_of_scalar c = [u]" "\<not> is_lead u" "\<not> is_trail u"
      using units_of_scalar_single by blast
    with IH show ?thesis by (simp add: units_of_Cons)
  next
    case False
    with c obtain u v where "units_of_scalar c = [u, v]" "is_lead u" "is_trail v"
      using units_of_scalar_pair by blast
    with IH show ?thesis by (simp add: units_of_Cons)
  qed
qed

lemma hasValidUnicodeScalars_iff: "hasValidUnicodeScalars s \<longleftrightarrow> well_formed_utf16 s"
  using valid_implies_well_formed well_formed_implies_valid by (auto simp: well_formed_utf16_def)

text \<open>
  An idempotency key is accepted exactly when it is a non-empty string that is the UTF-16
  form of Unicode scalar values (no lone surrogate) and, under a limit, has at most that many
  bytes in UTF-8; it is then sent unchanged.
\<close>

theorem requiredIdempotencyKey_iff:
  "requiredIdempotencyKey input maxBytes = Inr key \<longleftrightarrow>
     input = JStr key \<and> key \<noteq> [] \<and> well_formed_utf16 key \<and>
     (case maxBytes of None \<Rightarrow> True | Some n \<Rightarrow> utf8_length key \<le> n)"
  by (cases input)
     (auto simp: requiredIdempotencyKey_def hasValidUnicodeScalars_iff exceeds_bytes_def
        split: option.splits)

lemma requiredIdempotencyKey_error:
  "requiredIdempotencyKey input maxBytes = Inl e \<Longrightarrow>
   e = medErr MEDALLION_MISSING_IDEMPOTENCY_KEY \<or> e = medErr MEDALLION_INVALID_IDEMPOTENCY_KEY"
  by (cases input) (auto simp: requiredIdempotencyKey_def split: if_splits)

lemma validatedId_ok: "validatedId v maxBytes = Inr w \<Longrightarrow> w = v \<and> trim w \<noteq> []"
  by (auto simp: validatedId_def split: if_splits)

lemma requiredId_ok: "requiredId v maxBytes = Inr w \<Longrightarrow> normalizeId v = Inr w \<and> trim w \<noteq> []"
  by (auto simp: requiredId_def result_iff dest: validatedId_ok)

end
