(* ===== verification/Headers.thy ===== *)
theory Headers
  imports Sdk_Error
begin

text \<open>
  HTTP headers as the client of src/src/request.ts uses them. The platform's \<open>Headers\<close> is
  an association list under lower-case names; \<open>set\<close> trims the value and refuses a name or
  value that HTTP cannot carry. On top of it the validation of src/src/request.ts: caller
  headers, and the names the SDK reserves for itself.
\<close>

section \<open>The platform's Headers\<close>

type_synonym headers = "(jstr \<times> jstr) list"

definition token_punctuation :: "code_unit list" where
  "token_punctuation = map of_nat [33, 35, 36, 37, 38, 39, 42, 43, 45, 46, 94, 95, 96, 124, 126]"

definition is_token_unit :: "code_unit \<Rightarrow> bool" where
  "is_token_unit u \<longleftrightarrow>
     is_digit u \<or> unit_in CHR ''a'' CHR ''z'' u \<or> unit_in CHR ''A'' CHR ''Z'' u \<or>
     u \<in> set token_punctuation"

definition is_token :: "jstr \<Rightarrow> bool" where
  "is_token s \<longleftrightarrow> s \<noteq> [] \<and> list_all is_token_unit s"

definition http_space :: "code_unit \<Rightarrow> bool" where
  "http_space u \<longleftrightarrow> u = 9 \<or> u = 10 \<or> u = 13 \<or> u = 32"

definition normalize_value :: "jstr \<Rightarrow> jstr" where
  "normalize_value s = rev (dropWhile http_space (rev (dropWhile http_space s)))"

definition legal_value :: "jstr \<Rightarrow> bool" where
  "legal_value s \<longleftrightarrow> list_all (\<lambda>u. u \<le> 0xFF \<and> u \<noteq> 0 \<and> u \<noteq> 10 \<and> u \<noteq> 13) s"

definition type_error :: thrown where
  "type_error =
     Foreign \<lparr>fe_is_error = True, fe_is_dom = False, fe_name = lit ''TypeError'', fe_message = []\<rparr>"

definition header_set :: "headers \<Rightarrow> jstr \<Rightarrow> jstr \<Rightarrow> thrown + headers" where
  "header_set hs name v =
     (if is_token name \<and> legal_value (normalize_value v)
      then Inr (set_prop hs (toLowerCase name) (normalize_value v))
      else Inl type_error)"

definition header_get :: "headers \<Rightarrow> jstr \<Rightarrow> jstr option" where
  "header_get hs name = map_of hs (toLowerCase name)"

definition header_has :: "headers \<Rightarrow> jstr \<Rightarrow> bool" where
  "header_has hs name \<longleftrightarrow> header_get hs name \<noteq> None"

section \<open>Validation\<close>

definition validatedHeaderValue :: "jstr \<Rightarrow> thrown + jstr" where
  "validatedHeaderValue v =
     (if list_all (\<lambda>u. 0x20 \<le> u \<and> u \<le> 0x7E) v then Inr v
      else Inl (medErr MEDALLION_INVALID_HEADER_VALUE))"

definition setValidatedHeader :: "headers \<Rightarrow> jstr \<Rightarrow> jstr \<Rightarrow> thrown + headers" where
  "setValidatedHeader hs name v =
     thenE (validatedHeaderValue v)
       (tryE (header_set hs name v) (\<lambda>_. Inl (medErr MEDALLION_INVALID_HEADER_VALUE)))"

definition PROTECTED_REQUEST_HEADERS :: "jstr list" where
  "PROTECTED_REQUEST_HEADERS =
    [lit ''accept'', lit ''authorization'', lit ''connect-protocol-version'',
     lit ''connect-timeout-ms'', lit ''content-length'', lit ''content-type'', lit ''host'',
     lit ''idempotency-key'', lit ''transfer-encoding'', lit ''x-medallion-api-key'',
     lit ''x-medallion-workspace-id'']"

definition rejectProtectedHeaders :: "headers \<Rightarrow> thrown + unit" where
  "rejectProtectedHeaders hs =
     failIf (list_ex (\<lambda>name. toLowerCase name \<in> set PROTECTED_REQUEST_HEADERS) (map fst hs))
       (medErr MEDALLION_PROTECTED_HEADER)"

text \<open>The loop over \<open>Object.entries(options.headers)\<close>; an undefined value is skipped.\<close>

fun set_caller_headers :: "headers \<Rightarrow> (jstr \<times> jstr option) list \<Rightarrow> thrown + headers" where
  "set_caller_headers hs [] = Inr hs"
| "set_caller_headers hs ((key, None) # rest) = set_caller_headers hs rest"
| "set_caller_headers hs ((key, Some v) # rest) =
     bindE (setValidatedHeader hs key v) (\<lambda>hs'. set_caller_headers hs' rest)"

section \<open>Laws\<close>

text \<open>\<open>header_names\<close>: the names of the headers are in lower case and distinct.\<close>

definition header_names_ok :: "headers \<Rightarrow> bool" where
  "header_names_ok hs \<longleftrightarrow>
     list_all (\<lambda>k. toLowerCase k = k) (map fst hs) \<and> distinct (map fst hs)"

lemma header_names_ok_Nil [simp]: "header_names_ok []"
  by (simp add: header_names_ok_def)

lemma header_get_set:
  "header_set hs name v = Inr hs' \<Longrightarrow>
   header_get hs' other =
     (if toLowerCase other = toLowerCase name then Some (normalize_value v) else header_get hs other)"
  by (auto simp: header_set_def header_get_def map_of_set_prop split: if_splits)

lemma header_set_names:
  "header_set hs name v = Inr hs' \<Longrightarrow> header_names_ok hs \<Longrightarrow> header_names_ok hs'"
proof -
  assume "header_set hs name v = Inr hs'" "header_names_ok hs"
  then have hs': "hs' = set_prop hs (toLowerCase name) (normalize_value v)"
    by (simp add: header_set_def split: if_splits)
  have "fst ` set hs' = insert (toLowerCase name) (fst ` set hs)"
    by (simp add: hs' keys_set_prop)
  with \<open>header_names_ok hs\<close> show ?thesis
    by (auto simp: header_names_ok_def list_all_iff hs' distinct_set_prop)
qed

lemma setValidatedHeader_Inr_iff [result_iff]:
  "setValidatedHeader hs name v = Inr hs' \<longleftrightarrow>
     list_all (\<lambda>u. 0x20 \<le> u \<and> u \<le> 0x7E) v \<and> header_set hs name v = Inr hs'"
  by (auto simp: setValidatedHeader_def validatedHeaderValue_def tryE_Inr_iff)

lemma setValidatedHeader_error:
  "setValidatedHeader hs name v = Inl e \<Longrightarrow> e = medErr MEDALLION_INVALID_HEADER_VALUE"
  by (cases "header_set hs name v")
     (auto simp: setValidatedHeader_def validatedHeaderValue_def split: if_splits)

lemma set_caller_headers_names:
  "set_caller_headers hs entries = Inr hs' \<Longrightarrow> header_names_ok hs \<Longrightarrow> header_names_ok hs'"
  by (induction hs entries rule: set_caller_headers.induct)
     (auto simp: result_iff dest: header_set_names)

lemma set_caller_headers_error:
  "set_caller_headers hs entries = Inl e \<Longrightarrow> e = medErr MEDALLION_INVALID_HEADER_VALUE"
  by (induction hs entries rule: set_caller_headers.induct)
     (auto simp: bindE_Inl_iff dest: setValidatedHeader_error)

lemma rejectProtected_get:
  assumes "rejectProtectedHeaders hs = Inr ()" "header_names_ok hs"
    "toLowerCase name \<in> set PROTECTED_REQUEST_HEADERS"
  shows "header_get hs name = None"
proof (rule ccontr)
  assume "header_get hs name \<noteq> None"
  then have "toLowerCase name \<in> fst ` set hs"
    by (metis header_get_def map_of_eq_None_iff)
  with assms(1,3) show False
    by (auto simp: rejectProtectedHeaders_def result_iff list_ex_iff) (metis fst_conv toLowerCase_idem)
qed

lemma printable_facts:
  fixes u :: code_unit
  assumes "0x20 \<le> u" "u \<le> 0x7E"
  shows "u \<le> 0xFF" "u \<noteq> 0" "u \<noteq> 10" "u \<noteq> 13"
  using assms by (auto simp: word_le_nat_alt)

lemma set_normalize_value: "set (normalize_value s) \<subseteq> set s"
  unfolding normalize_value_def by (auto dest!: set_dropWhileD)

lemma printable_legal:
  assumes "list_all (\<lambda>u. 0x20 \<le> u \<and> u \<le> 0x7E) s"
  shows "legal_value (normalize_value s)"
  using assms set_normalize_value [of s] printable_facts unfolding legal_value_def list_all_iff
  by blast

lemma normalize_value_no_space:
  "list_all (\<lambda>u. \<not> http_space u) s \<Longrightarrow> normalize_value s = s"
proof -
  have drop: "dropWhile http_space t = t" if "list_all (\<lambda>u. \<not> http_space u) t" for t
    using that by (cases t) auto
  assume "list_all (\<lambda>u. \<not> http_space u) s"
  then show ?thesis
    by (simp add: normalize_value_def drop list_all_iff)
qed

end
