(* ===== verification/Tracing.thy ===== *)
theory Tracing
  imports Headers
begin

text \<open>
  Client spans (src/src/tracing.ts) and the trace of effects that the transport theories
  share. The tracer and the propagator belong to OpenTelemetry: the model records the calls
  made on the span, and takes the headers that the propagator injects as an argument.
\<close>

section \<open>Effects\<close>

text \<open>What a request does to its environment, in order.\<close>

datatype effect =
    FetchCall jstr jstr headers "jstr option"
  | Wait jsnum
  | CancelBody
  | SpanStart jstr "(jstr \<times> jstr) list"
  | SpanAttribute jstr jsval
  | SpanException jstr jstr
  | SpanStatusOk
  | SpanStatusError
  | SpanEnd

section \<open>Configuration\<close>

datatype tracer_ref = GivenTracer | NamedTracer jstr

record tracing_options =
  to_enabled :: "bool option"
  to_tracer :: bool
  to_tracerName :: "jstr option"
  to_spanPrefix :: "jstr option"

datatype tracing_config = TracingFlag bool | TracingOptions tracing_options

record normalized_tracing =
  nt_enabled :: bool
  nt_tracer :: tracer_ref
  nt_spanPrefix :: jstr

definition DEFAULT_TRACER_NAME :: jstr where
  "DEFAULT_TRACER_NAME = lit ''@jimtech/medallion''"

definition DEFAULT_SPAN_PREFIX :: jstr where
  "DEFAULT_SPAN_PREFIX = lit ''medallion''"

definition normalizeTracing :: "tracing_config option \<Rightarrow> normalized_tracing" where
  "normalizeTracing config =
     (case config of
        None \<Rightarrow>
          \<lparr>nt_enabled = False, nt_tracer = NamedTracer DEFAULT_TRACER_NAME,
           nt_spanPrefix = DEFAULT_SPAN_PREFIX\<rparr>
      | Some (TracingFlag b) \<Rightarrow>
          \<lparr>nt_enabled = b, nt_tracer = NamedTracer DEFAULT_TRACER_NAME,
           nt_spanPrefix = DEFAULT_SPAN_PREFIX\<rparr>
      | Some (TracingOptions o') \<Rightarrow>
          \<lparr>nt_enabled = orElse (to_enabled o') (to_tracer o'),
           nt_tracer =
             (if to_tracer o' then GivenTracer
              else NamedTracer (orElse (to_tracerName o') DEFAULT_TRACER_NAME)),
           nt_spanPrefix = orElse (to_spanPrefix o') DEFAULT_SPAN_PREFIX\<rparr>)"

section \<open>Spans\<close>

definition allowedTracingHeader :: "jstr \<Rightarrow> bool" where
  "allowedTracingHeader name =
     (let normalized = toLowerCase name in
      normalized \<in> set [lit ''b3'', lit ''baggage'', lit ''grpc-trace-bin'', lit ''traceparent'',
        lit ''tracestate'', lit ''uber-trace-id'', lit ''x-amzn-trace-id'',
        lit ''x-cloud-trace-context''] \<or>
      startsWith normalized (lit ''uberctx-'') \<or> startsWith normalized (lit ''x-b3-''))"

definition setResponseSpanAttributes :: "bool \<Rightarrow> int \<Rightarrow> jstr option \<Rightarrow> effect list" where
  "setResponseSpanAttributes hasSpan status requestId =
     (if \<not> hasSpan then []
      else SpanAttribute (lit ''http.response.status_code'') (JNum (num status)) #
        (case requestId of
           None \<Rightarrow> []
         | Some r \<Rightarrow> [SpanAttribute (lit ''medallion.request_id'') (JStr r)]))"

definition thrown_name :: "thrown \<Rightarrow> jstr" where
  "thrown_name e =
     (case e of Medallion _ \<Rightarrow> lit ''MedallionError'' | Api _ \<Rightarrow> lit ''MedallionApiError''
      | Foreign f \<Rightarrow> fe_name f)"

definition instanceof_Error :: "thrown \<Rightarrow> bool" where
  "instanceof_Error e = (case e of Foreign f \<Rightarrow> fe_is_error f | _ \<Rightarrow> True)"

definition safeErrorName :: "thrown \<Rightarrow> jstr" where
  "safeErrorName error =
     (if \<not> instanceof_Error error then lit ''Error''
      else if thrown_name error \<in>
          set [lit ''AbortError'', lit ''MedallionApiError'', lit ''MedallionError'',
               lit ''TimeoutError'', lit ''TypeError''] then thrown_name error
      else lit ''Error'')"

definition recordSpanException :: "thrown \<Rightarrow> effect list" where
  "recordSpanException error =
     [SpanException (safeErrorName error) (lit ''Medallion request failed.''), SpanStatusError]"

text \<open>\<open>carrier.set\<close> for every header the propagator injects, into fresh \<open>Headers\<close>.\<close>

fun inject :: "headers \<Rightarrow> (jstr \<times> jstr) list \<Rightarrow> thrown + headers" where
  "inject hs [] = Inr hs"
| "inject hs ((key, v) # rest) = bindE (header_set hs key v) (\<lambda>hs'. inject hs' rest)"

text \<open>\<open>options.headers.set(name, value)\<close> for the allowed ones.\<close>

fun copy_allowed :: "headers \<Rightarrow> headers \<Rightarrow> thrown + headers" where
  "copy_allowed hs [] = Inr hs"
| "copy_allowed hs ((name, v) # rest) =
     (if allowedTracingHeader name
      then bindE (header_set hs name v) (\<lambda>hs'. copy_allowed hs' rest)
      else copy_allowed hs rest)"

text \<open>
  \<open>traceRequest\<close>: \<open>run\<close> gets the span (whether there is one), the headers and a state that
  it returns updated. An exception of the propagator leaves before the \<open>try\<close>.
\<close>

definition traceRequest ::
    "normalized_tracing \<Rightarrow> jstr \<Rightarrow> jstr \<Rightarrow> headers \<Rightarrow> (jstr \<times> jstr) list \<Rightarrow> 's \<Rightarrow>
     (bool \<Rightarrow> headers \<Rightarrow> 's \<Rightarrow> (thrown + 'a) \<times> effect list \<times> 's) \<Rightarrow>
     (thrown + 'a) \<times> effect list \<times> 's" where
  "traceRequest tracing method path headers injections s run =
     (if \<not> nt_enabled tracing then run False headers s
      else
        (let started =
               SpanStart (nt_spanPrefix tracing @ lit '' '' @ method @ lit '' '' @ path)
                 [(lit ''medallion.sdk.language'', lit ''typescript''),
                  (lit ''medallion.request.path'', path), (lit ''http.request.method'', method)]
         in case bindE (inject [] injections) (copy_allowed headers) of
              Inl e \<Rightarrow> (Inl e, [started], s)
            | Inr headers' \<Rightarrow>
                (case run True headers' s of
                   (Inr response, fx, s') \<Rightarrow> (Inr response, started # fx @ [SpanStatusOk, SpanEnd], s')
                 | (Inl error, fx, s') \<Rightarrow>
                     (Inl error, started # fx @ recordSpanException error @ [SpanEnd], s'))))"

section \<open>What tracing may change\<close>

lemma protected_not_traced:
  assumes "toLowerCase name \<in> set PROTECTED_REQUEST_HEADERS"
  shows "\<not> allowedTracingHeader name"
proof -
  define n where "n = toLowerCase name"
  have "n \<in> set PROTECTED_REQUEST_HEADERS" using assms by (simp add: n_def)
  then have "n \<noteq> lit ''b3'' \<and> n \<noteq> lit ''baggage'' \<and> n \<noteq> lit ''grpc-trace-bin'' \<and>
      n \<noteq> lit ''traceparent'' \<and> n \<noteq> lit ''tracestate'' \<and> n \<noteq> lit ''uber-trace-id'' \<and>
      n \<noteq> lit ''x-amzn-trace-id'' \<and> n \<noteq> lit ''x-cloud-trace-context''"
    unfolding PROTECTED_REQUEST_HEADERS_def by auto
  moreover have "list_all (\<lambda>p. \<not> startsWith p (lit ''uberctx-'') \<and> \<not> startsWith p (lit ''x-b3-''))
      PROTECTED_REQUEST_HEADERS"
    by (simp add: PROTECTED_REQUEST_HEADERS_def)
  then have "\<not> startsWith n (lit ''uberctx-'') \<and> \<not> startsWith n (lit ''x-b3-'')"
    using \<open>n \<in> set PROTECTED_REQUEST_HEADERS\<close> by (simp add: list_all_iff)
  ultimately show ?thesis by (simp add: allowedTracingHeader_def Let_def n_def)
qed

lemma copy_allowed_get:
  "copy_allowed hs extra = Inr hs' \<Longrightarrow> \<not> allowedTracingHeader name \<Longrightarrow>
   header_get hs' name = header_get hs name"
proof (induction hs extra rule: copy_allowed.induct)
  case (1 hs)
  then show ?case by simp
next
  case (2 hs n v rest)
  have ne: "allowedTracingHeader n \<Longrightarrow> toLowerCase name \<noteq> toLowerCase n"
    using "2.prems"(2) by (auto simp: allowedTracingHeader_def)
  with 2 show ?case by (auto simp: result_iff header_get_set split: if_splits)
qed

end
