(* ===== verification/Request_Config.thy ===== *)
theory Request_Config
  imports Tracing
begin

text \<open>
  The constructor of \<open>RequestClient\<close> (src/src/request.ts) and the validation it calls:
  origin, credential, workspace selector, timeout and retry policy. The URL parser is the
  platform's and a parameter (\<open>parse_url\<close>). The last section shows what a client that was
  constructed satisfies; everything the transport theories say about a client rests on it.
\<close>

section \<open>Text predicates\<close>

definition containsAsciiControl :: "jstr \<Rightarrow> bool" where
  "containsAsciiControl s \<longleftrightarrow> list_ex (\<lambda>u. u \<le> 0x1F \<or> u = 0x7F) s"

definition nonBlank :: "jstr option \<Rightarrow> jstr option" where
  "nonBlank v =
     (case v of None \<Rightarrow> None | Some s \<Rightarrow> if trim s = [] then None else Some (trim s))"

text \<open>The text after the first occurrence of a separator: \<open>indexOf\<close> and \<open>slice\<close>.\<close>

fun after_first :: "jstr \<Rightarrow> jstr \<Rightarrow> jstr option" where
  "after_first sep [] = (if sep = [] then Some [] else None)"
| "after_first sep (c # cs) =
     (if take (length sep) (c # cs) = sep then Some (drop (length sep) (c # cs))
      else after_first sep cs)"

definition hasNonOriginSuffix :: "jstr \<Rightarrow> bool" where
  "hasNonOriginSuffix v =
     (case after_first (lit ''://'') v of
        None \<Rightarrow> True
      | Some rest \<Rightarrow>
          (let suffix = dropWhile (\<lambda>u. u \<notin> set (lit ''/?#'')) rest
           in suffix \<noteq> [] \<and> suffix \<noteq> lit ''/''))"

text \<open>\<open>/^127(?:\.\d{1,3}){3}$/\<close>.\<close>

definition dotted_127 :: "jstr \<Rightarrow> bool" where
  "dotted_127 s =
     (case split_on (lit ''.'') s of
        [a, b, c, d] \<Rightarrow>
          a = lit ''127'' \<and> list_all (\<lambda>p. all_digits p \<and> length p \<le> 3) [b, c, d]
      | _ \<Rightarrow> False)"

definition isLoopbackHostname :: "jstr \<Rightarrow> bool" where
  "isLoopbackHostname hostname =
     (let normalized = toLowerCase hostname
      in normalized = lit ''localhost'' \<or> normalized = lit ''[::1]'' \<or> dotted_127 normalized)"

text \<open>\<open>[0-9a-hjkmnp-tv-z]\<close>: the digits and lower-case letters but i, l, o and u.\<close>

definition is_ulid_unit :: "code_unit \<Rightarrow> bool" where
  "is_ulid_unit u \<longleftrightarrow>
     is_digit u \<or> unit_in CHR ''a'' CHR ''h'' u \<or> u = of_char CHR ''j'' \<or> u = of_char CHR ''k'' \<or>
     u = of_char CHR ''m'' \<or> u = of_char CHR ''n'' \<or> unit_in CHR ''p'' CHR ''t'' u \<or>
     unit_in CHR ''v'' CHR ''z'' u"

definition workspace_pattern :: "jstr \<Rightarrow> bool" where
  "workspace_pattern s \<longleftrightarrow>
     take 3 s = lit ''ws_'' \<and> length s = 29 \<and> list_all is_ulid_unit (drop 3 s)"

section \<open>Options\<close>

record url =
  url_protocol :: jstr
  url_hostname :: jstr
  url_host :: jstr
  url_username :: jstr
  url_password :: jstr
  url_pathname :: jstr
  url_search :: jstr
  url_hash :: jstr
  url_origin :: jstr

text \<open>A retry option that is present but undefined behaves as NaN: every check refuses it.\<close>

record retry_options =
  ro_maxAttempts :: "jsnum option"
  ro_initialDelayMs :: "jsnum option"
  ro_maxDelayMs :: "jsnum option"
  ro_jitterRatio :: "jsnum option"

record request_client_options =
  rco_baseUrl :: jsval
  rco_apiKey :: "jstr option"
  rco_accessToken :: "jstr option"
  rco_workspaceId :: jsval
  rco_fetch :: bool
  rco_timeoutMs :: "jsnum option"
  rco_retry :: "retry_options option"
  rco_tracing :: "tracing_config option"

text \<open>After the checks the attempts are a count and the delays are finite numbers.\<close>

record normalized_retry =
  nr_maxAttempts :: nat
  nr_initialDelayMs :: rat
  nr_maxDelayMs :: rat
  nr_jitterRatio :: rat

datatype credential = AccessToken jstr | ApiKey jstr

fun credential_value :: "credential \<Rightarrow> jstr" where
  "credential_value (AccessToken v) = v"
| "credential_value (ApiKey v) = v"

record request_client =
  cl_baseUrl :: jstr
  cl_credential :: credential
  cl_workspaceId :: jstr
  cl_timeoutMs :: int
  cl_retry :: normalized_retry
  cl_tracing :: normalized_tracing

definition DEFAULT_TIMEOUT_MS :: jsnum where
  "DEFAULT_TIMEOUT_MS = num 30000"

definition MAX_TIMER_DELAY_MS :: int where
  "MAX_TIMER_DELAY_MS = 2147483647"

definition MAX_CONNECT_TIMEOUT_MS :: int where
  "MAX_CONNECT_TIMEOUT_MS = MAX_TIMER_DELAY_MS"

section \<open>Validation\<close>

definition num_rat :: "jsnum \<Rightarrow> rat" where
  "num_rat n = (case n of Fin r \<Rightarrow> r | _ \<Rightarrow> 0)"

definition normalizeTimeout :: "jsnum \<Rightarrow> thrown + int" where
  "normalizeTimeout v =
     (if \<not> isFinite v \<or> num_le v (num 0) \<or> num_less (num MAX_CONNECT_TIMEOUT_MS) v
      then Inl (medErr MEDALLION_INVALID_TIMEOUT)
      else Inr \<lceil>num_rat v\<rceil>)"

definition normalizeRetry :: "retry_options option \<Rightarrow> thrown + normalized_retry" where
  "normalizeRetry v =
     (let maxAttempts = orElse (Option.bind v ro_maxAttempts) (num 1);
          initialDelayMs = orElse (Option.bind v ro_initialDelayMs) (num 200);
          maxDelayMs = orElse (Option.bind v ro_maxDelayMs) (num 2000);
          jitterRatio = orElse (Option.bind v ro_jitterRatio) (Fin (2 / 10))
      in thenE (failIf (\<not> isInteger maxAttempts \<or> num_less maxAttempts (num 1) \<or>
                        num_less (num 5) maxAttempts) (medErr MEDALLION_INVALID_RETRY_OPTIONS))
         (thenE (failIf (\<not> isFinite initialDelayMs \<or> num_less initialDelayMs (num 0))
                   (medErr MEDALLION_INVALID_RETRY_OPTIONS))
         (thenE (failIf (\<not> isFinite maxDelayMs \<or> num_less maxDelayMs initialDelayMs \<or>
                         num_less (num 5000) maxDelayMs) (medErr MEDALLION_INVALID_RETRY_OPTIONS))
         (thenE (failIf (\<not> isFinite jitterRatio \<or> num_less jitterRatio (num 0) \<or>
                         num_less (num 1) jitterRatio) (medErr MEDALLION_INVALID_RETRY_OPTIONS))
         (Inr \<lparr>nr_maxAttempts = nat (num_int maxAttempts),
               nr_initialDelayMs = num_rat initialDelayMs,
               nr_maxDelayMs = num_rat maxDelayMs,
               nr_jitterRatio = num_rat jitterRatio\<rparr>)))))"

definition validatedCredential :: "jstr \<Rightarrow> thrown + jstr" where
  "validatedCredential v =
     (if v \<noteq> [] \<and> list_all (\<lambda>u. 0x21 \<le> u \<and> u \<le> 0x7E) v then Inr v
      else Inl (medErr MEDALLION_INVALID_CREDENTIAL))"

definition requiredWorkspaceSelector :: "jsval \<Rightarrow> thrown + jstr" where
  "requiredWorkspaceSelector v =
     (case v of
        JStr s \<Rightarrow>
          if s = [] then Inl (medErr MEDALLION_MISSING_WORKSPACE_ID)
          else if \<not> workspace_pattern s then Inl (medErr MEDALLION_INVALID_WORKSPACE_ID)
          else Inr s
      | _ \<Rightarrow> Inl (medErr MEDALLION_MISSING_WORKSPACE_ID))"

definition normalizeBaseUrl :: "(jstr \<Rightarrow> url option) \<Rightarrow> jsval \<Rightarrow> thrown + url" where
  "normalizeBaseUrl parse_url v =
     (case v of
        JStr s \<Rightarrow>
          if containsAsciiControl s then Inl (medErr MEDALLION_INVALID_OPTIONS)
          else
            (let baseUrl = trim s in
             if baseUrl = [] then Inl (medErr MEDALLION_INVALID_OPTIONS)
             else
               (case parse_url baseUrl of
                  None \<Rightarrow> Inl (medErr MEDALLION_INVALID_OPTIONS)
                | Some u \<Rightarrow>
                    if (url_protocol u \<noteq> lit ''http:'' \<and> url_protocol u \<noteq> lit ''https:'') \<or>
                       (url_protocol u = lit ''http:'' \<and> \<not> isLoopbackHostname (url_hostname u)) \<or>
                       url_host u = [] \<or> url_username u \<noteq> [] \<or> url_password u \<noteq> [] \<or>
                       hasNonOriginSuffix baseUrl \<or> url_pathname u \<noteq> lit ''/'' \<or>
                       url_search u \<noteq> [] \<or> url_hash u \<noteq> []
                    then Inl (medErr MEDALLION_INVALID_OPTIONS)
                    else Inr u))
      | _ \<Rightarrow> Inl (medErr MEDALLION_INVALID_OPTIONS))"

definition chooseCredential :: "jstr option \<Rightarrow> jstr option \<Rightarrow> thrown + credential" where
  "chooseCredential accessToken apiKey =
     (case (accessToken, apiKey) of
        (Some _, Some _) \<Rightarrow> Inl (medErr MEDALLION_AMBIGUOUS_CREDENTIALS)
      | (None, None) \<Rightarrow> Inl (medErr MEDALLION_INVALID_OPTIONS)
      | (Some t, None) \<Rightarrow> Inr (AccessToken t)
      | (None, Some k) \<Rightarrow> Inr (ApiKey k))"

definition validateCredential :: "credential \<Rightarrow> thrown + credential" where
  "validateCredential c = thenE (validatedCredential (credential_value c)) (Inr c)"

definition newRequestClient ::
    "(jstr \<Rightarrow> url option) \<Rightarrow> request_client_options \<Rightarrow> thrown + request_client" where
  "newRequestClient parse_url options =
     bindE (normalizeBaseUrl parse_url (rco_baseUrl options)) (\<lambda>parsed.
     bindE (chooseCredential (nonBlank (rco_accessToken options)) (nonBlank (rco_apiKey options)))
       (\<lambda>chosen.
     thenE (failIf (\<not> rco_fetch options) (medErr MEDALLION_FETCH_UNAVAILABLE))
     (bindE (validateCredential chosen) (\<lambda>cred.
      bindE (requiredWorkspaceSelector (rco_workspaceId options)) (\<lambda>workspaceId.
      bindE (normalizeTimeout (orElse (rco_timeoutMs options) DEFAULT_TIMEOUT_MS)) (\<lambda>timeoutMs.
      bindE (normalizeRetry (rco_retry options)) (\<lambda>retry.
      Inr \<lparr>cl_baseUrl = url_origin parsed, cl_credential = cred, cl_workspaceId = workspaceId,
           cl_timeoutMs = timeoutMs, cl_retry = retry,
           cl_tracing = normalizeTracing (rco_tracing options)\<rparr>)))))))"

section \<open>What a constructed client satisfies\<close>

definition timeout_ok :: "int \<Rightarrow> bool" where
  "timeout_ok t \<longleftrightarrow> 1 \<le> t \<and> t \<le> MAX_CONNECT_TIMEOUT_MS"

definition retry_ok :: "normalized_retry \<Rightarrow> bool" where
  "retry_ok r \<longleftrightarrow>
     1 \<le> nr_maxAttempts r \<and> nr_maxAttempts r \<le> 5 \<and> 0 \<le> nr_initialDelayMs r \<and>
     nr_initialDelayMs r \<le> nr_maxDelayMs r \<and> nr_maxDelayMs r \<le> 5000 \<and>
     0 \<le> nr_jitterRatio r \<and> nr_jitterRatio r \<le> 1"

definition credential_ok :: "credential \<Rightarrow> bool" where
  "credential_ok c \<longleftrightarrow>
     credential_value c \<noteq> [] \<and> list_all (\<lambda>u. 0x21 \<le> u \<and> u \<le> 0x7E) (credential_value c)"

definition client_ok :: "request_client \<Rightarrow> bool" where
  "client_ok c \<longleftrightarrow>
     credential_ok (cl_credential c) \<and> workspace_pattern (cl_workspaceId c) \<and>
     timeout_ok (cl_timeoutMs c) \<and> retry_ok (cl_retry c)"

lemma normalizeTimeout_ok: "normalizeTimeout v = Inr t \<Longrightarrow> timeout_ok t"
proof -
  assume ok: "normalizeTimeout v = Inr t"
  then obtain r where r: "v = Fin r"
    by (cases v) (auto simp: normalizeTimeout_def isFinite_def)
  with ok have t: "t = \<lceil>r\<rceil>" and pos: "0 < r" and le: "r \<le> of_int MAX_CONNECT_TIMEOUT_MS"
    by (auto simp: normalizeTimeout_def isFinite_def num_le_def num_def num_rat_def split: if_splits)
  from pos have "1 \<le> \<lceil>r\<rceil>" by (simp add: one_le_ceiling)
  moreover from le have "\<lceil>r\<rceil> \<le> MAX_CONNECT_TIMEOUT_MS" by (simp add: ceiling_le_iff)
  ultimately show ?thesis by (simp add: timeout_ok_def t)
qed

lemma normalizeTimeout_error: "normalizeTimeout v = Inl e \<Longrightarrow> e = medErr MEDALLION_INVALID_TIMEOUT"
  by (auto simp: normalizeTimeout_def split: if_splits)

lemma finite_bounds:
  assumes "isFinite n" "\<not> num_less n (num i)" "\<not> num_less (num j) n"
  shows "of_int i \<le> num_rat n" "num_rat n \<le> of_int j"
  using assms by (cases n; simp add: isFinite_def num_def num_rat_def)+

lemma finite_le: "isFinite m \<Longrightarrow> isFinite n \<Longrightarrow> \<not> num_less n m \<Longrightarrow> num_rat m \<le> num_rat n"
  by (cases m; cases n) (simp_all add: isFinite_def num_rat_def)

lemma normalizeRetry_ok: "normalizeRetry v = Inr r \<Longrightarrow> retry_ok r"
proof -
  assume ok: "normalizeRetry v = Inr r"
  define a b c d where "a = orElse (Option.bind v ro_maxAttempts) (num 1)"
    and "b = orElse (Option.bind v ro_initialDelayMs) (num 200)"
    and "c = orElse (Option.bind v ro_maxDelayMs) (num 2000)"
    and "d = orElse (Option.bind v ro_jitterRatio) (Fin (2 / 10))"
  note abcd = a_def b_def c_def d_def
  have a: "isInteger a" "\<not> num_less a (num 1)" "\<not> num_less (num 5) a"
    and b: "isFinite b" "\<not> num_less b (num 0)"
    and c: "isFinite c" "\<not> num_less c b" "\<not> num_less (num 5000) c"
    and d: "isFinite d" "\<not> num_less d (num 0)" "\<not> num_less (num 1) d"
    and r: "r = \<lparr>nr_maxAttempts = nat (num_int a), nr_initialDelayMs = num_rat b,
               nr_maxDelayMs = num_rat c, nr_jitterRatio = num_rat d\<rparr>"
    using ok by (auto simp: normalizeRetry_def Let_def result_iff abcd)
  from a have "1 \<le> num_int a" "num_int a \<le> 5" by (auto simp: isInteger_iff)
  then have attempts: "1 \<le> nat (num_int a)" "nat (num_int a) \<le> 5" by simp_all
  have "0 \<le> num_rat b" using b by (cases b) (auto simp: isFinite_def num_def num_rat_def)
  moreover have "num_rat b \<le> num_rat c" using finite_le [OF b(1) c(1,2)] .
  moreover have "num_rat c \<le> 5000" using c by (cases c) (auto simp: isFinite_def num_def num_rat_def)
  moreover have "0 \<le> num_rat d" "num_rat d \<le> 1" using finite_bounds [OF d] by simp_all
  ultimately show ?thesis using attempts by (simp add: retry_ok_def r)
qed

lemma normalizeRetry_error: "normalizeRetry v = Inl e \<Longrightarrow> e = medErr MEDALLION_INVALID_RETRY_OPTIONS"
  by (auto simp: normalizeRetry_def Let_def error_iff)

lemma validateCredential_ok: "validateCredential c = Inr c' \<Longrightarrow> c' = c \<and> credential_ok c"
  by (auto simp: validateCredential_def validatedCredential_def credential_ok_def result_iff
      split: if_splits)

lemma requiredWorkspaceSelector_ok:
  "requiredWorkspaceSelector v = Inr w \<longleftrightarrow> v = JStr w \<and> workspace_pattern w"
  by (cases v) (auto simp: requiredWorkspaceSelector_def workspace_pattern_def)

lemma newRequestClient_ok: "newRequestClient parse_url options = Inr c \<Longrightarrow> client_ok c"
  by (auto simp: newRequestClient_def result_iff client_ok_def requiredWorkspaceSelector_ok
      dest: validateCredential_ok normalizeTimeout_ok normalizeRetry_ok)

text \<open>The origins the SDK talks to: HTTPS, or HTTP on a loopback host, and nothing else in
  the URL.\<close>

definition allowed_origin :: "url \<Rightarrow> bool" where
  "allowed_origin u \<longleftrightarrow>
     (url_protocol u = lit ''https:'' \<or>
      url_protocol u = lit ''http:'' \<and> isLoopbackHostname (url_hostname u)) \<and>
     url_username u = [] \<and> url_password u = [] \<and> url_pathname u = lit ''/'' \<and>
     url_search u = [] \<and> url_hash u = []"

lemma normalizeBaseUrl_ok:
  "normalizeBaseUrl parse_url v = Inr u \<Longrightarrow>
   allowed_origin u \<and> (\<exists>s. v = JStr s \<and> parse_url (trim s) = Some u)"
  by (cases v) (auto simp: normalizeBaseUrl_def allowed_origin_def Let_def split: if_splits option.splits)

text \<open>
  C30. A client that was constructed has one credential, printable ASCII without spaces, and was
  not given two; a well-formed workspace id; a whole timeout between 1 and 2147483647 ms; 1 to 5
  attempts, with delays between 0 and 5000 ms and a jitter ratio between 0 and 1; and its base
  URL is the origin of an HTTPS URL, or of an HTTP URL of a loopback host, without user
  information, path, query or fragment.
\<close>

theorem constructed_client_ok:
  assumes "newRequestClient parse_url options = Inr c"
  shows "credential_ok (cl_credential c) \<and> workspace_pattern (cl_workspaceId c) \<and>
    timeout_ok (cl_timeoutMs c) \<and> retry_ok (cl_retry c) \<and>
    (nonBlank (rco_accessToken options) = None \<or> nonBlank (rco_apiKey options) = None) \<and>
    (\<exists>s u. rco_baseUrl options = JStr s \<and> parse_url (trim s) = Some u \<and> allowed_origin u \<and>
       cl_baseUrl c = url_origin u)"
proof -
  have "client_ok c" using newRequestClient_ok assms .
  moreover have "nonBlank (rco_accessToken options) = None \<or> nonBlank (rco_apiKey options) = None"
    using assms by (auto simp: newRequestClient_def chooseCredential_def result_iff split: option.splits)
  moreover obtain u where "normalizeBaseUrl parse_url (rco_baseUrl options) = Inr u"
    "cl_baseUrl c = url_origin u"
    using assms by (auto simp: newRequestClient_def result_iff)
  ultimately show ?thesis
    using normalizeBaseUrl_ok [of parse_url "rco_baseUrl options" u] by (auto simp: client_ok_def)
qed

section \<open>A concrete client, for the witnesses\<close>

definition sample_retry :: normalized_retry where
  "sample_retry = \<lparr>nr_maxAttempts = 3, nr_initialDelayMs = 0, nr_maxDelayMs = 0, nr_jitterRatio = 0\<rparr>"

definition sample_client :: request_client where
  "sample_client =
     \<lparr>cl_baseUrl = lit ''https://api.example.com'', cl_credential = ApiKey (lit ''hunter2''),
      cl_workspaceId = lit ''ws_00000000000000000000000000'', cl_timeoutMs = 30000,
      cl_retry = sample_retry, cl_tracing = normalizeTracing None\<rparr>"

lemma sample_client_ok: "client_ok sample_client"
  by (simp add: client_ok_def credential_ok_def workspace_pattern_def timeout_ok_def retry_ok_def
      sample_retry_def sample_client_def MAX_CONNECT_TIMEOUT_MS_def MAX_TIMER_DELAY_MS_def lit_def is_ulid_unit_def
      is_digit_def unit_in_def)

definition sample_url :: url where
  "sample_url =
     \<lparr>url_protocol = lit ''https:'', url_hostname = lit ''api.example.com'',
      url_host = lit ''api.example.com'', url_username = [], url_password = [],
      url_pathname = lit ''/'', url_search = [], url_hash = [],
      url_origin = lit ''https://api.example.com''\<rparr>"

definition sample_options :: request_client_options where
  "sample_options =
     \<lparr>rco_baseUrl = JStr (lit ''https://api.example.com''), rco_apiKey = Some (lit ''hunter2''),
      rco_accessToken = None, rco_workspaceId = JStr (lit ''ws_00000000000000000000000000''),
      rco_fetch = True, rco_timeoutMs = None,
      rco_retry = Some \<lparr>ro_maxAttempts = Some (num 3), ro_initialDelayMs = Some (num 0),
        ro_maxDelayMs = Some (num 0), ro_jitterRatio = Some (num 0)\<rparr>,
      rco_tracing = None\<rparr>"

theorem constructed_client_ok_witness:
  "isOk (newRequestClient (\<lambda>_. Some sample_url) sample_options) \<and>
   (\<exists>c. newRequestClient (\<lambda>_. Some sample_url) sample_options = Inr c \<and> retry_ok (cl_retry c))"
proof -
  have ok: "isOk (newRequestClient (\<lambda>_. Some sample_url) sample_options)" by code_simp
  then obtain c where "newRequestClient (\<lambda>_. Some sample_url) sample_options = Inr c"
    by (auto simp: isOk_iff)
  with constructed_client_ok [OF this] ok show ?thesis by blast
qed

end
