(* ===== verification/Ingestion.thy ===== *)
theory Ingestion
  imports Payload Request_Config
begin

unbundle bit_operations_syntax

text \<open>
  The shared rules of event ingestion (src/src/ingestion.ts): connector and page size, the
  checking of publish acknowledgements against the keys that were sent, the validation of
  listed events, the recovery of an actor from a payload, and the derivation of idempotency
  keys. Values that a validator takes as \<open>unknown\<close> are a \<open>jsval\<close>; SHA-1 is a parameter.
\<close>

section \<open>Selectors and limits\<close>

definition DEFAULT_INGESTION_PAGE_SIZE :: int where "DEFAULT_INGESTION_PAGE_SIZE = 100"
definition MAX_INGESTION_PAGE_SIZE :: int where "MAX_INGESTION_PAGE_SIZE = 500"
definition MAX_INGESTION_BATCH_SIZE :: nat where "MAX_INGESTION_BATCH_SIZE = 1000"
definition MAX_INGESTION_ITERATOR_PAGES :: nat where "MAX_INGESTION_ITERATOR_PAGES = 10000"
definition MAX_CONNECTOR_ID_BYTES :: nat where "MAX_CONNECTOR_ID_BYTES = 128"

definition boundedText :: "jstr \<Rightarrow> nat option \<Rightarrow> error_code \<Rightarrow> thrown + jstr" where
  "boundedText v maxBytes code = (if exceeds_bytes maxBytes v then Inl (medErr code) else Inr v)"

definition requiredConnectorId :: "jstr option \<Rightarrow> thrown + jstr" where
  "requiredConnectorId v =
     (case map_option trim v of
        None \<Rightarrow> Inl (medErr MEDALLION_MISSING_CONNECTOR_ID)
      | Some connectorId \<Rightarrow>
          if connectorId = [] then Inl (medErr MEDALLION_MISSING_CONNECTOR_ID)
          else boundedText connectorId (Some MAX_CONNECTOR_ID_BYTES) MEDALLION_INVALID_CONNECTOR_ID)"

definition ingestionPageSize :: "jsnum option \<Rightarrow> thrown + int" where
  "ingestionPageSize v =
     (case v of
        None \<Rightarrow> Inr DEFAULT_INGESTION_PAGE_SIZE
      | Some n \<Rightarrow>
          if n = num 0 then Inr DEFAULT_INGESTION_PAGE_SIZE
          else if \<not> isInteger n \<or> num_less n (num 1) \<or> num_less (num MAX_INGESTION_PAGE_SIZE) n
          then Inl (medErr MEDALLION_INVALID_PAGE_SIZE)
          else Inr (num_int n))"

definition validateBatchSize :: "'a list \<Rightarrow> thrown + unit" where
  "validateBatchSize events =
     failIf (length events < 1 \<or> length events > MAX_INGESTION_BATCH_SIZE)
       (medErr MEDALLION_INVALID_BATCH_SIZE)"

definition requiredText :: "jsval \<Rightarrow> nat option \<Rightarrow> thrown + jstr" where
  "requiredText v maxBytes =
     (case v of
        JStr s \<Rightarrow>
          if trim s = [] then Inl (medErr MEDALLION_INVALID_EVENT)
          else boundedText s maxBytes MEDALLION_INVALID_EVENT
      | _ \<Rightarrow> Inl (medErr MEDALLION_INVALID_EVENT))"

definition optionalText :: "jstr option \<Rightarrow> nat \<Rightarrow> thrown + jstr option" where
  "optionalText v maxBytes =
     (case v of
        None \<Rightarrow> Inr None
      | Some s \<Rightarrow>
          if s = [] then Inr None
          else bindE (boundedText s (Some maxBytes) MEDALLION_INVALID_EVENT) (\<lambda>t. Inr (Some t)))"

text \<open>The two guards of an iteration over pages.\<close>

definition assertIteratorPageWithinLimit :: "nat \<Rightarrow> thrown + unit" where
  "assertIteratorPageWithinLimit page =
     failIf (page > MAX_INGESTION_ITERATOR_PAGES) (medErr MEDALLION_PAGINATION_LIMIT)"

definition repeatedCursor :: thrown where
  "repeatedCursor = medErr MEDALLION_REPEATED_CURSOR"

section \<open>Publish acknowledgements\<close>

record published_receipt =
  rc_idempotency_key :: "jstr option"
  rc_event_id :: jsval
  rc_duplicate :: "bool option"

record publish_response =
  pr_accepted_count :: "jsnum option"
  pr_duplicate_count :: "jsnum option"
  pr_events :: "published_receipt list option"

record published_event =
  pe_idempotencyKey :: jstr
  pe_eventId :: jstr
  pe_duplicate :: bool

datatype ack = accepted | duplicate | mixed

record event_batch_response =
  eb_requestId :: "jstr option"
  eb_duplicate :: bool
  eb_result :: ack
  eb_acceptedCount :: nat
  eb_duplicateCount :: nat
  eb_events :: "published_event list"

record event_record_response =
  er_requestId :: "jstr option"
  er_duplicate :: bool
  er_result :: ack
  er_acceptedCount :: nat
  er_duplicateCount :: nat
  er_events :: "published_event list"
  er_idempotencyKey :: jstr

definition invalidPublishResponse :: "jstr option \<Rightarrow> thrown" where
  "invalidPublishResponse requestId = medErrR MEDALLION_INVALID_PUBLISH_RESPONSE requestId"

definition invalidListResponse :: "jstr option \<Rightarrow> thrown" where
  "invalidListResponse requestId = medErrR MEDALLION_INVALID_LIST_RESPONSE requestId"

text \<open>The common test of \<open>losslessInteger\<close> and \<open>requiredListEventId\<close>, which differ in the
  error they throw.\<close>

definition positive_id :: "jsval \<Rightarrow> thrown \<Rightarrow> thrown + jstr" where
  "positive_id v e =
     (case v of
        JStr s \<Rightarrow> if \<not> all_digits s \<or> parse_dec s = 0 then Inl e else Inr s
      | JNum n \<Rightarrow> if \<not> isSafeInteger n \<or> num_le n (num 0) then Inl e else Inr (num_text n)
      | _ \<Rightarrow> Inl e)"

definition losslessInteger :: "jsval \<Rightarrow> jstr option \<Rightarrow> thrown + jstr" where
  "losslessInteger v requestId = positive_id v (invalidPublishResponse requestId)"

definition batch_event :: "jstr option \<Rightarrow> published_receipt \<Rightarrow> jstr \<Rightarrow> thrown + published_event" where
  "batch_event requestId receipt expectedKey =
     (case rc_idempotency_key receipt of
        None \<Rightarrow> Inl (invalidPublishResponse requestId)
      | Some idempotencyKey \<Rightarrow>
          if idempotencyKey \<noteq> expectedKey then Inl (invalidPublishResponse requestId)
          else bindE (losslessInteger (rc_event_id receipt) requestId) (\<lambda>eventId.
            Inr \<lparr>pe_idempotencyKey = idempotencyKey, pe_eventId = eventId,
                 pe_duplicate = orElse (rc_duplicate receipt) False\<rparr>))"

definition batchResponse ::
    "publish_response \<Rightarrow> jstr list \<Rightarrow> jstr option \<Rightarrow> thrown + event_batch_response" where
  "batchResponse body expectedKeys requestId =
     (let receipts = orElse (pr_events body) [] in
      thenE (failIf (length receipts \<noteq> length expectedKeys) (invalidPublishResponse requestId))
      (bindE (mapE (\<lambda>(receipt, key). batch_event requestId receipt key) (zip receipts expectedKeys))
        (\<lambda>events.
          (let acceptedCount = length (filter (\<lambda>e. \<not> pe_duplicate e) events);
               duplicateCount = length events - acceptedCount;
               result = (if 0 < acceptedCount \<and> 0 < duplicateCount then mixed
                         else if 0 < duplicateCount then duplicate else accepted)
           in thenE (failIf (orElse (pr_accepted_count body) (num 0) \<noteq> num (int acceptedCount) \<or>
                             orElse (pr_duplicate_count body) (num 0) \<noteq> num (int duplicateCount))
                       (invalidPublishResponse requestId))
                (Inr \<lparr>eb_requestId = requestId, eb_duplicate = (acceptedCount = 0),
                      eb_result = result, eb_acceptedCount = acceptedCount,
                      eb_duplicateCount = duplicateCount, eb_events = events\<rparr>)))))"

definition singleEventResponse :: "event_batch_response \<Rightarrow> thrown + event_record_response" where
  "singleEventResponse response =
     (case eb_events response of
        [] \<Rightarrow> Inl (invalidPublishResponse (eb_requestId response))
      | receipt # _ \<Rightarrow>
          Inr \<lparr>er_requestId = eb_requestId response, er_duplicate = pe_duplicate receipt,
               er_result = (if pe_duplicate receipt then duplicate else accepted),
               er_acceptedCount = eb_acceptedCount response,
               er_duplicateCount = eb_duplicateCount response, er_events = eb_events response,
               er_idempotencyKey = pe_idempotencyKey receipt\<rparr>)"

section \<open>Listed events\<close>

definition requiredListEventId :: "jsval \<Rightarrow> jstr option \<Rightarrow> thrown + jstr" where
  "requiredListEventId v requestId = positive_id v (invalidListResponse requestId)"

definition boundedListText :: "jstr \<Rightarrow> nat option \<Rightarrow> jstr option \<Rightarrow> thrown + jstr" where
  "boundedListText v maxBytes requestId =
     (if exceeds_bytes maxBytes v then Inl (invalidListResponse requestId) else Inr v)"

definition requiredListText :: "jsval \<Rightarrow> nat option \<Rightarrow> jstr option \<Rightarrow> thrown + jstr" where
  "requiredListText v maxBytes requestId =
     (case v of
        JStr s \<Rightarrow>
          if trim s = [] then Inl (invalidListResponse requestId)
          else boundedListText s maxBytes requestId
      | _ \<Rightarrow> Inl (invalidListResponse requestId))"

definition requiredListIdempotencyKey :: "jsval \<Rightarrow> jstr option \<Rightarrow> thrown + jstr" where
  "requiredListIdempotencyKey v requestId =
     tryE (requiredIdempotencyKey v (Some 512)) (\<lambda>_. Inl (invalidListResponse requestId))"

definition requiredResponseWorkspace :: "jsval \<Rightarrow> jstr \<Rightarrow> jstr option \<Rightarrow> thrown + jstr" where
  "requiredResponseWorkspace v expected requestId =
     bindE (requiredListText v (Some 29) requestId) (\<lambda>workspaceId.
     thenE (failIf (\<not> workspace_pattern workspaceId) (invalidListResponse requestId))
     (thenE (failIf (workspaceId \<noteq> expected) (medErrR MEDALLION_WORKSPACE_SELECTOR_CONFLICT requestId))
       (Inr workspaceId)))"

definition optionalListText :: "jsval \<Rightarrow> nat \<Rightarrow> jstr option \<Rightarrow> thrown + jstr option" where
  "optionalListText v maxBytes requestId =
     (case v of
        JUndef \<Rightarrow> Inr None
      | JStr s \<Rightarrow>
          if s = [] then Inr None
          else bindE (boundedListText s (Some maxBytes) requestId) (\<lambda>t. Inr (Some t))
      | _ \<Rightarrow> Inl (invalidListResponse requestId))"

text \<open>1900-01-01T00:00:00Z and 2262-04-11T23:47:16.854775807Z, the last nanosecond of a signed
  64-bit count.\<close>

definition MIN_TIMESTAMP_SECONDS :: int where
  "MIN_TIMESTAMP_SECONDS = day_number 1900 1 1 * 86400"

definition MAX_TIMESTAMP_SECONDS :: int where
  "MAX_TIMESTAMP_SECONDS = day_number 2262 4 11 * 86400 + 23 * 3600 + 47 * 60 + 16"

definition MAX_TIMESTAMP_NANOS :: int where
  "MAX_TIMESTAMP_NANOS = 854775807"

definition outside_analytical_range :: "rfc3339_instant \<Rightarrow> bool" where
  "outside_analytical_range instant \<longleftrightarrow>
     seconds instant < MIN_TIMESTAMP_SECONDS \<or> seconds instant > MAX_TIMESTAMP_SECONDS \<or>
     (seconds instant = MAX_TIMESTAMP_SECONDS \<and> nanos instant > MAX_TIMESTAMP_NANOS)"

definition optionalListTimestamp :: "jsval \<Rightarrow> jstr option \<Rightarrow> thrown + jstr option" where
  "optionalListTimestamp v requestId =
     (case v of
        JUndef \<Rightarrow> Inr None
      | JStr s \<Rightarrow>
          if s = [] then Inr None
          else
            (case parseRfc3339Instant s of
               None \<Rightarrow> Inl (invalidListResponse requestId)
             | Some instant \<Rightarrow>
                 if outside_analytical_range instant then Inl (invalidListResponse requestId)
                 else Inr (Some s))
      | _ \<Rightarrow> Inl (invalidListResponse requestId))"

definition parseListJsonPayload :: "jsval \<Rightarrow> jstr option \<Rightarrow> thrown + jsval" where
  "parseListJsonPayload v requestId =
     (case v of
        JStr s \<Rightarrow>
          if s = [] then Inl (invalidListResponse requestId)
          else (case json_parse s of
                  None \<Rightarrow> Inl (invalidListResponse requestId)
                | Some p \<Rightarrow> Inr p)
      | _ \<Rightarrow> Inl (invalidListResponse requestId))"

section \<open>Actors\<close>

definition actorFromPrincipal :: "jstr option \<Rightarrow> normalized_actor_ref option" where
  "actorFromPrincipal v =
     (case v of
        None \<Rightarrow> None
      | Some s \<Rightarrow> if s = [] then None else Some \<lparr>nar_type = None, nar_id = s, nar_provider = None\<rparr>)"

definition string_prop :: "(jstr \<times> jsval) list \<Rightarrow> jstr \<Rightarrow> jstr option" where
  "string_prop ps k = (case own_prop ps k of JStr s \<Rightarrow> Some s | _ \<Rightarrow> None)"

definition id_typed :: "jsval \<Rightarrow> bool" where
  "id_typed v = (case v of JStr _ \<Rightarrow> True | JNum _ \<Rightarrow> True | JBig _ \<Rightarrow> True | _ \<Rightarrow> False)"

definition actorFromEventPayload :: "jsval \<Rightarrow> jstr option \<Rightarrow> normalized_actor_ref option" where
  "actorFromEventPayload payload principalText =
     (let fallback = actorFromPrincipal principalText in
      case principalText of
        None \<Rightarrow> fallback
      | Some p \<Rightarrow>
          if p = [] then fallback
          else
            (case Option.bind (record_of payload) (\<lambda>r. record_of (own_prop r (lit ''actor''))) of
               None \<Rightarrow> fallback
             | Some actorRecord \<Rightarrow>
                 (let i = own_prop actorRecord (lit ''id'') in
                  if \<not> id_typed i then fallback
                  else
                    (case normalizeActorRef
                            \<lparr>ar_type = string_prop actorRecord (lit ''type''), ar_id = i,
                             ar_provider = string_prop actorRecord (lit ''provider'')\<rparr> of
                       Inl _ \<Rightarrow> fallback
                     | Inr actor \<Rightarrow>
                         if actorPrincipalFromRef actor = p then Some actor else fallback))))"

section \<open>Idempotency keys from source identities\<close>

text \<open>\<open>Buffer.from("6ba7b8119dad11d180b400c04fd430c8", "hex")\<close>, the URL namespace.\<close>

definition namespaceUrl :: "byte list" where
  "namespaceUrl = [0x6B, 0xA7, 0xB8, 0x11, 0x9D, 0xAD, 0x11, 0xD1, 0x80, 0xB4, 0x00, 0xC0, 0x4F,
     0xD4, 0x30, 0xC8]"

definition hex_bytes :: "byte list \<Rightarrow> jstr" where
  "hex_bytes bs = concat (map (\<lambda>b. [hex_digit (unat b div 16), hex_digit (unat b mod 16)]) bs)"

definition slice :: "nat \<Rightarrow> nat \<Rightarrow> 'a list \<Rightarrow> 'a list" where
  "slice a b s = take (b - a) (drop a s)"

definition unit_separator :: code_unit where
  "unit_separator = 0x1F"

definition logicalIdentity :: "jstr \<Rightarrow> jstr list \<Rightarrow> jstr" where
  "logicalIdentity normalizedNamespace parts = join [unit_separator] (normalizedNamespace # parts)"

definition uuid_of_digest :: "byte list \<Rightarrow> jstr" where
  "uuid_of_digest digest0 =
     (let digest1 = digest0[6 := (digest0 ! 6 AND 0x0F) OR 0x50];
          digest = digest1[8 := (digest1 ! 8 AND 0x3F) OR 0x80];
          hex = hex_bytes digest
      in slice 0 8 hex @ lit ''-'' @ slice 8 12 hex @ lit ''-'' @ slice 12 16 hex @ lit ''-'' @
         slice 16 20 hex @ lit ''-'' @ slice 20 32 hex)"

text \<open>\<open>sha1\<close> is the platform's digest, of 20 bytes.\<close>

definition idempotencyKeyFromParts ::
    "(byte list \<Rightarrow> byte list) \<Rightarrow> jstr \<Rightarrow> jsval list \<Rightarrow> thrown + jstr" where
  "idempotencyKeyFromParts sha1 namespace sourceIdentity =
     (let normalizedNamespace = trim namespace in
      if normalizedNamespace = [] \<or> sourceIdentity = []
      then Inl (medErr MEDALLION_MISSING_IDEMPOTENCY_KEY)
      else
        bindE (mapE normalizeId sourceIdentity) (\<lambda>parts.
          (let uuid = uuid_of_digest
                 (sha1 (namespaceUrl @ utf8_encode (logicalIdentity normalizedNamespace parts)))
           in requiredIdempotencyKey (JStr (normalizedNamespace @ lit '':'' @ uuid)) (Some 512))))"

section \<open>What the acknowledgement checks guarantee\<close>

lemma positive_id_ok:
  "positive_id v e = Inr s \<Longrightarrow> all_digits s \<and> 0 < parse_dec s"
proof -
  assume ok: "positive_id v e = Inr s"
  show ?thesis
  proof (cases v)
    case (JNum n)
    with ok obtain i where i: "n = num i" "\<bar>i\<bar> \<le> MAX_SAFE" "0 < i" "s = dec_int i"
      by (auto simp: positive_id_def isSafeInteger_iff num_text_safe split: if_splits)
    then have "s = dec_nat (nat i)" by (simp add: dec_int_def)
    with i(3) show ?thesis by simp
  qed (use ok in \<open>auto simp: positive_id_def split: if_splits\<close>)
qed

lemma batchResponse_events:
  assumes "batchResponse body keys rid = Inr r"
  shows "map pe_idempotencyKey (eb_events r) = keys"
    and "list_all (\<lambda>e. all_digits (pe_eventId e) \<and> 0 < parse_dec (pe_eventId e)) (eb_events r)"
    and "eb_acceptedCount r = length (filter (\<lambda>e. \<not> pe_duplicate e) (eb_events r))"
    and "eb_acceptedCount r + eb_duplicateCount r = length (eb_events r)"
    and "eb_duplicate r \<longleftrightarrow> eb_acceptedCount r = 0"
    and "eb_result r = (if 0 < eb_acceptedCount r \<and> 0 < eb_duplicateCount r then mixed
           else if 0 < eb_duplicateCount r then duplicate else accepted)"
    and "orElse (pr_accepted_count body) (num 0) = num (int (eb_acceptedCount r)) \<and>
         orElse (pr_duplicate_count body) (num 0) = num (int (eb_duplicateCount r))"
    and "eb_requestId r = rid"
proof -
  let ?receipts = "orElse (pr_events body) []"
  let ?f = "\<lambda>(receipt, key). batch_event rid receipt key"
  obtain events where len: "length ?receipts = length keys"
    and events: "mapE ?f (zip ?receipts keys) = Inr events" "eb_events r = events"
    and rest: "eb_acceptedCount r = length (filter (\<lambda>e. \<not> pe_duplicate e) events)"
      "eb_duplicateCount r = length events - eb_acceptedCount r"
      "eb_duplicate r \<longleftrightarrow> eb_acceptedCount r = 0"
      "eb_result r = (if 0 < eb_acceptedCount r \<and> 0 < eb_duplicateCount r then mixed
           else if 0 < eb_duplicateCount r then duplicate else accepted)"
      "orElse (pr_accepted_count body) (num 0) = num (int (eb_acceptedCount r)) \<and>
       orElse (pr_duplicate_count body) (num 0) = num (int (eb_duplicateCount r))"
      "eb_requestId r = rid"
    using assms by (auto simp: batchResponse_def Let_def result_iff)
  have "list_all2 (\<lambda>x y. ?f x = Inr y) (zip ?receipts keys) events"
    using events(1) by (simp add: mapE_Inr_iff)
  then have each: "list_all2 (\<lambda>x e. pe_idempotencyKey e = snd x \<and>
      all_digits (pe_eventId e) \<and> 0 < parse_dec (pe_eventId e)) (zip ?receipts keys) events"
    by (rule list_all2_mono)
       (auto simp: batch_event_def losslessInteger_def result_iff
          split: option.splits if_splits dest!: positive_id_ok)
  then have "map snd (zip ?receipts keys) = map pe_idempotencyKey events"
    by (induction rule: list_all2_induct) auto
  then show "map pe_idempotencyKey (eb_events r) = keys" using len events(2) by simp
  from each show "list_all (\<lambda>e. all_digits (pe_eventId e) \<and> 0 < parse_dec (pe_eventId e)) (eb_events r)"
    unfolding events(2) by (induction rule: list_all2_induct) auto
  have "eb_acceptedCount r \<le> length events" using rest(1) by simp
  with rest events(2) show "eb_acceptedCount r = length (filter (\<lambda>e. \<not> pe_duplicate e) (eb_events r))"
    "eb_acceptedCount r + eb_duplicateCount r = length (eb_events r)"
    "eb_duplicate r \<longleftrightarrow> eb_acceptedCount r = 0"
    "eb_result r = (if 0 < eb_acceptedCount r \<and> 0 < eb_duplicateCount r then mixed
           else if 0 < eb_duplicateCount r then duplicate else accepted)"
    "orElse (pr_accepted_count body) (num 0) = num (int (eb_acceptedCount r)) \<and>
       orElse (pr_duplicate_count body) (num 0) = num (int (eb_duplicateCount r))"
    "eb_requestId r = rid"
    by simp_all
qed

text \<open>
  A publish acknowledgement is only accepted when it is about exactly the submitted events:
  the receipts carry the submitted idempotency keys in the submitted order, each with a positive
  decimal event id; the counts of the body are the numbers of new and of duplicate receipts, and
  together they are the number of submitted events.
\<close>

theorem batchResponse_aligned:
  assumes "batchResponse body keys rid = Inr r"
  shows "map pe_idempotencyKey (eb_events r) = keys \<and>
     (\<forall>e \<in> set (eb_events r). all_digits (pe_eventId e) \<and> 0 < parse_dec (pe_eventId e)) \<and>
     orElse (pr_accepted_count body) (num 0) =
       num (int (length (filter (\<lambda>e. \<not> pe_duplicate e) (eb_events r)))) \<and>
     eb_acceptedCount r + eb_duplicateCount r = length keys \<and>
     (eb_result r = accepted \<longleftrightarrow> (\<forall>e \<in> set (eb_events r). \<not> pe_duplicate e))"
proof -
  note facts = batchResponse_events [OF assms]
  have len: "length (eb_events r) = length keys"
    using facts(1) by (metis length_map)
  have "eb_duplicateCount r = 0 \<longleftrightarrow> (\<forall>e \<in> set (eb_events r). \<not> pe_duplicate e)"
    using facts(3,4) sum_length_filter_compl [of "\<lambda>e. \<not> pe_duplicate e" "eb_events r"]
    by (auto simp: filter_empty_conv)
  then have "eb_result r = accepted \<longleftrightarrow> (\<forall>e \<in> set (eb_events r). \<not> pe_duplicate e)"
    using facts(6) by (cases "eb_duplicateCount r = 0") simp_all
  moreover have "\<forall>e \<in> set (eb_events r). all_digits (pe_eventId e) \<and> 0 < parse_dec (pe_eventId e)"
    using facts(2) by (simp only: list_all_iff)
  ultimately show ?thesis using facts(1,3,4,7) len by metis
qed

definition sample_acknowledgement :: publish_response where
  "sample_acknowledgement = \<lparr>pr_accepted_count = Some (num 1), pr_duplicate_count = Some (num 1),
     pr_events = Some
       [\<lparr>rc_idempotency_key = Some (lit ''a''), rc_event_id = JStr (lit ''7''), rc_duplicate = None\<rparr>,
        \<lparr>rc_idempotency_key = Some (lit ''b''), rc_event_id = JNum (num 8), rc_duplicate = Some True\<rparr>]\<rparr>"

theorem batchResponse_aligned_witness:
  "\<exists>r. batchResponse sample_acknowledgement [lit ''a'', lit ''b''] None = Inr r \<and>
     map pe_idempotencyKey (eb_events r) = [lit ''a'', lit ''b''] \<and> eb_result r = mixed"
proof -
  have "case batchResponse sample_acknowledgement [lit ''a'', lit ''b''] None of
      Inr r \<Rightarrow> eb_result r = mixed | Inl _ \<Rightarrow> False"
    by code_simp
  then obtain r where r: "batchResponse sample_acknowledgement [lit ''a'', lit ''b''] None = Inr r"
      "eb_result r = mixed"
    by (auto split: sum.splits)
  show ?thesis
    by (rule exI [of _ r]) (intro conjI r batchResponse_aligned [OF r(1), THEN conjunct1])
qed

lemma requiredResponseWorkspace_ok:
  "requiredResponseWorkspace v expected rid = Inr w \<Longrightarrow> w = expected \<and> v = JStr expected"
  by (cases v)
     (auto simp: requiredResponseWorkspace_def requiredListText_def boundedListText_def result_iff
        split: if_splits)

section \<open>Timestamps fit a signed 64-bit count of nanoseconds\<close>

lemma timestamp_limits:
  "MIN_TIMESTAMP_SECONDS = - 2208988800" "MAX_TIMESTAMP_SECONDS = 9223372036"
  by (simp_all add: MIN_TIMESTAMP_SECONDS_def MAX_TIMESTAMP_SECONDS_def day_number_def
      day_from_year_def days_before_month_def leap_year_def)

lemma analytical_range_iff:
  assumes "0 \<le> nanos i" "nanos i < 10 ^ 9"
  shows "\<not> outside_analytical_range i \<longleftrightarrow>
     - 2208988800 * 10 ^ 9 \<le> instant_ns i \<and> instant_ns i \<le> 2 ^ 63 - 1"
  using assms
  by (auto simp: outside_analytical_range_def timestamp_limits MAX_TIMESTAMP_NANOS_def instant_ns_def)

text \<open>
  The range check on timestamps is exact: an RFC 3339 timestamp is inside exactly when its
  instant, in nanoseconds since 1970, is at or after 1900-01-01 and fits a signed 64-bit integer.
\<close>

theorem timestamp_range_exact:
  assumes "parseRfc3339Instant s = Some i"
  shows "\<not> outside_analytical_range i \<longleftrightarrow>
     - 2208988800 * 10 ^ 9 \<le> instant_ns i \<and> instant_ns i \<le> 2 ^ 63 - 1"
  using analytical_range_iff parsed_bounds [OF assms] by blast

theorem timestamp_range_exact_witness:
  "parseRfc3339Instant (toISOString (- 2208988801000)) = Some \<lparr>seconds = - 2208988801, nanos = 0\<rparr> \<and>
   outside_analytical_range \<lparr>seconds = - 2208988801, nanos = 0\<rparr>"
proof -
  have p: "parseRfc3339Instant (toISOString (- 2208988801000)) =
      Some \<lparr>seconds = - 2208988801, nanos = 0\<rparr>"
    using parse_toISOString [of "- 2208988801000"] by simp
  have ns: "instant_ns \<lparr>seconds = - 2208988801, nanos = 0\<rparr> = - 2208988801 * 10 ^ 9"
    by (simp add: instant_ns_def)
  have early: "\<not> - 2208988800 * 10 ^ 9 \<le> (- 2208988801 * 10 ^ 9 :: int)"
    by simp
  have "outside_analytical_range \<lparr>seconds = - 2208988801, nanos = 0\<rparr>"
    using timestamp_range_exact [OF p] early by (metis (no_types) ns)
  with p show ?thesis by blast
qed

section \<open>Derived idempotency keys\<close>

lemma join_separated_inj:
  assumes "\<forall>p \<in> set ps. u \<notin> set p" "\<forall>q \<in> set qs. u \<notin> set q" "ps \<noteq> []" "qs \<noteq> []"
    and "join [u] ps = join [u] qs"
  shows "ps = qs"
  using assms
proof (induction ps arbitrary: qs)
  case (Cons p ps)
  obtain q qs' where qs: "qs = q # qs'" using Cons.prems(4) by (cases qs) auto
  have p: "takeWhile (\<lambda>x. x \<noteq> u) (join [u] (p # ps)) = p"
    using Cons.prems(1) by (cases ps) (auto simp: takeWhile_append)
  have q: "takeWhile (\<lambda>x. x \<noteq> u) (join [u] (q # qs')) = q"
    using Cons.prems(2) qs by (cases qs') (auto simp: takeWhile_append)
  have pq: "p = q" using p q Cons.prems(5) qs by simp
  show ?case
  proof (cases "ps = [] \<or> qs' = []")
    case True
    have "length (join [u] (p # ps)) = length (join [u] (q # qs'))" using Cons.prems(5) qs by simp
    with True pq have "ps = [] \<and> qs' = []" by (cases "ps = []"; cases "qs' = []") (simp_all add: join_Cons)
    with qs pq show ?thesis by simp
  next
    case False
    with Cons.prems(5) qs pq have "join [u] ps = join [u] qs'" by (simp add: join_Cons)
    with Cons.IH [of qs'] Cons.prems(1,2) False qs pq show ?thesis by simp
  qed
qed simp

text \<open>
  The logical identity that an idempotency key is hashed from tells source identities apart
  as long as neither the namespace nor a part contains the separator U+001F; with the separator
  inside a part, different identities share it.
\<close>

theorem logicalIdentity_inj:
  assumes "unit_separator \<notin> set n" "\<forall>p \<in> set ps. unit_separator \<notin> set p"
    and "unit_separator \<notin> set m" "\<forall>q \<in> set qs. unit_separator \<notin> set q"
    and "logicalIdentity n ps = logicalIdentity m qs"
  shows "n = m \<and> ps = qs"
  using join_separated_inj [of "n # ps" unit_separator "m # qs"] assms
  by (simp add: logicalIdentity_def)

theorem logicalIdentity_inj_witness:
  "logicalIdentity (lit ''crm'') [lit ''deal'', lit ''7''] \<noteq> logicalIdentity (lit ''crm'') [lit ''deal7'']"
proof
  assume "logicalIdentity (lit ''crm'') [lit ''deal'', lit ''7''] = logicalIdentity (lit ''crm'') [lit ''deal7'']"
  moreover have "unit_separator \<notin> set (lit ''crm'')" "unit_separator \<notin> set (lit ''deal'')"
    "unit_separator \<notin> set (lit ''7'')" "unit_separator \<notin> set (lit ''deal7'')"
    by code_simp+
  ultimately show False
    using logicalIdentity_inj [of "lit ''crm''" "[lit ''deal'', lit ''7'']" "lit ''crm''" "[lit ''deal7'']"]
    by simp
qed

text \<open>The separator is not escaped, so two source identities that differ can derive one key.\<close>

theorem derived_keys_collide:
  "idempotencyKeyFromParts sha1 namespace [JStr [0x61, unit_separator, 0x62]] =
   idempotencyKeyFromParts sha1 namespace [JStr [0x61], JStr [0x62]]"
  by (simp add: idempotencyKeyFromParts_def normalizeId_def logicalIdentity_def Let_def)

text \<open>The key has the form \<open>namespace:uuid\<close> with the version and variant digits of RFC 9562.\<close>

lemma hex_bytes_length [simp]: "length (hex_bytes bs) = 2 * length bs"
  by (induction bs) (simp_all add: hex_bytes_def)

lemma hex_bytes_nth:
  "i < length bs \<Longrightarrow> hex_bytes bs ! (2 * i) = hex_digit (unat (bs ! i) div 16) \<and>
     hex_bytes bs ! (2 * i + 1) = hex_digit (unat (bs ! i) mod 16)"
proof (induction bs arbitrary: i)
  case (Cons b bs)
  show ?case
  proof (cases i)
    case 0
    then show ?thesis by (simp add: hex_bytes_def)
  next
    case (Suc j)
    with Cons show ?thesis by (simp add: hex_bytes_def)
  qed
qed simp

end
