(* ===== verification/Preflight.thy ===== *)
theory Preflight
  imports Ingestion
begin

text \<open>
  The check of a Connect request before it is encoded (src/src/protocol-preflight.ts). The
  request is the normalised JSON object, so every value is a \<open>jsval\<close>. The loop over a batch
  threads the set of idempotency keys seen so far. The locale \<open>batch_preflight\<close> states what
  CDC and audit batches share; the theorems give the exact set of accepted publish requests.
\<close>

section \<open>Selectors and texts\<close>

definition preflight_MAX_BATCH_SIZE :: nat where "preflight_MAX_BATCH_SIZE = 1000"
definition preflight_MAX_LIST_LIMIT :: int where "preflight_MAX_LIST_LIMIT = 500"

definition CDC_OPERATIONS :: "jstr list" where
  "CDC_OPERATIONS = [lit ''CDC_OPERATION_INSERT'', lit ''CDC_OPERATION_UPDATE'',
     lit ''CDC_OPERATION_DELETE'', lit ''CDC_OPERATION_SNAPSHOT'']"

definition AUDIT_OUTCOMES :: "jstr list" where
  "AUDIT_OUTCOMES = [lit ''AUDIT_EVENT_OUTCOME_SUCCEEDED'', lit ''AUDIT_EVENT_OUTCOME_FAILED'',
     lit ''AUDIT_EVENT_OUTCOME_INDETERMINATE'']"

definition AUDIT_ORIGINS :: "jstr list" where
  "AUDIT_ORIGINS = [lit ''AUDIT_EVENT_ORIGIN_EXTERNAL_PROVIDER'', lit ''AUDIT_EVENT_ORIGIN_CONNECT'']"

definition preflight_boundedText :: "jstr \<Rightarrow> nat \<Rightarrow> thrown + jstr" where
  "preflight_boundedText v maxBytes =
     (if utf8_length v > maxBytes then Inl (medErr MEDALLION_INVALID_EVENT) else Inr v)"

definition requiredSelector :: "jsval \<Rightarrow> nat \<Rightarrow> error_code \<Rightarrow> thrown + jstr" where
  "requiredSelector v maxBytes missingCode =
     (case v of
        JStr s \<Rightarrow> if trim s = [] then Inl (medErr missingCode) else preflight_boundedText s maxBytes
      | _ \<Rightarrow> Inl (medErr missingCode))"

definition preflight_requiredText :: "jsval \<Rightarrow> nat \<Rightarrow> thrown + jstr" where
  "preflight_requiredText v maxBytes =
     (case v of
        JStr s \<Rightarrow>
          if trim s = [] then Inl (medErr MEDALLION_INVALID_EVENT)
          else preflight_boundedText s maxBytes
      | _ \<Rightarrow> Inl (medErr MEDALLION_INVALID_EVENT))"

definition preflight_optionalText :: "jsval \<Rightarrow> nat \<Rightarrow> thrown + unit" where
  "preflight_optionalText v maxBytes =
     (case v of
        JUndef \<Rightarrow> Inr ()
      | JStr s \<Rightarrow> bindE (preflight_boundedText s maxBytes) (\<lambda>_. Inr ())
      | _ \<Rightarrow> Inl (medErr MEDALLION_INVALID_EVENT))"

definition validateWorkspaceId :: "jsval \<Rightarrow> thrown + unit" where
  "validateWorkspaceId v =
     (case v of
        JStr s \<Rightarrow> failIf (\<not> workspace_pattern s) (medErr MEDALLION_INVALID_WORKSPACE_ID)
      | _ \<Rightarrow> Inl (medErr MEDALLION_INVALID_WORKSPACE_ID))"

definition requiredBatch :: "jsval \<Rightarrow> thrown + jsval list" where
  "requiredBatch v =
     (case v of
        JArr events \<Rightarrow>
          if length events < 1 \<or> length events > preflight_MAX_BATCH_SIZE
          then Inl (medErr MEDALLION_INVALID_BATCH_SIZE) else Inr events
      | _ \<Rightarrow> Inl (medErr MEDALLION_INVALID_BATCH_SIZE))"

definition preflight_requiredRecord :: "jsval \<Rightarrow> thrown + (jstr \<times> jsval) list" where
  "preflight_requiredRecord v =
     (case record_of v of None \<Rightarrow> Inl (medErr MEDALLION_INVALID_EVENT) | Some r \<Rightarrow> Inr r)"

section \<open>Payloads, limits, enums and timestamps\<close>

definition validPayloadJson :: "jsval \<Rightarrow> thrown + unit" where
  "validPayloadJson v =
     (case v of
        JStr s \<Rightarrow>
          if s = [] then Inl (medErr MEDALLION_INVALID_JSON_BODY)
          else failIf (json_parse s = None) (medErr MEDALLION_INVALID_JSON_BODY)
      | _ \<Rightarrow> Inl (medErr MEDALLION_INVALID_JSON_BODY))"

definition listLimit :: "jsval \<Rightarrow> thrown + unit" where
  "listLimit v =
     (case v of
        JUndef \<Rightarrow> Inr ()
      | JNum n \<Rightarrow>
          failIf (\<not> isInteger n \<or> num_less n (num 0) \<or> num_less (num preflight_MAX_LIST_LIMIT) n)
            (medErr MEDALLION_INVALID_PAGE_SIZE)
      | _ \<Rightarrow> Inl (medErr MEDALLION_INVALID_PAGE_SIZE))"

definition optionalEnum :: "jsval \<Rightarrow> jstr list \<Rightarrow> thrown + unit" where
  "optionalEnum v allowed =
     (case v of
        JUndef \<Rightarrow> Inr ()
      | JStr s \<Rightarrow> failIf (s \<notin> set allowed) (medErr MEDALLION_INVALID_EVENT)
      | _ \<Rightarrow> Inl (medErr MEDALLION_INVALID_EVENT))"

definition preflight_optionalTimestamp :: "jsval \<Rightarrow> thrown + rfc3339_instant option" where
  "preflight_optionalTimestamp v =
     (case v of
        JUndef \<Rightarrow> Inr None
      | JStr s \<Rightarrow>
          (case parseRfc3339Instant s of
             None \<Rightarrow> Inl (medErr MEDALLION_INVALID_TIMESTAMP)
           | Some instant \<Rightarrow>
               if outside_analytical_range instant
               then Inl (medErr MEDALLION_TIMESTAMP_OUT_OF_RANGE) else Inr (Some instant))
      | _ \<Rightarrow> Inl (medErr MEDALLION_INVALID_TIMESTAMP))"

definition compare_instants :: "rfc3339_instant \<Rightarrow> rfc3339_instant \<Rightarrow> int" where
  "compare_instants l r =
     (if seconds l = seconds r then nanos l - nanos r else seconds l - seconds r)"

definition timestampBounds :: "jsval \<Rightarrow> jsval \<Rightarrow> thrown + unit" where
  "timestampBounds lower_value upper_value =
     bindE (preflight_optionalTimestamp lower_value) (\<lambda>lower.
     bindE (preflight_optionalTimestamp upper_value) (\<lambda>upper.
       (case (lower, upper) of
          (Some l, Some u) \<Rightarrow>
            failIf (0 \<le> compare_instants l u) (medErr MEDALLION_INVALID_TIMESTAMP_RANGE)
        | _ \<Rightarrow> Inr ())))"

definition hasNonDefaultValue :: "jsval \<Rightarrow> bool" where
  "hasNonDefaultValue v \<longleftrightarrow>
     v \<noteq> JUndef \<and> v \<noteq> JStr [] \<and> v \<noteq> JNum (num 0) \<and> v \<noteq> JStr (lit ''0'') \<and> v \<noteq> JBool False \<and>
     v \<noteq> JStr (lit ''AUDIT_EVENT_ORIGIN_UNSPECIFIED'')"

definition rejectServerDerivedFields :: "(jstr \<times> jsval) list \<Rightarrow> jstr list \<Rightarrow> thrown + unit" where
  "rejectServerDerivedFields event derived =
     failIf (list_ex (\<lambda>field. hasNonDefaultValue (own_prop event field)) derived)
       (medErr MEDALLION_SERVER_DERIVED_FIELD)"

definition preflight_nonEmptyString :: "jsval \<Rightarrow> bool" where
  "preflight_nonEmptyString v = (case v of JStr s \<Rightarrow> s \<noteq> [] | _ \<Rightarrow> False)"

text \<open>\<open>String(value)\<close> of a plain value: an array joins its elements, an object with an own
  \<open>toString\<close>, which is no function here, cannot be converted.\<close>

fun js_string :: "jsval \<Rightarrow> thrown + jstr" where
  "js_string JUndef = Inr (lit ''undefined'')"
| "js_string JNull = Inr (lit ''null'')"
| "js_string (JBool b) = Inr (if b then lit ''true'' else lit ''false'')"
| "js_string (JNum n) = Inr (num_text n)"
| "js_string (JBig i) = Inr (dec_int i)"
| "js_string (JStr s) = Inr s"
| "js_string (JObj ps) =
     (if hasOwn ps (lit ''toString'') then Inl type_error else Inr (lit ''[object Object]''))"
| "js_string (JArr vs) =
     bindE (mapE (\<lambda>v. if v = JUndef \<or> v = JNull then Inr [] else js_string v) vs)
       (\<lambda>ts. Inr (join (lit '','') ts))"

text \<open>\<open>String(value ?? "")\<close>.\<close>

definition text_or_empty :: "jsval \<Rightarrow> thrown + jstr" where
  "text_or_empty v = (if v = JUndef \<or> v = JNull then Inr [] else js_string v)"

section \<open>Events of a batch\<close>

definition checked_enum :: "jsval \<Rightarrow> jstr list \<Rightarrow> error_code \<Rightarrow> thrown + unit" where
  "checked_enum v allowed code =
     bindE (text_or_empty v) (\<lambda>t. failIf (t \<notin> set allowed) (medErr code))"

text \<open>The end of the loop body, the same for both families: the key, the payload, the time.
  \<open>seen\<close> are the keys of the events before.\<close>

definition preflight_event_tail :: "jstr list \<Rightarrow> (jstr \<times> jsval) list \<Rightarrow> thrown + jstr list" where
  "preflight_event_tail seen event =
     bindE (requiredIdempotencyKey (own_prop event (lit ''idempotencyKey'')) (Some 512)) (\<lambda>key.
     thenE (failIf (key \<in> set seen) (medErr MEDALLION_DUPLICATE_IDEMPOTENCY_KEY))
     (thenE (validPayloadJson (own_prop event (lit ''payloadJson'')))
     (thenE (preflight_optionalTimestamp (own_prop event (lit ''occurredAt'')))
       (Inr (seen @ [key])))))"

definition cdc_derived_fields :: "jstr list" where
  "cdc_derived_fields = [lit ''id'', lit ''workspaceId'', lit ''connectorId'', lit ''observedAt'',
     lit ''sourceSystem'', lit ''ingestedByPrincipal'']"

definition audit_derived_fields :: "jstr list" where
  "audit_derived_fields = cdc_derived_fields @ [lit ''origin'']"

definition preflight_cdc_event :: "jstr list \<Rightarrow> jsval \<Rightarrow> thrown + jstr list" where
  "preflight_cdc_event seen v =
     bindE (preflight_requiredRecord v) (\<lambda>event.
     thenE (rejectServerDerivedFields event cdc_derived_fields)
     (thenE (preflight_requiredText (own_prop event (lit ''streamName'')) 256)
     (thenE (preflight_requiredText (own_prop event (lit ''entityType'')) 256)
     (thenE (preflight_requiredText (own_prop event (lit ''entityId'')) 1024)
     (thenE (preflight_optionalText (own_prop event (lit ''sourceEventId'')) 1024)
     (thenE (preflight_optionalText (own_prop event (lit ''actorPrincipal'')) 512)
     (thenE (preflight_optionalText (own_prop event (lit ''description'')) 4096)
     (thenE (checked_enum (own_prop event (lit ''operation'')) CDC_OPERATIONS
               MEDALLION_INVALID_CDC_OPERATION)
       (preflight_event_tail seen event)))))))))"

definition preflight_audit_event :: "jstr list \<Rightarrow> jsval \<Rightarrow> thrown + jstr list" where
  "preflight_audit_event seen v =
     bindE (preflight_requiredRecord v) (\<lambda>event.
     thenE (rejectServerDerivedFields event audit_derived_fields)
     (thenE (preflight_requiredText (own_prop event (lit ''resourceType'')) 256)
     (thenE (preflight_requiredText (own_prop event (lit ''resourceId'')) 1024)
     (thenE (preflight_requiredText (own_prop event (lit ''action'')) 256)
     (thenE (preflight_optionalText (own_prop event (lit ''sourceEventId'')) 1024)
     (thenE (preflight_optionalText (own_prop event (lit ''actorPrincipal'')) 512)
     (thenE (preflight_optionalText (own_prop event (lit ''description'')) 4096)
     (thenE (checked_enum (own_prop event (lit ''outcome'')) AUDIT_OUTCOMES
               MEDALLION_INVALID_AUDIT_OUTCOME)
       (preflight_event_tail seen event)))))))))"

section \<open>The four methods\<close>

definition preflightPublishCdc :: "(jstr \<times> jsval) list \<Rightarrow> thrown + unit" where
  "preflightPublishCdc request =
     thenE (requiredSelector (own_prop request (lit ''connectorId'')) 128 MEDALLION_MISSING_CONNECTOR_ID)
     (bindE (requiredBatch (own_prop request (lit ''events''))) (\<lambda>events.
      thenE (foldE preflight_cdc_event [] events) (Inr ())))"

definition preflightPublishAudit :: "(jstr \<times> jsval) list \<Rightarrow> thrown + unit" where
  "preflightPublishAudit request =
     thenE (requiredSelector (own_prop request (lit ''connectorId'')) 128 MEDALLION_MISSING_CONNECTOR_ID)
     (bindE (requiredBatch (own_prop request (lit ''events''))) (\<lambda>events.
      thenE (foldE preflight_audit_event [] events) (Inr ())))"

definition preflightListCdc :: "(jstr \<times> jsval) list \<Rightarrow> thrown + unit" where
  "preflightListCdc request =
     thenE (requiredSelector (own_prop request (lit ''workspaceId'')) 29 MEDALLION_MISSING_WORKSPACE_ID)
     (thenE (validateWorkspaceId (own_prop request (lit ''workspaceId'')))
     (thenE (preflight_optionalText (own_prop request (lit ''connectorId'')) 128)
     (thenE (preflight_optionalText (own_prop request (lit ''entityType'')) 256)
     (thenE (preflight_optionalText (own_prop request (lit ''entityId'')) 1024)
     (thenE (preflight_optionalText (own_prop request (lit ''actorPrincipal'')) 512)
     (thenE (preflight_optionalText (own_prop request (lit ''sourceSystem'')) 256)
     (thenE (preflight_optionalText (own_prop request (lit ''streamName'')) 256)
     (thenE (preflight_optionalText (own_prop request (lit ''pageCursor'')) 2048)
     (thenE (preflight_optionalText (own_prop request (lit ''ingestedByPrincipal'')) 512)
     (thenE (listLimit (own_prop request (lit ''limit'')))
       (timestampBounds (own_prop request (lit ''occurredAtFrom''))
          (own_prop request (lit ''occurredAtTo'')))))))))))))"

definition preflightListAudit :: "(jstr \<times> jsval) list \<Rightarrow> thrown + unit" where
  "preflightListAudit request =
     thenE (requiredSelector (own_prop request (lit ''workspaceId'')) 29 MEDALLION_MISSING_WORKSPACE_ID)
     (thenE (validateWorkspaceId (own_prop request (lit ''workspaceId'')))
     (thenE (preflight_optionalText (own_prop request (lit ''connectorId'')) 128)
     (thenE (preflight_optionalText (own_prop request (lit ''resourceType'')) 256)
     (thenE (preflight_optionalText (own_prop request (lit ''resourceId'')) 1024)
     (thenE (preflight_optionalText (own_prop request (lit ''actorPrincipal'')) 512)
     (thenE (preflight_optionalText (own_prop request (lit ''action'')) 256)
     (thenE (preflight_optionalText (own_prop request (lit ''sourceSystem'')) 256)
     (thenE (preflight_optionalText (own_prop request (lit ''pageCursor'')) 2048)
     (thenE (preflight_optionalText (own_prop request (lit ''ingestedByPrincipal'')) 512)
     (thenE (failIf (preflight_nonEmptyString (own_prop request (lit ''resourceType'')) \<noteq>
                     preflight_nonEmptyString (own_prop request (lit ''resourceId'')))
               (medErr MEDALLION_INVALID_AUDIT_FILTER))
     (thenE (listLimit (own_prop request (lit ''limit'')))
     (thenE (optionalEnum (own_prop request (lit ''origin'')) AUDIT_ORIGINS)
     (thenE (optionalEnum (own_prop request (lit ''outcome'')) AUDIT_OUTCOMES)
       (timestampBounds (own_prop request (lit ''occurredAtFrom''))
          (own_prop request (lit ''occurredAtTo''))))))))))))))))"

definition preflightConnectRequest :: "jstr \<Rightarrow> jsval \<Rightarrow> thrown + unit" where
  "preflightConnectRequest methodName v =
     bindE (preflight_requiredRecord v) (\<lambda>request.
       if methodName = lit ''PublishCdcEvents'' then preflightPublishCdc request
       else if methodName = lit ''PublishAuditEvents'' then preflightPublishAudit request
       else if methodName = lit ''ListCdcEvents'' then preflightListCdc request
       else if methodName = lit ''ListAuditEvents'' then preflightListAudit request
       else Inl (medErr MEDALLION_PROTOCOL_METHOD_NOT_FOUND))"

section \<open>The accepted requests, declaratively\<close>

definition text_ok :: "nat \<Rightarrow> jsval \<Rightarrow> bool" where
  "text_ok n v = (case v of JStr s \<Rightarrow> trim s \<noteq> [] \<and> utf8_length s \<le> n | _ \<Rightarrow> False)"

definition opt_text_ok :: "nat \<Rightarrow> jsval \<Rightarrow> bool" where
  "opt_text_ok n v = (case v of JUndef \<Rightarrow> True | JStr s \<Rightarrow> utf8_length s \<le> n | _ \<Rightarrow> False)"

definition enum_ok :: "jstr list \<Rightarrow> jsval \<Rightarrow> bool" where
  "enum_ok allowed v = (case text_or_empty v of Inr t \<Rightarrow> t \<in> set allowed | Inl _ \<Rightarrow> False)"

definition key_ok :: "jsval \<Rightarrow> bool" where
  "key_ok v = (case v of JStr s \<Rightarrow> s \<noteq> [] \<and> hasValidUnicodeScalars s \<and> utf8_length s \<le> 512 | _ \<Rightarrow> False)"

definition payload_ok :: "jsval \<Rightarrow> bool" where
  "payload_ok v = (case v of JStr s \<Rightarrow> s \<noteq> [] \<and> json_parse s \<noteq> None | _ \<Rightarrow> False)"

definition instant_of :: "jsval \<Rightarrow> rfc3339_instant option" where
  "instant_of v = (case v of JStr s \<Rightarrow> parseRfc3339Instant s | _ \<Rightarrow> None)"

definition time_ok :: "jsval \<Rightarrow> bool" where
  "time_ok v \<longleftrightarrow> v = JUndef \<or>
     (case instant_of v of
        None \<Rightarrow> False
      | Some i \<Rightarrow> - 2208988800 * 10 ^ 9 \<le> instant_ns i \<and> instant_ns i \<le> 2 ^ 63 - 1)"

definition event_key :: "jsval \<Rightarrow> jstr" where
  "event_key v =
     (case record_of v of
        None \<Rightarrow> []
      | Some event \<Rightarrow> (case own_prop event (lit ''idempotencyKey'') of JStr k \<Rightarrow> k | _ \<Rightarrow> []))"

definition event_ok ::
    "jstr list \<Rightarrow> (jstr \<times> nat) list \<Rightarrow> jstr \<Rightarrow> jstr list \<Rightarrow> jsval \<Rightarrow> bool" where
  "event_ok derived texts enum allowed v =
     (case record_of v of
        None \<Rightarrow> False
      | Some e \<Rightarrow>
          list_all (\<lambda>f. \<not> hasNonDefaultValue (own_prop e f)) derived \<and>
          list_all (\<lambda>(f, n). text_ok n (own_prop e f)) texts \<and>
          list_all (\<lambda>(f, n). opt_text_ok n (own_prop e f))
            [(lit ''sourceEventId'', 1024), (lit ''actorPrincipal'', 512), (lit ''description'', 4096)] \<and>
          enum_ok allowed (own_prop e enum) \<and> key_ok (own_prop e (lit ''idempotencyKey'')) \<and>
          payload_ok (own_prop e (lit ''payloadJson'')) \<and> time_ok (own_prop e (lit ''occurredAt'')))"

definition cdc_event_ok :: "jsval \<Rightarrow> bool" where
  "cdc_event_ok = event_ok cdc_derived_fields
     [(lit ''streamName'', 256), (lit ''entityType'', 256), (lit ''entityId'', 1024)]
     (lit ''operation'') CDC_OPERATIONS"

definition audit_event_ok :: "jsval \<Rightarrow> bool" where
  "audit_event_ok = event_ok audit_derived_fields
     [(lit ''resourceType'', 256), (lit ''resourceId'', 1024), (lit ''action'', 256)]
     (lit ''outcome'') AUDIT_OUTCOMES"

definition publish_ok :: "(jsval \<Rightarrow> bool) \<Rightarrow> (jstr \<times> jsval) list \<Rightarrow> bool" where
  "publish_ok ok request \<longleftrightarrow>
     text_ok 128 (own_prop request (lit ''connectorId'')) \<and>
     (case own_prop request (lit ''events'') of
        JArr events \<Rightarrow> 1 \<le> length events \<and> length events \<le> 1000 \<and> list_all ok events \<and>
          distinct (map event_key events)
      | _ \<Rightarrow> False)"

section \<open>Each check against its specification\<close>

named_theorems check_iff \<open>when a check of the preflight passes\<close>

lemma isOk_thenE [check_iff]: "isOk (thenE m k) \<longleftrightarrow> isOk m \<and> isOk k"
  by (cases m) simp_all

lemma isOk_failIf [check_iff]: "isOk (failIf b e) \<longleftrightarrow> \<not> b"
  by (cases b) simp_all

lemma isOk_unit: "m = Inr () \<longleftrightarrow> isOk m"
  by (cases m) simp_all

lemma bounded_ok [check_iff]: "isOk (preflight_boundedText s n) \<longleftrightarrow> utf8_length s \<le> n"
  by (simp add: preflight_boundedText_def)

lemma requiredSelector_ok [check_iff]: "isOk (requiredSelector v n c) \<longleftrightarrow> text_ok n v"
  by (cases v) (simp_all add: requiredSelector_def text_ok_def check_iff)

lemma requiredText_ok [check_iff]: "isOk (preflight_requiredText v n) \<longleftrightarrow> text_ok n v"
  by (cases v) (simp_all add: preflight_requiredText_def text_ok_def check_iff)

lemma isOk_bind_unit: "isOk (bindE m (\<lambda>_. Inr u)) \<longleftrightarrow> isOk m"
  by (cases m) simp_all

lemma optionalText_ok [check_iff]: "isOk (preflight_optionalText v n) \<longleftrightarrow> opt_text_ok n v"
  by (cases v) (simp_all add: preflight_optionalText_def opt_text_ok_def check_iff isOk_bind_unit)

lemma checked_enum_ok [check_iff]: "isOk (checked_enum v allowed c) \<longleftrightarrow> enum_ok allowed v"
  by (cases "text_or_empty v") (simp_all add: checked_enum_def enum_ok_def check_iff)

lemma validPayload_ok [check_iff]: "isOk (validPayloadJson v) \<longleftrightarrow> payload_ok v"
  by (cases v) (simp_all add: validPayloadJson_def payload_ok_def check_iff)

lemma key_ok_iff: "requiredIdempotencyKey v (Some 512) = Inr k \<longleftrightarrow> v = JStr k \<and> key_ok v"
  by (cases v)
     (auto simp: requiredIdempotencyKey_def key_ok_def exceeds_bytes_def split: if_splits)

lemma optionalTimestamp_ok [check_iff]: "isOk (preflight_optionalTimestamp v) \<longleftrightarrow> time_ok v"
proof (cases v)
  case (JStr s)
  show ?thesis
  proof (cases "parseRfc3339Instant s")
    case (Some i)
    have "outside_analytical_range i \<longleftrightarrow>
        \<not> (- 2208988800 * 10 ^ 9 \<le> instant_ns i \<and> instant_ns i \<le> 2 ^ 63 - 1)"
      using analytical_range_iff parsed_bounds [OF Some] by blast
    with Some show ?thesis
      by (simp only: JStr preflight_optionalTimestamp_def time_ok_def instant_of_def jsval.case
          option.case isOk_simps if_splits jsval.distinct) simp
  qed (simp add: JStr preflight_optionalTimestamp_def time_ok_def instant_of_def)
qed (simp_all add: preflight_optionalTimestamp_def time_ok_def instant_of_def)

lemma rejectServerDerived_ok [check_iff]:
  "isOk (rejectServerDerivedFields e derived) \<longleftrightarrow>
   list_all (\<lambda>f. \<not> hasNonDefaultValue (own_prop e f)) derived"
  by (simp add: rejectServerDerivedFields_def check_iff list_all_iff list_ex_iff)

lemma requiredBatch_iff:
  "requiredBatch v = Inr events \<longleftrightarrow> v = JArr events \<and> 1 \<le> length events \<and> length events \<le> 1000"
  by (cases v) (auto simp: requiredBatch_def preflight_MAX_BATCH_SIZE_def Suc_le_eq)

lemma requiredRecord_iff: "preflight_requiredRecord v = Inr r \<longleftrightarrow> v = JObj r"
  by (cases v) (simp_all add: preflight_requiredRecord_def)

lemma thenE_ok_iff: "thenE m k = Inr y \<longleftrightarrow> isOk m \<and> k = Inr y"
  by (cases m) simp_all

section \<open>What every batch shares\<close>

text \<open>
  The contract of the loop body of a family: it accepts an event exactly when the event is
  valid by itself and its key is new, and then remembers the key.
\<close>

locale batch_preflight =
  fixes check :: "jstr list \<Rightarrow> jsval \<Rightarrow> thrown + jstr list"
    and ok :: "jsval \<Rightarrow> bool"
  assumes check_event:
    "check seen v = Inr seen' \<longleftrightarrow> ok v \<and> event_key v \<notin> set seen \<and> seen' = seen @ [event_key v]"
begin

lemma batch_iff:
  "foldE check seen events = Inr seen' \<longleftrightarrow>
     list_all ok events \<and> distinct (map event_key events) \<and>
     set (map event_key events) \<inter> set seen = {} \<and> seen' = seen @ map event_key events"
proof (induction events arbitrary: seen)
  case (Cons v vs)
  show ?case by (auto simp: bindE_Inr_iff check_event Cons.IH)
qed auto

lemma batch_ok: "isOk (foldE check [] events) \<longleftrightarrow> list_all ok events \<and> distinct (map event_key events)"
  by (auto simp: isOk_iff batch_iff)

lemma publish_iff:
  "thenE (requiredSelector (own_prop request (lit ''connectorId'')) 128 code)
     (bindE (requiredBatch (own_prop request (lit ''events'')))
       (\<lambda>events. thenE (foldE check [] events) (Inr ()))) = Inr () \<longleftrightarrow> publish_ok ok request"
  by (cases "own_prop request (lit ''events'')")
     (auto simp: thenE_ok_iff check_iff batch_ok bindE_Inr_iff requiredBatch_iff publish_ok_def)

end

lemma event_tail_iff:
  "preflight_event_tail seen e = Inr seen' \<longleftrightarrow>
     key_ok (own_prop e (lit ''idempotencyKey'')) \<and> payload_ok (own_prop e (lit ''payloadJson'')) \<and>
     time_ok (own_prop e (lit ''occurredAt'')) \<and> event_key (JObj e) \<notin> set seen \<and>
     seen' = seen @ [event_key (JObj e)]"
  by (cases "own_prop e (lit ''idempotencyKey'')")
     (auto simp: preflight_event_tail_def bindE_Inr_iff thenE_ok_iff check_iff key_ok_iff event_key_def
        key_ok_def [of "JUndef"] key_ok_def [of "JNull"] key_ok_def)

interpretation cdc_batch: batch_preflight preflight_cdc_event cdc_event_ok
proof
  show "preflight_cdc_event seen v = Inr seen' \<longleftrightarrow>
      cdc_event_ok v \<and> event_key v \<notin> set seen \<and> seen' = seen @ [event_key v]" for seen v seen'
    by (cases v)
       (auto simp: preflight_cdc_event_def preflight_requiredRecord_def thenE_ok_iff check_iff
          event_tail_iff cdc_event_ok_def event_ok_def)
qed

interpretation audit_batch: batch_preflight preflight_audit_event audit_event_ok
proof
  show "preflight_audit_event seen v = Inr seen' \<longleftrightarrow>
      audit_event_ok v \<and> event_key v \<notin> set seen \<and> seen' = seen @ [event_key v]" for seen v seen'
    by (cases v)
       (auto simp: preflight_audit_event_def preflight_requiredRecord_def thenE_ok_iff check_iff
          event_tail_iff audit_event_ok_def event_ok_def)
qed

section \<open>The exact set of accepted requests\<close>

lemma preflightPublishCdc_ok: "preflightPublishCdc request = Inr () \<longleftrightarrow> publish_ok cdc_event_ok request"
  unfolding preflightPublishCdc_def by (rule cdc_batch.publish_iff)

lemma preflightPublishAudit_ok:
  "preflightPublishAudit request = Inr () \<longleftrightarrow> publish_ok audit_event_ok request"
  unfolding preflightPublishAudit_def by (rule audit_batch.publish_iff)

text \<open>
  C36. A publish request passes the preflight exactly when its connector id is a non-blank text of
  at most 128 bytes and its batch has 1 through 1000 events, each of them an object with valid
  fields and no server-derived one, with pairwise different idempotency keys; the same for CDC
  and for audit events.
\<close>

theorem publish_preflight_iff:
  "(preflightPublishCdc request = Inr () \<longleftrightarrow> publish_ok cdc_event_ok request) \<and>
   (preflightPublishAudit request = Inr () \<longleftrightarrow> publish_ok audit_event_ok request)"
  by (simp only: preflightPublishCdc_ok preflightPublishAudit_ok)

lemma compare_instants_sign:
  assumes "0 \<le> nanos l" "nanos l < 10 ^ 9" "0 \<le> nanos u" "nanos u < 10 ^ 9"
  shows "0 \<le> compare_instants l u \<longleftrightarrow> instant_ns u \<le> instant_ns l"
  using assms by (auto simp: compare_instants_def instant_ns_def)

lemma optionalTimestamp_value:
  "preflight_optionalTimestamp v = Inr x \<Longrightarrow> x = instant_of v"
  by (cases v) (auto simp: preflight_optionalTimestamp_def instant_of_def split: option.splits if_splits)

lemma instant_of_bounds: "instant_of v = Some i \<Longrightarrow> 0 \<le> nanos i \<and> nanos i < 10 ^ 9"
  by (cases v) (auto simp: instant_of_def dest: parsed_bounds)

text \<open>
  A time window of a list request passes exactly when each bound that is given is a timestamp
  inside the analytical range and, when both are given, the first instant is strictly before the
  second, compared to the nanosecond.
\<close>

theorem timestampBounds_iff:
  "timestampBounds a b = Inr () \<longleftrightarrow>
     time_ok a \<and> time_ok b \<and>
     (case (instant_of a, instant_of b) of
        (Some l, Some u) \<Rightarrow> instant_ns l < instant_ns u
      | _ \<Rightarrow> True)"
proof (cases "time_ok a \<and> time_ok b")
  case True
  then obtain x y where xy: "preflight_optionalTimestamp a = Inr x" "preflight_optionalTimestamp b = Inr y"
    unfolding optionalTimestamp_ok [symmetric] isOk_iff by blast
  then have v: "x = instant_of a" "y = instant_of b" by (auto dest: optionalTimestamp_value)
  show ?thesis
  proof (cases "instant_of a")
    case l: (Some l)
    show ?thesis
    proof (cases "instant_of b")
      case u: (Some u)
      have "0 \<le> compare_instants l u \<longleftrightarrow> instant_ns u \<le> instant_ns l"
        using compare_instants_sign instant_of_bounds [OF l] instant_of_bounds [OF u] by blast
      with True xy v l u show ?thesis by (auto simp: timestampBounds_def failIf_def)
    qed (use True xy v l in \<open>simp add: timestampBounds_def\<close>)
  qed (use True xy v in \<open>simp add: timestampBounds_def split: option.split\<close>)
next
  case False
  then have "\<not> isOk (timestampBounds a b)"
    unfolding timestampBounds_def optionalTimestamp_ok [symmetric]
    by (cases "preflight_optionalTimestamp a"; cases "preflight_optionalTimestamp b") simp_all
  with False show ?thesis unfolding isOk_unit by blast
qed

lemma requiredSelector_error_code:
  "\<not> text_ok n v \<Longrightarrow> requiredSelector v n c = Inl e \<Longrightarrow> e = medErr c \<or> e = medErr MEDALLION_INVALID_EVENT"
  by (cases v) (auto simp: requiredSelector_def preflight_boundedText_def split: if_splits)

text \<open>\<open>String(...)\<close> of an array with one element is that element's text, so an operation given
  as such an array gets past the preflight.\<close>

lemma operation_array_accepted:
  "s \<in> set CDC_OPERATIONS \<Longrightarrow> enum_ok CDC_OPERATIONS (JArr [JStr s])"
  by (simp add: enum_ok_def text_or_empty_def)

end
