(* ===== verification/Event_Fields.thy ===== *)
theory Event_Fields
  imports Ingestion
begin

text \<open>
  What CDC and audit events have in common in src/src/types.ts, src/src/cdc.ts and
  src/src/audit.ts: the caller's facts about an event, the check for server-owned members, the
  actor principal, and the fields of a listed event. An event object is a record of its typed
  members with the names of its other own members beside it (\<open>ef_otherKeys\<close>); a text member is
  a string or absent, an absent payload is \<open>HUndef\<close>.
\<close>

section \<open>Events given by the caller\<close>

record event_facts =
  ef_idempotencyKey :: jsval
  ef_payload :: hval
  ef_payloadJson :: "jstr option"
  ef_sourceEventId :: jsval
  ef_actor :: "actor_ref option"
  ef_occurredAt :: "timestamp_input option"
  ef_description :: "jstr option"
  ef_otherKeys :: "jstr list"

definition server_owned_fields :: "jstr list" where
  "server_owned_fields = [lit ''id'', lit ''eventId'', lit ''workspaceId'', lit ''connectorId'',
     lit ''observedAt'', lit ''sourceSystem'', lit ''ingestedByPrincipal'', lit ''workspace_id'',
     lit ''connector_id'', lit ''observed_at'', lit ''source_system'', lit ''ingested_by_principal'']"

definition rejectServerOwned :: "jstr list \<Rightarrow> jstr list \<Rightarrow> thrown + unit" where
  "rejectServerOwned owned keys =
     failIf (list_ex (\<lambda>field. field \<in> set keys) owned) (medErr MEDALLION_SERVER_DERIVED_FIELD)"

definition normalizedActor :: "actor_ref option \<Rightarrow> thrown + normalized_actor_ref option" where
  "normalizedActor actor = mapOptE normalizeActorRef actor"

text \<open>\<open>actor === undefined ? undefined : requiredText(actorPrincipalFromRef(actor), path, 512)\<close>.\<close>

definition actorPrincipalField :: "normalized_actor_ref option \<Rightarrow> thrown + jstr option" where
  "actorPrincipalField actor =
     mapOptE (\<lambda>a. requiredText (JStr (actorPrincipalFromRef a)) (Some 512)) actor"

definition opt_str :: "jstr option \<Rightarrow> jsval" where
  "opt_str v = js_opt JStr v"

section \<open>The payload of the deprecated inputs\<close>

text \<open>An object literal is a new object of the heap.\<close>

definition alloc :: "heap \<Rightarrow> hobj \<Rightarrow> heap \<times> hval" where
  "alloc h ob = (h @ [ob], HRef (length h))"

definition literal :: "(jstr \<times> hval) list \<Rightarrow> hobj" where
  "literal ps = HObject True False (map (\<lambda>(k, v). (k, DataProp True v)) ps)"

definition nullish :: "hval \<Rightarrow> hval" where
  "nullish v = (if v = HUndef then HNull else v)"

definition opt_member :: "jstr \<Rightarrow> jstr option \<Rightarrow> (jstr \<times> hval) list" where
  "opt_member k v = (case v of None \<Rightarrow> [] | Some s \<Rightarrow> [(k, HStr s)])"

definition actor_literal :: "normalized_actor_ref \<Rightarrow> hobj" where
  "actor_literal a = literal (opt_member (lit ''type'') (nar_type a) @ [(lit ''id'', HStr (nar_id a))] @
     opt_member (lit ''provider'') (nar_provider a))"

definition alloc_actor :: "heap \<Rightarrow> normalized_actor_ref option \<Rightarrow> heap \<times> hval" where
  "alloc_actor h actor = (case actor of None \<Rightarrow> (h, HNull) | Some a \<Rightarrow> alloc h (actor_literal a))"

section \<open>Listed events\<close>

text \<open>The members that a listed event of either family carries beside its own.\<close>

record listed_facts =
  lf_eventId :: jstr
  lf_workspaceId :: jstr
  lf_connectorId :: "jstr option"
  lf_sourceEventId :: "jstr option"
  lf_idempotencyKey :: jstr
  lf_actor :: "normalized_actor_ref option"
  lf_actorPrincipal :: "jstr option"
  lf_payload :: jsval
  lf_payloadJson :: jsval
  lf_occurredAt :: "jstr option"
  lf_observedAt :: "jstr option"
  lf_description :: "jstr option"
  lf_sourceSystem :: "jstr option"
  lf_ingesterPrincipal :: "jstr option"

section \<open>Facts\<close>

lemma requiredText_iff:
  "requiredText v maxBytes = Inr s \<longleftrightarrow> v = JStr s \<and> trim s \<noteq> [] \<and> \<not> exceeds_bytes maxBytes s"
  by (cases v) (auto simp: requiredText_def boundedText_def)

lemma optionalText_iff:
  "optionalText v n = Inr w \<longleftrightarrow>
     (case v of
        None \<Rightarrow> w = None
      | Some s \<Rightarrow> if s = [] then w = None else w = Some s \<and> utf8_length s \<le> n)"
  by (cases v) (auto simp: optionalText_def boundedText_def exceeds_bytes_def)

lemma requiredId_iff:
  "requiredId v maxBytes = Inr s \<longleftrightarrow>
     normalizeId v = Inr s \<and> trim s \<noteq> [] \<and> \<not> exceeds_bytes maxBytes s"
  by (auto simp: requiredId_def validatedId_def result_iff split: if_splits)

lemma optionalId_ok:
  "optionalId v (Some n) = Inr (Some s) \<Longrightarrow> trim s \<noteq> [] \<and> utf8_length s \<le> n"
  by (auto simp: optionalId_def validatedId_def result_iff exceeds_bytes_def split: if_splits)

lemma actorPrincipal_ok:
  "actorPrincipalField actor = Inr (Some s) \<Longrightarrow> trim s \<noteq> [] \<and> utf8_length s \<le> 512"
  by (cases actor) (auto simp: actorPrincipalField_def result_iff requiredText_iff exceeds_bytes_def)

lemma opt_str_simps [simp]: "opt_str None = JUndef" "opt_str (Some s) = JStr s"
  by (simp_all add: opt_str_def)

end
