(* ===== verification/Cdc_Events.thy ===== *)
theory Cdc_Events
  imports Event_Fields
begin

text \<open>
  CDC events on the wire (src/src/cdc.ts): the two caller inputs turned into the request's event
  object, and a listed event turned into the one the caller reads. An event object on the wire
  is a property list; its members carry the protobuf field names.
\<close>

section \<open>Operations\<close>

datatype cdc_operation = cdc_insert | cdc_update | cdc_delete | cdc_snapshot

text \<open>The text of the TypeScript union's member.\<close>

definition operation_text :: "cdc_operation \<Rightarrow> jstr" where
  "operation_text op =
     (case op of cdc_insert \<Rightarrow> lit ''insert'' | cdc_update \<Rightarrow> lit ''update''
      | cdc_delete \<Rightarrow> lit ''delete'' | cdc_snapshot \<Rightarrow> lit ''snapshot'')"

definition cdcOperation :: "jstr option \<Rightarrow> thrown + jstr" where
  "cdcOperation operation =
     (if operation = Some (lit ''insert'') then Inr (lit ''CDC_OPERATION_INSERT'')
      else if operation = Some (lit ''update'') then Inr (lit ''CDC_OPERATION_UPDATE'')
      else if operation = Some (lit ''delete'') then Inr (lit ''CDC_OPERATION_DELETE'')
      else if operation = Some (lit ''snapshot'') then Inr (lit ''CDC_OPERATION_SNAPSHOT'')
      else Inl (medErr MEDALLION_INVALID_CDC_OPERATION))"

definition cdcOperationFromWire :: "jsval \<Rightarrow> cdc_operation option" where
  "cdcOperationFromWire v =
     (if v = JStr (lit ''CDC_OPERATION_INSERT'') then Some cdc_insert
      else if v = JStr (lit ''CDC_OPERATION_UPDATE'') then Some cdc_update
      else if v = JStr (lit ''CDC_OPERATION_DELETE'') then Some cdc_delete
      else if v = JStr (lit ''CDC_OPERATION_SNAPSHOT'') then Some cdc_snapshot
      else None)"

section \<open>Events to publish\<close>

record cdc_event_input = event_facts +
  ci_streamName :: "jstr option"
  ci_entityType :: "jstr option"
  ci_entityId :: jsval
  ci_operation :: "jstr option"

record legacy_cdc_input = event_facts +
  li_source :: "jstr option"
  li_table :: "jstr option"
  li_operation :: "jstr option"
  li_primaryKey :: "(jstr \<times> jsval) list"
  li_entityType :: "jstr option"
  li_entityId :: jsval
  li_before :: hval
  li_after :: hval
  li_metadata :: hval

definition cdc_rejectServerOwnedInput :: "jstr list \<Rightarrow> thrown + unit" where
  "cdc_rejectServerOwnedInput keys = rejectServerOwned server_owned_fields keys"

definition cdc_wire ::
    "jstr \<Rightarrow> jstr \<Rightarrow> jstr \<Rightarrow> jstr \<Rightarrow> jstr option \<Rightarrow> jstr \<Rightarrow> jstr option \<Rightarrow> jstr \<Rightarrow> jstr option \<Rightarrow>
     jstr option \<Rightarrow> (jstr \<times> jsval) list" where
  "cdc_wire stream etype eid op source_id key actor_text payload time description =
     compactRecord
       [(lit ''stream_name'', JStr stream), (lit ''entity_type'', JStr etype),
        (lit ''entity_id'', JStr eid), (lit ''operation'', JStr op),
        (lit ''source_event_id'', opt_str source_id), (lit ''idempotency_key'', JStr key),
        (lit ''actor_principal'', opt_str actor_text), (lit ''payload_json'', JStr payload),
        (lit ''occurred_at'', opt_str time), (lit ''description'', opt_str description)]"

definition cdc_modernEventToWire :: "heap \<Rightarrow> cdc_event_input \<Rightarrow> thrown + (jstr \<times> jsval) list" where
  "cdc_modernEventToWire h input =
     thenE (cdc_rejectServerOwnedInput (ef_otherKeys input))
     (bindE (normalizedActor (ef_actor input)) (\<lambda>actor.
      bindE (requiredText (opt_str (ci_streamName input)) (Some 256)) (\<lambda>stream.
      bindE (requiredText (opt_str (ci_entityType input)) (Some 256)) (\<lambda>etype.
      bindE (requiredId (ci_entityId input) (Some 1024)) (\<lambda>eid.
      bindE (cdcOperation (ci_operation input)) (\<lambda>op.
      bindE (optionalId (ef_sourceEventId input) (Some 1024)) (\<lambda>source_id.
      bindE (requiredIdempotencyKey (ef_idempotencyKey input) (Some 512)) (\<lambda>key.
      bindE (actorPrincipalField actor) (\<lambda>actor_text.
      bindE (rawOrJsonString h (ef_payload input) (ef_payloadJson input)) (\<lambda>payload.
      bindE (occurredAt (ef_occurredAt input)) (\<lambda>time.
      bindE (optionalText (ef_description input) 4096) (\<lambda>description.
        Inr (cdc_wire stream etype eid op source_id key actor_text payload time description)))))))))))))"

definition normalizePrimaryKey :: "(jstr \<times> jsval) list \<Rightarrow> thrown + (jstr \<times> jstr) list" where
  "normalizePrimaryKey v =
     mapE (\<lambda>e. bindE (requiredId (snd e) None) (\<lambda>i. Inr (fst e, i))) v"

definition legacyEntityId :: "legacy_cdc_input \<Rightarrow> (jstr \<times> jstr) list \<Rightarrow> thrown + jstr" where
  "legacyEntityId input primaryKey =
     (if li_entityId input = JUndef
      then requiredText (case primaryKey of [] \<Rightarrow> JUndef | e # _ \<Rightarrow> JStr (snd e)) (Some 1024)
      else requiredId (li_entityId input) (Some 1024))"

definition cdc_compatibilityPayload ::
    "heap \<Rightarrow> legacy_cdc_input \<Rightarrow> normalized_actor_ref option \<Rightarrow> (jstr \<times> jstr) list \<Rightarrow> heap \<times> hval" where
  "cdc_compatibilityPayload h input actor primaryKey =
     (let (h1, actor_ref) = alloc_actor h actor;
          (h2, key_ref) = alloc h1 (literal (map (\<lambda>(k, v). (k, HStr v)) primaryKey))
      in alloc h2 (literal
           [(lit ''source'', case li_source input of None \<Rightarrow> HUndef | Some s \<Rightarrow> HStr s),
            (lit ''table'', case li_table input of None \<Rightarrow> HUndef | Some s \<Rightarrow> HStr s),
            (lit ''actor'', actor_ref), (lit ''primaryKey'', key_ref),
            (lit ''before'', nullish (li_before input)), (lit ''after'', nullish (li_after input)),
            (lit ''metadata'', nullish (li_metadata input))]))"

definition cdc_legacyEventToWire :: "heap \<Rightarrow> legacy_cdc_input \<Rightarrow> thrown + (jstr \<times> jsval) list" where
  "cdc_legacyEventToWire h input =
     thenE (cdc_rejectServerOwnedInput (ef_otherKeys input))
     (bindE (normalizePrimaryKey (li_primaryKey input)) (\<lambda>primaryKey.
      thenE (failIf (length primaryKey = 0) (medErr MEDALLION_EMPTY_CDC_PRIMARY_KEY))
      (thenE (failIf (length primaryKey > 1 \<and> li_entityId input = JUndef)
                (medErr MEDALLION_MISSING_CDC_ENTITY_ID))
      (bindE (legacyEntityId input primaryKey) (\<lambda>eid.
       bindE (normalizedActor (ef_actor input)) (\<lambda>actor.
       bindE (requiredText (opt_str (li_table input)) (Some 256)) (\<lambda>stream.
       bindE (requiredText (opt_str (orOption (li_entityType input) (li_table input))) (Some 256)) (\<lambda>etype.
       bindE (cdcOperation (li_operation input)) (\<lambda>op.
       bindE (optionalId (ef_sourceEventId input) (Some 1024)) (\<lambda>source_id.
       bindE (requiredIdempotencyKey (ef_idempotencyKey input) (Some 512)) (\<lambda>key.
       bindE (actorPrincipalField actor) (\<lambda>actor_text.
       bindE (let (h', compat) = cdc_compatibilityPayload h input actor primaryKey
              in rawOrJsonString h' (if ef_payload input = HUndef then compat else ef_payload input)
                   (ef_payloadJson input)) (\<lambda>payload.
       bindE (occurredAt (ef_occurredAt input)) (\<lambda>time.
       bindE (optionalText (ef_description input) 4096) (\<lambda>description.
         Inr (cdc_wire stream etype eid op source_id key actor_text payload time description))))))))))))))))"

section \<open>Listed events\<close>

record cdc_read_event = listed_facts +
  cr_streamName :: jstr
  cr_entityType :: jstr
  cr_entityId :: jstr
  cr_operation :: cdc_operation

definition cdcEventFromWire ::
    "(jstr \<times> jsval) list \<Rightarrow> jstr \<Rightarrow> jstr option \<Rightarrow> thrown + cdc_read_event" where
  "cdcEventFromWire event expectedWorkspaceId requestId =
     (let field = (\<lambda>k. own_prop event (lit k)) in
      bindE (requiredListEventId (field ''id'') requestId) (\<lambda>eventId.
      bindE (requiredListText (field ''stream_name'') (Some 256) requestId) (\<lambda>streamName.
      bindE (requiredListText (field ''entity_type'') (Some 256) requestId) (\<lambda>entityType.
      bindE (requiredListText (field ''entity_id'') (Some 1024) requestId) (\<lambda>entityId.
      bindE (requiredListIdempotencyKey (field ''idempotency_key'') requestId) (\<lambda>idempotencyKey.
      bindE (requiredResponseWorkspace (field ''workspace_id'') expectedWorkspaceId requestId) (\<lambda>workspaceId.
      bindE (optionalListText (field ''connector_id'') 128 requestId) (\<lambda>connectorId.
      bindE (optionalListText (field ''source_event_id'') 1024 requestId) (\<lambda>sourceEventId.
      bindE (optionalListText (field ''actor_principal'') 512 requestId) (\<lambda>actorPrincipal.
      bindE (optionalListText (field ''description'') 4096 requestId) (\<lambda>description.
      bindE (optionalListText (field ''source_system'') 256 requestId) (\<lambda>sourceSystem.
      bindE (optionalListText (field ''ingested_by_principal'') 512 requestId) (\<lambda>ingesterPrincipal.
      bindE (parseListJsonPayload (field ''payload_json'') requestId) (\<lambda>payload.
      (case cdcOperationFromWire (field ''operation'') of
         None \<Rightarrow> Inl (invalidListResponse requestId)
       | Some operation \<Rightarrow>
           bindE (optionalListTimestamp (field ''occurred_at'') requestId) (\<lambda>occurred.
           bindE (optionalListTimestamp (field ''observed_at'') requestId) (\<lambda>observed.
             Inr \<lparr>lf_eventId = eventId, lf_workspaceId = workspaceId, lf_connectorId = connectorId,
                  lf_sourceEventId = sourceEventId, lf_idempotencyKey = idempotencyKey,
                  lf_actor = actorFromEventPayload payload actorPrincipal,
                  lf_actorPrincipal = actorPrincipal, lf_payload = payload,
                  lf_payloadJson = field ''payload_json'', lf_occurredAt = occurred,
                  lf_observedAt = observed, lf_description = description,
                  lf_sourceSystem = sourceSystem, lf_ingesterPrincipal = ingesterPrincipal,
                  cr_streamName = streamName, cr_entityType = entityType, cr_entityId = entityId,
                  cr_operation = operation\<rparr>)))))))))))))))))"

end
