(* ===== verification/Audit_Events.thy ===== *)
theory Audit_Events
  imports Event_Fields
begin

text \<open>
  Audit events on the wire (src/src/audit.ts): the two caller inputs turned into the request's
  event object, and a listed event turned into the one the caller reads.
\<close>

section \<open>Outcomes and origins\<close>

datatype audit_outcome = out_succeeded | out_failed | out_indeterminate
datatype audit_origin = external_provider | connect_origin

definition outcome_text :: "audit_outcome \<Rightarrow> jstr" where
  "outcome_text v =
     (case v of out_succeeded \<Rightarrow> lit ''succeeded'' | out_failed \<Rightarrow> lit ''failed''
      | out_indeterminate \<Rightarrow> lit ''indeterminate'')"

definition origin_text :: "audit_origin \<Rightarrow> jstr" where
  "origin_text v =
     (case v of external_provider \<Rightarrow> lit ''external_provider'' | connect_origin \<Rightarrow> lit ''connect'')"

definition auditOutcome :: "jstr option \<Rightarrow> thrown + jstr" where
  "auditOutcome v =
     (if v = Some (lit ''succeeded'') then Inr (lit ''AUDIT_EVENT_OUTCOME_SUCCEEDED'')
      else if v = Some (lit ''failed'') then Inr (lit ''AUDIT_EVENT_OUTCOME_FAILED'')
      else if v = Some (lit ''indeterminate'') then Inr (lit ''AUDIT_EVENT_OUTCOME_INDETERMINATE'')
      else Inl (medErr MEDALLION_INVALID_AUDIT_OUTCOME))"

definition auditOrigin :: "jstr \<Rightarrow> thrown + jstr" where
  "auditOrigin v =
     (if v = lit ''external_provider'' then Inr (lit ''AUDIT_EVENT_ORIGIN_EXTERNAL_PROVIDER'')
      else if v = lit ''connect'' then Inr (lit ''AUDIT_EVENT_ORIGIN_CONNECT'')
      else Inl (medErr MEDALLION_INVALID_AUDIT_ORIGIN))"

definition auditOutcomeFromWire :: "jsval \<Rightarrow> audit_outcome option" where
  "auditOutcomeFromWire v =
     (if v = JStr (lit ''AUDIT_EVENT_OUTCOME_SUCCEEDED'') then Some out_succeeded
      else if v = JStr (lit ''AUDIT_EVENT_OUTCOME_FAILED'') then Some out_failed
      else if v = JStr (lit ''AUDIT_EVENT_OUTCOME_INDETERMINATE'') then Some out_indeterminate
      else None)"

definition auditOriginFromWire :: "jsval \<Rightarrow> audit_origin option" where
  "auditOriginFromWire v =
     (if v = JStr (lit ''AUDIT_EVENT_ORIGIN_EXTERNAL_PROVIDER'') then Some external_provider
      else if v = JStr (lit ''AUDIT_EVENT_ORIGIN_CONNECT'') then Some connect_origin
      else None)"

section \<open>Events to publish\<close>

record audit_event_input = event_facts +
  ai_resourceType :: "jstr option"
  ai_resourceId :: jsval
  ai_action :: "jstr option"
  ai_outcome :: "jstr option"

record legacy_audit_input = event_facts +
  la_action :: "jstr option"
  la_outcome :: "jstr option"
  la_resource :: resource_ref
  la_before :: hval
  la_after :: hval
  la_metadata :: hval
  la_evidenceUrl :: "jstr option"

definition audit_rejectServerOwnedInput :: "jstr list \<Rightarrow> thrown + unit" where
  "audit_rejectServerOwnedInput keys = rejectServerOwned (server_owned_fields @ [lit ''origin'']) keys"

definition audit_wire ::
    "jstr \<Rightarrow> jstr \<Rightarrow> jstr \<Rightarrow> jstr \<Rightarrow> jstr \<Rightarrow> jstr option \<Rightarrow> jstr \<Rightarrow> jstr option \<Rightarrow> jstr option \<Rightarrow>
     jstr option \<Rightarrow> (jstr \<times> jsval) list" where
  "audit_wire rtype rid action outcome key actor_text payload time description source_id =
     compactRecord
       [(lit ''resource_type'', JStr rtype), (lit ''resource_id'', JStr rid),
        (lit ''action'', JStr action), (lit ''outcome'', JStr outcome),
        (lit ''idempotency_key'', JStr key), (lit ''actor_principal'', opt_str actor_text),
        (lit ''payload_json'', JStr payload), (lit ''occurred_at'', opt_str time),
        (lit ''description'', opt_str description), (lit ''source_event_id'', opt_str source_id)]"

definition audit_modernEventToWire :: "heap \<Rightarrow> audit_event_input \<Rightarrow> thrown + (jstr \<times> jsval) list" where
  "audit_modernEventToWire h input =
     thenE (audit_rejectServerOwnedInput (ef_otherKeys input))
     (bindE (normalizedActor (ef_actor input)) (\<lambda>actor.
      bindE (requiredText (opt_str (ai_resourceType input)) (Some 256)) (\<lambda>rtype.
      bindE (requiredId (ai_resourceId input) (Some 1024)) (\<lambda>rid.
      bindE (requiredText (opt_str (ai_action input)) (Some 256)) (\<lambda>action.
      bindE (auditOutcome (ai_outcome input)) (\<lambda>outcome.
      bindE (requiredIdempotencyKey (ef_idempotencyKey input) (Some 512)) (\<lambda>key.
      bindE (actorPrincipalField actor) (\<lambda>actor_text.
      bindE (rawOrJsonString h (ef_payload input) (ef_payloadJson input)) (\<lambda>payload.
      bindE (occurredAt (ef_occurredAt input)) (\<lambda>time.
      bindE (optionalText (ef_description input) 4096) (\<lambda>description.
      bindE (optionalId (ef_sourceEventId input) (Some 1024)) (\<lambda>source_id.
        Inr (audit_wire rtype rid action outcome key actor_text payload time description source_id)))))))))))))"

definition audit_compatibilityPayload ::
    "heap \<Rightarrow> legacy_audit_input \<Rightarrow> normalized_actor_ref option \<Rightarrow> normalized_resource_ref \<Rightarrow> heap \<times> hval" where
  "audit_compatibilityPayload h input actor resource =
     (let (h1, actor_ref) = alloc_actor h actor;
          (h2, resource_ref) = alloc h1 (literal
             [(lit ''type'', HStr (nrr_type resource)), (lit ''id'', HStr (nrr_id resource))])
      in alloc h2 (literal
           [(lit ''actor'', actor_ref), (lit ''resource'', resource_ref),
            (lit ''before'', nullish (la_before input)), (lit ''after'', nullish (la_after input)),
            (lit ''metadata'', nullish (la_metadata input)),
            (lit ''evidenceUrl'', case la_evidenceUrl input of None \<Rightarrow> HNull | Some s \<Rightarrow> HStr s)]))"

definition audit_legacyEventToWire :: "heap \<Rightarrow> legacy_audit_input \<Rightarrow> thrown + (jstr \<times> jsval) list" where
  "audit_legacyEventToWire h input =
     thenE (audit_rejectServerOwnedInput (ef_otherKeys input))
     (bindE (normalizeResourceRef (la_resource input)) (\<lambda>resource.
      bindE (normalizedActor (ef_actor input)) (\<lambda>actor.
      bindE (requiredText (JStr (nrr_type resource)) (Some 256)) (\<lambda>rtype.
      bindE (requiredId (JStr (nrr_id resource)) (Some 1024)) (\<lambda>rid.
      bindE (requiredText (opt_str (la_action input)) (Some 256)) (\<lambda>action.
      bindE (auditOutcome (la_outcome input)) (\<lambda>outcome.
      bindE (requiredIdempotencyKey (ef_idempotencyKey input) (Some 512)) (\<lambda>key.
      bindE (actorPrincipalField actor) (\<lambda>actor_text.
      bindE (let (h', compat) = audit_compatibilityPayload h input actor resource
             in rawOrJsonString h' (if ef_payload input = HUndef then compat else ef_payload input)
                  (ef_payloadJson input)) (\<lambda>payload.
      bindE (occurredAt (ef_occurredAt input)) (\<lambda>time.
      bindE (optionalText (ef_description input) 4096) (\<lambda>description.
      bindE (optionalId (ef_sourceEventId input) (Some 1024)) (\<lambda>source_id.
        Inr (audit_wire rtype rid action outcome key actor_text payload time description source_id))))))))))))))"

section \<open>Listed events\<close>

record audit_read_event = listed_facts +
  tr_action :: jstr
  tr_targetType :: jstr
  tr_targetId :: jstr
  tr_entityType :: jstr
  tr_entityId :: jstr
  tr_metadata :: "(jstr \<times> jsval) list option"
  tr_createdAt :: "jstr option"
  tr_before :: jsval
  tr_after :: jsval
  tr_evidenceUrl :: "jstr option"
  tr_origin :: audit_origin
  tr_outcome :: audit_outcome

definition stringValue :: "jsval \<Rightarrow> jstr option" where
  "stringValue v = (case v of JStr s \<Rightarrow> if s = [] then None else Some s | _ \<Rightarrow> None)"

text \<open>\<open>payloadRecord?.k\<close>.\<close>

definition payload_member :: "jsval \<Rightarrow> string \<Rightarrow> jsval" where
  "payload_member payload k =
     (case record_of payload of None \<Rightarrow> JUndef | Some r \<Rightarrow> own_prop r (lit k))"

definition auditEventFromWire ::
    "(jstr \<times> jsval) list \<Rightarrow> jstr \<Rightarrow> jstr option \<Rightarrow> thrown + audit_read_event" where
  "auditEventFromWire event expectedWorkspaceId requestId =
     (let field = (\<lambda>k. own_prop event (lit k)) in
      bindE (requiredListText (field ''resource_type'') (Some 256) requestId) (\<lambda>resourceType.
      bindE (requiredListText (field ''resource_id'') (Some 1024) requestId) (\<lambda>resourceId.
      bindE (requiredListText (field ''action'') (Some 256) requestId) (\<lambda>action.
      bindE (requiredListIdempotencyKey (field ''idempotency_key'') requestId) (\<lambda>idempotencyKey.
      bindE (requiredResponseWorkspace (field ''workspace_id'') expectedWorkspaceId requestId) (\<lambda>workspaceId.
      bindE (optionalListText (field ''connector_id'') 128 requestId) (\<lambda>connectorId.
      bindE (optionalListText (field ''source_event_id'') 1024 requestId) (\<lambda>sourceEventId.
      bindE (optionalListText (field ''actor_principal'') 512 requestId) (\<lambda>actorPrincipal.
      bindE (optionalListText (field ''description'') 4096 requestId) (\<lambda>description.
      bindE (optionalListText (field ''source_system'') 256 requestId) (\<lambda>sourceSystem.
      bindE (optionalListText (field ''ingested_by_principal'') 512 requestId) (\<lambda>ingesterPrincipal.
      bindE (parseListJsonPayload (field ''payload_json'') requestId) (\<lambda>payload.
      bindE (optionalListTimestamp (field ''occurred_at'') requestId) (\<lambda>occurred.
      bindE (optionalListTimestamp (field ''observed_at'') requestId) (\<lambda>observed.
      bindE (requiredListEventId (field ''id'') requestId) (\<lambda>eventId.
      (case auditOriginFromWire (field ''origin'') of
         None \<Rightarrow> Inl (invalidListResponse requestId)
       | Some origin \<Rightarrow>
      (case auditOutcomeFromWire (field ''outcome'') of
         None \<Rightarrow> Inl (invalidListResponse requestId)
       | Some outcome \<Rightarrow>
           Inr \<lparr>lf_eventId = eventId, lf_workspaceId = workspaceId, lf_connectorId = connectorId,
                lf_sourceEventId = sourceEventId, lf_idempotencyKey = idempotencyKey,
                lf_actor = actorFromEventPayload payload actorPrincipal,
                lf_actorPrincipal = actorPrincipal, lf_payload = payload,
                lf_payloadJson = field ''payload_json'', lf_occurredAt = occurred,
                lf_observedAt = observed, lf_description = description,
                lf_sourceSystem = sourceSystem, lf_ingesterPrincipal = ingesterPrincipal,
                tr_action = action, tr_targetType = resourceType, tr_targetId = resourceId,
                tr_entityType = resourceType, tr_entityId = resourceId,
                tr_metadata = record_of (payload_member payload ''metadata''),
                tr_createdAt = observed, tr_before = payload_member payload ''before'',
                tr_after = payload_member payload ''after'',
                tr_evidenceUrl = stringValue (payload_member payload ''evidenceUrl''),
                tr_origin = origin, tr_outcome = outcome\<rparr>))))))))))))))))))"

end
