(* ===== verification/Redaction.thy ===== *)
theory Redaction
  imports Sdk_Error
begin

text \<open>
  Replacing secrets by \<open>[REDACTED]\<close> (\<open>redactText\<close> and \<open>redactRecord\<close> of
  src/src/errors.ts). The code splits at each secret and joins with the marker, one secret
  after the other; the lemmas say for which secrets that removes every occurrence.
\<close>

section \<open>The operations\<close>

definition REDACTED :: jstr where
  "REDACTED = lit ''[REDACTED]''"

text \<open>\<open>output.split(secret).join("[REDACTED]")\<close>.\<close>

definition redact_one :: "jstr \<Rightarrow> jstr \<Rightarrow> jstr" where
  "redact_one secret text = join REDACTED (split_on secret text)"

fun redact_string :: "jstr \<Rightarrow> jstr list \<Rightarrow> jstr" where
  "redact_string output [] = output"
| "redact_string output (secret # redactions) =
     redact_string (if secret = [] then output else redact_one secret output) redactions"

definition redactText :: "jstr option \<Rightarrow> jstr list \<Rightarrow> jstr option" where
  "redactText value redactions = map_option (\<lambda>v. redact_string v redactions) value"

text \<open>\<open>Object.fromEntries\<close>: a repeated key keeps its last value.\<close>

definition from_entries :: "(jstr \<times> 'a) list \<Rightarrow> (jstr \<times> 'a) list" where
  "from_entries es = foldl (\<lambda>acc (k, v). set_prop acc k v) [] es"

definition redactRecord :: "(jstr \<times> jstr) list option \<Rightarrow> jstr list \<Rightarrow> (jstr \<times> jstr) list" where
  "redactRecord value redactions =
     from_entries (map (\<lambda>(k, v). (redact_string k redactions, redact_string v redactions))
       (orElse value []))"

section \<open>Which secrets are removed\<close>

text \<open>
  A secret whose occurrences cannot touch the marker: not empty, no bracket, and no part of
  the marker's own word.
\<close>

definition redactable :: "jstr \<Rightarrow> bool" where
  "redactable s \<longleftrightarrow>
     s \<noteq> [] \<and> of_char CHR ''['' \<notin> set s \<and> of_char CHR '']'' \<notin> set s \<and>
     \<not> occurs s (lit ''REDACTED'')"

lemma occurs_sep:
  assumes "occurs s (u @ c # w)" "c \<notin> set s" "s \<noteq> []"
  shows "occurs s u \<or> occurs s w"
proof -
  from assms(1) obtain x y where eq: "u @ c # w = x @ s @ y"
    by (auto simp: occurs_iff)
  show ?thesis
  proof (cases "length x + length s \<le> length u")
    case True
    from eq have "take (length u) (x @ s @ y) = u" by (metis append_eq_conv_conj)
    with True have "u = x @ s @ take (length u - length x - length s) y"
      by (simp add: diff_diff_left)
    then show ?thesis by (auto simp: occurs_iff)
  next
    case False
    show ?thesis
    proof (cases "length u < length x")
      case True
      have "drop (Suc (length u)) (u @ c # w) = w" by simp
      with eq have "w = drop (Suc (length u)) (x @ s @ y)" by simp
      with True have "w = drop (Suc (length u)) x @ s @ y" by simp
      then show ?thesis by (auto simp: occurs_iff)
    next
      case in_s: False
      have "(u @ c # w) ! length u = c" by simp
      then have "(x @ s @ y) ! length u = c" using eq by simp
      moreover have lt: "length u - length x < length s" using False in_s by simp
      ultimately have "s ! (length u - length x) = c"
        using in_s by (simp add: nth_append)
      with lt assms(2) show ?thesis by (metis nth_mem)
    qed
  qed
qed

lemma occurs_marker:
  assumes "redactable s" "occurs s (u @ REDACTED @ w)"
  shows "occurs s u \<or> occurs s w"
proof -
  have ne: "s \<noteq> []" and lb: "of_char CHR ''['' \<notin> set s" and rb: "of_char CHR '']'' \<notin> set s"
    and no: "\<not> occurs s (lit ''REDACTED'')"
    using assms(1) by (auto simp: redactable_def)
  have R: "REDACTED = of_char CHR ''['' # lit ''REDACTED'' @ [of_char CHR '']'']"
    by (simp add: REDACTED_def lit_def)
  have "occurs s u \<or> occurs s (lit ''REDACTED'' @ of_char CHR '']'' # w)"
    using assms(2) lb ne by (intro occurs_sep [where c = "of_char CHR ''[''"]) (simp_all add: R)
  then show ?thesis
    using occurs_sep [of s "lit ''REDACTED''" "of_char CHR '']''" w] rb ne no by blast
qed

lemma join_marker_free:
  assumes "redactable s" "\<And>p. p \<in> set ps \<Longrightarrow> \<not> occurs s p"
  shows "\<not> occurs s (join REDACTED ps)"
  using assms(2)
proof (induction ps)
  case Nil
  then show ?case using assms(1) by (simp add: redactable_def)
next
  case (Cons p ps)
  show ?case
  proof (cases "ps = []")
    case True
    with Cons.prems show ?thesis by simp
  next
    case False
    have "\<not> occurs s (p @ REDACTED @ join REDACTED ps)"
      using occurs_marker [OF assms(1)] Cons by (metis list.set_intros)
    with False show ?thesis by (simp add: join_Cons)
  qed
qed

lemma redact_one_removes: "redactable s \<Longrightarrow> \<not> occurs s (redact_one s t)"
  unfolding redact_one_def
  by (rule join_marker_free) (auto simp: redactable_def dest: split_on_pieces)

lemma redact_one_keeps_free:
  "redactable s \<Longrightarrow> \<not> occurs s t \<Longrightarrow> \<not> occurs s (redact_one secret t)"
  unfolding redact_one_def
  by (rule join_marker_free) (auto dest: split_on_join_set occurs_trans)

lemma redact_string_keeps_free:
  "redactable s \<Longrightarrow> \<not> occurs s t \<Longrightarrow> \<not> occurs s (redact_string t redactions)"
  by (induction redactions arbitrary: t) (auto simp: redact_one_keeps_free)

lemma redact_string_removes:
  "redactable s \<Longrightarrow> s \<in> set redactions \<Longrightarrow> \<not> occurs s (redact_string t redactions)"
proof (induction redactions arbitrary: t)
  case Nil
  then show ?case by simp
next
  case (Cons secret redactions)
  show ?case
  proof (cases "s = secret")
    case True
    with Cons.prems(1) have "secret \<noteq> []" by (simp add: redactable_def)
    with True Cons.prems(1) redact_one_removes redact_string_keeps_free show ?thesis by simp
  next
    case False
    with Cons show ?thesis by simp
  qed
qed

lemma redactText_removes:
  "redactable s \<Longrightarrow> s \<in> set redactions \<Longrightarrow> redactText v redactions = Some t \<Longrightarrow> \<not> occurs s t"
  by (auto simp: redactText_def redact_string_removes)

lemma redact_one_absent: "\<not> occurs s t \<Longrightarrow> redact_one s t = t"
  by (simp add: redact_one_def split_on_absent)

lemma redact_string_absent:
  "(\<And>s. s \<in> set redactions \<Longrightarrow> s \<noteq> [] \<Longrightarrow> \<not> occurs s t) \<Longrightarrow> redact_string t redactions = t"
  by (induction redactions) (auto simp: redact_one_absent)

lemma set_prop_entry: "e \<in> set (set_prop ps k v) \<Longrightarrow> e \<in> set ps \<or> e = (k, v)"
  by (induction ps k v rule: set_prop.induct) (auto split: if_splits)

lemma set_from_entries: "set (from_entries es) \<subseteq> set es"
proof -
  have gen: "set (foldl (\<lambda>acc (k, v). set_prop acc k v) acc es) \<subseteq> set acc \<union> set es" for acc
  proof (induction es arbitrary: acc)
    case Nil
    show ?case by simp
  next
    case (Cons e es)
    obtain k v where e: "e = (k, v)" by (cases e)
    have "set (foldl (\<lambda>acc (k, v). set_prop acc k v) (set_prop acc k v) es)
        \<subseteq> set (set_prop acc k v) \<union> set es"
      by (rule Cons.IH)
    with e show ?case by (auto dest: set_prop_entry)
  qed
  show ?thesis using gen [of "[]"] by (simp add: from_entries_def)
qed

lemma redactRecord_removes:
  assumes "redactable s" "s \<in> set redactions" "(k, v) \<in> set (redactRecord m redactions)"
  shows "\<not> occurs s k \<and> \<not> occurs s v"
proof -
  obtain k' v' where "k = redact_string k' redactions" "v = redact_string v' redactions"
    using assms(3) set_from_entries by (fastforce simp: redactRecord_def)
  with redact_string_removes [OF assms(1,2)] show ?thesis by simp
qed

end
