(* ===== verification/Request_Body.thy ===== *)
theory Request_Body
  imports Request_Config Redaction Js_Utf8 Json
begin

text \<open>
  What the transport reads from a response (src/src/request.ts): the body, bounded in bytes
  and decoded chunk by chunk, then parsed as JSON; the request id, redacted and stripped of
  control characters; the Retry-After header. A body is the script of what the stream
  delivers: its chunks, then the end or an error.
\<close>

section \<open>Responses\<close>

record body_stream =
  bs_chunks :: "byte list list"
  bs_error :: "thrown option"

record response =
  rs_status :: int
  rs_redirected :: bool
  rs_headers :: headers
  rs_body :: "body_stream option"

definition response_ok :: "response \<Rightarrow> bool" where
  "response_ok r \<longleftrightarrow> 200 \<le> rs_status r \<and> rs_status r \<le> 299"

text \<open>The local error classes of the reader, and whatever the stream itself threw.\<close>

datatype body_failure = ResponseTooLargeError | InvalidJsonResponseError | ReadFailed thrown

definition MAX_RESPONSE_BODY_BYTES :: nat where
  "MAX_RESPONSE_BODY_BYTES = 67108864"

section \<open>Reading the body\<close>

fun read_loop ::
    "nat \<Rightarrow> decoder \<Rightarrow> decoded list \<Rightarrow> byte list list \<Rightarrow> thrown option \<Rightarrow>
     (body_failure + jstr) \<times> effect list" where
  "read_loop receivedBytes d parts [] None =
     (Inr (units_of (drop_bom (map replaced_scalar (parts @ decoder_flush d)))), [])"
| "read_loop receivedBytes d parts [] (Some e) = (Inl (ReadFailed e), [])"
| "read_loop receivedBytes d parts (chunk # chunks) end =
     (let receivedBytes' = receivedBytes + length chunk in
      if receivedBytes' > MAX_RESPONSE_BODY_BYTES then (Inl ResponseTooLargeError, [CancelBody])
      else (let (d', out) = decoder_run d chunk
            in read_loop receivedBytes' d' (parts @ out) chunks end))"

definition readBoundedResponseText :: "response \<Rightarrow> (body_failure + jstr) \<times> effect list" where
  "readBoundedResponseText r =
     (let declaredLength = map_option trim (header_get (rs_headers r) (lit ''content-length'')) in
      if (case declaredLength of
            None \<Rightarrow> False
          | Some s \<Rightarrow> all_digits s \<and> parse_dec s > MAX_RESPONSE_BODY_BYTES)
      then (Inl ResponseTooLargeError, [CancelBody])
      else
        (case rs_body r of
           None \<Rightarrow> (Inr [], [])
         | Some b \<Rightarrow> read_loop 0 decoder_start [] (bs_chunks b) (bs_error b)))"

definition readResponseBody :: "response \<Rightarrow> (body_failure + jsval) \<times> effect list" where
  "readResponseBody r =
     (if rs_status r = 204 \<or> rs_status r = 205 then (Inr JUndef, [])
      else
        (case readBoundedResponseText r of
           (Inl e, fx) \<Rightarrow> (Inl e, fx)
         | (Inr t, fx) \<Rightarrow>
             if t = [] then (Inr JUndef, fx)
             else
               (case json_parse t of
                  None \<Rightarrow> (Inl InvalidJsonResponseError, fx)
                | Some v \<Rightarrow> (Inr v, fx))))"

section \<open>Request id and Retry-After\<close>

definition is_control :: "code_unit \<Rightarrow> bool" where
  "is_control u \<longleftrightarrow> u < 32 \<or> u = 127"

definition readRequestId :: "headers \<Rightarrow> jstr list \<Rightarrow> jstr option" where
  "readRequestId hs redactions =
     (case orOption (header_get hs (lit ''x-request-id''))
             (orOption (header_get hs (lit ''request-id''))
               (header_get hs (lit ''x-correlation-id''))) of
        None \<Rightarrow> None
      | Some v \<Rightarrow>
          (let redacted = redact_string v redactions;
               sanitized = take 256 (trim (filter (\<lambda>u. \<not> is_control u) redacted))
           in if sanitized \<noteq> [] then Some sanitized else None))"

text \<open>\<open>Number(raw) * 1_000\<close> in double arithmetic.\<close>

definition thousandfold :: "jsnum \<Rightarrow> jsnum" where
  "thousandfold n = (case n of Fin r \<Rightarrow> round64 (r * 1000) | _ \<Rightarrow> n)"

text \<open>\<open>parse_date\<close> is the platform's \<open>Date.parse\<close> on an HTTP date, in milliseconds.\<close>

definition retryAfterMs :: "(jstr \<Rightarrow> int option) \<Rightarrow> int \<Rightarrow> headers \<Rightarrow> jsnum option" where
  "retryAfterMs parse_date now hs =
     (case map_option trim (header_get hs (lit ''retry-after'')) of
        None \<Rightarrow> None
      | Some raw \<Rightarrow>
          if raw = [] then None
          else if all_digits raw then Some (thousandfold (round64 (of_nat (parse_dec raw))))
          else map_option (\<lambda>date. num (max 0 (date - now))) (parse_date raw))"

section \<open>The bound and the chunks\<close>

lemma read_loop_text:
  "receivedBytes \<le> MAX_RESPONSE_BODY_BYTES \<Longrightarrow>
   read_loop receivedBytes d parts chunks None =
     (if receivedBytes + length (concat chunks) > MAX_RESPONSE_BODY_BYTES
      then (Inl ResponseTooLargeError, [CancelBody])
      else (Inr (units_of (drop_bom (map replaced_scalar (parts @ decode_chunks_from d chunks)))), []))"
proof (induction chunks arbitrary: receivedBytes d parts)
  case Nil
  then show ?case by simp
next
  case (Cons c cs)
  obtain d' out where run: "decoder_run d c = (d', out)" by (cases "decoder_run d c")
  show ?case
  proof (cases "receivedBytes + length c > MAX_RESPONSE_BODY_BYTES")
    case True
    then show ?thesis by simp
  next
    case False
    then have "receivedBytes + length c \<le> MAX_RESPONSE_BODY_BYTES" by simp
    from Cons.IH [OF this, of d' "parts @ out"] False run show ?thesis
      by (simp add: add.assoc)
  qed
qed

text \<open>What the stream delivers in one piece.\<close>

definition delivered :: "response \<Rightarrow> byte list" where
  "delivered r = (case rs_body r of None \<Rightarrow> [] | Some b \<Rightarrow> concat (bs_chunks b))"

definition stream_fails :: "response \<Rightarrow> bool" where
  "stream_fails r = (case rs_body r of None \<Rightarrow> False | Some b \<Rightarrow> bs_error b \<noteq> None)"

lemma read_text:
  assumes "\<not> stream_fails r"
  shows "fst (readBoundedResponseText r) = Inl ResponseTooLargeError \<or>
     fst (readBoundedResponseText r) = Inr (utf8_decode_replacing (delivered r))"
    and "length (delivered r) > MAX_RESPONSE_BODY_BYTES \<Longrightarrow>
     fst (readBoundedResponseText r) = Inl ResponseTooLargeError"
proof -
  have none: "units_of (drop_bom (map replaced_scalar (decode_all []))) = []"
    by (simp add: decode_all_def decoder_start_def drop_bom_def units_of_def)
  show "fst (readBoundedResponseText r) = Inl ResponseTooLargeError \<or>
     fst (readBoundedResponseText r) = Inr (utf8_decode_replacing (delivered r))"
    using assms
    by (auto simp: readBoundedResponseText_def delivered_def stream_fails_def none read_loop_text
        decode_chunks_all utf8_decode_replacing_def Let_def split: option.splits)
  show "fst (readBoundedResponseText r) = Inl ResponseTooLargeError"
    if "length (delivered r) > MAX_RESPONSE_BODY_BYTES"
    using assms that
    by (auto simp: readBoundedResponseText_def delivered_def stream_fails_def read_loop_text
        Let_def split: option.splits)
qed

lemma read_loop_bounded:
  "receivedBytes \<le> MAX_RESPONSE_BODY_BYTES \<Longrightarrow>
   fst (read_loop receivedBytes d parts chunks end) = Inr t \<Longrightarrow>
   end = None \<and> receivedBytes + length (concat chunks) \<le> MAX_RESPONSE_BODY_BYTES"
proof (induction receivedBytes d parts chunks "end" rule: read_loop.induct)
  case (3 n d parts c cs e)
  then have le: "\<not> n + length c > MAX_RESPONSE_BODY_BYTES" by (auto split: if_splits)
  obtain d' out where run: "decoder_run d c = (d', out)" by (cases "decoder_run d c")
  have "e = None \<and> n + length c + length (concat cs) \<le> MAX_RESPONSE_BODY_BYTES"
    using "3.IH" [OF refl le run [symmetric] refl] "3.prems"(2) le run by simp
  then show ?case by (simp add: add.assoc)
qed auto

text \<open>
  C31. The body of a response is bounded and independent of its chunking: whatever chunks the
  stream delivers, a text is returned only when the stream ended without an error after at
  most 64 MiB, and then it is the UTF-8 decoding of all the bytes in one piece.
\<close>

theorem response_text_bounded:
  assumes "fst (readBoundedResponseText r) = Inr t"
  shows "\<not> stream_fails r \<and> length (delivered r) \<le> MAX_RESPONSE_BODY_BYTES \<and>
     t = utf8_decode_replacing (delivered r)"
proof -
  have "\<not> stream_fails r"
    using assms read_loop_bounded [of 0 decoder_start "[]"]
    by (auto simp: readBoundedResponseText_def stream_fails_def Let_def split: option.splits if_splits)
  with read_text [OF this] assms show ?thesis by force
qed

theorem response_text_bounded_witness:
  "fst (readBoundedResponseText
      \<lparr>rs_status = 200, rs_redirected = False, rs_headers = [],
       rs_body = Some \<lparr>bs_chunks = [[0xE2, 0x82], [0xAC]], bs_error = None\<rparr>\<rparr>) = Inr [0x20AC] \<and>
   utf8_decode_replacing [0xE2, 0x82, 0xAC] = [0x20AC]"
proof -
  let ?r = "\<lparr>rs_status = 200, rs_redirected = False, rs_headers = [],
       rs_body = Some \<lparr>bs_chunks = [[0xE2, 0x82], [0xAC]], bs_error = None\<rparr>\<rparr>"
  have *: "fst (readBoundedResponseText ?r) = Inr [0x20AC]"
    by (simp add: readBoundedResponseText_def header_get_def MAX_RESPONSE_BODY_BYTES_def
        decoder_start_def start_byte_def units_of_def units_of_scalar_def drop_bom_def Let_def)
  from response_text_bounded [OF this] * show ?thesis by (simp add: delivered_def)
qed

section \<open>Secrets in the request id\<close>

lemma set_join: "set (join sep ps) \<subseteq> set sep \<union> \<Union> (set ` set ps)"
  by (induction sep ps rule: join.induct) auto

lemma set_redact_string: "set (redact_string t redactions) \<subseteq> set t \<union> set REDACTED"
proof (induction redactions arbitrary: t)
  case Nil
  show ?case by simp
next
  case (Cons s redactions)
  have "set (redact_one s t) \<subseteq> set t \<union> set REDACTED"
    using set_join [of REDACTED "split_on s t"] occurs_set [OF split_on_join_set]
    unfolding redact_one_def by blast
  moreover have "set (redact_string (if s = [] then t else redact_one s t) redactions)
      \<subseteq> set (if s = [] then t else redact_one s t) \<union> set REDACTED"
    by (rule Cons.IH)
  ultimately show ?case by (auto split: if_splits)
qed

lemma occurs_trim_take: "occurs s (take n (trim t)) \<Longrightarrow> occurs s t"
proof -
  assume "occurs s (take n (trim t))"
  then have "occurs s ([] @ take n (trim t) @ drop n (trim t))" by (rule occurs_mono)
  moreover obtain u v where "t = u @ trim t @ v" using trim_factor by blast
  ultimately show ?thesis by (metis append_Nil append_take_drop_id occurs_mono)
qed

definition no_control :: "headers \<Rightarrow> bool" where
  "no_control hs \<longleftrightarrow> list_all (\<lambda>e. \<not> list_ex is_control (snd e)) hs"

lemma header_get_no_control: "no_control hs \<Longrightarrow> header_get hs name = Some v \<Longrightarrow> \<not> list_ex is_control v"
  by (force simp: no_control_def header_get_def list_all_iff dest: map_of_SomeD)

text \<open>
  When no response header has a control character, no redactable secret of the request
  occurs in the request id that errors and spans carry; the id is never empty and at most 256
  units long.
\<close>

theorem request_id_clean:
  assumes "readRequestId hs redactions = Some rid"
    and "redactable s" "s \<in> set redactions" "no_control hs"
  shows "\<not> occurs s rid \<and> rid \<noteq> [] \<and> length rid \<le> 256"
proof -
  obtain v where v: "\<not> list_ex is_control v"
    and rid: "rid = take 256 (trim (filter (\<lambda>u. \<not> is_control u) (redact_string v redactions)))"
      "rid \<noteq> []"
    using assms(1) header_get_no_control [OF assms(4)]
    by (auto simp: readRequestId_def Let_def orOption_def split: option.splits if_splits)
  have "\<not> list_ex is_control REDACTED"
    by (simp add: REDACTED_def lit_def is_control_def)
  with v have "filter (\<lambda>u. \<not> is_control u) (redact_string v redactions) = redact_string v redactions"
    using set_redact_string [of v redactions] by (auto simp: filter_id_conv list_ex_iff)
  with rid redact_string_removes [OF assms(2,3)] show ?thesis
    by (auto dest: occurs_trim_take)
qed

theorem request_id_clean_witness:
  "readRequestId [(lit ''x-request-id'', lit ''req-hunter2x'')] [lit ''hunter2''] =
     Some (lit ''req-[REDACTED]x'') \<and>
   \<not> occurs (lit ''hunter2'') (lit ''req-[REDACTED]x'')"
proof -
  have "readRequestId [(lit ''x-request-id'', lit ''req-hunter2x'')] [lit ''hunter2''] =
     Some (lit ''req-[REDACTED]x'')" by code_simp
  moreover have "redactable (lit ''hunter2'')" by code_simp
  moreover have "no_control [(lit ''x-request-id'', lit ''req-hunter2x'')]" by code_simp
  ultimately show ?thesis
    using request_id_clean [of _ "[lit ''hunter2'']" _ "lit ''hunter2''"] by fastforce
qed

text \<open>
  The redaction of a request id comes before the removal of its control characters, so a
  credential that the server echoes with a tab inside it is put back together: the request id
  is then the credential itself.
\<close>

theorem request_id_reassembles_secret:
  "readRequestId [(lit ''x-request-id'', lit ''hun'' @ [9] @ lit ''ter2'')] [lit ''hunter2''] =
     Some (lit ''hunter2'')"
  by code_simp

end
