(* ===== verification/Retry_Policy.thy ===== *)
theory Retry_Policy
  imports Sdk_Error
begin

text \<open>
  Which API errors may be retried: the sealed registry of error reasons
  (src/src/error-policy.ts) and \<open>isRetryableConnectError\<close> (src/src/errors.ts). Connect and
  gRPC codes are strings compared after \<open>toLowerCase\<close>.
\<close>

section \<open>The registry\<close>

datatype retry_classification =
    bounded_transient_retry
  | bounded_transient_retry_idempotent_operations_only
  | retry_after_configuration_or_entitlement_change
  | terminal

record reason_policy =
  consumerCategory :: jstr
  grpcCode :: jstr
  retryClassification :: retry_classification
  reuseIdempotencyKey :: bool

definition MEDALLION_ERROR_INFO_DOMAIN :: jstr where
  "MEDALLION_ERROR_INFO_DOMAIN = lit ''medallion.jimtech.io''"

definition MEDALLION_ERROR_REASON_POLICY :: "(jstr \<times> reason_policy) list" where
  "MEDALLION_ERROR_REASON_POLICY =
    [(lit ''AUTHORIZATION_DEPENDENCY_UNAVAILABLE'',
      \<lparr>consumerCategory = lit ''transient_authorization_dependency'',
       grpcCode = lit ''UNAVAILABLE'',
       retryClassification = bounded_transient_retry,
       reuseIdempotencyKey = True\<rparr>),
     (lit ''BACKPRESSURE'',
      \<lparr>consumerCategory = lit ''transient_backpressure'',
       grpcCode = lit ''RESOURCE_EXHAUSTED'',
       retryClassification = bounded_transient_retry,
       reuseIdempotencyKey = True\<rparr>),
     (lit ''CAPABILITY_UNAVAILABLE'',
      \<lparr>consumerCategory = lit ''capability_disabled'',
       grpcCode = lit ''FAILED_PRECONDITION'',
       retryClassification = retry_after_configuration_or_entitlement_change,
       reuseIdempotencyKey = True\<rparr>),
     (lit ''FEATURE_NOT_ENTITLED'',
      \<lparr>consumerCategory = lit ''entitlement_denied'',
       grpcCode = lit ''FAILED_PRECONDITION'',
       retryClassification = retry_after_configuration_or_entitlement_change,
       reuseIdempotencyKey = True\<rparr>),
     (lit ''IDEMPOTENCY_MISMATCH'',
      \<lparr>consumerCategory = lit ''idempotency_conflict'',
       grpcCode = lit ''ALREADY_EXISTS'',
       retryClassification = terminal,
       reuseIdempotencyKey = False\<rparr>),
     (lit ''INTEGRATION_UNAVAILABLE'',
      \<lparr>consumerCategory = lit ''transient_integration'',
       grpcCode = lit ''UNAVAILABLE'',
       retryClassification = bounded_transient_retry_idempotent_operations_only,
       reuseIdempotencyKey = True\<rparr>),
     (lit ''WORKSPACE_SELECTOR_CONFLICT'',
      \<lparr>consumerCategory = lit ''workspace_selector_invalid'',
       grpcCode = lit ''INVALID_ARGUMENT'',
       retryClassification = terminal,
       reuseIdempotencyKey = False\<rparr>)]"

definition RETRYABLE_CONNECT_CODES :: "jstr list" where
  "RETRYABLE_CONNECT_CODES =
    [lit ''deadline_exceeded'', lit ''resource_exhausted'', lit ''unavailable'']"

definition RETRYABLE_HTTP_STATUSES :: "int list" where
  "RETRYABLE_HTTP_STATUSES = [408, 429, 502, 503, 504]"

section \<open>The decision\<close>

definition retryable_reason :: "jstr option \<Rightarrow> jstr option \<Rightarrow> jstr \<Rightarrow> bool" where
  "retryable_reason domain connectCode reason =
     (if domain \<noteq> Some MEDALLION_ERROR_INFO_DOMAIN then False
      else
        (case map_of MEDALLION_ERROR_REASON_POLICY reason of
           None \<Rightarrow> False
         | Some policy \<Rightarrow>
             (case connectCode of
                None \<Rightarrow> False
              | Some c \<Rightarrow>
                  toLowerCase c = toLowerCase (grpcCode policy) \<and>
                  reuseIdempotencyKey policy \<and>
                  (retryClassification policy = bounded_transient_retry \<or>
                   retryClassification policy = bounded_transient_retry_idempotent_operations_only))))"

definition isRetryableConnectError :: "thrown \<Rightarrow> bool \<Rightarrow> bool" where
  "isRetryableConnectError error safelyIdempotent =
     (if \<not> safelyIdempotent then False
      else
        (case error of
           Api e \<Rightarrow>
             (case ae_errorInfoReason e of
                Some reason \<Rightarrow> retryable_reason (ae_errorInfoDomain e) (ae_connectCode e) reason
              | None \<Rightarrow>
                  (case ae_connectCode e of
                     Some c \<Rightarrow> toLowerCase c \<in> set RETRYABLE_CONNECT_CODES
                   | None \<Rightarrow> ae_status e \<in> set RETRYABLE_HTTP_STATUSES))
         | _ \<Rightarrow> False))"

section \<open>What it allows\<close>

lemma lower_codes:
  "toLowerCase (lit ''UNAVAILABLE'') = lit ''unavailable''"
  "toLowerCase (lit ''RESOURCE_EXHAUSTED'') = lit ''resource_exhausted''"
  by (simp_all add: lit_def toLowerCase_def lower_unit_def unit_in_def)

definition transient_reasons :: "(jstr \<times> jstr) list" where
  "transient_reasons =
    [(lit ''AUTHORIZATION_DEPENDENCY_UNAVAILABLE'', lit ''unavailable''),
     (lit ''BACKPRESSURE'', lit ''resource_exhausted''),
     (lit ''INTEGRATION_UNAVAILABLE'', lit ''unavailable'')]"

lemma retryable_reason_iff:
  "retryable_reason domain connectCode reason \<longleftrightarrow>
     domain = Some MEDALLION_ERROR_INFO_DOMAIN \<and>
     (\<exists>c. connectCode = Some c \<and> (reason, toLowerCase c) \<in> set transient_reasons)"
proof -
  consider "reason = lit ''AUTHORIZATION_DEPENDENCY_UNAVAILABLE''" | "reason = lit ''BACKPRESSURE''"
    | "reason = lit ''INTEGRATION_UNAVAILABLE''" | "reason = lit ''CAPABILITY_UNAVAILABLE''"
    | "reason = lit ''FEATURE_NOT_ENTITLED''" | "reason = lit ''IDEMPOTENCY_MISMATCH''"
    | "reason = lit ''WORKSPACE_SELECTOR_CONFLICT''"
    | "reason \<notin> fst ` set MEDALLION_ERROR_REASON_POLICY"
    unfolding MEDALLION_ERROR_REASON_POLICY_def by (simp del: lit_eq_iff) blast
  then show ?thesis
  proof cases
    case 8
    then have "map_of MEDALLION_ERROR_REASON_POLICY reason = None"
      by (rule map_of_eq_None_iff [THEN iffD2])
    moreover have "fst ` set transient_reasons \<subseteq> fst ` set MEDALLION_ERROR_REASON_POLICY"
      by (simp add: transient_reasons_def MEDALLION_ERROR_REASON_POLICY_def)
    then have "(reason, c) \<notin> set transient_reasons" for c
      using 8 by (metis fst_conv image_eqI subset_iff)
    ultimately show ?thesis by (simp add: retryable_reason_def)
  qed (simp_all add: retryable_reason_def MEDALLION_ERROR_REASON_POLICY_def transient_reasons_def
      lower_codes split: option.splits)
qed

text \<open>
  Only a safely idempotent request is retried, and only after an API error that the
  sealed registry allows: with an error reason, in the Medallion domain, that is one of the
  three transient reasons and comes with the code the registry gives for it, whatever the
  HTTP status; without one, on the three transient Connect codes; without a code either, on
  HTTP 408, 429, 502, 503 and 504.
\<close>

theorem isRetryable_iff:
  "isRetryableConnectError error safelyIdempotent \<longleftrightarrow>
     safelyIdempotent \<and>
     (\<exists>e. error = Api e \<and>
        (case (ae_errorInfoReason e, ae_connectCode e) of
           (Some reason, None) \<Rightarrow> False
         | (Some reason, Some c) \<Rightarrow>
             ae_errorInfoDomain e = Some (lit ''medallion.jimtech.io'') \<and>
             (reason, toLowerCase c) \<in>
               {(lit ''AUTHORIZATION_DEPENDENCY_UNAVAILABLE'', lit ''unavailable''),
                (lit ''BACKPRESSURE'', lit ''resource_exhausted''),
                (lit ''INTEGRATION_UNAVAILABLE'', lit ''unavailable'')}
         | (None, Some c) \<Rightarrow>
             toLowerCase c \<in>
               {lit ''deadline_exceeded'', lit ''resource_exhausted'', lit ''unavailable''}
         | (None, None) \<Rightarrow> ae_status e \<in> {408, 429, 502, 503, 504}))"
proof (cases error)
  case (Api e)
  then show ?thesis
    by (cases "ae_errorInfoReason e"; cases "ae_connectCode e")
       (simp_all add: isRetryableConnectError_def retryable_reason_iff transient_reasons_def
          RETRYABLE_CONNECT_CODES_def RETRYABLE_HTTP_STATUSES_def MEDALLION_ERROR_INFO_DOMAIN_def)
qed (simp_all add: isRetryableConnectError_def)

end
