(* ===== verification/Request_Delay.thy ===== *)
theory Request_Delay
  imports Request_Body Retry_Policy
begin

text \<open>
  How long the client waits (src/src/request.ts): \<open>backoffDelay\<close>, \<open>retryDelay\<close>,
  \<open>pollDelayMs\<close> and the abortable wait, with the state of the abort signal that
  \<open>createSignal\<close> builds. The arithmetic of the delay is that of doubles, rounded after each
  operation; \<open>Math.random()\<close> is an argument.
\<close>

section \<open>The signal\<close>

text \<open>
  \<open>createSignal\<close>: the controller's reason once aborted, and the flag of the timer. The first
  abort sets the reason; the timer sets its flag whenever it fires.
\<close>

record signal_state =
  sg_reason :: "thrown option"
  sg_didTimeout :: bool

datatype signal_event = InputAborts thrown | TimerFires

definition abort_error :: "jstr \<Rightarrow> jstr \<Rightarrow> thrown" where
  "abort_error name message =
     Foreign \<lparr>fe_is_error = True, fe_is_dom = True, fe_name = name, fe_message = message\<rparr>"

definition timeout_error :: thrown where
  "timeout_error = abort_error (lit ''TimeoutError'') (lit ''Medallion request timed out.'')"

definition controller_abort :: "signal_state \<Rightarrow> thrown \<Rightarrow> signal_state" where
  "controller_abort s reason =
     (case sg_reason s of None \<Rightarrow> s\<lparr>sg_reason := Some reason\<rparr> | Some _ \<Rightarrow> s)"

fun signal_step :: "signal_state \<Rightarrow> signal_event \<Rightarrow> signal_state" where
  "signal_step s (InputAborts reason) = controller_abort s reason"
| "signal_step s TimerFires = controller_abort (s\<lparr>sg_didTimeout := True\<rparr>) timeout_error"

definition signal_run :: "signal_state \<Rightarrow> signal_event list \<Rightarrow> signal_state" where
  "signal_run s es = foldl signal_step s es"

definition createSignal :: "thrown option \<Rightarrow> signal_state" where
  "createSignal inputReason =
     (let s = \<lparr>sg_reason = None, sg_didTimeout = False\<rparr>
      in case inputReason of None \<Rightarrow> s | Some reason \<Rightarrow> controller_abort s reason)"

definition signal_aborted :: "signal_state \<Rightarrow> bool" where
  "signal_aborted s \<longleftrightarrow> sg_reason s \<noteq> None"

definition throwIfAborted :: "signal_state \<Rightarrow> thrown + unit" where
  "throwIfAborted s = (case sg_reason s of None \<Rightarrow> Inr () | Some reason \<Rightarrow> Inl reason)"

text \<open>
  \<open>abortableDelay\<close>: \<open>es\<close> are the events of the signal while the timer runs. It returns
  the outcome, what it did, and the signal.
\<close>

definition abortableDelay ::
    "jsnum \<Rightarrow> signal_state \<Rightarrow> signal_event list \<Rightarrow> (thrown + unit) \<times> effect list \<times> signal_state" where
  "abortableDelay ms s es =
     (if num_le ms (num 0) then (throwIfAborted s, [], s)
      else
        (let s' = (if signal_aborted s then s else signal_run s es);
             capped = (if num_less (num MAX_TIMER_DELAY_MS) ms then num MAX_TIMER_DELAY_MS else ms)
         in (throwIfAborted s', [Wait capped], s')))"

section \<open>The delay\<close>

text \<open>The result of a double operation that cannot overflow.\<close>

definition fl :: "rat \<Rightarrow> rat" where
  "fl r = num_rat (round64 r)"

definition backoff_base :: "normalized_retry \<Rightarrow> nat \<Rightarrow> rat" where
  "backoff_base r attempt =
     (case round64 (nr_initialDelayMs r * 2 ^ (attempt - 1)) of
        Fin d \<Rightarrow> min d (nr_maxDelayMs r)
      | _ \<Rightarrow> nr_maxDelayMs r)"

definition backoffDelay :: "normalized_retry \<Rightarrow> rat \<Rightarrow> nat \<Rightarrow> jsnum option \<Rightarrow> jsnum" where
  "backoffDelay r random attempt retryAfter =
     (case retryAfter of
        Some v \<Rightarrow> v
      | None \<Rightarrow>
          (let base = backoff_base r attempt;
               spread = fl (base * nr_jitterRatio r);
               jittered = fl (fl (base - spread) + fl (fl (random * spread) * 2))
           in Fin (min (nr_maxDelayMs r) (max 0 (of_int \<lfloor>jittered + 1 / 2\<rfloor>)))))"

definition retryDelay ::
    "request_client \<Rightarrow> rat \<Rightarrow> nat \<Rightarrow> jsnum option \<Rightarrow> jsnum" where
  "retryDelay c random attempt retryAfter = backoffDelay (cl_retry c) random attempt retryAfter"

definition MAX_POLL_DELAY_MS :: int where
  "MAX_POLL_DELAY_MS = 30000"

definition num_min :: "jsnum \<Rightarrow> jsnum \<Rightarrow> jsnum" where
  "num_min a b = (if a = NaN \<or> b = NaN then NaN else if num_less b a then b else a)"

definition pollDelayMs :: "request_client \<Rightarrow> rat \<Rightarrow> nat \<Rightarrow> jsnum option \<Rightarrow> jsnum" where
  "pollDelayMs c random poll retryAfter =
     num_min (num MAX_POLL_DELAY_MS) (backoffDelay (cl_retry c) random poll retryAfter)"

text \<open>An error as the platform sees it: the SDK's classes are errors with their own name.\<close>

definition foreign_view :: "thrown \<Rightarrow> foreign_error" where
  "foreign_view e =
     (case e of
        Foreign f \<Rightarrow> f
      | _ \<Rightarrow> \<lparr>fe_is_error = True, fe_is_dom = False, fe_name = thrown_name e, fe_message = []\<rparr>)"

definition aborted_error :: "error_code \<Rightarrow> thrown \<Rightarrow> thrown" where
  "aborted_error c e =
     Medallion \<lparr>err_code = c, err_requestId = None,
       err_cause = sanitizedErrorCause (Some (foreign_view e)), err_text = None\<rparr>"

definition waitBeforePoll ::
    "request_client \<Rightarrow> rat \<Rightarrow> nat \<Rightarrow> jsnum option \<Rightarrow> signal_state \<Rightarrow> signal_event list \<Rightarrow>
     (thrown + unit) \<times> effect list" where
  "waitBeforePoll c random poll retryAfter s es =
     (case abortableDelay (pollDelayMs c random poll retryAfter) s es of
        (Inl e, fx, _) \<Rightarrow> (Inl (aborted_error MEDALLION_ABORTED e), fx)
      | (Inr u, fx, _) \<Rightarrow> (Inr u, fx))"

section \<open>Bounds\<close>

lemma signal_run_aborted: "signal_aborted s \<Longrightarrow> sg_reason (signal_run s es) = sg_reason s"
proof (induction es arbitrary: s)
  case Nil
  then show ?case by (simp add: signal_run_def)
next
  case (Cons e es)
  have "sg_reason (signal_step s e) = sg_reason s"
    using Cons.prems by (cases e) (auto simp: signal_aborted_def controller_abort_def)
  moreover from this have "signal_aborted (signal_step s e)"
    using Cons.prems by (simp add: signal_aborted_def)
  ultimately show ?case using Cons.IH [of "signal_step s e"] by (simp add: signal_run_def)
qed

lemma backoffDelay_computed:
  assumes "retry_ok r"
  shows "\<exists>d. backoffDelay r random attempt None = Fin d \<and> 0 \<le> d \<and> d \<le> nr_maxDelayMs r"
  using assms by (auto simp: backoffDelay_def Let_def retry_ok_def)

text \<open>
  The wait before a retry is exactly the server's Retry-After when there is one (never
  shorter), and otherwise between 0 and the configured maximum, at most 5 seconds, for every
  attempt and every random number.
\<close>

theorem retry_delay_bounds:
  assumes "client_ok c"
  shows "(\<forall>v. retryDelay c random attempt (Some v) = v) \<and>
     (\<exists>d. retryDelay c random attempt None = Fin d \<and> 0 \<le> d \<and>
        d \<le> nr_maxDelayMs (cl_retry c) \<and> d \<le> 5000)"
proof -
  have ok: "retry_ok (cl_retry c)" using assms by (simp add: client_ok_def)
  then obtain d where d: "backoffDelay (cl_retry c) random attempt None = Fin d" "0 \<le> d"
    "d \<le> nr_maxDelayMs (cl_retry c)"
    using backoffDelay_computed [OF ok] by blast
  moreover have "nr_maxDelayMs (cl_retry c) \<le> 5000" using ok by (simp add: retry_ok_def)
  ultimately have "d \<le> 5000" by linarith
  with d show ?thesis by (simp add: retryDelay_def backoffDelay_def)
qed

lemma poll_delay_le:
  assumes "client_ok c" "retryAfter \<noteq> Some NaN"
  shows "num_le (pollDelayMs c random poll retryAfter) (num MAX_POLL_DELAY_MS)"
proof -
  have "backoffDelay (cl_retry c) random poll retryAfter \<noteq> NaN"
    using assms backoffDelay_computed [of "cl_retry c" random poll]
    by (cases retryAfter) (auto simp: backoffDelay_def client_ok_def)
  then show ?thesis
    by (auto simp: pollDelayMs_def num_min_def num_le_def num_def)
qed

lemma pow2_positive: "0 < pow2 e"
  by (simp add: pow2_def)

lemma round_half_even_nonneg: "0 \<le> x \<Longrightarrow> 0 \<le> round_half_even x"
  by (simp add: round_half_even_def Let_def)

lemma round64_positive: "0 < r \<Longrightarrow> (\<exists>q. round64 r = Fin q \<and> 0 \<le> q) \<or> round64 r = PosInf"
  using pow2_positive [THEN less_imp_le] round_half_even_nonneg
  by (auto simp: round64_def Let_def intro!: mult_nonneg_nonneg divide_nonneg_nonneg)

lemma round64_zero [simp]: "round64 0 = Fin 0"
  by (simp add: round64_def)

lemma retryAfterMs_not_negative:
  assumes "retryAfterMs parse_date now hs = Some v"
  shows "v \<noteq> NaN \<and> num_le (num 0) v"
proof -
  have whole: "round64 (of_nat n) \<noteq> NaN \<and> num_le (num 0) (round64 (of_nat n))" for n
    using round64_positive [of "of_nat n"] by (cases "n = 0") (auto simp: num_le_def num_def)
  have "thousandfold m \<noteq> NaN \<and> num_le (num 0) (thousandfold m)" if "m \<noteq> NaN" "num_le (num 0) m" for m
  proof (cases m)
    case (Fin q)
    with that have "0 \<le> q" by (auto simp: num_le_def num_def)
    then show ?thesis using round64_positive [of "q * 1000"]
      by (cases "q = 0") (auto simp: thousandfold_def Fin num_le_def num_def)
  qed (use that in \<open>auto simp: thousandfold_def\<close>)
  moreover have "num i \<noteq> NaN" for i by (simp add: num_def)
  ultimately show ?thesis using whole assms
    by (auto simp: retryAfterMs_def split: option.splits if_splits)
qed

text \<open>
  Waiting between polls: whatever Retry-After a response carried, the next poll is at most
  30 seconds away; and without one at most 5 seconds.
\<close>

theorem poll_delay_bounds:
  assumes "client_ok c" "retryAfterMs parse_date now hs = retryAfter"
  shows "num_le (pollDelayMs c random poll retryAfter) (num 30000) \<and>
     (retryAfter = None \<longrightarrow> num_le (pollDelayMs c random poll retryAfter) (num 5000))"
proof -
  have "retryAfter \<noteq> Some NaN" using retryAfterMs_not_negative assms(2) by blast
  from poll_delay_le [OF assms(1) this]
  have "num_le (pollDelayMs c random poll retryAfter) (num 30000)"
    by (simp add: MAX_POLL_DELAY_MS_def)
  moreover have "num_le (pollDelayMs c random poll None) (num 5000)"
  proof -
    obtain d where d: "backoffDelay (cl_retry c) random poll None = Fin d"
      "d \<le> nr_maxDelayMs (cl_retry c)"
      using backoffDelay_computed [of "cl_retry c" random poll] assms(1) by (auto simp: client_ok_def)
    moreover have "nr_maxDelayMs (cl_retry c) \<le> 5000"
      using assms(1) by (simp add: client_ok_def retry_ok_def)
    ultimately have "d \<le> 5000" by linarith
    then show ?thesis
      using d by (auto simp: pollDelayMs_def num_min_def num_le_def num_def MAX_POLL_DELAY_MS_def)
  qed
  ultimately show ?thesis by blast
qed

theorem retry_delay_bounds_witness:
  "\<exists>d. retryDelay sample_client (1 / 2) 2 None = Fin d \<and> 0 \<le> d \<and> d \<le> 5000"
  using retry_delay_bounds [OF sample_client_ok, of "1 / 2" 2] by blast

theorem poll_delay_bounds_witness:
  "num_le (pollDelayMs sample_client (1 / 2) 2
     (retryAfterMs (\<lambda>_. None) 0 [(lit ''retry-after'', lit ''99999'')])) (num 30000)"
  using poll_delay_bounds [OF sample_client_ok refl] by blast

end
