(* ===== verification/Js_Base64.thy ===== *)
theory Js_Base64
  imports Js_Utf8
begin

text \<open>
  \<open>Buffer.from(text, "base64")\<close> and \<open>toString("base64")\<close> of Node: six bits per
  character, decoding skips characters outside the alphabet, reads the URL-safe letters too
  and stops at the padding. Decoding inverts encoding (\<open>base64_roundtrip\<close>).
\<close>

definition b64_unit :: "nat \<Rightarrow> code_unit" where
  "b64_unit d =
     (if d < 26 then of_nat (65 + d) else if d < 52 then of_nat (71 + d)
      else if d < 62 then of_nat (d - 4) else if d = 62 then of_char CHR ''+'' else of_char CHR ''/'')"

definition b64_value :: "code_unit \<Rightarrow> nat option" where
  "b64_value u =
     (if unit_in CHR ''A'' CHR ''Z'' u then Some (unat u - 65)
      else if unit_in CHR ''a'' CHR ''z'' u then Some (unat u - 71)
      else if is_digit u then Some (unat u + 4)
      else if u = of_char CHR ''+'' \<or> u = of_char CHR ''-'' then Some 62
      else if u = of_char CHR ''/'' \<or> u = of_char CHR ''_'' then Some 63
      else None)"

definition b64_pad :: code_unit where
  "b64_pad = of_char CHR ''=''"

fun sextets_of :: "nat list \<Rightarrow> nat list" where
  "sextets_of (x # y # z # r) =
     x div 4 # (x mod 4 * 16 + y div 16) # (y mod 16 * 4 + z div 64) # z mod 64 # sextets_of r"
| "sextets_of [x, y] = [x div 4, x mod 4 * 16 + y div 16, y mod 16 * 4]"
| "sextets_of [x] = [x div 4, x mod 4 * 16]"
| "sextets_of [] = []"

fun octets_of :: "nat list \<Rightarrow> nat list" where
  "octets_of (a # b # c # d # r) =
     (a * 4 + b div 16) # (b mod 16 * 16 + c div 4) # (c mod 4 * 64 + d) # octets_of r"
| "octets_of [a, b, c] = [a * 4 + b div 16, b mod 16 * 16 + c div 4]"
| "octets_of [a, b] = [a * 4 + b div 16]"
| "octets_of [a] = []"
| "octets_of [] = []"

definition base64_encode :: "byte list \<Rightarrow> jstr" where
  "base64_encode bs =
     map b64_unit (sextets_of (map unat bs)) @ replicate ((3 - length bs mod 3) mod 3) b64_pad"

definition base64_decode :: "jstr \<Rightarrow> byte list" where
  "base64_decode s =
     map of_nat (octets_of (List.map_filter b64_value (takeWhile (\<lambda>u. u \<noteq> b64_pad) s)))"

lemma digit_split: "b < k \<Longrightarrow> (a * k + b) div k = a" "b < k \<Longrightarrow> (a * k + b) mod k = b"
  for a b k :: nat
  by auto

lemma octet_bounds: "y < 256 \<Longrightarrow> y div 16 < 16" "z < 256 \<Longrightarrow> z div 64 < 4" for y z :: nat
  by auto

lemma octets_sextets: "list_all (\<lambda>x. x < 256) xs \<Longrightarrow> octets_of (sextets_of xs) = xs"
proof (induction xs rule: sextets_of.induct)
  case (1 x y z r)
  then have "y < 256" "z < 256" by simp_all
  with 1 show ?case
    by (simp add: digit_split octet_bounds)
next
  case (2 x y)
  then have "y < 256" by simp
  then show ?case by (simp add: digit_split octet_bounds)
next
  case (3 x)
  then show ?case by simp
qed simp

lemma sextets_bound: "list_all (\<lambda>x. x < 256) xs \<Longrightarrow> list_all (\<lambda>x. x < 64) (sextets_of xs)"
proof (induction xs rule: sextets_of.induct)
  case (1 x y z r)
  then have "x div 4 < 64" "y div 16 < 16" "z div 64 < 4" by auto
  moreover have "x mod 4 \<le> 3" "y mod 16 \<le> 15" "z mod 64 < 64"
    by (simp_all add: less_Suc_eq_le [symmetric])
  ultimately show ?case using 1 by simp
next
  case (2 x y)
  then have "x div 4 < 64" "y div 16 < 16" by auto
  moreover have "x mod 4 \<le> 3" "y mod 16 \<le> 15" by (simp_all add: less_Suc_eq_le [symmetric])
  ultimately show ?case by simp
next
  case (3 x)
  then have "x div 4 < 64" by auto
  moreover have "x mod 4 \<le> 3" by (simp add: less_Suc_eq_le [symmetric])
  ultimately show ?case by simp
qed simp

lemma unat_b64_unit:
  "d < 64 \<Longrightarrow> unat (b64_unit d) =
     (if d < 26 then 65 + d else if d < 52 then 71 + d else if d < 62 then d - 4
      else if d = 62 then 43 else 47)"
  using unat_unit_of_nat [of "65 + d"] unat_unit_of_nat [of "71 + d"] unat_unit_of_nat [of "d - 4"]
  by (simp add: b64_unit_def del: of_nat_add of_nat_diff)

lemma b64_value_nat:
  "b64_value u =
     (let n = unat u in
      if 65 \<le> n \<and> n \<le> 90 then Some (n - 65)
      else if 97 \<le> n \<and> n \<le> 122 then Some (n - 71)
      else if 48 \<le> n \<and> n \<le> 57 then Some (n + 4)
      else if n = 43 \<or> n = 45 then Some 62
      else if n = 47 \<or> n = 95 then Some 63
      else None)"
  by (simp add: b64_value_def unit_in_def is_digit_def word_le_nat_alt word_unat_eq_iff Let_def)

lemma b64_value_unit: "d < 64 \<Longrightarrow> b64_value (b64_unit d) = Some d"
  by (simp add: b64_value_nat unat_b64_unit Let_def) arith

lemma b64_unit_not_pad: "d < 64 \<Longrightarrow> b64_unit d \<noteq> b64_pad"
  using unat_b64_unit [of d] by (auto simp: b64_pad_def word_unat_eq_iff split: if_splits)

lemma base64_roundtrip: "base64_decode (base64_encode bs) = bs"
proof -
  let ?ss = "sextets_of (map unat bs)"
  have b: "list_all (\<lambda>x. x < 256) (map unat bs)"
  proof (unfold list_all_iff, intro ballI)
    fix x assume "x \<in> set (map unat bs)"
    then obtain w :: byte where "x = unat w" by auto
    moreover have "unat w < 2 ^ LENGTH(8)" by (rule unsigned_less)
    ultimately show "x < 256" by simp
  qed
  then have s: "list_all (\<lambda>x. x < 64) ?ss" by (rule sextets_bound)
  have "takeWhile (\<lambda>u. u \<noteq> b64_pad) (base64_encode bs) = map b64_unit ?ss"
    unfolding base64_encode_def using s
    by (subst takeWhile_append2) (auto simp: list_all_iff b64_unit_not_pad)
  moreover have "List.map_filter b64_value (map b64_unit ds) = ds"
    if "list_all (\<lambda>x. x < 64) ds" for ds
    using that by (induction ds) (simp_all add: b64_value_unit map_filter_simps)
  ultimately show ?thesis
    using s by (simp add: base64_decode_def octets_sextets [OF b] comp_def)
qed

end
