(* ===== verification/Error_Info.thy ===== *)
theory Error_Info
  imports Js_Base64 Js_Value
begin

unbundle bit_operations_syntax

text \<open>
  The hand-written protobuf reader of src/src/errors.ts, which decodes the
  \<open>google.rpc.ErrorInfo\<close> detail of a Connect error: varints, length-delimited fields, the
  skipping of other wire types, and the two field loops. Offsets, bounds and the exceptions
  that end a read are those of the code. The reference encoder at the end is the protobuf
  wire format; the reader inverts it.
\<close>

section \<open>Varints\<close>

text \<open>What a read may throw; the caller only distinguishes "threw" from "returned".\<close>

datatype wire_error = RangeError | Utf8TypeError

function readVarint_loop :: "byte list \<Rightarrow> nat \<Rightarrow> nat \<Rightarrow> nat \<Rightarrow> wire_error + nat \<times> nat" where
  "readVarint_loop bytes value shift offset =
     (if offset < length bytes \<and> shift \<le> 63 then
        (let byte = bytes ! offset;
             value' = value OR push_bit shift (unat (byte AND 0x7F))
         in if byte AND 0x80 = 0 then Inr (value', offset + 1)
            else readVarint_loop bytes value' (shift + 7) (offset + 1))
      else Inl RangeError)"
  by pat_completeness auto
termination
  by (relation "measure (\<lambda>(bytes, value, shift, offset). length bytes - offset)") auto

declare readVarint_loop.simps [simp del]

definition readVarint :: "byte list \<Rightarrow> nat \<Rightarrow> wire_error + nat \<times> nat" where
  "readVarint bytes start = readVarint_loop bytes 0 0 start"

definition MAX_SAFE_INTEGER :: nat where
  "MAX_SAFE_INTEGER = 9007199254740991"

definition readLengthDelimited :: "byte list \<Rightarrow> nat \<Rightarrow> wire_error + byte list \<times> nat" where
  "readLengthDelimited bytes start =
     bindE (readVarint bytes start) (\<lambda>(size, off).
       (let end = off + size in
        if size > MAX_SAFE_INTEGER \<or> end > length bytes then Inl RangeError
        else Inr (take size (drop off bytes), end)))"

definition skipField :: "byte list \<Rightarrow> nat \<Rightarrow> nat \<Rightarrow> wire_error + nat" where
  "skipField bytes offset wireType =
     (if wireType = 0 then bindE (readVarint bytes offset) (\<lambda>(_, off). Inr off)
      else if wireType = 1 then
        (if offset + 8 > length bytes then Inl RangeError else Inr (offset + 8))
      else if wireType = 2 then bindE (readLengthDelimited bytes offset) (\<lambda>(_, off). Inr off)
      else if wireType = 5 then
        (if offset + 4 > length bytes then Inl RangeError else Inr (offset + 4))
      else Inl RangeError)"

definition decodeUtf8 :: "byte list \<Rightarrow> wire_error + jstr" where
  "decodeUtf8 bs =
     (case utf8_decode_fatal bs of None \<Rightarrow> Inl Utf8TypeError | Some s \<Rightarrow> Inr s)"

lemma readVarint_loop_offset:
  "readVarint_loop bytes v sh off = Inr (n, off') \<Longrightarrow>
   off < off' \<and> off' \<le> length bytes \<and> 7 * off' + sh \<le> 7 * off + 70"
proof (induction bytes v sh off rule: readVarint_loop.induct)
  case (1 bytes v sh off)
  let ?v = "v OR push_bit sh (unat (bytes ! off AND 0x7F))"
  from "1.prems" have c: "off < length bytes \<and> sh \<le> 63"
    by (subst (asm) readVarint_loop.simps) (simp split: if_splits)
  show ?case
  proof (cases "bytes ! off AND 0x80 = 0")
    case True
    with "1.prems" c show ?thesis
      by (subst (asm) readVarint_loop.simps) (auto simp: Let_def)
  next
    case False
    with "1.prems" c have "readVarint_loop bytes ?v (sh + 7) (off + 1) = Inr (n, off')"
      by (subst (asm) readVarint_loop.simps) (simp add: Let_def)
    with "1.IH" [OF c refl refl False] show ?thesis by simp
  qed
qed

lemma readVarint_offset:
  "readVarint bytes start = Inr (n, off) \<Longrightarrow>
   start < off \<and> off \<le> length bytes \<and> off \<le> start + 10"
  using readVarint_loop_offset [of bytes 0 0 start n off] by (simp add: readVarint_def)

lemma readLengthDelimited_offset:
  "readLengthDelimited bytes start = Inr (field, off) \<Longrightarrow>
   start < off \<and> off \<le> length bytes \<and> length field \<le> off - start"
  by (auto simp: readLengthDelimited_def result_iff Let_def split: if_splits dest: readVarint_offset)

lemma skipField_offset:
  "skipField bytes offset wireType = Inr off \<Longrightarrow> offset < off \<and> off \<le> length bytes"
  by (auto simp: skipField_def result_iff split: if_splits
      dest: readVarint_offset readLengthDelimited_offset)

section \<open>The field loops\<close>

text \<open>
  \<open>decodeStringMapEntry\<close>: the key and value of one map entry; a repeated field overwrites,
  an entry without a key is dropped.
\<close>

function mapEntry_loop ::
    "byte list \<Rightarrow> jstr \<Rightarrow> jstr \<Rightarrow> nat \<Rightarrow> wire_error + (jstr \<times> jstr) option" where
  "mapEntry_loop bytes key val offset =
     (if offset < length bytes then
        (case readVarint bytes offset of
           Inl e \<Rightarrow> Inl e
         | Inr (tag, off1) \<Rightarrow>
             (let fieldNumber = drop_bit 3 tag; wireType = tag AND 7 in
              if wireType \<noteq> 2 then
                (case skipField bytes off1 wireType of
                   Inl e \<Rightarrow> Inl e
                 | Inr off2 \<Rightarrow> mapEntry_loop bytes key val off2)
              else
                (case readLengthDelimited bytes off1 of
                   Inl e \<Rightarrow> Inl e
                 | Inr (field, off2) \<Rightarrow>
                     if fieldNumber = 1 then
                       (case decodeUtf8 field of
                          Inl e \<Rightarrow> Inl e | Inr k \<Rightarrow> mapEntry_loop bytes k val off2)
                     else if fieldNumber = 2 then
                       (case decodeUtf8 field of
                          Inl e \<Rightarrow> Inl e | Inr v \<Rightarrow> mapEntry_loop bytes key v off2)
                     else mapEntry_loop bytes key val off2)))
      else Inr (if key = [] then None else Some (key, val)))"
  by pat_completeness auto
termination
  by (relation "measure (\<lambda>(bytes, key, val, offset). length bytes - offset)")
     (auto dest!: readVarint_offset readLengthDelimited_offset skipField_offset)

declare mapEntry_loop.simps [simp del]

definition decodeStringMapEntry :: "byte list \<Rightarrow> wire_error + (jstr \<times> jstr) option" where
  "decodeStringMapEntry bytes = mapEntry_loop bytes [] [] 0"

record decoded_error_info =
  ei_reason :: "jstr option"
  ei_domain :: "jstr option"
  ei_metadata :: "(jstr \<times> jstr) list"

text \<open>Assigning a string to \<open>__proto__\<close> of an object literal has no effect.\<close>

definition set_metadata :: "(jstr \<times> jstr) list \<Rightarrow> jstr \<Rightarrow> jstr \<Rightarrow> (jstr \<times> jstr) list" where
  "set_metadata md k v = (if k = lit ''__proto__'' then md else set_prop md k v)"

function errorInfo_loop ::
    "byte list \<Rightarrow> decoded_error_info \<Rightarrow> nat \<Rightarrow> wire_error + decoded_error_info" where
  "errorInfo_loop bytes output offset =
     (if offset < length bytes then
        (case readVarint bytes offset of
           Inl e \<Rightarrow> Inl e
         | Inr (tag, off1) \<Rightarrow>
             (let fieldNumber = drop_bit 3 tag; wireType = tag AND 7 in
              if wireType \<noteq> 2 then
                (case skipField bytes off1 wireType of
                   Inl e \<Rightarrow> Inl e
                 | Inr off2 \<Rightarrow> errorInfo_loop bytes output off2)
              else
                (case readLengthDelimited bytes off1 of
                   Inl e \<Rightarrow> Inl e
                 | Inr (field, off2) \<Rightarrow>
                     if fieldNumber = 1 then
                       (case decodeUtf8 field of
                          Inl e \<Rightarrow> Inl e
                        | Inr s \<Rightarrow> errorInfo_loop bytes (output\<lparr>ei_reason := Some s\<rparr>) off2)
                     else if fieldNumber = 2 then
                       (case decodeUtf8 field of
                          Inl e \<Rightarrow> Inl e
                        | Inr s \<Rightarrow> errorInfo_loop bytes (output\<lparr>ei_domain := Some s\<rparr>) off2)
                     else if fieldNumber = 3 then
                       (case decodeStringMapEntry field of
                          Inl e \<Rightarrow> Inl e
                        | Inr None \<Rightarrow> errorInfo_loop bytes output off2
                        | Inr (Some (k, v)) \<Rightarrow>
                            errorInfo_loop bytes
                              (output\<lparr>ei_metadata := set_metadata (ei_metadata output) k v\<rparr>) off2)
                     else errorInfo_loop bytes output off2)))
      else Inr output)"
  by pat_completeness auto
termination
  by (relation "measure (\<lambda>(bytes, output, offset). length bytes - offset)")
     (auto dest!: readVarint_offset readLengthDelimited_offset skipField_offset)

declare errorInfo_loop.simps [simp del]

definition empty_error_info :: decoded_error_info where
  "empty_error_info = \<lparr>ei_reason = None, ei_domain = None, ei_metadata = []\<rparr>"

definition decodeErrorInfo :: "jstr \<Rightarrow> decoded_error_info option" where
  "decodeErrorInfo text =
     (let bytes = base64_decode text in
      if bytes = [] \<and> text \<noteq> [] then None
      else (case errorInfo_loop bytes empty_error_info 0 of
              Inl _ \<Rightarrow> None
            | Inr output \<Rightarrow> Some output))"

section \<open>The wire format as a reference encoder\<close>

fun encode_varint :: "nat \<Rightarrow> byte list" where
  "encode_varint n =
     (if n < 128 then [of_nat n] else of_nat (128 + n mod 128) # encode_varint (n div 128))"

declare encode_varint.simps [simp del]

definition encode_field :: "nat \<Rightarrow> byte list \<Rightarrow> byte list" where
  "encode_field n bs = encode_varint (n * 8 + 2) @ encode_varint (length bs) @ bs"

definition encode_map_entry :: "jstr \<times> jstr \<Rightarrow> byte list" where
  "encode_map_entry e =
     encode_field 3 (encode_field 1 (utf8_encode (fst e)) @ encode_field 2 (utf8_encode (snd e)))"

definition encode_optional :: "nat \<Rightarrow> jstr option \<Rightarrow> byte list" where
  "encode_optional n s = (case s of None \<Rightarrow> [] | Some t \<Rightarrow> encode_field n (utf8_encode t))"

definition encode_error_info :: "decoded_error_info \<Rightarrow> byte list" where
  "encode_error_info i =
     encode_optional 1 (ei_reason i) @ encode_optional 2 (ei_domain i) @
     concat (map encode_map_entry (ei_metadata i))"

lemma unat_byte_less: "unat (w :: byte) < 256"
proof -
  have "unat w < 2 ^ LENGTH(8)" by (rule unsigned_less)
  then show ?thesis by simp
qed

lemma byte_low_bits: "unat (w AND 0x7F) = unat (w :: byte) mod 128"
proof -
  have "(0x7F :: byte) = mask 7" by (simp add: mask_eq_exp_minus_1)
  then have "w AND 0x7F = take_bit 7 w" by (simp only: take_bit_eq_mask)
  moreover have "unat (take_bit 7 w) = take_bit 7 (unat w)" by (rule unsigned_take_bit_eq)
  ultimately have "unat (w AND 0x7F) = take_bit 7 (unat w)" by (simp only:)
  then show ?thesis by (simp only: take_bit_eq_mod) simp
qed

lemma byte_high_bit: "(w :: byte) AND 0x80 = 0 \<longleftrightarrow> unat w < 128"
proof -
  have "w AND 0x80 = 0 \<longleftrightarrow> \<not> bit w 7"
    using and_exp_eq_0_iff_not_bit [of w 7] by simp
  also have "bit w 7 \<longleftrightarrow> bit (unat w) 7" by (simp add: bit_unsigned_iff)
  also have "\<dots> \<longleftrightarrow> odd (unat w div 128)" by (simp add: bit_iff_odd)
  also have "\<dots> \<longleftrightarrow> \<not> unat w < 128"
    using unat_byte_less [of w] by (cases "unat w < 128") (auto simp: le_div_geq not_less)
  finally show ?thesis by blast
qed

lemma or_push_bit: "v < 2 ^ sh \<Longrightarrow> v OR push_bit sh x = v + x * 2 ^ sh" for v x :: nat
proof -
  assume v: "v < 2 ^ sh"
  have "take_bit sh v = v" using v by (simp add: take_bit_nat_eq_self)
  then have low: "n < sh" if "bit v n" for n using that by (metis bit_take_bit_iff)
  have "v AND push_bit sh x = 0"
  proof (rule bit_eqI)
    fix n
    show "bit (v AND push_bit sh x) n \<longleftrightarrow> bit (0 :: nat) n"
      unfolding bit_and_iff bit_push_bit_iff using low [of n] by auto
  qed
  then have "v OR push_bit sh x = v + push_bit sh x"
    by (simp add: disjunctive_add_eq_or)
  then show ?thesis by (simp add: push_bit_eq_mult)
qed

lemma readVarint_loop_encode:
  assumes "v < 2 ^ sh" "n * 2 ^ sh < 2 ^ 70" "7 dvd sh" "sh \<le> 63"
  shows "readVarint_loop (pre @ encode_varint n @ post) v sh (length pre) =
     Inr (v + n * 2 ^ sh, length pre + length (encode_varint n))"
  using assms
proof (induction n arbitrary: pre v sh rule: encode_varint.induct)
  case (1 n)
  let ?bytes = "pre @ encode_varint n @ post"
  show ?case
  proof (cases "n < 128")
    case True
    then have e: "encode_varint n = [of_nat n]" by (simp add: encode_varint.simps)
    have u: "unat (of_nat n :: byte) = n" using True by (intro unat_byte_of_nat) simp
    show ?thesis
      using True "1.prems"
      by (subst readVarint_loop.simps) (simp add: e byte_high_bit byte_low_bits u or_push_bit Let_def nth_append)
  next
    case False
    define b where "b = (of_nat (128 + n mod 128) :: byte)"
    have u: "unat b = 128 + n mod 128"
      unfolding b_def by (rule unat_byte_of_nat) simp
    have e: "encode_varint n = b # encode_varint (n div 128)"
      using False by (simp add: encode_varint.simps [of n] b_def)
    have "(2 :: nat) ^ (sh + 7) = 128 * 2 ^ sh" by (simp add: power_add)
    also have "\<dots> \<le> n * 2 ^ sh" using False by simp
    finally have "(2 :: nat) ^ (sh + 7) < 2 ^ 70" using "1.prems"(2) by (rule le_less_trans)
    then have "sh + 7 < 70" by (metis nat_power_less_imp_less zero_less_numeral pos2)
    then have sh': "sh + 7 \<le> 63" using "1.prems"(3) by presburger
    let ?v = "v + n mod 128 * 2 ^ sh"
    have "n mod 128 \<le> 127" by simp
    then have "n mod 128 * 2 ^ sh \<le> 127 * 2 ^ sh" by (rule mult_right_mono) simp
    moreover have "(2 :: nat) ^ (sh + 7) = 128 * 2 ^ sh" by (simp add: power_add)
    ultimately have v': "?v < 2 ^ (sh + 7)" using "1.prems"(1) by linarith
    have "n div 128 * 128 \<le> n" by simp
    then have le: "n div 128 * 128 * 2 ^ sh \<le> n * 2 ^ sh" by (rule mult_right_mono) simp
    have "n div 128 * 2 ^ (sh + 7) = n div 128 * 128 * 2 ^ sh" by (simp add: power_add)
    with le have "n div 128 * 2 ^ (sh + 7) \<le> n * 2 ^ sh" by (simp only:)
    then have n': "n div 128 * 2 ^ (sh + 7) < 2 ^ 70" using "1.prems"(2) by (rule le_less_trans)
    have step: "readVarint_loop ?bytes v sh (length pre) =
        readVarint_loop ((pre @ [b]) @ encode_varint (n div 128) @ post) ?v (sh + 7)
          (length (pre @ [b]))"
      using "1.prems"
      by (subst readVarint_loop.simps) (simp add: e byte_high_bit byte_low_bits u or_push_bit Let_def nth_append)
    have "(n div 128 * 128 + n mod 128) * 2 ^ sh = n * 2 ^ sh" by (simp only: div_mult_mod_eq)
    then have "?v + n div 128 * 2 ^ (sh + 7) = v + n * 2 ^ sh"
      by (simp only: add_mult_distrib power_add) simp
    then show ?thesis
      using "1.IH" [OF False v' n' _ sh', of "pre @ [b]"] "1.prems"(3) step by (simp add: e)
  qed
qed

lemma readVarint_encode:
  "n < 2 ^ 70 \<Longrightarrow> readVarint (pre @ encode_varint n @ post) (length pre) =
     Inr (n, length pre + length (encode_varint n))"
  using readVarint_loop_encode [of 0 0 n pre post] by (simp add: readVarint_def)

section \<open>The reader inverts the encoder\<close>

definition wire_text :: "jstr \<Rightarrow> bool" where
  "wire_text s \<longleftrightarrow>
     well_formed_utf16 s \<and> take 1 s \<noteq> [0xFEFF] \<and> utf8_length s \<le> MAX_SAFE_INTEGER"

definition entry_payload :: "jstr \<times> jstr \<Rightarrow> byte list" where
  "entry_payload e = encode_field 1 (utf8_encode (fst e)) @ encode_field 2 (utf8_encode (snd e))"

definition wire_entry :: "jstr \<times> jstr \<Rightarrow> bool" where
  "wire_entry e \<longleftrightarrow>
     wire_text (fst e) \<and> wire_text (snd e) \<and> fst e \<noteq> [] \<and> fst e \<noteq> lit ''__proto__'' \<and>
     length (entry_payload e) \<le> MAX_SAFE_INTEGER"

definition wire_info :: "decoded_error_info \<Rightarrow> bool" where
  "wire_info i \<longleftrightarrow>
     (\<forall>s \<in> set_option (ei_reason i) \<union> set_option (ei_domain i). wire_text s) \<and>
     list_all wire_entry (ei_metadata i) \<and> distinct (map fst (ei_metadata i))"

lemma decodeUtf8_encode: "wire_text s \<Longrightarrow> decodeUtf8 (utf8_encode s) = Inr s"
  by (simp add: decodeUtf8_def wire_text_def utf8_decode_fatal_encode)

lemma wire_text_length: "wire_text s \<Longrightarrow> length (utf8_encode s) \<le> MAX_SAFE_INTEGER"
  by (simp add: wire_text_def utf8_length_def)

lemma readLengthDelimited_encode:
  assumes "length bs \<le> MAX_SAFE_INTEGER"
  shows "readLengthDelimited (pre @ encode_varint (length bs) @ bs @ post) (length pre) =
     Inr (bs, length pre + length (encode_varint (length bs)) + length bs)"
proof -
  have "length bs < 2 ^ 70" using assms by (simp add: MAX_SAFE_INTEGER_def)
  then show ?thesis
    using assms readVarint_encode [of "length bs" pre "bs @ post"]
    by (simp add: readLengthDelimited_def Let_def)
qed

text \<open>Reading the header of one encoded field.\<close>

lemma field_header_facts:
  fixes pre post bs :: "byte list" and n :: nat
  assumes "length bs \<le> MAX_SAFE_INTEGER" "n < 16"
  shows "readVarint (pre @ encode_field n bs @ post) (length pre) =
       Inr (n * 8 + 2, length pre + length (encode_varint (n * 8 + 2)))"
    and "readLengthDelimited (pre @ encode_field n bs @ post)
       (length pre + length (encode_varint (n * 8 + 2))) =
       Inr (bs, length (pre @ encode_field n bs))"
    and "drop_bit 3 (n * 8 + 2) = n" and "(n * 8 + 2) AND 7 = 2"
proof -
  have lt: "n * 8 + 2 < 2 ^ 70" using assms(2) by simp
  show "readVarint (pre @ encode_field n bs @ post) (length pre) =
       Inr (n * 8 + 2, length pre + length (encode_varint (n * 8 + 2)))"
    using readVarint_encode [OF lt, of pre "encode_varint (length bs) @ bs @ post"]
    by (simp add: encode_field_def)
  show "readLengthDelimited (pre @ encode_field n bs @ post)
       (length pre + length (encode_varint (n * 8 + 2))) = Inr (bs, length (pre @ encode_field n bs))"
    using readLengthDelimited_encode [OF assms(1), of "pre @ encode_varint (n * 8 + 2)" post]
    by (simp add: encode_field_def)
  show "drop_bit 3 (n * 8 + 2) = n" by (simp add: drop_bit_eq_div)
  have "(7 :: nat) = mask 3" by (simp add: mask_eq_exp_minus_1)
  then have "(n * 8 + 2) AND 7 = take_bit 3 (n * 8 + 2)" by (simp only: take_bit_eq_mask)
  also have "\<dots> = (n * 8 + 2) mod 8" by (simp add: take_bit_eq_mod)
  also have "\<dots> = 2" by presburger
  finally show "(n * 8 + 2) AND 7 = 2" .
qed

lemma field_header:
  fixes pre post bs :: "byte list" and n :: nat
  assumes "length bs \<le> MAX_SAFE_INTEGER" "n < 16"
  shows "readVarint (pre @ encode_field n bs @ post) (length pre) =
       Inr (n * 8 + 2, length pre + length (encode_varint (n * 8 + 2))) \<and>
     readLengthDelimited (pre @ encode_field n bs @ post)
       (length pre + length (encode_varint (n * 8 + 2))) =
       Inr (bs, length (pre @ encode_field n bs)) \<and>
     drop_bit 3 (n * 8 + 2) = n \<and> (n * 8 + 2) AND 7 = 2"
  using field_header_facts [OF assms] by blast

lemma encode_field_neq_Nil: "encode_field n bs \<noteq> []"
  by (simp add: encode_field_def encode_varint.simps)

lemma decodeStringMapEntry_payload:
  assumes "wire_entry e"
  shows "decodeStringMapEntry (entry_payload e) = Inr (Some e)"
proof -
  obtain k v where e: "e = (k, v)" by (cases e)
  let ?f1 = "encode_field 1 (utf8_encode k)" and ?f2 = "encode_field 2 (utf8_encode v)"
  let ?bytes = "?f1 @ ?f2"
  have k: "wire_text k" "k \<noteq> []" and v: "wire_text v"
    using assms by (simp_all add: wire_entry_def e)
  note h1 = field_header [where n = 1 and pre = "[]" and post = ?f2, OF wire_text_length [OF k(1)]]
  note h2 = field_header [where n = 2 and pre = ?f1 and post = "[]", OF wire_text_length [OF v]]
  have "mapEntry_loop ?bytes [] [] 0 = mapEntry_loop ?bytes k [] (length ?f1)"
    using h1 by (subst mapEntry_loop.simps)
      (simp add: encode_field_neq_Nil decodeUtf8_encode [OF k(1)] Let_def)
  also have "\<dots> = mapEntry_loop ?bytes k v (length ?bytes)"
    using h2 by (subst mapEntry_loop.simps)
      (simp add: encode_field_neq_Nil decodeUtf8_encode [OF v] Let_def)
  also have "\<dots> = Inr (Some (k, v))"
    using k(2) by (subst mapEntry_loop.simps) simp
  finally show ?thesis by (simp add: decodeStringMapEntry_def entry_payload_def e)
qed

lemma errorInfo_string_field:
  assumes "wire_text s" "n = 1 \<or> n = 2"
  shows "errorInfo_loop (pre @ encode_field n (utf8_encode s) @ post) out (length pre) =
     errorInfo_loop (pre @ encode_field n (utf8_encode s) @ post)
       (if n = 1 then out\<lparr>ei_reason := Some s\<rparr> else out\<lparr>ei_domain := Some s\<rparr>)
       (length (pre @ encode_field n (utf8_encode s)))"
proof -
  have "n < 16" using assms(2) by auto
  note h = field_header [where pre = pre and post = post, OF wire_text_length [OF assms(1)] this]
  show ?thesis
  proof (cases "n = 1")
    case True
    with h show ?thesis
      by (subst errorInfo_loop.simps)
         (simp add: encode_field_neq_Nil decodeUtf8_encode [OF assms(1)] Let_def)
  next
    case False
    with assms(2) have "n = 2" by simp
    with h show ?thesis
      by (subst errorInfo_loop.simps)
         (simp add: encode_field_neq_Nil decodeUtf8_encode [OF assms(1)] Let_def)
  qed
qed

lemma errorInfo_entry_field:
  assumes "wire_entry e"
  shows "errorInfo_loop (pre @ encode_map_entry e @ post) out (length pre) =
     errorInfo_loop (pre @ encode_map_entry e @ post)
       (out\<lparr>ei_metadata := set_prop (ei_metadata out) (fst e) (snd e)\<rparr>)
       (length (pre @ encode_map_entry e))"
proof -
  have "length (entry_payload e) \<le> MAX_SAFE_INTEGER" using assms by (simp add: wire_entry_def)
  note h = field_header [where n = 3 and pre = pre and post = post, OF this]
  have enc: "encode_map_entry e = encode_field 3 (entry_payload e)"
    by (simp add: encode_map_entry_def entry_payload_def)
  have "set_metadata md (fst e) (snd e) = set_prop md (fst e) (snd e)" for md
    using assms by (simp add: wire_entry_def set_metadata_def)
  with h show ?thesis
    unfolding enc
    by (subst errorInfo_loop.simps)
       (simp add: encode_field_neq_Nil decodeStringMapEntry_payload [OF assms] Let_def
         split: prod.splits, metis fst_conv snd_conv)
qed

lemma set_prop_fresh: "k \<notin> fst ` set ps \<Longrightarrow> set_prop ps k v = ps @ [(k, v)]"
  by (induction ps k v rule: set_prop.induct) auto

lemma errorInfo_entries:
  assumes "list_all wire_entry es" "distinct (map fst (ei_metadata out @ es))"
  shows "errorInfo_loop (pre @ concat (map encode_map_entry es)) out (length pre) =
     Inr (out\<lparr>ei_metadata := ei_metadata out @ es\<rparr>)"
  using assms
proof (induction es arbitrary: pre out)
  case Nil
  then show ?case by (subst errorInfo_loop.simps) simp
next
  case (Cons e es)
  let ?out = "out\<lparr>ei_metadata := ei_metadata out @ [e]\<rparr>"
  have "set_prop (ei_metadata out) (fst e) (snd e) = ei_metadata out @ [e]"
    using Cons.prems(2) by (subst set_prop_fresh) auto
  then have "errorInfo_loop (pre @ concat (map encode_map_entry (e # es))) out (length pre) =
      errorInfo_loop ((pre @ encode_map_entry e) @ concat (map encode_map_entry es)) ?out
        (length (pre @ encode_map_entry e))"
    using errorInfo_entry_field [of e pre "concat (map encode_map_entry es)" out] Cons.prems(1)
    by simp
  also have "\<dots> = Inr (?out\<lparr>ei_metadata := ei_metadata ?out @ es\<rparr>)"
    using Cons.prems by (intro Cons.IH) auto
  finally show ?case by simp
qed

lemma errorInfo_loop_encode:
  assumes "wire_info i"
  shows "errorInfo_loop (encode_error_info i) empty_error_info 0 = Inr i"
proof -
  let ?A = "encode_optional 1 (ei_reason i)" and ?B = "encode_optional 2 (ei_domain i)"
  let ?C = "concat (map encode_map_entry (ei_metadata i))"
  let ?bytes = "?A @ ?B @ ?C"
  have "errorInfo_loop ?bytes empty_error_info 0 =
      errorInfo_loop ?bytes (empty_error_info\<lparr>ei_reason := ei_reason i\<rparr>) (length ?A)"
  proof (cases "ei_reason i")
    case None
    then show ?thesis by (simp add: encode_optional_def empty_error_info_def)
  next
    case (Some s)
    then have "wire_text s" using assms by (simp add: wire_info_def)
    from errorInfo_string_field [OF this, of 1 "[]" "?B @ ?C" empty_error_info] Some
    show ?thesis by (simp add: encode_optional_def)
  qed
  also have "\<dots> = errorInfo_loop ?bytes
      (empty_error_info\<lparr>ei_reason := ei_reason i, ei_domain := ei_domain i\<rparr>) (length (?A @ ?B))"
  proof (cases "ei_domain i")
    case None
    then show ?thesis by (simp add: encode_optional_def empty_error_info_def)
  next
    case (Some s)
    then have "wire_text s" using assms by (simp add: wire_info_def)
    from errorInfo_string_field [OF this, of 2 ?A ?C] Some
    show ?thesis by (simp add: encode_optional_def)
  qed
  also have "\<dots> = Inr i"
    using errorInfo_entries [of "ei_metadata i" "empty_error_info\<lparr>ei_reason := ei_reason i,
        ei_domain := ei_domain i\<rparr>" "?A @ ?B"] assms
    by (simp add: wire_info_def empty_error_info_def)
  finally show ?thesis by (simp add: encode_error_info_def)
qed

lemma base64_encode_Nil_iff: "base64_encode bs = [] \<longleftrightarrow> bs = []"
  by (metis base64_roundtrip base64_encode_def append_Nil2 list.map(1) sextets_of.simps(4)
      length_0_conv mod_0 minus_nat.diff_0 mod_self replicate_0 list.size(3))

text \<open>
  C24. Round trip of the error-detail reader: an \<open>ErrorInfo\<close> whose texts are valid Unicode
  (without a byte order mark, which the platform decoder drops) and whose metadata keys are
  distinct, encoded as protobuf and then base64, is decoded by the SDK's hand-written reader
  to exactly the same reason, domain and metadata.
\<close>

theorem decodeErrorInfo_roundtrip:
  assumes "wire_info i"
  shows "decodeErrorInfo (base64_encode (encode_error_info i)) = Some i"
  using errorInfo_loop_encode [OF assms]
  by (simp add: decodeErrorInfo_def base64_roundtrip base64_encode_Nil_iff Let_def)

theorem decodeErrorInfo_roundtrip_witness:
  "decodeErrorInfo (base64_encode (encode_error_info
     \<lparr>ei_reason = Some (lit ''BACKPRESSURE''), ei_domain = None, ei_metadata = [(lit ''k'', lit ''v'')]\<rparr>)) =
   Some \<lparr>ei_reason = Some (lit ''BACKPRESSURE''), ei_domain = None, ei_metadata = [(lit ''k'', lit ''v'')]\<rparr>"
proof (rule decodeErrorInfo_roundtrip)
  have small: "wire_text s" if "list_all (\<lambda>u. u < 0x80) s" "length s \<le> 100" for s
  proof -
    have "take 1 s \<noteq> [0xFEFF]" using that(1) by (cases s) auto
    with that ascii_well_formed [OF that(1)] utf8_length_ascii [OF that(1)] show ?thesis
      by (simp add: wire_text_def MAX_SAFE_INTEGER_def)
  qed
  have t: "wire_text (lit ''BACKPRESSURE'')" "wire_text (lit ''k'')" "wire_text (lit ''v'')"
    by (intro small; simp add: lit_def)+
  have "length (entry_payload (lit ''k'', lit ''v'')) \<le> 100" by code_simp
  with t show "wire_info \<lparr>ei_reason = Some (lit ''BACKPRESSURE''), ei_domain = None,
      ei_metadata = [(lit ''k'', lit ''v'')]\<rparr>"
    by (simp add: wire_info_def wire_entry_def MAX_SAFE_INTEGER_def)
qed

end
