(* ===== verification/Api_Error.thy ===== *)
theory Api_Error
  imports Error_Info Redaction
begin

text \<open>
  Building a \<open>MedallionApiError\<close> from a response (\<open>medallionApiErrorFromEnvelope\<close> of
  src/src/errors.ts): the untrusted envelope is narrowed field by field, the first decodable
  \<open>ErrorInfo\<close> detail is read, and every text that is kept is redacted. The section on
  secrets shows that no redactable secret survives in any of these fields.
\<close>

section \<open>Narrowing the envelope\<close>

record connect_envelope =
  ce_code :: "jstr option"
  ce_details :: jsval

definition as_string :: "jsval \<Rightarrow> jstr option" where
  "as_string v = (case v of JStr s \<Rightarrow> Some s | _ \<Rightarrow> None)"

definition asConnectEnvelope :: "jsval \<Rightarrow> connect_envelope" where
  "asConnectEnvelope v =
     (case record_of v of
        None \<Rightarrow> \<lparr>ce_code = None, ce_details = JUndef\<rparr>
      | Some object \<Rightarrow>
          \<lparr>ce_code = as_string (own_prop object (lit ''code'')),
           ce_details = own_prop object (lit ''details'')\<rparr>)"

fun parseDetails_loop :: "jsval list \<Rightarrow> error_detail list" where
  "parseDetails_loop [] = []"
| "parseDetails_loop (item # rest) =
     (case record_of item of
        None \<Rightarrow> parseDetails_loop rest
      | Some object \<Rightarrow>
          (case (as_string (own_prop object (lit ''type'')), as_string (own_prop object (lit ''value''))) of
             (Some t, Some v) \<Rightarrow> \<lparr>ed_type = t, ed_value = v\<rparr> # parseDetails_loop rest
           | _ \<Rightarrow> parseDetails_loop rest))"

definition parseDetails :: "jsval \<Rightarrow> error_detail list" where
  "parseDetails v = (case v of JArr items \<Rightarrow> parseDetails_loop items | _ \<Rightarrow> [])"

definition isErrorInfoType :: "jstr \<Rightarrow> bool" where
  "isErrorInfoType t \<longleftrightarrow>
     t = lit ''google.rpc.ErrorInfo'' \<or> endsWith t (lit ''/google.rpc.ErrorInfo'')"

definition nonEmptyString :: "jstr option \<Rightarrow> jstr option" where
  "nonEmptyString v =
     (case v of None \<Rightarrow> None | Some s \<Rightarrow> if trim s = [] then None else Some (trim s))"

definition apiErrorMessage :: "int \<Rightarrow> jstr option \<Rightarrow> jstr" where
  "apiErrorMessage status requestId =
     (let suffix = (case requestId of None \<Rightarrow> [] | Some r \<Rightarrow> lit '' Request ID: '' @ r @ lit ''.'')
      in lit ''Medallion API request failed with HTTP '' @ dec_int status @ lit ''.'' @ suffix)"

section \<open>Sanitising the details\<close>

definition sanitizeDetail :: "jstr list \<Rightarrow> error_detail \<Rightarrow> error_detail" where
  "sanitizeDetail secrets detail =
     (let t = redact_string (ed_type detail) secrets in
      if secrets = [] then \<lparr>ed_type = t, ed_value = ed_value detail\<rparr>
      else
        (let decoded = base64_decode (ed_value detail);
             containsSecret = list_ex (\<lambda>secret. occurs (utf8_encode secret) decoded) secrets
         in \<lparr>ed_type = t,
             ed_value =
               (if containsSecret then base64_encode (utf8_encode REDACTED) else ed_value detail)\<rparr>))"

definition sanitizeDetails :: "error_detail list \<Rightarrow> jstr list \<Rightarrow> error_detail list" where
  "sanitizeDetails details redactions =
     (let secrets = filter (\<lambda>s. s \<noteq> []) redactions in map (sanitizeDetail secrets) details)"

section \<open>The error\<close>

definition firstErrorInfo :: "error_detail list \<Rightarrow> decoded_error_info option" where
  "firstErrorInfo rawDetails =
     (case List.map_filter (\<lambda>d. decodeErrorInfo (ed_value d))
             (filter (\<lambda>d. isErrorInfoType (ed_type d)) rawDetails) of
        [] \<Rightarrow> None
      | i # _ \<Rightarrow> Some i)"

definition medallionApiErrorFromEnvelope ::
    "int \<Rightarrow> jstr option \<Rightarrow> jsval \<Rightarrow> foreign_error option \<Rightarrow> jstr list \<Rightarrow> api_error" where
  "medallionApiErrorFromEnvelope status requestId v cause redactions =
     (let envelope = asConnectEnvelope v;
          rawDetails = parseDetails (ce_details envelope);
          errorInfo = firstErrorInfo rawDetails;
          details = sanitizeDetails rawDetails redactions
      in \<lparr>ae_message = apiErrorMessage status requestId,
          ae_status = status,
          ae_requestId = requestId,
          ae_connectCode = redactText (nonEmptyString (ce_code envelope)) redactions,
          ae_errorInfoDomain = redactText (Option.bind errorInfo ei_domain) redactions,
          ae_errorInfoReason = redactText (Option.bind errorInfo ei_reason) redactions,
          ae_errorInfoMetadata = redactRecord (map_option ei_metadata errorInfo) redactions,
          ae_details = details,
          ae_cause = sanitizedErrorCause cause\<rparr>)"

section \<open>Secrets\<close>

lemma utf8_of_scalar_bytes:
  "b \<in> set (utf8_of_scalar c) \<Longrightarrow> c < 0x110000 \<Longrightarrow>
   (c < 0x80 \<and> b = of_nat c) \<or> (0x80 \<le> c \<and> 0x80 \<le> unat b)"
  by (cases "c < 0x80"; cases "c < 0x800"; cases "c < 0x10000")
     (auto simp: utf8_of_scalar_def unat_byte_of_nat simp del: of_nat_add)

text \<open>Text whose UTF-8 form is ASCII is that ASCII text.\<close>

lemma scalars_ascii:
  "list_all (\<lambda>c. c < 0x80) (scalars s) \<Longrightarrow> s = map of_nat (scalars s)"
proof (induction s rule: scalars.induct)
  case 1
  then show ?case by simp
next
  case (2 u)
  then have "lone_scalar u < 0x80" by simp
  then have "lone_scalar u = unat u" by (simp add: lone_scalar_def split: if_splits)
  then show ?case by simp
next
  case (3 u v us)
  show ?case
  proof (cases "is_lead u \<and> is_trail v")
    case True
    with "3.prems" combine_pair_bounds [of u v] show ?thesis by auto
  next
    case False
    with "3.prems" have "lone_scalar u < 0x80" and rest: "list_all (\<lambda>c. c < 0x80) (scalars (v # us))"
      by auto
    then have "lone_scalar u = unat u" by (simp add: lone_scalar_def split: if_splits)
    with "3.IH"(2) [OF False rest] show ?thesis
      by (subst scalars.simps, subst if_not_P [OF False]) simp
  qed
qed

lemma utf8_encode_ascii_bytes:
  assumes "list_all (\<lambda>b. unat b < 0x80) (utf8_encode s)"
  shows "list_all (\<lambda>c. c < 0x80) (scalars s)"
proof -
  have "c < 0x80" if "c \<in> set (scalars s)" for c
  proof -
    have "c < 0x110000" using that scalars_valid [of s] by (auto simp: list_all_iff scalar_value_def)
    moreover obtain b where b: "b \<in> set (utf8_of_scalar c)"
      using utf8_of_scalar_length [of c] by (cases "utf8_of_scalar c") auto
    moreover have "b \<in> set (utf8_encode s)" using that b by (auto simp: utf8_encode_def)
    ultimately show ?thesis using assms utf8_of_scalar_bytes [of b c] by (auto simp: list_all_iff)
  qed
  then show ?thesis by (simp add: list_all_iff)
qed

lemma concat_singletons: "(\<And>c. c \<in> set cs \<Longrightarrow> f c = [g c]) \<Longrightarrow> concat (map f cs) = map g cs"
  by (induction cs) auto

lemma utf8_encode_ascii:
  assumes "list_all (\<lambda>c. c < 0x80) (scalars s)"
  shows "utf8_encode s = map of_nat (scalars s)"
  unfolding utf8_encode_def
  by (rule concat_singletons) (use assms in \<open>auto simp: list_all_iff utf8_of_scalar_def\<close>)

lemma occurs_utf8_ascii:
  assumes "occurs (utf8_encode s) (utf8_encode t)" "list_all (\<lambda>c. c < 0x80) (scalars t)"
  shows "occurs s t"
proof -
  have small: "unat (of_nat c :: byte) = c" if "c < 0x80" for c
    using that by (intro unat_byte_of_nat) simp
  have t: "utf8_encode t = map of_nat (scalars t)" by (rule utf8_encode_ascii [OF assms(2)])
  then have "list_all (\<lambda>b. unat b < 0x80) (utf8_encode t)"
    using assms(2) small by (auto simp: list_all_iff)
  then have "list_all (\<lambda>b. unat b < 0x80) (utf8_encode s)"
    using occurs_set [OF assms(1)] by (auto simp: list_all_iff)
  then have s': "list_all (\<lambda>c. c < 0x80) (scalars s)" by (rule utf8_encode_ascii_bytes)
  then have s: "utf8_encode s = map of_nat (scalars s)" by (rule utf8_encode_ascii)
  have narrow: "map (\<lambda>b. of_nat (unat b)) (map of_nat cs :: byte list) = (map of_nat cs :: jstr)"
    if "list_all (\<lambda>c. c < 0x80) cs" for cs
  proof -
    have "of_nat (unat (of_nat c :: byte)) = (of_nat c :: code_unit)" if "c < 0x80" for c
      by (simp only: small [OF that])
    with that show ?thesis unfolding list_all_iff by simp
  qed
  obtain u v where "utf8_encode t = u @ utf8_encode s @ v"
    using assms(1) by (auto simp: occurs_iff)
  then have "map (\<lambda>b. of_nat (unat b)) (utf8_encode t) =
      map (\<lambda>b. of_nat (unat b)) u @ map (\<lambda>b. of_nat (unat b)) (utf8_encode s) @
      map (\<lambda>b. of_nat (unat b) :: code_unit) v"
    by simp
  then have "t = map (\<lambda>b. of_nat (unat b)) u @ s @ map (\<lambda>b. of_nat (unat b)) v"
    using narrow [OF s'] narrow [OF assms(2)] scalars_ascii [OF s'] scalars_ascii [OF assms(2)]
    by (simp only: s t)
  then show ?thesis by (auto simp: occurs_iff)
qed

lemma redactable_not_in_marker:
  assumes "redactable s"
  shows "\<not> occurs (utf8_encode s) (utf8_encode REDACTED)"
proof
  assume "occurs (utf8_encode s) (utf8_encode REDACTED)"
  moreover have "list_all (\<lambda>c. c < 0x80) (scalars REDACTED)"
    by (simp add: REDACTED_def lit_def lone_scalar_def is_lead_def is_trail_def)
  ultimately have "occurs s REDACTED" by (rule occurs_utf8_ascii)
  then have "occurs s ([] @ REDACTED @ [])" by simp
  from occurs_marker [OF assms this] have "s = []" by simp
  with assms show False by (simp add: redactable_def)
qed

lemma sanitizeDetails_clean:
  assumes "redactable s" "s \<in> set redactions" "d \<in> set (sanitizeDetails details redactions)"
  shows "\<not> occurs s (ed_type d)"
    and "\<not> occurs (utf8_encode s) (base64_decode (ed_value d))"
proof -
  let ?secrets = "filter (\<lambda>s. s \<noteq> []) redactions"
  have s: "s \<in> set ?secrets" using assms(1,2) by (simp add: redactable_def)
  then have ne: "?secrets \<noteq> []" by (metis list.set(1) empty_iff)
  obtain raw where d: "d = sanitizeDetail ?secrets raw"
    using assms(3) by (auto simp: sanitizeDetails_def)
  show "\<not> occurs s (ed_type d)"
    using redact_string_removes [OF assms(1) s] ne by (simp add: d sanitizeDetail_def Let_def)
  show "\<not> occurs (utf8_encode s) (base64_decode (ed_value d))"
  proof (cases "list_ex (\<lambda>secret. occurs (utf8_encode secret) (base64_decode (ed_value raw))) ?secrets")
    case True
    with redactable_not_in_marker [OF assms(1)] ne show ?thesis
      by (simp add: d sanitizeDetail_def Let_def base64_roundtrip)
  next
    case False
    with s have "\<not> occurs (utf8_encode s) (base64_decode (ed_value raw))" by (auto simp: list_ex_iff)
    with False ne show ?thesis by (simp add: d sanitizeDetail_def Let_def)
  qed
qed

text \<open>What "no secret survives" means for an API error: every text taken from the server.\<close>

definition api_error_free_of :: "jstr \<Rightarrow> api_error \<Rightarrow> bool" where
  "api_error_free_of s e \<longleftrightarrow>
     (\<forall>t \<in> set_option (ae_connectCode e) \<union> set_option (ae_errorInfoDomain e) \<union>
            set_option (ae_errorInfoReason e). \<not> occurs s t) \<and>
     (\<forall>(k, v) \<in> set (ae_errorInfoMetadata e). \<not> occurs s k \<and> \<not> occurs s v) \<and>
     (\<forall>d \<in> set (ae_details e).
        \<not> occurs s (ed_type d) \<and> \<not> occurs (utf8_encode s) (base64_decode (ed_value d)))"

lemma api_error_is_clean:
  assumes "redactable s" "s \<in> set redactions"
  shows "api_error_free_of s (medallionApiErrorFromEnvelope status requestId v cause redactions)"
proof -
  have clean: "\<not> occurs s t" if "redactText x redactions = Some t" for x t
    using redactText_removes [OF assms that] .
  show ?thesis
    unfolding api_error_free_of_def medallionApiErrorFromEnvelope_def Let_def
    by (auto simp: elem_set dest: clean redactRecord_removes [OF assms] sanitizeDetails_clean [OF assms])
qed



end
