(* ===== verification/Request_Dispatch.thy ===== *)
theory Request_Dispatch
  imports Request_Delay Api_Error
begin

text \<open>
  The retry loop of the transport (\<open>RequestClient.dispatch\<close> of src/src/request.ts). One
  attempt is a step that returns, throws or continues; the loop runs it at most
  \<open>maxAttempts\<close> times under one signal. What the environment does (the outcome of each fetch,
  the body it delivers, the events of the signal between two awaits, the clock, the random
  numbers) is a script, one entry per attempt, over which every theorem quantifies.
\<close>

section \<open>Calls and environments\<close>

record call =
  ca_method :: jstr
  ca_path :: jstr
  ca_body :: "jstr option"
  ca_headers :: headers
  ca_signal :: "thrown option"
  ca_timeoutMs :: int
  ca_retrySafe :: bool
  ca_redactions :: "jstr list"

record attempt_env =
  av_before :: "signal_event list"
  av_now :: int
  av_during_fetch :: "signal_event list"
  av_fetch :: "thrown + response"
  av_during_body :: "signal_event list"
  av_now_retry :: int
  av_random :: rat
  av_during_delay :: "signal_event list"

text \<open>The platform functions the transport calls: \<open>new URL(s).toString()\<close> and
  \<open>Date.parse\<close> on an HTTP date.\<close>

record platform =
  pf_href :: "jstr \<Rightarrow> jstr option"
  pf_parse_date :: "jstr \<Rightarrow> int option"

record response_envelope =
  re_body :: jsval
  re_requestId :: "jstr option"
  re_retryAfterMs :: "jsnum option"

datatype 'a outcome = Return 'a | Throw thrown | Continue

section \<open>One attempt\<close>

definition isAbortLikeError :: "thrown \<Rightarrow> bool" where
  "isAbortLikeError e =
     (case e of
        Foreign f \<Rightarrow>
          (fe_is_dom f \<and> (fe_name f = lit ''AbortError'' \<or> fe_name f = lit ''TimeoutError'')) \<or>
          (fe_is_error f \<and> (fe_name f = lit ''AbortError'' \<or> fe_name f = lit ''TimeoutError''))
      | _ \<Rightarrow> False)"

definition attemptHeaders :: "headers \<Rightarrow> nat \<Rightarrow> int \<Rightarrow> int \<Rightarrow> thrown + headers" where
  "attemptHeaders hs attempt deadline now =
     (if attempt > 1 \<and> header_has hs (lit ''Connect-Timeout-Ms'')
      then header_set hs (lit ''Connect-Timeout-Ms'')
             (dec_int (min MAX_CONNECT_TIMEOUT_MS (max 1 (deadline - now))))
      else Inr hs)"

definition delay_then ::
    "jsnum \<Rightarrow> signal_state \<Rightarrow> signal_event list \<Rightarrow> 'a outcome \<times> effect list \<times> signal_state" where
  "delay_then ms s es =
     (case abortableDelay ms s es of
        (Inl e, fx, s') \<Rightarrow> (Throw e, fx, s')
      | (Inr _, fx, s') \<Rightarrow> (Continue, fx, s'))"

definition networkError :: "jstr option \<Rightarrow> thrown \<Rightarrow> thrown" where
  "networkError requestId e =
     Medallion \<lparr>err_code = MEDALLION_NETWORK_ERROR, err_requestId = requestId,
       err_cause = sanitizedErrorCause (Some (foreign_view e)), err_text = None\<rparr>"

text \<open>From \<open>const requestId = ...\<close> to the end of the loop body.\<close>

definition handle_response ::
    "platform \<Rightarrow> request_client \<Rightarrow> call \<Rightarrow> bool \<Rightarrow> nat \<Rightarrow> attempt_env \<Rightarrow> response \<Rightarrow> signal_state \<Rightarrow>
     response_envelope outcome \<times> effect list \<times> signal_state" where
  "handle_response p c ca hasSpan attempt ev r s0 =
     (let hs = rs_headers r;
          requestId = readRequestId hs (ca_redactions ca);
          (parsed, fx) = readResponseBody r;
          s = signal_run s0 (av_during_body ev);
          fx' = fx @ setResponseSpanAttributes hasSpan (rs_status r) requestId;
          more = attempt < nr_maxAttempts (cl_retry c);
          retryAfter = retryAfterMs (pf_parse_date p) (av_now_retry ev) hs;
          wait = (\<lambda>_ :: unit.
            case delay_then (retryDelay c (av_random ev) attempt retryAfter) s (av_during_delay ev) of
              (out, dfx, s') \<Rightarrow> (out, fx' @ dfx, s'));
          apiError = (\<lambda>v. medallionApiErrorFromEnvelope (rs_status r) requestId v None (ca_redactions ca))
      in case parsed of
           Inl ResponseTooLargeError \<Rightarrow>
             (Throw (medErrR MEDALLION_RESPONSE_TOO_LARGE requestId), fx', s)
         | Inl InvalidJsonResponseError \<Rightarrow>
             if \<not> response_ok r then
               (if more \<and> isRetryableConnectError (Api (apiError JUndef)) (ca_retrySafe ca)
                then wait () else (Throw (Api (apiError JUndef)), fx', s))
             else (Throw (medErrR MEDALLION_INVALID_JSON_RESPONSE requestId), fx', s)
         | Inl (ReadFailed e) \<Rightarrow>
             if more \<and> ca_retrySafe ca \<and>
                (response_ok r \<or> isRetryableConnectError (Api (apiError JUndef)) True) \<and>
                \<not> isAbortLikeError e \<and> \<not> signal_aborted s
             then wait ()
             else if isAbortLikeError e \<or> signal_aborted s then (Throw e, fx', s)
             else (Throw (networkError requestId e), fx', s)
         | Inr v \<Rightarrow>
             if \<not> response_ok r then
               (if more \<and> isRetryableConnectError (Api (apiError v)) (ca_retrySafe ca)
                then wait () else (Throw (Api (apiError v)), fx', s))
             else
               (Return \<lparr>re_body = v, re_requestId = requestId, re_retryAfterMs = retryAfter\<rparr>, fx', s))"

definition attempt_step ::
    "platform \<Rightarrow> request_client \<Rightarrow> call \<Rightarrow> jstr \<Rightarrow> int \<Rightarrow> bool \<Rightarrow> headers \<Rightarrow> nat \<Rightarrow> attempt_env \<Rightarrow>
     signal_state \<Rightarrow> response_envelope outcome \<times> effect list \<times> signal_state" where
  "attempt_step p c ca url deadline hasSpan hs attempt ev s0 =
     (let s1 = signal_run s0 (av_before ev) in
      case throwIfAborted s1 of
        Inl reason \<Rightarrow> (Throw reason, [], s1)
      | Inr _ \<Rightarrow>
          (case attemptHeaders hs attempt deadline (av_now ev) of
             Inl e \<Rightarrow> (Throw e, [], s1)
           | Inr ahs \<Rightarrow>
               (let fetched = FetchCall url (ca_method ca) ahs (ca_body ca);
                    s2 = signal_run s1 (av_during_fetch ev)
                in case av_fetch ev of
                     Inl e \<Rightarrow>
                       if attempt < nr_maxAttempts (cl_retry c) \<and> ca_retrySafe ca \<and>
                          \<not> isAbortLikeError e \<and> \<not> signal_aborted s2
                       then (case delay_then (retryDelay c (av_random ev) attempt None) s2
                                    (av_during_delay ev) of
                               (out, fx, s') \<Rightarrow> (out, fetched # fx, s'))
                       else (Throw e, [fetched], s2)
                   | Inr r \<Rightarrow>
                       if rs_redirected r
                       then (Throw (medErr MEDALLION_REDIRECT_REJECTED), [fetched, CancelBody], s2)
                       else (case handle_response p c ca hasSpan attempt ev r s2 of
                               (out, fx, s') \<Rightarrow> (out, fetched # fx, s')))))"

section \<open>The loop and the outer handler\<close>

function attempt_loop ::
    "platform \<Rightarrow> request_client \<Rightarrow> call \<Rightarrow> jstr \<Rightarrow> int \<Rightarrow> bool \<Rightarrow> headers \<Rightarrow> (nat \<Rightarrow> attempt_env) \<Rightarrow>
     nat \<Rightarrow> signal_state \<Rightarrow> (thrown + response_envelope) \<times> effect list \<times> signal_state" where
  "attempt_loop p c ca url deadline hasSpan hs env attempt s =
     (if attempt \<le> nr_maxAttempts (cl_retry c) then
        (case attempt_step p c ca url deadline hasSpan hs attempt (env attempt) s of
           (Return r, fx, s') \<Rightarrow> (Inr r, fx, s')
         | (Throw e, fx, s') \<Rightarrow> (Inl e, fx, s')
         | (Continue, fx, s') \<Rightarrow>
             (case attempt_loop p c ca url deadline hasSpan hs env (attempt + 1) s' of
                (out, fx', s'') \<Rightarrow> (out, fx @ fx', s'')))
      else (Inl (medErr MEDALLION_NETWORK_ERROR), [], s))"
  by pat_completeness auto
termination
  by (relation "measure (\<lambda>(p, c, ca, url, deadline, hasSpan, hs, env, attempt, s).
        Suc (nr_maxAttempts (cl_retry c)) - attempt)") auto

declare attempt_loop.simps [simp del]

definition dispatch_error :: "signal_state \<Rightarrow> thrown \<Rightarrow> thrown" where
  "dispatch_error s e =
     (if isMedallionError e then e
      else if isAbortLikeError e \<or> signal_aborted s then
        (if sg_didTimeout s then aborted_error MEDALLION_TIMEOUT e
         else aborted_error MEDALLION_ABORTED e)
      else networkError None e)"

definition buildUrl :: "platform \<Rightarrow> request_client \<Rightarrow> jstr \<Rightarrow> jstr option" where
  "buildUrl p c path =
     (let normalizedPath = (if startsWith path (lit ''/'') then path else lit ''/'' @ path)
      in pf_href p (cl_baseUrl c @ normalizedPath))"

definition dispatch ::
    "platform \<Rightarrow> request_client \<Rightarrow> call \<Rightarrow> int \<Rightarrow> (jstr \<times> jstr) list \<Rightarrow> (nat \<Rightarrow> attempt_env) \<Rightarrow>
     (thrown + response_envelope) \<times> effect list" where
  "dispatch p c ca now injections env =
     (case buildUrl p c (ca_path ca) of
        None \<Rightarrow> (Inl type_error, [])
      | Some url \<Rightarrow>
          (case traceRequest (cl_tracing c) (ca_method ca) (ca_path ca) (ca_headers ca) injections
                  (createSignal (ca_signal ca))
                  (\<lambda>hasSpan hs s.
                     attempt_loop p c ca url (now + ca_timeoutMs ca) hasSpan hs env 1 s) of
             (Inr r, fx, _) \<Rightarrow> (Inr r, fx)
           | (Inl e, fx, s) \<Rightarrow> (Inl (dispatch_error s e), fx)))"

end
