(* ===== verification/Dispatch_Facts.thy ===== *)
theory Dispatch_Facts
  imports Request_Dispatch
begin

text \<open>
  The correctness of the transport's retry loop: how often a request is sent and with what,
  what a caller may see when it fails, what a retry needs, and that a request whose failures
  are transient succeeds. Every theorem holds for every script of the environment.
\<close>

section \<open>Fetches in a trace\<close>

definition is_fetch :: "effect \<Rightarrow> bool" where
  "is_fetch e = (case e of FetchCall _ _ _ _ \<Rightarrow> True | _ \<Rightarrow> False)"

definition fetches :: "effect list \<Rightarrow> effect list" where
  "fetches fx = filter is_fetch fx"

lemma fetches_simps [simp]:
  "fetches [] = []"
  "fetches (FetchCall u m h b # fx) = FetchCall u m h b # fetches fx"
  "fetches (Wait d # fx) = fetches fx"
  "fetches (CancelBody # fx) = fetches fx"
  "fetches (SpanStart n a # fx) = fetches fx"
  "fetches (SpanAttribute k v # fx) = fetches fx"
  "fetches (SpanException n t # fx) = fetches fx"
  "fetches (SpanStatusOk # fx) = fetches fx"
  "fetches (SpanStatusError # fx) = fetches fx"
  "fetches (SpanEnd # fx) = fetches fx"
  "fetches (fx @ fx') = fetches fx @ fetches fx'"
  by (simp_all add: fetches_def is_fetch_def)

lemma fetches_read_loop [simp]: "fetches (snd (read_loop n d parts chunks end)) = []"
  by (induction n d parts chunks "end" rule: read_loop.induct) (auto simp: Let_def split: prod.splits)

lemma fetches_read_text [simp]: "fetches (snd (readBoundedResponseText r)) = []"
  by (auto simp: readBoundedResponseText_def Let_def split: option.splits)

lemma fetches_readResponseBody: "readResponseBody r = (v, fx) \<Longrightarrow> fetches fx = []"
proof -
  assume read: "readResponseBody r = (v, fx)"
  obtain t tfx where t: "readBoundedResponseText r = (t, tfx)" by (cases "readBoundedResponseText r")
  then have "fetches tfx = []" using fetches_read_text [of r] by simp
  moreover have "fx = [] \<or> fx = tfx"
    using read by (auto simp: readResponseBody_def t split: if_splits sum.splits option.splits)
  ultimately show ?thesis by auto
qed

lemma fetches_attributes [simp]: "fetches (setResponseSpanAttributes hasSpan status rid) = []"
  by (auto simp: setResponseSpanAttributes_def split: option.splits)

lemma fetches_exception [simp]: "fetches (recordSpanException e) = []"
  by (simp add: recordSpanException_def)

lemma abortableDelay_facts:
  assumes "abortableDelay ms s es = (r, fx, s')"
  shows "fetches fx = []" and "r = throwIfAborted s'"
  using assms by (auto simp: abortableDelay_def Let_def split: if_splits)

lemma delay_then_facts:
  assumes "delay_then ms s es = (out, fx, s')"
  shows "fetches fx = []" and "out \<noteq> Return x"
    and "out = Continue \<Longrightarrow> \<not> signal_aborted s'"
    and "out = Throw e \<Longrightarrow> sg_reason s' = Some e"
proof -
  obtain r where d: "abortableDelay ms s es = (r, fx, s')"
    and out: "out = (case r of Inl e \<Rightarrow> Throw e | Inr _ \<Rightarrow> Continue)"
    using assms by (cases "abortableDelay ms s es") (auto simp: delay_then_def split: sum.splits)
  have "r = throwIfAborted s'" using abortableDelay_facts [OF d] by simp
  with out show "out \<noteq> Return x" "out = Continue \<Longrightarrow> \<not> signal_aborted s'"
    "out = Throw e \<Longrightarrow> sg_reason s' = Some e"
    by (auto simp: throwIfAborted_def signal_aborted_def split: option.splits)
  show "fetches fx = []" using abortableDelay_facts [OF d] by simp
qed

section \<open>One attempt\<close>

text \<open>
  The reasons an attempt may throw: the signal's reason, an error the SDK builds from the
  response, or an abort of the stream. \<open>from_sdk\<close> collects the errors the SDK builds.
\<close>

definition sdk_built :: "call \<Rightarrow> thrown \<Rightarrow> bool" where
  "sdk_built ca e \<longleftrightarrow>
     (\<exists>code rid. e = medErrR code rid) \<or> (\<exists>code. e = medErr code) \<or>
     (\<exists>rid f. e = networkError rid f) \<or>
     (\<exists>status rid v. e = Api (medallionApiErrorFromEnvelope status rid v None (ca_redactions ca)))"

lemma sdk_built_intros [simp]:
  "sdk_built ca (medErrR code rid)" "sdk_built ca (medErr code)" "sdk_built ca (networkError rid f)"
  "sdk_built ca (Api (medallionApiErrorFromEnvelope status rid v None (ca_redactions ca)))"
  unfolding sdk_built_def by blast+

lemma isRetryable_safe: "isRetryableConnectError e safe \<Longrightarrow> safe"
  by (simp add: isRetryableConnectError_def split: if_splits)

text \<open>One case analysis of the response handler, in a form all the facts below use.\<close>

lemma handle_response_cases:
  assumes "handle_response p c ca hasSpan attempt ev r s0 = (out, fx, s')"
  obtains (Retry) dfx gfx
    where "attempt < nr_maxAttempts (cl_retry c)" "ca_retrySafe ca"
      "delay_then (retryDelay c (av_random ev) attempt
         (retryAfterMs (pf_parse_date p) (av_now_retry ev) (rs_headers r)))
         (signal_run s0 (av_during_body ev)) (av_during_delay ev) = (out, dfx, s')"
      "fx = gfx @ dfx" "fetches gfx = []"
  | (Built) e where "out = Throw e" "sdk_built ca e" "fetches fx = []"
      "s' = signal_run s0 (av_during_body ev)"
  | (Aborted) e where "out = Throw e" "isAbortLikeError e \<or> signal_aborted s'" "fetches fx = []"
      "s' = signal_run s0 (av_during_body ev)" "\<exists>rfx. readResponseBody r = (Inl (ReadFailed e), rfx)"
  | (Done) env where "out = Return env" "fetches fx = []" "response_ok r"
      "s' = signal_run s0 (av_during_body ev)" "\<exists>rfx. readResponseBody r = (Inr (re_body env), rfx)"
proof -
  obtain parsed gfx where read: "readResponseBody r = (parsed, gfx)"
    by (cases "readResponseBody r")
  note nofetch = fetches_readResponseBody [OF read]
  let ?s = "signal_run s0 (av_during_body ev)"
  let ?delay = "delay_then (retryDelay c (av_random ev) attempt
      (retryAfterMs (pf_parse_date p) (av_now_retry ev) (rs_headers r))) ?s (av_during_delay ev)"
  obtain dout dfx ds where delay: "?delay = (dout :: response_envelope outcome, dfx, ds)"
    by (metis prod_cases3)
  let ?gfx = "gfx @ setResponseSpanAttributes hasSpan (rs_status r)
      (readRequestId (rs_headers r) (ca_redactions ca))"
  have again: thesis
    if "attempt < nr_maxAttempts (cl_retry c)" "ca_retrySafe ca" "out = dout" "s' = ds"
      "fx = gfx @ setResponseSpanAttributes hasSpan (rs_status r)
         (readRequestId (rs_headers r) (ca_redactions ca)) @ dfx"
    using Retry [of dfx ?gfx] that delay nofetch by simp
  consider (tooLarge) "parsed = Inl ResponseTooLargeError" | (json) "parsed = Inl InvalidJsonResponseError"
    | (failed) e where "parsed = Inl (ReadFailed e)" | (ok) v where "parsed = Inr v"
    by (cases parsed; cases "projl parsed") auto
  then show thesis
  proof cases
    case tooLarge
    with assms read nofetch show ?thesis
      by (intro Built) (auto simp: handle_response_def Let_def)
  next
    case json
    with assms read nofetch delay show ?thesis
      by (cases "response_ok r")
         (auto simp: handle_response_def Let_def split: if_splits
            intro: again Built dest: isRetryable_safe)
  next
    case failed
    with assms read nofetch delay show ?thesis
      by (auto simp: handle_response_def Let_def split: if_splits
            intro: again Built Aborted dest: isRetryable_safe)
  next
    case ok
    with assms read nofetch delay show ?thesis
      by (cases "response_ok r")
         (auto simp: handle_response_def Let_def split: if_splits
            intro: again Built Done dest: isRetryable_safe)
  qed
qed

lemma attempt_step_fetches:
  assumes "attempt_step p c ca url deadline hasSpan hs attempt ev s = (out, fx, s')"
  shows "fetches fx = [] \<and> (\<exists>e. out = Throw e) \<or>
     (\<exists>ahs. attemptHeaders hs attempt deadline (av_now ev) = Inr ahs \<and>
        fetches fx = [FetchCall url (ca_method ca) ahs (ca_body ca)])"
  using assms
  by (auto simp: attempt_step_def Let_def split: sum.splits if_splits prod.splits
      elim!: handle_response_cases dest: delay_then_facts(1))

lemma attempt_step_Continue:
  assumes "attempt_step p c ca url deadline hasSpan hs attempt ev s = (Continue, fx, s')"
  shows "attempt < nr_maxAttempts (cl_retry c) \<and> ca_retrySafe ca \<and> \<not> signal_aborted s'"
  using assms
  by (auto simp: attempt_step_def Let_def split: sum.splits if_splits prod.splits
      elim!: handle_response_cases dest: delay_then_facts(3))

section \<open>The number of fetches\<close>

lemma attempt_loop_fetch_count:
  "attempt_loop p c ca url deadline hasSpan hs env attempt s = (r, fx, s') \<Longrightarrow>
   length (fetches fx) \<le> Suc (nr_maxAttempts (cl_retry c)) - attempt \<and>
   (\<not> ca_retrySafe ca \<longrightarrow> length (fetches fx) \<le> 1)"
proof (induction p c ca url deadline hasSpan hs env attempt s arbitrary: r fx s'
    rule: attempt_loop.induct)
  case (1 p c ca url deadline hasSpan hs env attempt s)
  let ?max = "nr_maxAttempts (cl_retry c)"
  show ?case
  proof (cases "attempt \<le> ?max")
    case False
    with "1.prems" show ?thesis by (subst (asm) attempt_loop.simps) simp
  next
    case True
    obtain out gfx s1
      where step: "attempt_step p c ca url deadline hasSpan hs attempt (env attempt) s = (out, gfx, s1)"
      by (metis prod_cases3)
    have one: "length (fetches gfx) \<le> 1" using attempt_step_fetches [OF step] by auto
    show ?thesis
    proof (cases "out = Continue")
      case False
      with "1.prems" True step one show ?thesis
        by (subst (asm) attempt_loop.simps) (auto split: outcome.splits)
    next
      case again: True
      obtain r2 fx2 s2
        where rest: "attempt_loop p c ca url deadline hasSpan hs env (attempt + 1) s1 = (r2, fx2, s2)"
        by (metis prod_cases3)
      with "1.prems" True step again have "fx = gfx @ fx2"
        by (subst (asm) attempt_loop.simps) simp
      moreover have "length (fetches fx2) \<le> Suc ?max - (attempt + 1)"
        using "1.IH" [OF True step [symmetric] again refl rest] by simp
      moreover have "attempt < ?max \<and> ca_retrySafe ca"
        using attempt_step_Continue step again by blast
      ultimately show ?thesis using one by (auto simp: Suc_diff_le)
    qed
  qed
qed

text \<open>What tracing does around the loop, seen from the fetches.\<close>

lemma inject_error: "inject hs es = Inl e \<Longrightarrow> e = type_error"
  by (induction hs es rule: inject.induct) (auto simp: bindE_Inl_iff header_set_def split: if_splits)

lemma copy_allowed_error: "copy_allowed hs es = Inl e \<Longrightarrow> e = type_error"
  by (induction hs es rule: copy_allowed.induct)
     (auto simp: bindE_Inl_iff header_set_def split: if_splits)

lemma traceRequest_cases:
  assumes "traceRequest t m path hs injs s run = (r, fx, s')"
  obtains (Ran) b hs' gfx where "run b hs' s = (r, gfx, s')" "fetches fx = fetches gfx"
      "\<And>name. \<not> allowedTracingHeader name \<Longrightarrow> header_get hs' name = header_get hs name"
  | (Refused) "r = Inl type_error" "fetches fx = []" "s' = s"
proof (cases "nt_enabled t")
  case False
  with assms show thesis by (intro Ran [of False hs fx]) (simp_all add: traceRequest_def)
next
  case True
  show thesis
  proof (cases "bindE (inject [] injs) (copy_allowed hs)")
    case (Inl e)
    then have "e = type_error" by (auto simp: bindE_Inl_iff dest: inject_error copy_allowed_error)
    with Inl True assms show thesis by (intro Refused) (auto simp: traceRequest_def Let_def)
  next
    case (Inr hs')
    then obtain extra where copy: "copy_allowed hs extra = Inr hs'" by (auto simp: result_iff)
    obtain r0 gfx s0 where run: "run True hs' s = (r0, gfx, s0)" by (metis prod_cases3)
    with Inr True assms have "r0 = r" "s0 = s'" "fetches fx = fetches gfx"
      by (auto simp: traceRequest_def Let_def split: sum.splits)
    with run copy_allowed_get [OF copy] show thesis by (intro Ran [of True hs' gfx]) auto
  qed
qed

text \<open>The loop that a dispatch ran, if it got that far.\<close>

lemma dispatch_cases:
  assumes "dispatch p c ca now injs env = (r, fx)" "buildUrl p c (ca_path ca) = Some url"
  obtains (Ran) hasSpan hs r0 gfx s'
    where "attempt_loop p c ca url (now + ca_timeoutMs ca) hasSpan hs env 1
             (createSignal (ca_signal ca)) = (r0, gfx, s')"
      "fetches fx = fetches gfx"
      "\<And>name. \<not> allowedTracingHeader name \<Longrightarrow> header_get hs name = header_get (ca_headers ca) name"
      "r = (case r0 of Inl e \<Rightarrow> Inl (dispatch_error s' e) | Inr v \<Rightarrow> Inr v)"
  | (Refused) "r = Inl (dispatch_error (createSignal (ca_signal ca)) type_error)" "fetches fx = []"
proof -
  let ?run = "\<lambda>hasSpan hs s. attempt_loop p c ca url (now + ca_timeoutMs ca) hasSpan hs env 1 s"
  obtain r0 gfx s' where trace: "traceRequest (cl_tracing c) (ca_method ca) (ca_path ca)
      (ca_headers ca) injs (createSignal (ca_signal ca)) ?run = (r0, gfx, s')"
    by (metis prod_cases3)
  with assms have fx: "fx = gfx"
    and r: "r = (case r0 of Inl e \<Rightarrow> Inl (dispatch_error s' e) | Inr v \<Rightarrow> Inr v)"
    by (auto simp: dispatch_def split: sum.splits)
  from trace show thesis
  proof (cases rule: traceRequest_cases)
    case (Ran b hs' gfx')
    with fx r show thesis by (intro that(1) [of b hs' r0 gfx' s']) auto
  next
    case Refused
    with fx r show thesis by (intro that(2)) auto
  qed
qed

lemma dispatch_no_url: "buildUrl p c (ca_path ca) = None \<Longrightarrow> dispatch p c ca now injs env = (Inl type_error, [])"
  by (simp add: dispatch_def)

lemma dispatch_fetch_count:
  "length (fetches (snd (dispatch p c ca now injs env))) \<le> nr_maxAttempts (cl_retry c) \<and>
   (\<not> ca_retrySafe ca \<longrightarrow> length (fetches (snd (dispatch p c ca now injs env))) \<le> 1)"
proof (cases "buildUrl p c (ca_path ca)")
  case None
  then show ?thesis by (simp add: dispatch_no_url)
next
  case (Some url)
  obtain r fx where d: "dispatch p c ca now injs env = (r, fx)"
    by (cases "dispatch p c ca now injs env")
  from d Some show ?thesis
  proof (cases rule: dispatch_cases)
    case (Ran hasSpan hs r0 gfx s')
    from attempt_loop_fetch_count [OF Ran(1)] Ran(2) d show ?thesis by simp
  qed (simp_all add: d)
qed

text \<open>
  C1. A request is sent at most \<open>maxAttempts\<close> times (so at most five times by a constructed
  client), and a request that is not safely idempotent is sent at most once, whatever the
  network, the server and the abort signal do.
\<close>

theorem dispatch_attempts_bounded:
  assumes "client_ok c"
  shows "length (fetches (snd (dispatch p c ca now injs env))) \<le> nr_maxAttempts (cl_retry c) \<and>
     nr_maxAttempts (cl_retry c) \<le> 5 \<and>
     (\<not> ca_retrySafe ca \<longrightarrow> length (fetches (snd (dispatch p c ca now injs env))) \<le> 1)"
  using assms dispatch_fetch_count [of p c ca now injs env] by (simp add: client_ok_def retry_ok_def)

section \<open>What a failure discloses\<close>

text \<open>
  An environment whose own errors (of the fetch, of the body stream, reasons of the abort
  signal) are not SDK errors.
\<close>

definition foreign :: "thrown \<Rightarrow> bool" where
  "foreign e \<longleftrightarrow> \<not> isMedallionError e"

definition foreign_event :: "signal_event \<Rightarrow> bool" where
  "foreign_event e = (case e of InputAborts reason \<Rightarrow> foreign reason | TimerFires \<Rightarrow> True)"

definition foreign_attempt :: "attempt_env \<Rightarrow> bool" where
  "foreign_attempt ev \<longleftrightarrow>
     list_all foreign_event (av_before ev) \<and> list_all foreign_event (av_during_fetch ev) \<and>
     list_all foreign_event (av_during_body ev) \<and> list_all foreign_event (av_during_delay ev) \<and>
     (case av_fetch ev of
        Inl e \<Rightarrow> foreign e
      | Inr r \<Rightarrow>
          (case rs_body r of
             None \<Rightarrow> True
           | Some b \<Rightarrow> (case bs_error b of None \<Rightarrow> True | Some e \<Rightarrow> foreign e)))"

text \<open>
  \<open>safe_failure\<close>: what a caller may be shown. An SDK error without a text taken from the
  server or the platform, whose cause is one of the four fixed ones; or an API error that has
  no cause and is free of every redactable secret of the request.
\<close>

definition safe_failure :: "jstr list \<Rightarrow> thrown \<Rightarrow> bool" where
  "safe_failure secrets e =
     (case e of
        Medallion m \<Rightarrow> err_text m = None \<and> set_option (err_cause m) \<subseteq> set safe_causes
      | Api a \<Rightarrow> ae_cause a = None \<and> (\<forall>s \<in> set secrets. redactable s \<longrightarrow> api_error_free_of s a)
      | Foreign _ \<Rightarrow> False)"

lemma sanitized_subset: "set_option (sanitizedErrorCause v) \<subseteq> set safe_causes"
  using sanitized_in_safe_causes by (auto simp: elem_set)

lemma api_error_no_cause: "ae_cause (medallionApiErrorFromEnvelope status rid v None secrets) = None"
  by (simp add: medallionApiErrorFromEnvelope_def Let_def sanitizedErrorCause_def)

lemma sdk_built_safe: "sdk_built ca e \<Longrightarrow> safe_failure (ca_redactions ca) e"
  using sanitized_subset api_error_is_clean
  by (auto simp: sdk_built_def safe_failure_def medErr_def medErrR_def networkError_def
      api_error_no_cause)

lemma dispatch_error_safe:
  assumes "safe_failure secrets e \<or> foreign e"
  shows "safe_failure secrets (dispatch_error s e)"
proof (cases "isMedallionError e")
  case True
  with assms show ?thesis by (simp add: dispatch_error_def foreign_def)
next
  case False
  then show ?thesis
    using sanitized_subset
    by (auto simp: dispatch_error_def aborted_error_def networkError_def safe_failure_def)
qed

definition foreign_signal :: "signal_state \<Rightarrow> bool" where
  "foreign_signal s \<longleftrightarrow> (\<forall>e \<in> set_option (sg_reason s). foreign e)"

lemma foreign_signal_step:
  "foreign_signal s \<Longrightarrow> foreign_event e \<Longrightarrow> foreign_signal (signal_step s e)"
  by (cases e)
     (auto simp: foreign_signal_def foreign_event_def controller_abort_def timeout_error_def
        abort_error_def foreign_def split: option.splits)

lemma foreign_signal_run:
  "foreign_signal s \<Longrightarrow> list_all foreign_event es \<Longrightarrow> foreign_signal (signal_run s es)"
proof (induction es arbitrary: s)
  case Nil
  then show ?case by (simp add: signal_run_def)
next
  case (Cons e es)
  then show ?case
    using Cons.IH [of "signal_step s e"] foreign_signal_step [of s e] by (simp add: signal_run_def)
qed

lemma foreign_signal_create:
  "(\<And>e. ca_signal ca = Some e \<Longrightarrow> foreign e) \<Longrightarrow> foreign_signal (createSignal (ca_signal ca))"
  by (auto simp: createSignal_def foreign_signal_def controller_abort_def Let_def split: option.splits)

lemma foreign_delay:
  assumes "delay_then ms s es = (out, fx, s')" "foreign_signal s" "list_all foreign_event es"
  shows "foreign_signal s'" and "out = Throw e \<Longrightarrow> foreign e"
proof -
  show s': "foreign_signal s'"
    using assms foreign_signal_run
    by (auto simp: delay_then_def abortableDelay_def Let_def split: if_splits sum.splits)
  show "out = Throw e \<Longrightarrow> foreign e"
    using delay_then_facts(4) [OF assms(1)] s' by (auto simp: foreign_signal_def)
qed

lemma read_loop_failure: "fst (read_loop n d parts chunks err) = Inl (ReadFailed e) \<Longrightarrow> err = Some e"
  by (induction n d parts chunks err rule: read_loop.induct)
     (auto simp: Let_def split: if_splits prod.splits)

lemma read_body_failure:
  assumes "readResponseBody r = (Inl (ReadFailed e), fx)"
  obtains b where "rs_body r = Some b" "bs_error b = Some e"
proof -
  have "fst (readBoundedResponseText r) = Inl (ReadFailed e)"
    using assms by (auto simp: readResponseBody_def split: if_splits prod.splits sum.splits option.splits)
  then show thesis
    using that by (auto simp: readBoundedResponseText_def Let_def
        split: if_splits option.splits dest: read_loop_failure)
qed

lemma attempt_step_foreign:
  assumes step: "attempt_step p c ca url deadline hasSpan hs attempt ev s = (out, fx, s')"
    and ev: "foreign_attempt ev" and s: "foreign_signal s"
  shows "foreign_signal s' \<and> (\<forall>e. out = Throw e \<longrightarrow> safe_failure (ca_redactions ca) e \<or> foreign e)"
proof -
  define s1 s2 where "s1 = signal_run s (av_before ev)" and "s2 = signal_run s1 (av_during_fetch ev)"
  have fs: "foreign_signal s1" "foreign_signal s2"
    using s ev foreign_signal_run by (simp_all add: s1_def s2_def foreign_attempt_def)
  have dev: "list_all foreign_event (av_during_delay ev)"
    using ev by (simp add: foreign_attempt_def)
  consider (stopped) reason where "throwIfAborted s1 = Inl reason" "out = Throw reason" "s' = s1"
    | (badHeader) "out = Throw type_error" "s' = s1"
    | (failed) e where "av_fetch ev = Inl e" "out = Throw e" "s' = s2"
    | (retried) d dfx where "delay_then d s2 (av_during_delay ev) = (out, dfx, s')"
    | (redirected) "out = Throw (medErr MEDALLION_REDIRECT_REJECTED)" "s' = s2"
    | (responded) r rfx where "av_fetch ev = Inr r"
        "handle_response p c ca hasSpan attempt ev r s2 = (out, rfx, s')"
    using step unfolding attempt_step_def Let_def s1_def s2_def attemptHeaders_def header_set_def
    by (auto split: sum.splits if_splits prod.splits)
  then show ?thesis
  proof cases
    case stopped
    with fs show ?thesis
      by (auto simp: throwIfAborted_def foreign_signal_def split: option.splits)
  next
    case badHeader
    with fs show ?thesis by (auto simp: foreign_def type_error_def)
  next
    case failed
    with fs ev show ?thesis by (auto simp: foreign_attempt_def)
  next
    case retried
    from foreign_delay [OF this fs(2) dev] show ?thesis by blast
  next
    case redirected
    with fs sdk_built_safe show ?thesis by auto
  next
    case responded
    have fs3: "foreign_signal (signal_run s2 (av_during_body ev))"
      using fs(2) ev foreign_signal_run by (simp add: foreign_attempt_def)
    from responded(2) show ?thesis
    proof (cases rule: handle_response_cases)
      case (Retry dfx gfx)
      from foreign_delay [OF Retry(3) fs3 dev] show ?thesis by blast
    next
      case (Built e)
      with fs3 sdk_built_safe show ?thesis by auto
    next
      case (Aborted e)
      then obtain rfx where "readResponseBody r = (Inl (ReadFailed e), rfx)" by blast
      then obtain b where "rs_body r = Some b" "bs_error b = Some e" by (rule read_body_failure)
      with responded(1) ev have "foreign e" by (simp add: foreign_attempt_def)
      with Aborted fs3 show ?thesis by simp
    next
      case (Done env)
      with fs3 show ?thesis by simp
    qed
  qed
qed

lemma attempt_loop_foreign:
  "attempt_loop p c ca url deadline hasSpan hs env attempt s = (r, fx, s') \<Longrightarrow>
   (\<And>n. foreign_attempt (env n)) \<Longrightarrow> foreign_signal s \<Longrightarrow> r = Inl e \<Longrightarrow>
   safe_failure (ca_redactions ca) e \<or> foreign e"
proof (induction p c ca url deadline hasSpan hs env attempt s arbitrary: r fx s'
    rule: attempt_loop.induct)
  case (1 p c ca url deadline hasSpan hs env attempt s)
  show ?case
  proof (cases "attempt \<le> nr_maxAttempts (cl_retry c)")
    case False
    with "1.prems" sdk_built_safe [of ca e] show ?thesis
      by (subst (asm) attempt_loop.simps) auto
  next
    case True
    obtain out gfx s1
      where step: "attempt_step p c ca url deadline hasSpan hs attempt (env attempt) s = (out, gfx, s1)"
      by (metis prod_cases3)
    note facts = attempt_step_foreign [OF step "1.prems"(2,3)]
    show ?thesis
    proof (cases "out = Continue")
      case False
      with "1.prems"(1,4) True step facts show ?thesis
        by (subst (asm) attempt_loop.simps) (auto split: outcome.splits)
    next
      case again: True
      obtain r2 fx2 s2
        where rest: "attempt_loop p c ca url deadline hasSpan hs env (attempt + 1) s1 = (r2, fx2, s2)"
        by (metis prod_cases3)
      with "1.prems"(1) True step again have "r = r2"
        by (subst (asm) attempt_loop.simps) simp
      with "1.IH" [OF True step [symmetric] again refl rest "1.prems"(2)] facts "1.prems"(4)
      show ?thesis by simp
    qed
  qed
qed


section \<open>Transient failures are overcome\<close>

lemma is_digit_printable: "is_digit u \<Longrightarrow> 0x20 \<le> u \<and> u \<le> 0x7E"
  by (auto simp: is_digit_def unit_in_def word_le_nat_alt)

lemma attemptHeaders_ok: "\<exists>ahs. attemptHeaders hs attempt deadline now = Inr ahs"
proof -
  let ?t = "dec_int (min MAX_CONNECT_TIMEOUT_MS (max 1 (deadline - now)))"
  have "0 \<le> min MAX_CONNECT_TIMEOUT_MS (max 1 (deadline - now))"
    by (simp add: MAX_CONNECT_TIMEOUT_MS_def MAX_TIMER_DELAY_MS_def)
  then obtain n where "?t = dec_nat n" by (auto simp: dec_int_def)
  then have "list_all (\<lambda>u. 0x20 \<le> u \<and> u \<le> 0x7E) ?t"
    using all_digits_dec_nat [of n] is_digit_printable by (simp add: all_digits_def list_all_iff)
  then have "legal_value (normalize_value ?t)" by (rule printable_legal)
  moreover have "is_token (lit ''Connect-Timeout-Ms'')" by code_simp
  ultimately show ?thesis by (simp add: attemptHeaders_def header_set_def)
qed

text \<open>An attempt that fails in a way the policy lets a safely idempotent request retry.\<close>

definition quiet :: "attempt_env \<Rightarrow> bool" where
  "quiet ev \<longleftrightarrow>
     av_before ev = [] \<and> av_during_fetch ev = [] \<and> av_during_body ev = [] \<and> av_during_delay ev = []"

definition transient_failure :: "call \<Rightarrow> attempt_env \<Rightarrow> bool" where
  "transient_failure ca ev \<longleftrightarrow>
     quiet ev \<and>
     (case av_fetch ev of
        Inl e \<Rightarrow> \<not> isAbortLikeError e
      | Inr r \<Rightarrow>
          \<not> rs_redirected r \<and> \<not> response_ok r \<and>
          (case fst (readResponseBody r) of
             Inl _ \<Rightarrow> False
           | Inr v \<Rightarrow>
               isRetryableConnectError
                 (Api (medallionApiErrorFromEnvelope (rs_status r)
                         (readRequestId (rs_headers r) (ca_redactions ca)) v None (ca_redactions ca)))
                 True))"

definition delivers :: "attempt_env \<Rightarrow> jsval \<Rightarrow> bool" where
  "delivers ev v \<longleftrightarrow>
     quiet ev \<and>
     (case av_fetch ev of
        Inl _ \<Rightarrow> False
      | Inr r \<Rightarrow> \<not> rs_redirected r \<and> response_ok r \<and> fst (readResponseBody r) = Inr v)"

lemma signal_run_Nil [simp]: "signal_run s [] = s"
  by (simp add: signal_run_def)

lemma delay_then_quiet: "\<not> signal_aborted s \<Longrightarrow> \<exists>fx. delay_then ms s [] = (Continue, fx, s)"
  by (auto simp: delay_then_def abortableDelay_def throwIfAborted_def signal_aborted_def Let_def
      split: option.splits)

lemma attempt_step_retries:
  assumes "transient_failure ca ev" "attempt < nr_maxAttempts (cl_retry c)" "ca_retrySafe ca"
    "\<not> signal_aborted s"
  shows "\<exists>fx. attempt_step p c ca url deadline hasSpan hs attempt ev s = (Continue, fx, s)"
proof -
  have q: "av_before ev = []" "av_during_fetch ev = []" "av_during_body ev = []"
    "av_during_delay ev = []"
    using assms(1) by (simp_all add: transient_failure_def quiet_def)
  have clear: "throwIfAborted s = Inr ()"
    using assms(4) by (auto simp: throwIfAborted_def signal_aborted_def)
  obtain ahs where ahs: "attemptHeaders hs attempt deadline (av_now ev) = Inr ahs"
    using attemptHeaders_ok by blast
  show ?thesis
  proof (cases "av_fetch ev")
    case (Inl e)
    obtain dfx where "delay_then (retryDelay c (av_random ev) attempt None) s [] =
        (Continue :: response_envelope outcome, dfx, s)"
      using delay_then_quiet [OF assms(4)] by blast
    with Inl q clear ahs assms show ?thesis
      by (simp add: attempt_step_def transient_failure_def Let_def)
  next
    case (Inr r)
    obtain dfx where d: "delay_then (retryDelay c (av_random ev) attempt
        (retryAfterMs (pf_parse_date p) (av_now_retry ev) (rs_headers r))) s [] =
        (Continue :: response_envelope outcome, dfx, s)"
      using delay_then_quiet [OF assms(4)] by blast
    obtain b bfx where b: "readResponseBody r = (b, bfx)" by (cases "readResponseBody r")
    with Inr assms(1) obtain v where v: "b = Inr v"
      by (auto simp: transient_failure_def split: sum.splits)
    have h: "\<exists>fx. handle_response p c ca hasSpan attempt ev r s = (Continue, fx, s)"
      using Inr assms(1,2,3) b v d q
      by (simp add: handle_response_def transient_failure_def Let_def)
    then obtain hfx where "handle_response p c ca hasSpan attempt ev r s = (Continue, hfx, s)" ..
    with Inr q clear ahs assms(1) show ?thesis
      by (simp add: attempt_step_def transient_failure_def Let_def)
  qed
qed

lemma attempt_step_delivers:
  assumes "delivers ev v" "\<not> signal_aborted s"
  shows "\<exists>fx rid ra. attempt_step p c ca url deadline hasSpan hs attempt ev s =
     (Return \<lparr>re_body = v, re_requestId = rid, re_retryAfterMs = ra\<rparr>, fx, s)"
proof -
  obtain r where r: "av_fetch ev = Inr r" "\<not> rs_redirected r" "response_ok r"
    "fst (readResponseBody r) = Inr v"
    using assms(1) by (auto simp: delivers_def split: sum.splits)
  obtain bfx where b: "readResponseBody r = (Inr v, bfx)"
    using r(4) by (cases "readResponseBody r") auto
  obtain ahs where ahs: "attemptHeaders hs attempt deadline (av_now ev) = Inr ahs"
    using attemptHeaders_ok by blast
  show ?thesis
    using assms b r ahs
    by (auto simp: attempt_step_def handle_response_def delivers_def quiet_def throwIfAborted_def
        signal_aborted_def Let_def split: option.splits)
qed

lemma attempt_loop_succeeds:
  assumes "\<And>n. attempt \<le> n \<Longrightarrow> n < k \<Longrightarrow> transient_failure ca (env n)"
    and "delivers (env k) v" "attempt \<le> k" "k \<le> nr_maxAttempts (cl_retry c)"
    and "ca_retrySafe ca" "\<not> signal_aborted s"
  shows "\<exists>fx rid ra. attempt_loop p c ca url deadline hasSpan hs env attempt s =
     (Inr \<lparr>re_body = v, re_requestId = rid, re_retryAfterMs = ra\<rparr>, fx, s)"
  using assms
proof (induction "k - attempt" arbitrary: attempt)
  case 0
  then have "attempt = k" by simp
  obtain fx rid ra where "attempt_step p c ca url deadline hasSpan hs k (env k) s =
      (Return \<lparr>re_body = v, re_requestId = rid, re_retryAfterMs = ra\<rparr>, fx, s)"
    using attempt_step_delivers [OF "0.prems"(2,6)] by blast
  with "0.prems"(4) \<open>attempt = k\<close> show ?case by (subst attempt_loop.simps) simp
next
  case (Suc n)
  then have lt: "attempt < k" by simp
  then have "transient_failure ca (env attempt)" "attempt < nr_maxAttempts (cl_retry c)"
    using Suc.prems by auto
  then obtain fx where step: "attempt_step p c ca url deadline hasSpan hs attempt (env attempt) s =
      (Continue, fx, s)"
    using attempt_step_retries Suc.prems by blast
  have "\<exists>fx rid ra. attempt_loop p c ca url deadline hasSpan hs env (attempt + 1) s =
     (Inr \<lparr>re_body = v, re_requestId = rid, re_retryAfterMs = ra\<rparr>, fx, s)"
    using Suc.hyps(2) lt Suc.prems by (intro Suc.hyps(1)) auto
  with step lt Suc.prems(4) show ?case by (subst attempt_loop.simps) auto
qed

text \<open>
  C21. Transient failures are overcome: when the first attempts of a safely idempotent request
  fail in the retryable ways (a fetch that does not abort, or an API error the policy allows),
  the next one within \<open>maxAttempts\<close> is answered, and nobody aborts, the call returns the
  body of that answer.
\<close>

theorem dispatch_overcomes_failures:
  assumes "\<And>n. 1 \<le> n \<Longrightarrow> n < k \<Longrightarrow> transient_failure ca (env n)"
    and "delivers (env k) v" "1 \<le> k" "k \<le> nr_maxAttempts (cl_retry c)"
    and "ca_retrySafe ca" "ca_signal ca = None"
    and "buildUrl p c (ca_path ca) = Some url" "nt_enabled (cl_tracing c) \<Longrightarrow> injs = []"
  shows "\<exists>r. fst (dispatch p c ca now injs env) = Inr r \<and> re_body r = v"
proof -
  let ?s = "createSignal (ca_signal ca)"
  have "\<not> signal_aborted ?s" using assms(6) by (simp add: createSignal_def signal_aborted_def)
  then have loop: "\<exists>fx rid ra. attempt_loop p c ca url (now + ca_timeoutMs ca) b hs env 1 ?s =
      (Inr \<lparr>re_body = v, re_requestId = rid, re_retryAfterMs = ra\<rparr>, fx, ?s)" for b hs
    using assms(1-5) by (intro attempt_loop_succeeds [where k = k]) auto
  show ?thesis
  proof (cases "nt_enabled (cl_tracing c)")
    case False
    with loop [of False "ca_headers ca"] assms(7) show ?thesis
      by (auto simp: dispatch_def traceRequest_def)
  next
    case True
    with loop [of True "ca_headers ca"] assms(7,8) show ?thesis
      by (auto simp: dispatch_def traceRequest_def Let_def)
  qed
qed

text \<open>A concrete platform and call, for the witnesses.\<close>

definition sample_platform :: platform where
  "sample_platform = \<lparr>pf_href = Some, pf_parse_date = (\<lambda>_. None)\<rparr>"

definition sample_call :: call where
  "sample_call =
     \<lparr>ca_method = lit ''POST'', ca_path = lit ''/v1/x'', ca_body = Some (lit ''{}''),
      ca_headers = [(lit ''x-medallion-api-key'', lit ''hunter2'')], ca_signal = None,
      ca_timeoutMs = 30000, ca_retrySafe = True, ca_redactions = [lit ''hunter2'']\<rparr>"

definition sample_attempt :: "thrown + response \<Rightarrow> attempt_env" where
  "sample_attempt r =
     \<lparr>av_before = [], av_now = 0, av_during_fetch = [], av_fetch = r, av_during_body = [],
      av_now_retry = 0, av_random = 0, av_during_delay = []\<rparr>"

definition sample_response :: "int \<Rightarrow> response" where
  "sample_response status =
     \<lparr>rs_status = status, rs_redirected = False, rs_headers = [], rs_body = None\<rparr>"

lemmas sample_defs = sample_retry_def sample_client_def sample_platform_def sample_call_def
  sample_attempt_def sample_response_def

theorem dispatch_attempts_bounded_witness:
  "length (fetches (snd (dispatch sample_platform sample_client sample_call 0 []
     (\<lambda>n. sample_attempt (Inr (sample_response 503)))))) = 3 \<and> client_ok sample_client"
proof -
  let ?d = "dispatch sample_platform sample_client sample_call 0 []
     (\<lambda>n. sample_attempt (Inr (sample_response 503)))"
  have "length (fetches (snd ?d)) = 3"
    by code_simp
  moreover have "length (fetches (snd ?d)) \<le> nr_maxAttempts (cl_retry sample_client)"
    using dispatch_attempts_bounded [OF sample_client_ok] by blast
  ultimately show ?thesis by (simp add: sample_client_ok)
qed


theorem dispatch_overcomes_failures_witness:
  "\<exists>r. fst (dispatch sample_platform sample_client sample_call 0 []
      (\<lambda>n. sample_attempt (if n = 1 then Inl type_error
          else if n = 2 then Inr (sample_response 503) else Inr (sample_response 204)))) = Inr r \<and>
     re_body r = JUndef"
proof (rule dispatch_overcomes_failures [where k = 3])
  let ?env = "\<lambda>n :: nat. sample_attempt (if n = 1 then Inl type_error
      else if n = 2 then Inr (sample_response 503) else Inr (sample_response 204))"
  have "transient_failure sample_call (?env 1)" "transient_failure sample_call (?env 2)"
    by code_simp+
  then show "transient_failure sample_call (?env n)" if "1 \<le> n" "n < 3" for n
    using that by (cases "n = 1"; cases "n = 2") auto
  show "delivers (?env 3) JUndef" by code_simp
  show "buildUrl sample_platform sample_client (ca_path sample_call) =
      Some (lit ''https://api.example.com/v1/x'')" by code_simp
qed (simp_all add: sample_defs)

end
