(* ===== verification/Request_Json.thy ===== *)
theory Request_Json
  imports Dispatch_Facts
begin

text \<open>
  \<open>RequestClient.requestJson\<close> (src/src/request.ts): the workspace check on the body, the
  headers of the SDK over those of the caller, the JSON body, the values that must not be
  echoed, and the dispatch. The main theorem says what every single fetch carries.
\<close>

section \<open>JSON.stringify\<close>

text \<open>On values without \<open>toJSON\<close>, getters or cycles, which is all the SDK serialises here; the
  inner option is JavaScript's \<open>undefined\<close> result.\<close>

function json_stringify :: "jsval \<Rightarrow> thrown + jstr option" where
  "json_stringify JUndef = Inr None"
| "json_stringify JNull = Inr (Some (lit ''null''))"
| "json_stringify (JBool b) = Inr (Some (if b then lit ''true'' else lit ''false''))"
| "json_stringify (JNum n) = Inr (Some (if isFinite n then num_text n else lit ''null''))"
| "json_stringify (JBig i) = Inl type_error"
| "json_stringify (JStr s) = Inr (Some (json_quote s))"
| "json_stringify (JArr vs) =
     bindE (mapE json_stringify vs) (\<lambda>ts.
       Inr (Some (lit ''['' @ join (lit '','') (map (\<lambda>t. orElse t (lit ''null'')) ts) @ lit '']'')))"
| "json_stringify (JObj ps) =
     bindE (mapE (\<lambda>p. bindE (json_stringify (snd p)) (\<lambda>t. Inr (fst p, t))) ps) (\<lambda>ts.
       Inr (Some (lit ''{'' @
         join (lit '','')
           (List.map_filter (\<lambda>(k, t). map_option (\<lambda>t. json_quote k @ lit '':'' @ t) t) ts) @
         lit ''}'')))"
  by pat_completeness auto
termination
proof (relation "measure size", goal_cases)
  case (2 vs v)
  then show ?case by (simp add: size_list_estimation' less_Suc_eq_le)
next
  case (3 ps p)
  have "size (snd p) \<le> size_prod (\<lambda>_. 0) size p" by (cases p) simp
  with 3 have "size (snd p) \<le> size_list (size_prod (\<lambda>_. 0) size) ps"
    by (rule size_list_estimation')
  then show ?case by simp
qed simp

section \<open>Values the server must not echo\<close>

definition set_add :: "'a list \<Rightarrow> 'a \<Rightarrow> 'a list" where
  "set_add xs x = (if x \<in> set xs then xs else xs @ [x])"

definition add_long :: "jstr list \<Rightarrow> jstr \<Rightarrow> jstr list" where
  "add_long out s = (if 4 \<le> length s then set_add out s else out)"

text \<open>\<open>collectSensitiveJsonValues\<close> on what \<open>JSON.parse\<close> returns: no value is its own
  ancestor there.\<close>

fun collectSensitive :: "jsval \<Rightarrow> jstr list \<Rightarrow> jstr list"
  and collectElements :: "jsval list \<Rightarrow> jstr list \<Rightarrow> jstr list"
  and collectMembers :: "(jstr \<times> jsval) list \<Rightarrow> jstr list \<Rightarrow> jstr list" where
  "collectSensitive (JStr s) out = add_long out s"
| "collectSensitive JNull out = add_long out (lit ''null'')"
| "collectSensitive (JBool b) out = add_long out (if b then lit ''true'' else lit ''false'')"
| "collectSensitive (JNum n) out = add_long out (if isFinite n then num_text n else lit ''null'')"
| "collectSensitive (JArr vs) out = collectElements vs out"
| "collectSensitive (JObj ps) out = collectMembers ps out"
| "collectSensitive _ out = out"
| "collectElements [] out = out"
| "collectElements (v # vs) out = collectElements vs (collectSensitive v out)"
| "collectMembers [] out = out"
| "collectMembers ((k, v) # ps) out = collectMembers ps (collectSensitive v (add_long out k))"

definition event_sensitive :: "jsval \<Rightarrow> jstr list \<Rightarrow> jstr list" where
  "event_sensitive event out =
     (case record_of event of
        None \<Rightarrow> out
      | Some e \<Rightarrow>
          (case own_prop e (lit ''payloadJson'') of
             JStr raw \<Rightarrow>
               if raw = [] then out
               else
                 (let out' = set_add out raw in
                  case json_parse raw of None \<Rightarrow> out' | Some v \<Rightarrow> collectSensitive v out')
           | _ \<Rightarrow> out))"

definition payloadSensitiveValues :: "jstr option \<Rightarrow> jstr list" where
  "payloadSensitiveValues body =
     (case body of
        None \<Rightarrow> []
      | Some t \<Rightarrow>
          (case Option.bind (json_parse t) record_of of
             None \<Rightarrow> []
           | Some request \<Rightarrow>
               (case own_prop request (lit ''events'') of
                  JArr events \<Rightarrow>
                    sort_key (\<lambda>s. - int (length s))
                      (foldl (\<lambda>out event. event_sensitive event out) [] events)
                | _ \<Rightarrow> [])))"

section \<open>The request\<close>

record json_request =
  jr_path :: jstr
  jr_body :: jsval
  jr_headers :: "(jstr \<times> jstr option) list"
  jr_signal :: "thrown option"
  jr_timeoutMs :: "jsnum option"
  jr_connectProtocol :: bool
  jr_retrySafe :: bool
  jr_idempotencyKey :: "jstr option"

definition assertWorkspaceSelectorCompatible :: "request_client \<Rightarrow> jsval \<Rightarrow> thrown + unit" where
  "assertWorkspaceSelectorCompatible c body =
     (case record_of body of
        None \<Rightarrow> Inr ()
      | Some r \<Rightarrow>
          failIf (list_ex (\<lambda>selector.
                    case selector of
                      JStr s \<Rightarrow> s \<noteq> [] \<and> s \<noteq> cl_workspaceId c
                    | _ \<Rightarrow> False)
                  [own_prop r (lit ''workspaceId''), own_prop r (lit ''workspace_id'')])
            (medErr MEDALLION_WORKSPACE_SELECTOR_CONFLICT))"

definition credentialHeader :: "credential \<Rightarrow> headers \<Rightarrow> thrown + headers" where
  "credentialHeader cred hs =
     (case cred of
        AccessToken v \<Rightarrow> setValidatedHeader hs (lit ''Authorization'') (lit ''Bearer '' @ v)
      | ApiKey v \<Rightarrow> setValidatedHeader hs (lit ''X-Medallion-API-Key'') v)"

definition defaultHeaders :: "request_client \<Rightarrow> json_request \<Rightarrow> int \<Rightarrow> thrown + headers" where
  "defaultHeaders c options timeoutMs =
     bindE (set_caller_headers [] (jr_headers options)) (\<lambda>h0.
     thenE (rejectProtectedHeaders h0)
     (bindE (credentialHeader (cl_credential c) h0) (\<lambda>h1.
      bindE (setValidatedHeader h1 (lit ''X-Medallion-Workspace-Id'') (cl_workspaceId c)) (\<lambda>h2.
      bindE (case jr_idempotencyKey options of
               None \<Rightarrow> Inr h2
             | Some k \<Rightarrow> setValidatedHeader h2 (lit ''Idempotency-Key'') k) (\<lambda>h3.
      if jr_connectProtocol options
      then bindE (header_set h3 (lit ''Connect-Protocol-Version'') (lit ''1'')) (\<lambda>h4.
             header_set h4 (lit ''Connect-Timeout-Ms'') (dec_int timeoutMs))
      else Inr h3)))))"

text \<open>Everything before the dispatch.\<close>

definition prepareJson :: "request_client \<Rightarrow> json_request \<Rightarrow> thrown + call" where
  "prepareJson c options =
     thenE (assertWorkspaceSelectorCompatible c (jr_body options))
     (bindE (normalizeTimeout (orElse (jr_timeoutMs options) (num (cl_timeoutMs c)))) (\<lambda>timeoutMs.
      bindE (defaultHeaders c options timeoutMs) (\<lambda>h0.
      bindE (header_set h0 (lit ''Accept'') (lit ''application/json'')) (\<lambda>h1.
      bindE (if jr_body options = JUndef then Inr (h1, None)
             else
               bindE (header_set h1 (lit ''Content-Type'') (lit ''application/json'')) (\<lambda>h2.
               bindE (tryE (json_stringify (jr_body options))
                        (\<lambda>_. Inl (medErr MEDALLION_INVALID_JSON_BODY))) (\<lambda>t. Inr (h2, t))))
        (\<lambda>(hs, body).
        Inr \<lparr>ca_method = lit ''POST'', ca_path = jr_path options, ca_body = body,
             ca_headers = hs, ca_signal = jr_signal options, ca_timeoutMs = timeoutMs,
             ca_retrySafe = jr_retrySafe options,
             ca_redactions = credential_value (cl_credential c) # payloadSensitiveValues body\<rparr>)))))"

definition requestJson ::
    "platform \<Rightarrow> request_client \<Rightarrow> json_request \<Rightarrow> int \<Rightarrow> (jstr \<times> jstr) list \<Rightarrow>
     (nat \<Rightarrow> attempt_env) \<Rightarrow> (thrown + response_envelope) \<times> effect list" where
  "requestJson p c options now injs env =
     (case prepareJson c options of
        Inl e \<Rightarrow> (Inl e, [])
      | Inr ca \<Rightarrow> dispatch p c ca now injs env)"

text \<open>\<open>RequestClient.request\<close>: the body alone.\<close>

definition request ::
    "platform \<Rightarrow> request_client \<Rightarrow> json_request \<Rightarrow> int \<Rightarrow> (jstr \<times> jstr) list \<Rightarrow>
     (nat \<Rightarrow> attempt_env) \<Rightarrow> (thrown + jsval) \<times> effect list" where
  "request p c options now injs env =
     (case requestJson p c options now injs env of
        (Inl e, fx) \<Rightarrow> (Inl e, fx)
      | (Inr r, fx) \<Rightarrow> (Inr (re_body r), fx))"

end
