(* ===== verification/Protocol.thy ===== *)
theory Protocol
  imports Preflight Cdc_Events Audit_Events Request_Json
begin

text \<open>
  The Connect protocol layer (src/src/protocol.ts): a call is normalised to JSON field names,
  checked by the preflight, encoded, sent, decoded and checked against the request. The
  protobuf codec (\<open>fromJson\<close> and \<open>toJson\<close> of the protobuf package) and the parsed descriptor
  are parameters; a decoded body has the types that the descriptor declares, which is how
  \<open>publish_view\<close> reads it.
\<close>

section \<open>Descriptors and codecs\<close>

datatype field_kind = MessageField jstr | MessageList jstr | MessageMap jstr | OtherField

record desc_field =
  df_name :: jstr
  df_jsonName :: jstr
  df_kind :: field_kind

record desc_method =
  dm_name :: jstr
  dm_input :: jstr
  dm_output :: jstr
  dm_unary :: bool

text \<open>The fields of each message type, and the methods of each service.\<close>

record descriptor =
  ds_messages :: "jstr \<Rightarrow> desc_field list"
  ds_services :: "(jstr \<times> (jstr \<times> desc_method) list) list"

text \<open>\<open>cd_fromJson type ignoreUnknownFields json\<close> and \<open>cd_toJson type useProtoFieldName message\<close>;
  none when the package throws.\<close>

record 'msg codec =
  cd_fromJson :: "jstr \<Rightarrow> bool \<Rightarrow> jsval \<Rightarrow> 'msg option"
  cd_toJson :: "jstr \<Rightarrow> bool \<Rightarrow> 'msg \<Rightarrow> jsval option"

record 'msg protocol_runtime =
  rt_parsed :: descriptor
  rt_codec :: "'msg codec"
  rt_pathPrefix :: jstr
  rt_serviceName :: jstr
  rt_ignoreUnknown :: bool

section \<open>Normalising field names\<close>

definition find_field :: "desc_field list \<Rightarrow> jstr \<Rightarrow> desc_field option" where
  "find_field fs key = List.find (\<lambda>c. df_name c = key \<or> df_jsonName c = key) fs"

text \<open>\<open>normalized[key] = value\<close> for the members in turn; an assignment to \<open>__proto__\<close> makes no
  own property.\<close>

definition assign_all :: "(jstr \<times> jsval) list \<Rightarrow> (jstr \<times> jsval) list" where
  "assign_all es =
     foldl (\<lambda>acc (k, v). if k = lit ''__proto__'' then acc else set_prop acc k v) [] es"

lemma size_member: "(k, w) \<in> set ps \<Longrightarrow> size w \<le> size_list (size_prod (\<lambda>_. 0) size) ps"
proof -
  assume m: "(k, w) \<in> set ps"
  have "size w \<le> size_prod (\<lambda>_. 0) size (k, w)" by simp
  with m show ?thesis by (rule size_list_estimation')
qed

function (sequential) normalizeProtoJson :: "descriptor \<Rightarrow> jstr \<Rightarrow> jsval \<Rightarrow> jsval"
  and normalizeFieldValue :: "descriptor \<Rightarrow> field_kind \<Rightarrow> jsval \<Rightarrow> jsval" where
  "normalizeProtoJson ds t (JObj ps) =
     JObj (assign_all (map (\<lambda>p.
       case find_field (ds_messages ds t) (fst p) of
         None \<Rightarrow> p
       | Some f \<Rightarrow> (df_jsonName f, normalizeFieldValue ds (df_kind f) (snd p)))
       (filter (\<lambda>p. snd p \<noteq> JUndef) ps)))"
| "normalizeProtoJson ds t v = v"
| "normalizeFieldValue ds kind v =
     (case kind of
        MessageField t \<Rightarrow> normalizeProtoJson ds t v
      | MessageList t \<Rightarrow> (case v of JArr vs \<Rightarrow> JArr (map (normalizeProtoJson ds t) vs) | _ \<Rightarrow> v)
      | MessageMap t \<Rightarrow>
          (case v of JObj ps \<Rightarrow> JObj (map (\<lambda>p. (fst p, normalizeProtoJson ds t (snd p))) ps) | _ \<Rightarrow> v)
      | OtherField \<Rightarrow> v)"
  by pat_completeness auto
termination
proof (relation "measure (\<lambda>x. case x of Inl (_, _, v) \<Rightarrow> 2 * size v | Inr (_, _, v) \<Rightarrow> Suc (2 * size v))",
    goal_cases)
  case (2 ds t ps p f)
  then have "(fst p, snd p) \<in> set ps" by simp
  then show ?case using size_member [of "fst p" "snd p" ps] by simp
next
  case (4 ds kind v t vs w)
  from 4(3) have "size w \<le> size_list size vs" by (rule size_list_estimation') simp
  with 4 show ?case by simp
next
  case (5 ds kind v t ps p)
  then have "(fst p, snd p) \<in> set ps" by simp
  then show ?case using size_member [of "fst p" "snd p" ps] 5 by simp
qed simp_all

section \<open>The runtime\<close>

definition trim_slashes :: "jstr \<Rightarrow> jstr" where
  "trim_slashes s =
     (let slash = (\<lambda>u. u = of_char CHR ''/'')
      in rev (dropWhile slash (rev (dropWhile slash s))))"

definition normalizePathPrefix :: "jstr option \<Rightarrow> jstr" where
  "normalizePathPrefix v =
     (case v of
        None \<Rightarrow> []
      | Some s \<Rightarrow> if trim s = [] \<or> s = lit ''/'' then [] else lit ''/'' @ trim_slashes s)"

definition newProtocolRuntime ::
    "descriptor \<Rightarrow> 'msg codec \<Rightarrow> jstr \<Rightarrow> jstr option \<Rightarrow> bool option \<Rightarrow> thrown + 'msg protocol_runtime" where
  "newProtocolRuntime ds cd serviceName pathPrefix ignoreUnknown =
     thenE (failIf (map_of (ds_services ds) serviceName = None)
              (medErr MEDALLION_PROTOCOL_METHOD_NOT_FOUND))
       (Inr \<lparr>rt_parsed = ds, rt_codec = cd, rt_pathPrefix = normalizePathPrefix pathPrefix,
            rt_serviceName = serviceName, rt_ignoreUnknown = orElse ignoreUnknown False\<rparr>)"

definition CONNECT_SERVICE_NAME :: jstr where
  "CONNECT_SERVICE_NAME = lit ''medallion.connect.v1.MedallionConnectService''"

definition invariantConnectRuntime :: "descriptor \<Rightarrow> 'msg codec \<Rightarrow> thrown + 'msg protocol_runtime" where
  "invariantConnectRuntime ds cd = newProtocolRuntime ds cd CONNECT_SERVICE_NAME None (Some True)"

definition runtime_method :: "'msg protocol_runtime \<Rightarrow> jstr \<Rightarrow> thrown + desc_method" where
  "runtime_method rt methodName =
     (case Option.bind (map_of (ds_services (rt_parsed rt)) (rt_serviceName rt))
              (\<lambda>ms. map_of ms methodName) of
        None \<Rightarrow> Inl (medErr MEDALLION_PROTOCOL_METHOD_NOT_FOUND)
      | Some m \<Rightarrow>
          if \<not> dm_unary m then Inl (medErr MEDALLION_PROTOCOL_METHOD_UNSUPPORTED) else Inr m)"

definition runtime_path :: "'msg protocol_runtime \<Rightarrow> desc_method \<Rightarrow> jstr" where
  "runtime_path rt m = rt_pathPrefix rt @ lit ''/'' @ rt_serviceName rt @ lit ''/'' @ dm_name m"

definition normalizeInput :: "'msg protocol_runtime \<Rightarrow> desc_method \<Rightarrow> jsval \<Rightarrow> jsval" where
  "normalizeInput rt m input = normalizeProtoJson (rt_parsed rt) (dm_input m) input"

definition encodeInput :: "'msg protocol_runtime \<Rightarrow> desc_method \<Rightarrow> jsval \<Rightarrow> thrown + jsval" where
  "encodeInput rt m input =
     (case Option.bind
             (cd_fromJson (rt_codec rt) (dm_input m) False
                (normalizeProtoJson (rt_parsed rt) (dm_input m) input))
             (cd_toJson (rt_codec rt) (dm_input m) False) of
        None \<Rightarrow> Inl (medErr MEDALLION_PROTOCOL_ENCODE_FAILED)
      | Some v \<Rightarrow> Inr v)"

definition decodeOutput ::
    "'msg protocol_runtime \<Rightarrow> desc_method \<Rightarrow> jsval \<Rightarrow> jstr option \<Rightarrow> thrown + jsval" where
  "decodeOutput rt m output requestId =
     (if output = JNull \<or> output = JUndef
      then Inl (medErrR MEDALLION_PROTOCOL_DECODE_FAILED requestId)
      else
        (case Option.bind
                (cd_fromJson (rt_codec rt) (dm_output m) (rt_ignoreUnknown rt)
                   (normalizeProtoJson (rt_parsed rt) (dm_output m) output))
                (cd_toJson (rt_codec rt) (dm_output m) True) of
           None \<Rightarrow> Inl (medErrR MEDALLION_PROTOCOL_DECODE_FAILED requestId)
         | Some v \<Rightarrow> Inr v))"

section \<open>Checking a response against its request\<close>

text \<open>\<open>v.k\<close> on any value, and the own properties of anything that \<open>typeof\<close> calls an object.\<close>

definition get_member :: "jsval \<Rightarrow> jstr \<Rightarrow> thrown + jsval" where
  "get_member v k =
     (case v of
        JObj ps \<Rightarrow> Inr (own_prop ps k) | JUndef \<Rightarrow> Inl type_error | JNull \<Rightarrow> Inl type_error
      | _ \<Rightarrow> Inr JUndef)"

definition object_props :: "jsval \<Rightarrow> (jstr \<times> jsval) list option" where
  "object_props v = (case v of JObj ps \<Rightarrow> Some ps | JArr _ \<Rightarrow> Some [] | _ \<Rightarrow> None)"

definition receipt_view :: "jsval \<Rightarrow> published_receipt" where
  "receipt_view v =
     (let ps = orElse (object_props v) [] in
      \<lparr>rc_idempotency_key =
         (case own_prop ps (lit ''idempotency_key'') of JStr s \<Rightarrow> Some s | _ \<Rightarrow> None),
       rc_event_id = own_prop ps (lit ''event_id''),
       rc_duplicate = (case own_prop ps (lit ''duplicate'') of JBool b \<Rightarrow> Some b | _ \<Rightarrow> None)\<rparr>)"

definition publish_view :: "jsval \<Rightarrow> publish_response" where
  "publish_view v =
     (let ps = orElse (object_props v) [];
          number = (\<lambda>k. case own_prop ps (lit k) of JNum n \<Rightarrow> Some n | _ \<Rightarrow> None)
      in \<lparr>pr_accepted_count = number ''accepted_count'', pr_duplicate_count = number ''duplicate_count'',
          pr_events =
            (case own_prop ps (lit ''events'') of
               JArr vs \<Rightarrow> Some (map receipt_view vs) | _ \<Rightarrow> None)\<rparr>)"

definition submittedKeys :: "jsval \<Rightarrow> thrown + jstr list" where
  "submittedKeys req =
     (case own_prop (orElse (object_props req) []) (lit ''events'') of
        JUndef \<Rightarrow> Inr []
      | JNull \<Rightarrow> Inr []
      | JArr events \<Rightarrow>
          mapE (\<lambda>event. bindE (get_member event (lit ''idempotencyKey'')) js_string) events
      | _ \<Rightarrow> Inl type_error)"

definition validateListed ::
    "jstr \<Rightarrow> jstr \<Rightarrow> jstr option \<Rightarrow> jsval \<Rightarrow> thrown + unit" where
  "validateListed methodName workspaceId requestId event =
     (case object_props event of
        None \<Rightarrow> Inl (medErrR MEDALLION_INVALID_LIST_RESPONSE requestId)
      | Some ps \<Rightarrow>
          if methodName = lit ''ListCdcEvents''
          then bindE (cdcEventFromWire ps workspaceId requestId) (\<lambda>_. Inr ())
          else bindE (auditEventFromWire ps workspaceId requestId) (\<lambda>_. Inr ()))"

definition validateProtocolResponse ::
    "jstr \<Rightarrow> jsval \<Rightarrow> jsval \<Rightarrow> jstr \<Rightarrow> jstr option \<Rightarrow> thrown + unit" where
  "validateProtocolResponse methodName req response workspaceId requestId =
     (if methodName = lit ''PublishCdcEvents'' \<or> methodName = lit ''PublishAuditEvents''
      then bindE (submittedKeys req) (\<lambda>expectedKeys.
             bindE (batchResponse (publish_view response) expectedKeys requestId) (\<lambda>_. Inr ()))
      else if methodName \<noteq> lit ''ListCdcEvents'' \<and> methodName \<noteq> lit ''ListAuditEvents''
      then Inr ()
      else
        (case object_props response of
           None \<Rightarrow> Inr ()
         | Some ps \<Rightarrow>
             (case own_prop ps (lit ''events'') of
                JUndef \<Rightarrow> Inr ()
              | JArr events \<Rightarrow>
                  bindE (optionalListText (own_prop ps (lit ''next_page_cursor'')) 2048 requestId) (\<lambda>_.
                  bindE (mapE (validateListed methodName workspaceId requestId) events) (\<lambda>_. Inr ()))
              | _ \<Rightarrow> Inl (medErrR MEDALLION_INVALID_LIST_RESPONSE requestId))))"

section \<open>The client\<close>

record request_options =
  ro_signal :: "thrown option"
  ro_timeoutMs :: "jsnum option"

text \<open>What the environment does during one request: the clock, the propagator's headers, and a
  script entry per attempt.\<close>

record request_script =
  qs_now :: int
  qs_injections :: "(jstr \<times> jstr) list"
  qs_env :: "nat \<Rightarrow> attempt_env"

record 'msg connect_client =
  pc_platform :: platform
  pc_requests :: request_client
  pc_workspaceId :: jstr
  pc_runtime :: "'msg protocol_runtime"

record rpc_response =
  rp_body :: jsval
  rp_requestId :: "jstr option"

definition newProtocolConnectClient ::
    "platform \<Rightarrow> descriptor \<Rightarrow> 'msg codec \<Rightarrow> request_client \<Rightarrow> jstr \<Rightarrow> thrown + 'msg connect_client" where
  "newProtocolConnectClient p ds cd requests workspaceId =
     bindE (invariantConnectRuntime ds cd) (\<lambda>rt.
       Inr \<lparr>pc_platform = p, pc_requests = requests, pc_workspaceId = workspaceId, pc_runtime = rt\<rparr>)"

definition rpc_prepare ::
    "'msg connect_client \<Rightarrow> jstr \<Rightarrow> jsval \<Rightarrow> thrown + desc_method \<times> jsval" where
  "rpc_prepare pc methodName body =
     bindE (runtime_method (pc_runtime pc) methodName) (\<lambda>m.
      (let normalizedBody = normalizeInput (pc_runtime pc) m body in
       thenE (preflightConnectRequest methodName normalizedBody)
       (bindE (encodeInput (pc_runtime pc) m normalizedBody) (\<lambda>encodedBody. Inr (m, encodedBody)))))"

definition rpc_finish ::
    "'msg connect_client \<Rightarrow> jstr \<Rightarrow> desc_method \<Rightarrow> jsval \<Rightarrow> response_envelope \<Rightarrow> thrown + rpc_response" where
  "rpc_finish pc methodName m encodedBody response =
     bindE (decodeOutput (pc_runtime pc) m (re_body response) (re_requestId response)) (\<lambda>decoded.
     thenE (validateProtocolResponse methodName encodedBody decoded (pc_workspaceId pc)
              (re_requestId response))
       (Inr \<lparr>rp_body = decoded, rp_requestId = re_requestId response\<rparr>))"

definition protocol_rpc ::
    "'msg connect_client \<Rightarrow> jstr \<Rightarrow> jsval \<Rightarrow> request_options \<Rightarrow> bool \<Rightarrow> request_script \<Rightarrow>
     (thrown + rpc_response) \<times> effect list" where
  "protocol_rpc pc methodName body options retrySafe script =
     (case rpc_prepare pc methodName body of
        Inl e \<Rightarrow> (Inl e, [])
      | Inr (m, encodedBody) \<Rightarrow>
          (case requestJson (pc_platform pc) (pc_requests pc)
                  \<lparr>jr_path = runtime_path (pc_runtime pc) m, jr_body = encodedBody, jr_headers = [],
                   jr_signal = ro_signal options, jr_timeoutMs = ro_timeoutMs options,
                   jr_connectProtocol = True, jr_retrySafe = retrySafe, jr_idempotencyKey = None\<rparr>
                  (qs_now script) (qs_injections script) (qs_env script) of
             (Inl e, fx) \<Rightarrow> (Inl e, fx)
           | (Inr response, fx) \<Rightarrow> (rpc_finish pc methodName m encodedBody response, fx)))"

definition publishCdcEvents ::
    "'msg connect_client \<Rightarrow> jsval \<Rightarrow> request_options \<Rightarrow> request_script \<Rightarrow>
     (thrown + rpc_response) \<times> effect list" where
  "publishCdcEvents pc req options script =
     protocol_rpc pc (lit ''PublishCdcEvents'') req options True script"

definition listCdcEvents ::
    "'msg connect_client \<Rightarrow> jsval \<Rightarrow> request_options \<Rightarrow> request_script \<Rightarrow>
     (thrown + rpc_response) \<times> effect list" where
  "listCdcEvents pc req options script =
     protocol_rpc pc (lit ''ListCdcEvents'') req options True script"

definition publishAuditEvents ::
    "'msg connect_client \<Rightarrow> jsval \<Rightarrow> request_options \<Rightarrow> request_script \<Rightarrow>
     (thrown + rpc_response) \<times> effect list" where
  "publishAuditEvents pc req options script =
     protocol_rpc pc (lit ''PublishAuditEvents'') req options True script"

definition listAuditEvents ::
    "'msg connect_client \<Rightarrow> jsval \<Rightarrow> request_options \<Rightarrow> request_script \<Rightarrow>
     (thrown + rpc_response) \<times> effect list" where
  "listAuditEvents pc req options script =
     protocol_rpc pc (lit ''ListAuditEvents'') req options True script"

end
