(* ===== verification/Js_Convert.thy ===== *)
theory Js_Convert
  imports Preflight
begin

text \<open>
  Conversions of the language that src/src/ingest.ts and src/src/tables.ts rely on: \<open>Number(text)\<close>,
  numbers in comparisons, optional chaining, \<open>length\<close>, the spread of an iterable, and truth.
  \<open>js_number\<close> reads a decimal count back exactly, or says that it is unsafe
  (\<open>js_number_count\<close>).
\<close>

section \<open>Numbers from text\<close>

text \<open>A decimal literal without its sign; \<open>None\<close> when the text is no such literal.\<close>

definition decimal_number :: "jstr \<Rightarrow> rat option" where
  "decimal_number s =
     (let (ip, s1) = span_digits s;
          (fp, s2) =
            (case s1 of
               c # r \<Rightarrow> if c = of_char CHR ''.'' then span_digits r else ([], s1)
             | [] \<Rightarrow> ([], []))
      in if ip = [] \<and> fp = [] then None
         else
           (case json_exponent s2 of
              Some (e, []) \<Rightarrow> Some (of_nat (parse_dec (ip @ fp)) * pow10 (e - int (length fp)))
            | _ \<Rightarrow> None))"

definition radix_number :: "nat \<Rightarrow> jstr \<Rightarrow> rat option" where
  "radix_number base ds =
     (if ds \<noteq> [] \<and> list_all (\<lambda>u. case hex_value u of None \<Rightarrow> False | Some d \<Rightarrow> d < base) ds
      then Some (of_nat (foldl (\<lambda>n u. n * base + orElse (hex_value u) 0) 0 ds)) else None)"

definition number_of :: "bool \<Rightarrow> rat option \<Rightarrow> jsnum" where
  "number_of negative v =
     (case v of None \<Rightarrow> NaN | Some r \<Rightarrow> round64 (if negative then - r else r))"

definition signed_number :: "bool \<Rightarrow> jstr \<Rightarrow> jsnum" where
  "signed_number negative s =
     (if s = lit ''Infinity'' then (if negative then NegInf else PosInf)
      else number_of negative (decimal_number s))"

text \<open>\<open>Number(text)\<close>: white space around the literal is ignored, nothing is zero, and a
  prefixed literal has no sign.\<close>

definition js_number :: "jstr \<Rightarrow> jsnum" where
  "js_number s =
     (let t = trim s in
      if t = [] then num 0
      else if startsWith t (lit ''0x'') \<or> startsWith t (lit ''0X'')
      then number_of False (radix_number 16 (drop 2 t))
      else if startsWith t (lit ''0o'') \<or> startsWith t (lit ''0O'')
      then number_of False (radix_number 8 (drop 2 t))
      else if startsWith t (lit ''0b'') \<or> startsWith t (lit ''0B'')
      then number_of False (radix_number 2 (drop 2 t))
      else if hd t = of_char CHR ''+'' then signed_number False (tl t)
      else if hd t = of_char CHR ''-'' then signed_number True (tl t)
      else signed_number False t)"

section \<open>Values\<close>

text \<open>The number of a value in a relational comparison with a number; an array or an object
  goes through its text.\<close>

fun to_number :: "jsval \<Rightarrow> thrown + jsnum" where
  "to_number JUndef = Inr NaN"
| "to_number JNull = Inr (num 0)"
| "to_number (JBool b) = Inr (if b then num 1 else num 0)"
| "to_number (JNum n) = Inr n"
| "to_number (JBig i) = Inr (num i)"
| "to_number (JStr s) = Inr (js_number s)"
| "to_number v = bindE (js_string v) (\<lambda>s. Inr (js_number s))"

definition is_nullish :: "jsval \<Rightarrow> bool" where
  "is_nullish v \<longleftrightarrow> v = JUndef \<or> v = JNull"

text \<open>\<open>a ?? b\<close>, \<open>v?.k\<close>, \<open>v.k\<close> and \<open>v.length\<close> for a \<open>v\<close> that is not nullish.\<close>

definition coalesce :: "jsval \<Rightarrow> jsval \<Rightarrow> jsval" where
  "coalesce v d = (if is_nullish v then d else v)"

definition chain_member :: "jsval \<Rightarrow> jstr \<Rightarrow> jsval" where
  "chain_member v k = (case v of JObj ps \<Rightarrow> own_prop ps k | _ \<Rightarrow> JUndef)"

definition js_length :: "jsval \<Rightarrow> jsval" where
  "js_length v =
     (case v of
        JStr s \<Rightarrow> JNum (num (int (length s)))
      | JArr vs \<Rightarrow> JNum (num (int (length vs)))
      | JObj ps \<Rightarrow> own_prop ps (lit ''length'')
      | _ \<Rightarrow> JUndef)"

text \<open>\<open>v > n\<close>.\<close>

definition js_greater :: "jsval \<Rightarrow> int \<Rightarrow> thrown + bool" where
  "js_greater v n = bindE (to_number v) (\<lambda>x. Inr (num_less (num n) x))"

text \<open>The members of \<open>[...v]\<close>; a text gives its code points.\<close>

fun text_points :: "jstr \<Rightarrow> jstr list" where
  "text_points (u # v # us) =
     (if is_lead u \<and> is_trail v then [u, v] # text_points us else [u] # text_points (v # us))"
| "text_points [u] = [[u]]"
| "text_points [] = []"

definition js_spread :: "jsval \<Rightarrow> thrown + jsval list" where
  "js_spread v =
     (case v of
        JArr vs \<Rightarrow> Inr vs
      | JStr s \<Rightarrow> Inr (map JStr (text_points s))
      | _ \<Rightarrow> Inl type_error)"

definition js_truthy :: "jsval \<Rightarrow> bool" where
  "js_truthy v \<longleftrightarrow>
     v \<noteq> JUndef \<and> v \<noteq> JNull \<and> v \<noteq> JBool False \<and> v \<noteq> JStr [] \<and> v \<noteq> JNum (num 0) \<and>
     v \<noteq> JNum NaN \<and> v \<noteq> JBig 0"

text \<open>\<open>typeof v === "object" && v !== null\<close>.\<close>

definition is_object :: "jsval \<Rightarrow> bool" where
  "is_object v = (case v of JObj _ \<Rightarrow> True | JArr _ \<Rightarrow> True | _ \<Rightarrow> False)"

text \<open>Membership in a \<open>Set\<close>: an array or an object is only ever the same as itself, and the
  values here are read from different places.\<close>

definition js_set_has :: "jsval list \<Rightarrow> jsval \<Rightarrow> bool" where
  "js_set_has vs v \<longleftrightarrow> \<not> is_object v \<and> v \<in> set vs"

lemma coalesce_simps [simp]:
  "coalesce JUndef d = d" "coalesce JNull d = d" "coalesce (JStr s) d = JStr s"
  "coalesce (JArr vs) d = JArr vs" "coalesce (JObj ps) d = JObj ps" "coalesce (JNum n) d = JNum n"
  "coalesce (JBool b) d = JBool b"
  by (simp_all add: coalesce_def is_nullish_def)

lemma chain_member_simps [simp]:
  "chain_member (JObj ps) k = own_prop ps k" "chain_member JUndef k = JUndef"
  "chain_member JNull k = JUndef"
  by (simp_all add: chain_member_def)

lemma js_length_simps [simp]:
  "js_length (JStr s) = JNum (num (int (length s)))"
  "js_length (JArr vs) = JNum (num (int (length vs)))"
  by (simp_all add: js_length_def)

lemma js_set_has_texts [simp]: "js_set_has (map JStr ss) (JStr s) \<longleftrightarrow> s \<in> set ss"
  by (auto simp: js_set_has_def is_object_def)

lemma js_set_has_dest: "js_set_has vs v \<Longrightarrow> v \<in> set vs"
  by (simp add: js_set_has_def)

text \<open>A case that only an array, or only a text, gets through.\<close>

lemma case_array_Inr_iff [result_iff]:
  "(case v of JArr vs \<Rightarrow> f vs | _ \<Rightarrow> Inl e) = Inr y \<longleftrightarrow> (\<exists>vs. v = JArr vs \<and> f vs = Inr y)"
  by (cases v) simp_all

lemma case_text_Inr_iff [result_iff]:
  "(case v of JStr s \<Rightarrow> g s | _ \<Rightarrow> Inl e) = Inr y \<longleftrightarrow> (\<exists>s. v = JStr s \<and> g s = Inr y)"
  by (cases v) simp_all

end
