(* ===== verification/Ingest.thy ===== *)
theory Ingest
  imports Protocol Js_Convert
begin

text \<open>
  The ingest service (src/src/ingest.ts): the seven calls of \<open>medallion.ingest.v1\<close>, what they
  check before sending and of an answer, and the idempotency key that every write carries. A
  request is the object the caller passes, so its fields are values of any type; an answer is
  what the codec decoded. \<open>randomUUID\<close>, the codec and the descriptor are parameters.
\<close>

section \<open>Limits and names\<close>

definition INGEST_SERVICE_NAME :: jstr where
  "INGEST_SERVICE_NAME = lit ''medallion.ingest.v1.MedallionIngestService''"

definition MAX_INGEST_BATCH_ROWS :: nat where "MAX_INGEST_BATCH_ROWS = 50000"
definition MAX_INSERT_ID_BYTES :: nat where "MAX_INSERT_ID_BYTES = 128"
definition MAX_REQUEST_ID_BYTES :: nat where "MAX_REQUEST_ID_BYTES = 512"
definition MAX_QUERY_BYTES :: nat where "MAX_QUERY_BYTES = 262144"
definition MAX_QUERY_TIMEOUT_MS :: int where "MAX_QUERY_TIMEOUT_MS = 600000"
definition MAX_QUERY_PAGE_SIZE :: int where "MAX_QUERY_PAGE_SIZE = 100000"
definition MAX_INGEST_PAGE_TOKEN_BYTES :: nat where "MAX_INGEST_PAGE_TOKEN_BYTES = 4096"
definition MAX_TABLE_PAGE_SIZE :: int where "MAX_TABLE_PAGE_SIZE = 1000"
definition MAX_ARROW_PAYLOAD_BYTES :: nat where "MAX_ARROW_PAYLOAD_BYTES = 16777216"
definition MAX_TABLE_COLUMNS :: nat where "MAX_TABLE_COLUMNS = 512"
definition MAX_SORT_COLUMNS :: nat where "MAX_SORT_COLUMNS = 8"
definition MAX_IDEMPOTENCY_KEY_BYTES :: nat where "MAX_IDEMPOTENCY_KEY_BYTES = 255"

definition is_name_unit :: "code_unit \<Rightarrow> bool" where
  "is_name_unit u \<longleftrightarrow> unit_in CHR ''a'' CHR ''z'' u \<or> is_digit u \<or> u = of_char CHR ''_''"

text \<open>\<open>[a-z][a-z0-9_]{0,n}\<close>, the whole text.\<close>

definition lower_identifier :: "nat \<Rightarrow> jstr \<Rightarrow> bool" where
  "lower_identifier n s \<longleftrightarrow>
     (case s of
        [] \<Rightarrow> False
      | u # us \<Rightarrow> unit_in CHR ''a'' CHR ''z'' u \<and> length us \<le> n \<and> list_all is_name_unit us)"

definition TABLE_ID_PATTERN :: "jstr \<Rightarrow> bool" where
  "TABLE_ID_PATTERN s = lower_identifier 62 s"

definition COLUMN_NAME_PATTERN :: "jstr \<Rightarrow> bool" where
  "COLUMN_NAME_PATTERN s = lower_identifier 63 s"

definition TABLE_NAME_PATTERN :: "jstr \<Rightarrow> bool" where
  "TABLE_NAME_PATTERN s \<longleftrightarrow> startsWith s (lit ''tables/'') \<and> lower_identifier 62 (drop 7 s)"

definition QUERY_NAME_PATTERN :: "jstr \<Rightarrow> bool" where
  "QUERY_NAME_PATTERN s \<longleftrightarrow>
     startsWith s (lit ''queries/'') \<and> length s = 34 \<and> list_all is_ulid_unit (drop 8 s)"

definition TABLE_COLUMN_TYPES :: "jstr list" where
  "TABLE_COLUMN_TYPES =
     [lit ''BOOL'', lit ''INT64'', lit ''FLOAT64'', lit ''STRING'', lit ''BYTES'', lit ''TIMESTAMP'',
      lit ''DATE'', lit ''JSON'']"

definition QUERY_STATES :: "jstr list" where
  "QUERY_STATES = [lit ''RUNNING'', lit ''SUCCEEDED'', lit ''FAILED'']"

text \<open>\<open>[A-Za-z0-9+/]*={0,2}\<close>, the whole text.\<close>

definition base64_alphabet :: "code_unit \<Rightarrow> bool" where
  "base64_alphabet u \<longleftrightarrow>
     unit_in CHR ''A'' CHR ''Z'' u \<or> unit_in CHR ''a'' CHR ''z'' u \<or> is_digit u \<or>
     u = of_char CHR ''+'' \<or> u = of_char CHR ''/''"

definition BASE64_TEXT :: "jstr \<Rightarrow> bool" where
  "BASE64_TEXT s \<longleftrightarrow>
     (let r = dropWhile base64_alphabet s
      in length r \<le> 2 \<and> list_all (\<lambda>u. u = of_char CHR ''='') r)"

definition invalidSchema :: thrown where
  "invalidSchema = medErr MEDALLION_INVALID_SCHEMA"

definition invalidIngestResponse :: "jstr option \<Rightarrow> thrown" where
  "invalidIngestResponse requestId = medErrR MEDALLION_INVALID_INGEST_RESPONSE requestId"

section \<open>Checks of single values\<close>

text \<open>\<open>/^[\x21-\x7e]+$/\<close>; \<open>uuid\<close> is what \<open>randomUUID\<close> returns.\<close>

definition printable_ascii :: "jstr \<Rightarrow> bool" where
  "printable_ascii s \<longleftrightarrow> s \<noteq> [] \<and> list_all (\<lambda>u. 0x21 \<le> u \<and> u \<le> 0x7E) s"

definition ingestIdempotencyKey :: "jstr \<Rightarrow> jsval \<Rightarrow> thrown + jstr" where
  "ingestIdempotencyKey uuid v =
     (case v of
        JUndef \<Rightarrow> Inr uuid
      | JStr s \<Rightarrow>
          if s = [] \<or> utf8_length s > MAX_IDEMPOTENCY_KEY_BYTES \<or> \<not> printable_ascii s
          then Inl (medErr MEDALLION_INVALID_IDEMPOTENCY_KEY) else Inr s
      | _ \<Rightarrow> Inl (medErr MEDALLION_INVALID_IDEMPOTENCY_KEY))"

definition requiredTableId :: "jsval \<Rightarrow> thrown + jstr" where
  "requiredTableId v =
     (case v of
        JStr s \<Rightarrow> if TABLE_ID_PATTERN s then Inr s else Inl (medErr MEDALLION_INVALID_TABLE_ID)
      | _ \<Rightarrow> Inl (medErr MEDALLION_INVALID_TABLE_ID))"

definition requiredTableName :: "jsval \<Rightarrow> thrown + jstr" where
  "requiredTableName v =
     (case v of
        JStr s \<Rightarrow> if TABLE_NAME_PATTERN s then Inr s else Inl (medErr MEDALLION_INVALID_TABLE_ID)
      | _ \<Rightarrow> Inl (medErr MEDALLION_INVALID_TABLE_ID))"

definition tableResourceName :: "jsval \<Rightarrow> thrown + jstr" where
  "tableResourceName tableId =
     (let bare =
            (case tableId of
               JStr s \<Rightarrow> JStr (if startsWith s (lit ''tables/'') then drop 7 s else s)
             | _ \<Rightarrow> tableId)
      in bindE (requiredTableId bare) (\<lambda>s. Inr (lit ''tables/'' @ s)))"

definition integer_between :: "int \<Rightarrow> int \<Rightarrow> jsval \<Rightarrow> bool" where
  "integer_between lo hi v =
     (case v of JNum n \<Rightarrow> isInteger n \<and> \<not> num_less n (num lo) \<and> \<not> num_less (num hi) n | _ \<Rightarrow> False)"

definition ingestPageSize :: "jsval \<Rightarrow> thrown + unit" where
  "ingestPageSize v =
     (if v = JUndef \<or> v = JNum (num 0) then Inr ()
      else failIf (\<not> integer_between 1 MAX_TABLE_PAGE_SIZE v) (medErr MEDALLION_INVALID_PAGE_SIZE))"

definition queryPageSize :: "jsval \<Rightarrow> thrown + unit" where
  "queryPageSize v =
     (if v = JUndef then Inr ()
      else failIf (\<not> integer_between 0 MAX_QUERY_PAGE_SIZE v) (medErr MEDALLION_INVALID_PAGE_SIZE))"

definition requireJsonObject :: "jsval \<Rightarrow> thrown + unit" where
  "requireJsonObject v = failIf (record_of v = None) (medErr MEDALLION_INVALID_ROW)"

definition requireArrowPayloadText :: "jsval \<Rightarrow> thrown + unit" where
  "requireArrowPayloadText v =
     (case v of
        JStr s \<Rightarrow>
          if s = [] \<or> length s mod 4 \<noteq> 0 \<or> \<not> BASE64_TEXT s then Inl (medErr MEDALLION_INVALID_ROW)
          else failIf (length s div 4 * 3 > MAX_ARROW_PAYLOAD_BYTES) (medErr MEDALLION_INVALID_BATCH_SIZE)
      | _ \<Rightarrow> Inl (medErr MEDALLION_INVALID_ROW))"

definition ingest_optionalBoundedText :: "jsval \<Rightarrow> nat \<Rightarrow> error_code \<Rightarrow> thrown + unit" where
  "ingest_optionalBoundedText v maxBytes code =
     (if v = JUndef \<or> v = JStr [] then Inr ()
      else failIf (case v of JStr s \<Rightarrow> utf8_length s > maxBytes | _ \<Rightarrow> True) (medErr code))"

definition nonNegativeCount :: "jsval \<Rightarrow> jstr option \<Rightarrow> thrown + nat" where
  "nonNegativeCount v requestId =
     (if v = JUndef then Inr 0
      else
        (let parsed = (case v of JStr s \<Rightarrow> js_number s | JNum n \<Rightarrow> n | _ \<Rightarrow> NaN)
         in if \<not> isSafeInteger parsed \<or> num_less parsed (num 0)
            then Inl (invalidIngestResponse requestId) else Inr (nat (num_int parsed))))"

section \<open>Checks of a request\<close>

text \<open>One round of the loop over the columns; \<open>names\<close> are those declared before.\<close>

definition preflight_column :: "jsval list \<Rightarrow> jsval \<Rightarrow> thrown + jsval list" where
  "preflight_column names column =
     bindE (get_member column (lit ''name'')) (\<lambda>declared.
      (let name = coalesce declared (JStr []) in
       bindE (js_string name) (\<lambda>text.
       thenE (failIf (\<not> COLUMN_NAME_PATTERN text) invalidSchema)
       (thenE (failIf (js_set_has names name) invalidSchema)
       (bindE (get_member column (lit ''type'')) (\<lambda>type.
        thenE (failIf (\<not> js_set_has (map JStr TABLE_COLUMN_TYPES) (coalesce type (JStr []))) invalidSchema)
          (Inr (names @ [name]))))))))"

definition preflight_sort_column :: "jsval list \<Rightarrow> jsval list \<Rightarrow> jsval \<Rightarrow> thrown + jsval list" where
  "preflight_sort_column names seen column =
     thenE (failIf (\<not> js_set_has names column \<or> js_set_has seen column) invalidSchema)
       (Inr (seen @ [column]))"

definition preflight_time_column :: "jsval list \<Rightarrow> jsval \<Rightarrow> thrown + unit" where
  "preflight_time_column names timeColumn =
     bindE (js_greater (js_length timeColumn) 0) (\<lambda>present.
       failIf (present \<and> \<not> js_set_has names timeColumn) invalidSchema)"

definition preflight_sort_columns :: "jsval list \<Rightarrow> jsval \<Rightarrow> thrown + unit" where
  "preflight_sort_columns names sortColumns =
     (case sortColumns of
        JArr cs \<Rightarrow>
          if length cs > MAX_SORT_COLUMNS then Inl invalidSchema
          else bindE (foldE (preflight_sort_column names) [] cs) (\<lambda>_. Inr ())
      | _ \<Rightarrow> Inl invalidSchema)"

definition preflightTable :: "jsval \<Rightarrow> thrown + unit" where
  "preflightTable table =
     (if is_nullish table then Inl invalidSchema
      else
        (case coalesce (chain_member (chain_member table (lit ''schema'')) (lit ''columns'')) (JArr []) of
           JArr columns \<Rightarrow>
             if length columns < 1 \<or> length columns > MAX_TABLE_COLUMNS then Inl invalidSchema
             else
               bindE (foldE preflight_column [] columns) (\<lambda>names.
               thenE (preflight_time_column names (coalesce (chain_member table (lit ''time_column'')) (JStr [])))
                 (preflight_sort_columns names (coalesce (chain_member table (lit ''sort_columns'')) (JArr []))))
         | _ \<Rightarrow> Inl invalidSchema))"

definition preflight_row :: "jsval \<Rightarrow> thrown + unit" where
  "preflight_row row =
     bindE (get_member row (lit ''insert_id'')) (\<lambda>insert_id.
     thenE (ingest_optionalBoundedText insert_id MAX_INSERT_ID_BYTES MEDALLION_INVALID_ROW)
     (bindE (get_member row (lit ''json'')) requireJsonObject))"

text \<open>\<open>request.rows?.length\<close>.\<close>

definition rows_length :: "(jstr \<times> jsval) list \<Rightarrow> jsval" where
  "rows_length req =
     (let rows = own_prop req (lit ''rows'') in if is_nullish rows then JUndef else js_length rows)"

definition preflightAppendRows :: "(jstr \<times> jsval) list \<Rightarrow> thrown + unit" where
  "preflightAppendRows req =
     thenE (requiredTableName (own_prop req (lit ''table'')))
     (bindE (js_greater (coalesce (rows_length req) (JNum (num 0))) 0) (\<lambda>hasJsonRows.
      (let arrow = own_prop req (lit ''arrow_rows''); hasArrowRows = arrow \<noteq> JUndef in
       thenE (failIf (hasJsonRows = hasArrowRows) (medErr MEDALLION_AMBIGUOUS_ROW_PAYLOAD))
       (if hasJsonRows
        then
          bindE (js_greater (rows_length req) (int MAX_INGEST_BATCH_ROWS)) (\<lambda>tooMany.
          thenE (failIf tooMany (medErr MEDALLION_INVALID_BATCH_SIZE))
          (case own_prop req (lit ''rows'') of
             JArr rows \<Rightarrow> bindE (mapE preflight_row rows) (\<lambda>_. Inr ())
           | _ \<Rightarrow> Inl type_error))
        else requireArrowPayloadText (chain_member arrow (lit ''serialized_record_batch''))))))"

definition preflightRunQuery :: "(jstr \<times> jsval) list \<Rightarrow> thrown + unit" where
  "preflightRunQuery req =
     (case own_prop req (lit ''query'') of
        JStr query \<Rightarrow>
          if trim query = [] then Inl (medErr MEDALLION_INVALID_QUERY)
          else
            thenE (failIf (utf8_length query > MAX_QUERY_BYTES) (medErr MEDALLION_INVALID_QUERY))
            (thenE
              (let timeout = own_prop req (lit ''timeout_ms'') in
               failIf (timeout \<noteq> JUndef \<and> \<not> integer_between 0 MAX_QUERY_TIMEOUT_MS timeout)
                 (medErr MEDALLION_INVALID_TIMEOUT))
              (queryPageSize (own_prop req (lit ''page_size''))))
      | _ \<Rightarrow> Inl (medErr MEDALLION_INVALID_QUERY))"

definition preflightGetQueryResults :: "(jstr \<times> jsval) list \<Rightarrow> thrown + unit" where
  "preflightGetQueryResults req =
     (case own_prop req (lit ''name'') of
        JStr name \<Rightarrow>
          if \<not> QUERY_NAME_PATTERN name then Inl (medErr MEDALLION_INVALID_QUERY)
          else
            thenE (ingest_optionalBoundedText (own_prop req (lit ''page_token''))
                     MAX_INGEST_PAGE_TOKEN_BYTES MEDALLION_INVALID_PAGE_TOKEN)
              (queryPageSize (own_prop req (lit ''page_size'')))
      | _ \<Rightarrow> Inl (medErr MEDALLION_INVALID_QUERY))"

end
