(* ===== verification/Ingest_Client.thy ===== *)
theory Ingest_Client
  imports Ingest
begin

text \<open>
  The checks of an answer of the ingest service, and \<open>ProtocolIngestClient\<close> itself
  (src/src/ingest.ts): seven calls, each the check of the request, the call of the protocol
  runtime and the transport, and the check of the answer.
\<close>

section \<open>Checks of an answer\<close>

definition schema_column_malformed :: "jsval \<Rightarrow> thrown + bool" where
  "schema_column_malformed column =
     (let malformed = (\<lambda>v. case coalesce v (JStr []) of JStr _ \<Rightarrow> False | _ \<Rightarrow> True) in
      bindE (get_member column (lit ''name'')) (\<lambda>name.
        if malformed name then Inr True
        else bindE (get_member column (lit ''type'')) (\<lambda>type. Inr (malformed type))))"

definition validateSchemaColumns :: "jsval \<Rightarrow> jstr option \<Rightarrow> thrown + unit" where
  "validateSchemaColumns columns requestId =
     (case columns of
        JUndef \<Rightarrow> Inr ()
      | JArr cs \<Rightarrow>
          foldE (\<lambda>_ column. bindE (schema_column_malformed column) (\<lambda>bad.
                   failIf bad (invalidIngestResponse requestId))) () cs
      | _ \<Rightarrow> Inl (invalidIngestResponse requestId))"

definition validateTable :: "jsval \<Rightarrow> jstr option \<Rightarrow> thrown + unit" where
  "validateTable table requestId =
     (if table = JUndef then Inl (invalidIngestResponse requestId)
      else
        bindE (get_member table (lit ''name'')) (\<lambda>name.
        thenE (failIf (case name of JStr s \<Rightarrow> \<not> TABLE_NAME_PATTERN s | _ \<Rightarrow> True)
                 (invalidIngestResponse requestId))
          (validateSchemaColumns (chain_member (chain_member table (lit ''schema'')) (lit ''columns''))
             requestId)))"

definition validateTableResponse :: "jsval \<Rightarrow> jstr option \<Rightarrow> thrown + unit" where
  "validateTableResponse body requestId =
     bindE (get_member body (lit ''table'')) (\<lambda>table. validateTable table requestId)"

definition page_token_malformed :: "jsval \<Rightarrow> bool" where
  "page_token_malformed v =
     (case v of JStr s \<Rightarrow> utf8_length s > MAX_INGEST_PAGE_TOKEN_BYTES | _ \<Rightarrow> True)"

definition validateListTablesResponse :: "jsval \<Rightarrow> jstr option \<Rightarrow> thrown + unit" where
  "validateListTablesResponse body requestId =
     bindE (get_member body (lit ''tables'')) (\<lambda>listed.
       (case coalesce listed (JArr []) of
          JArr tables \<Rightarrow>
            thenE (mapE (\<lambda>table. validateTable table requestId) tables)
            (bindE (get_member body (lit ''next_page_token'')) (\<lambda>token.
              failIf (token \<noteq> JUndef \<and> page_token_malformed token) (invalidIngestResponse requestId)))
        | _ \<Rightarrow> Inl (invalidIngestResponse requestId)))"

text \<open>The comparisons with \<open>submittedRows\<close>, which is undefined when the request has no rows.\<close>

definition validate_row_error :: "jsnum option \<Rightarrow> jstr option \<Rightarrow> jsval \<Rightarrow> thrown + unit" where
  "validate_row_error submittedRows requestId row_error =
     bindE (get_member row_error (lit ''index'')) (\<lambda>v.
     bindE (nonNegativeCount v requestId) (\<lambda>index.
       failIf (case submittedRows of None \<Rightarrow> False | Some n \<Rightarrow> num_le n (num (int index)))
         (invalidIngestResponse requestId)))"

definition validateAppendRowsResponse ::
    "jsval \<Rightarrow> jsnum option \<Rightarrow> jstr option \<Rightarrow> thrown + unit" where
  "validateAppendRowsResponse body submittedRows requestId =
     bindE (get_member body (lit ''accepted_rows'')) (\<lambda>v.
     bindE (nonNegativeCount v requestId) (\<lambda>accepted.
     bindE (get_member body (lit ''row_errors'')) (\<lambda>listed.
       (case coalesce listed (JArr []) of
          JArr errors \<Rightarrow>
            thenE (mapE (validate_row_error submittedRows requestId) errors)
              (failIf (case submittedRows of None \<Rightarrow> False | Some n \<Rightarrow> num_less n (num (int accepted)))
                 (invalidIngestResponse requestId))
        | _ \<Rightarrow> Inl (invalidIngestResponse requestId)))))"

definition query_name_malformed :: "jsval \<Rightarrow> thrown + bool" where
  "query_name_malformed name =
     bindE (js_greater (js_length name) 0) (\<lambda>present.
       if present then bindE (js_string name) (\<lambda>s. Inr (\<not> QUERY_NAME_PATTERN s)) else Inr False)"

text \<open>\<open>body.k ?? ""\<close>.\<close>

definition text_field :: "jsval \<Rightarrow> string \<Rightarrow> thrown + jsval" where
  "text_field body k = bindE (get_member body (lit k)) (\<lambda>v. Inr (coalesce v (JStr [])))"

definition has_no_length :: "jsval \<Rightarrow> bool" where
  "has_no_length v \<longleftrightarrow> js_length v = JNum (num 0)"

text \<open>The state and the name of the query.\<close>

definition validate_query_state :: "jsval \<Rightarrow> thrown \<Rightarrow> thrown + jsval \<times> jsval" where
  "validate_query_state body bad =
     thenE (failIf (\<not> is_object body \<and> body \<noteq> JNull) bad)
     (bindE (text_field body ''state'') (\<lambda>state.
      thenE (failIf (\<not> js_set_has (map JStr QUERY_STATES) state) bad)
      (bindE (text_field body ''name'') (\<lambda>name.
       bindE (query_name_malformed name) (\<lambda>malformed.
       thenE (failIf malformed bad)
       (thenE (failIf (state = JStr (lit ''RUNNING'') \<and> has_no_length name) bad)
         (Inr (state, name))))))))"

definition validate_query_rows :: "jsval \<Rightarrow> jsval \<Rightarrow> thrown \<Rightarrow> thrown + unit" where
  "validate_query_rows body state bad =
     bindE (get_member body (lit ''rows'')) (\<lambda>listed.
       (case coalesce listed (JArr []) of
          JArr rows \<Rightarrow>
            thenE (failIf (list_ex (\<lambda>row. \<not> is_object row) rows) bad)
              (failIf (state \<noteq> JStr (lit ''SUCCEEDED'') \<and> rows \<noteq> []) bad)
        | _ \<Rightarrow> Inl bad))"

definition validate_query_token :: "jsval \<Rightarrow> jsval \<Rightarrow> jsval \<Rightarrow> thrown \<Rightarrow> thrown + unit" where
  "validate_query_token body state name bad =
     bindE (text_field body ''next_page_token'') (\<lambda>token.
     thenE (failIf (page_token_malformed token) bad)
       (failIf (token \<noteq> JStr [] \<and> (state \<noteq> JStr (lit ''SUCCEEDED'') \<or> has_no_length name)) bad))"

definition validateQueryResponse :: "jsval \<Rightarrow> jstr option \<Rightarrow> thrown + unit" where
  "validateQueryResponse body requestId =
     (let bad = invalidIngestResponse requestId in
      bindE (validate_query_state body bad) (\<lambda>(state, name).
      thenE (validate_query_rows body state bad)
      (thenE (validate_query_token body state name bad)
      (bindE (get_member body (lit ''schema'')) (\<lambda>schema.
       thenE (validateSchemaColumns (chain_member schema (lit ''columns'')) requestId)
       (bindE (get_member body (lit ''total_rows'')) (\<lambda>total.
        bindE (nonNegativeCount total requestId) (\<lambda>_. Inr ()))))))))"

section \<open>The client\<close>

record 'msg ingest_client =
  gi_platform :: platform
  gi_requests :: request_client
  gi_runtime :: "'msg protocol_runtime"

text \<open>What a call returns: with the Retry-After of the answer, for the pace of polls.\<close>

record ingest_response = rpc_response +
  rp_retryAfterMs :: "jsnum option"

record ingest_write_options = request_options +
  wo_idempotencyKey :: jsval

definition invariantIngestRuntime :: "descriptor \<Rightarrow> 'msg codec \<Rightarrow> thrown + 'msg protocol_runtime" where
  "invariantIngestRuntime ds cd = newProtocolRuntime ds cd INGEST_SERVICE_NAME None (Some True)"

definition newProtocolIngestClient ::
    "platform \<Rightarrow> descriptor \<Rightarrow> 'msg codec \<Rightarrow> request_client \<Rightarrow> thrown + 'msg ingest_client" where
  "newProtocolIngestClient p ds cd requests =
     bindE (invariantIngestRuntime ds cd) (\<lambda>rt.
       Inr \<lparr>gi_platform = p, gi_requests = requests, gi_runtime = rt\<rparr>)"

text \<open>A call up to the fetch, and after it.\<close>

definition ingest_encode ::
    "'msg ingest_client \<Rightarrow> jstr \<Rightarrow> (jstr \<times> jsval) list \<Rightarrow> thrown + desc_method \<times> jsval" where
  "ingest_encode gi methodName body =
     bindE (runtime_method (gi_runtime gi) methodName) (\<lambda>m.
     bindE (encodeInput (gi_runtime gi) m (normalizeInput (gi_runtime gi) m (JObj body))) (\<lambda>encodedBody.
       Inr (m, encodedBody)))"

definition ingest_decode ::
    "'msg ingest_client \<Rightarrow> desc_method \<Rightarrow> response_envelope \<Rightarrow> thrown + ingest_response" where
  "ingest_decode gi m response =
     bindE (decodeOutput (gi_runtime gi) m (re_body response) (re_requestId response)) (\<lambda>decoded.
       Inr \<lparr>rp_body = decoded, rp_requestId = re_requestId response,
            rp_retryAfterMs = re_retryAfterMs response\<rparr>)"

type_synonym ingest_result = "(thrown + ingest_response) \<times> effect list"

definition ingest_rpc ::
    "'msg ingest_client \<Rightarrow> jstr \<Rightarrow> (jstr \<times> jsval) list \<Rightarrow> 'a request_options_scheme \<Rightarrow>
     jstr option \<Rightarrow> request_script \<Rightarrow> ingest_result" where
  "ingest_rpc gi methodName body options idempotencyKey script =
     (case ingest_encode gi methodName body of
        Inl e \<Rightarrow> (Inl e, [])
      | Inr (m, encodedBody) \<Rightarrow>
          (case requestJson (gi_platform gi) (gi_requests gi)
                  \<lparr>jr_path = runtime_path (gi_runtime gi) m, jr_body = encodedBody, jr_headers = [],
                   jr_signal = ro_signal options, jr_timeoutMs = ro_timeoutMs options,
                   jr_connectProtocol = True, jr_retrySafe = True, jr_idempotencyKey = idempotencyKey\<rparr>
                  (qs_now script) (qs_injections script) (qs_env script) of
             (Inl e, fx) \<Rightarrow> (Inl e, fx)
           | (Inr response, fx) \<Rightarrow> (ingest_decode gi m response, fx)))"

text \<open>\<open>{ ...body, request_id: key }\<close> unless the caller gave a request id.\<close>

definition stamp_request_id :: "(jstr \<times> jsval) list \<Rightarrow> jstr \<Rightarrow> (jstr \<times> jsval) list" where
  "stamp_request_id body key =
     (let id = own_prop body (lit ''request_id'')
      in if id \<noteq> JUndef \<and> id \<noteq> JStr [] then body else set_prop body (lit ''request_id'') (JStr key))"

definition ingest_write_prepare ::
    "jstr \<Rightarrow> (jstr \<times> jsval) list \<Rightarrow> ingest_write_options \<Rightarrow> thrown + jstr \<times> (jstr \<times> jsval) list" where
  "ingest_write_prepare uuid body options =
     bindE (ingestIdempotencyKey uuid (wo_idempotencyKey options)) (\<lambda>key.
     thenE (ingest_optionalBoundedText (own_prop body (lit ''request_id'')) MAX_REQUEST_ID_BYTES
              MEDALLION_INVALID_IDEMPOTENCY_KEY)
       (Inr (key, stamp_request_id body key)))"

definition ingest_write ::
    "'msg ingest_client \<Rightarrow> jstr \<Rightarrow> (jstr \<times> jsval) list \<Rightarrow> ingest_write_options \<Rightarrow> jstr \<Rightarrow>
     request_script \<Rightarrow> ingest_result" where
  "ingest_write gi methodName body options uuid script =
     (case ingest_write_prepare uuid body options of
        Inl e \<Rightarrow> (Inl e, [])
      | Inr (key, stamped) \<Rightarrow> ingest_rpc gi methodName stamped options (Some key) script)"

section \<open>The calls\<close>

text \<open>A check before a call, and \<open>.then(response => { validate(response); return response; })\<close>.\<close>

definition guarded :: "thrown + 'a \<Rightarrow> ingest_result \<Rightarrow> ingest_result" where
  "guarded check call = (case check of Inl e \<Rightarrow> (Inl e, []) | Inr _ \<Rightarrow> call)"

definition and_then :: "ingest_result \<Rightarrow> (jsval \<Rightarrow> jstr option \<Rightarrow> thrown + unit) \<Rightarrow> ingest_result" where
  "and_then call check =
     (case call of
        (Inl e, fx) \<Rightarrow> (Inl e, fx)
      | (Inr response, fx) \<Rightarrow>
          (thenE (check (rp_body response) (rp_requestId response)) (Inr response), fx))"

definition ingest_createTable ::
    "'msg ingest_client \<Rightarrow> (jstr \<times> jsval) list \<Rightarrow> ingest_write_options \<Rightarrow> jstr \<Rightarrow> request_script \<Rightarrow>
     ingest_result" where
  "ingest_createTable gi req options uuid script =
     guarded (thenE (requiredTableId (own_prop req (lit ''table_id'')))
                (preflightTable (own_prop req (lit ''table''))))
       (and_then (ingest_write gi (lit ''CreateTable'') req options uuid script) validateTableResponse)"

definition ingest_updateTable ::
    "'msg ingest_client \<Rightarrow> (jstr \<times> jsval) list \<Rightarrow> ingest_write_options \<Rightarrow> jstr \<Rightarrow> request_script \<Rightarrow>
     ingest_result" where
  "ingest_updateTable gi req options uuid script =
     guarded (thenE (requiredTableName (chain_member (own_prop req (lit ''table'')) (lit ''name'')))
                (preflightTable (own_prop req (lit ''table''))))
       (and_then (ingest_write gi (lit ''UpdateTable'') req options uuid script) validateTableResponse)"

definition ingest_getTable ::
    "'msg ingest_client \<Rightarrow> (jstr \<times> jsval) list \<Rightarrow> request_options \<Rightarrow> request_script \<Rightarrow> ingest_result" where
  "ingest_getTable gi req options script =
     guarded (requiredTableName (own_prop req (lit ''name'')))
       (and_then (ingest_rpc gi (lit ''GetTable'') req options None script) validateTableResponse)"

definition ingest_listTables ::
    "'msg ingest_client \<Rightarrow> (jstr \<times> jsval) list \<Rightarrow> request_options \<Rightarrow> request_script \<Rightarrow> ingest_result" where
  "ingest_listTables gi req options script =
     guarded (thenE (ingestPageSize (own_prop req (lit ''page_size'')))
                (ingest_optionalBoundedText (own_prop req (lit ''page_token''))
                   MAX_INGEST_PAGE_TOKEN_BYTES MEDALLION_INVALID_PAGE_TOKEN))
       (and_then (ingest_rpc gi (lit ''ListTables'') req options None script) validateListTablesResponse)"

text \<open>The number of rows is taken before the call.\<close>

definition submitted_rows :: "(jstr \<times> jsval) list \<Rightarrow> thrown + jsnum option" where
  "submitted_rows req =
     (case rows_length req of JUndef \<Rightarrow> Inr None | v \<Rightarrow> bindE (to_number v) (\<lambda>n. Inr (Some n)))"

definition ingest_appendRows ::
    "'msg ingest_client \<Rightarrow> (jstr \<times> jsval) list \<Rightarrow> ingest_write_options \<Rightarrow> jstr \<Rightarrow> request_script \<Rightarrow>
     ingest_result" where
  "ingest_appendRows gi req options uuid script =
     guarded (preflightAppendRows req)
       (and_then (ingest_write gi (lit ''AppendRows'') req options uuid script)
          (\<lambda>body requestId. bindE (submitted_rows req) (\<lambda>submittedRows.
             validateAppendRowsResponse body submittedRows requestId)))"

definition ingest_runQuery ::
    "'msg ingest_client \<Rightarrow> (jstr \<times> jsval) list \<Rightarrow> request_options \<Rightarrow> request_script \<Rightarrow> ingest_result" where
  "ingest_runQuery gi req options script =
     guarded (preflightRunQuery req)
       (and_then (ingest_rpc gi (lit ''RunQuery'') req options None script) validateQueryResponse)"

definition ingest_getQueryResults ::
    "'msg ingest_client \<Rightarrow> (jstr \<times> jsval) list \<Rightarrow> request_options \<Rightarrow> request_script \<Rightarrow> ingest_result" where
  "ingest_getQueryResults gi req options script =
     guarded (preflightGetQueryResults req)
       (and_then (ingest_rpc gi (lit ''GetQueryResults'') req options None script) validateQueryResponse)"

text \<open>The wait before a poll: the random number, the reason of an abort that already happened,
  and the events of the signal during the wait.\<close>

record wait_env =
  we_random :: rat
  we_aborted :: "thrown option"
  we_events :: "signal_event list"

definition waitBeforeQueryPoll ::
    "'msg ingest_client \<Rightarrow> nat \<Rightarrow> ingest_response \<Rightarrow> wait_env \<Rightarrow> (thrown + unit) \<times> effect list" where
  "waitBeforeQueryPoll gi poll previous env =
     waitBeforePoll (gi_requests gi) (we_random env) poll (rp_retryAfterMs previous)
       (createSignal (we_aborted env)) (we_events env)"

end
