(* ===== verification/Count_Facts.thy ===== *)
theory Count_Facts
  imports Ingest_Client
begin

text \<open>
  The numbers of an answer. A 64-bit count travels as decimal text and is read through a double:
  rounding is exact below \<open>2 ^ 53\<close> and stays at or above it otherwise, so a count is read exactly
  or refused.
\<close>

section \<open>Integers as doubles\<close>

lemma bit_size_one: "bit_size (Suc 0) = 1"
  by (simp add: bit_size.simps [of "Suc 0"] bit_size.simps [of 0])

lemma bit_size_bounds: "0 < n \<Longrightarrow> 2 ^ (bit_size n - 1) \<le> n \<and> n < 2 ^ bit_size n \<and> 0 < bit_size n"
proof (induction n rule: bit_size.induct)
  case (1 n)
  show ?case
  proof (cases "n div 2 = 0")
    case True
    with 1 have "n = 1" by auto
    then show ?thesis by (simp add: bit_size_one)
  next
    case False
    with 1 have IH: "2 ^ (bit_size (n div 2) - 1) \<le> n div 2" "n div 2 < 2 ^ bit_size (n div 2)"
      "0 < bit_size (n div 2)" by simp_all
    have size: "bit_size n = Suc (bit_size (n div 2))" using 1 by (simp add: bit_size.simps [of n])
    obtain b where b: "bit_size (n div 2) = Suc b" using IH(3) by (cases "bit_size (n div 2)") simp_all
    from IH(1) have "2 ^ b * 2 \<le> n div 2 * 2" by (simp add: b)
    then have "2 ^ Suc b \<le> n" using div_times_less_eq_dividend [of n 2] by simp
    moreover have "n < 2 ^ Suc (Suc b)"
    proof -
      have "n < (n div 2 + 1) * 2" by (simp add: dividend_less_div_times)
      also have "\<dots> \<le> 2 ^ Suc b * 2" using IH(2) by (intro mult_right_mono) (simp_all add: b)
      finally show ?thesis by simp
    qed
    ultimately show ?thesis by (simp add: size b)
  qed
qed

lemma floor_log2_nat: "0 < n \<Longrightarrow> floor_log2 (of_nat n) = int (bit_size n) - 1"
proof -
  assume n: "0 < n"
  have q: "quotient_of (of_nat n) = (int n, 1)"
    using quotient_of_int [of "int n"] by simp
  have "pow2 (int (bit_size n) - 1) \<le> of_nat n"
  proof -
    have e: "nat (int (bit_size n) - 1) = bit_size n - 1" by simp
    have "2 ^ (bit_size n - 1) \<le> n" using bit_size_bounds [OF n] by simp
    then have "of_nat (2 ^ (bit_size n - 1)) \<le> (of_nat n :: rat)" by (simp only: of_nat_le_iff)
    then show ?thesis using bit_size_bounds [OF n] by (simp add: pow2_def e)
  qed
  then show ?thesis by (simp add: floor_log2_def q bit_size_one)
qed

lemma round_half_even_int [simp]: "round_half_even (of_int i) = i"
  by (simp add: round_half_even_def)

lemma round_half_even_ge: "of_int k \<le> x \<Longrightarrow> k \<le> round_half_even x"
proof -
  assume "of_int k \<le> x"
  then have "k \<le> \<lfloor>x\<rfloor>" by (simp add: le_floor_iff)
  moreover have "\<lfloor>x\<rfloor> \<le> round_half_even x" by (simp add: round_half_even_def Let_def)
  ultimately show ?thesis by simp
qed

lemma round64_positive_eq:
  assumes "0 < r" "max (floor_log2 r - 52) (- 1074) = e"
    and "of_int (round_half_even (r / pow2 e)) * pow2 e = v"
  shows "round64 r = (if 2 ^ 1024 \<le> v then PosInf else Fin v)"
proof -
  from assms(1) have "\<bar>r\<bar> = r" "r \<noteq> 0" "\<not> r < 0" "sgn r = 1" by simp_all
  with assms(2,3) show ?thesis by (simp only: round64_def Let_def if_False mult_1)
qed

lemma round64_small: "n < 2 ^ 53 \<Longrightarrow> round64 (of_nat n) = Fin (of_nat n)"
proof (cases "n = 0")
  case True
  then show ?thesis by (simp add: round64_def)
next
  case False
  assume n: "n < 2 ^ 53"
  from False have pos: "0 < n" by simp
  note bounds = bit_size_bounds [OF pos]
  have "(2::nat) ^ (bit_size n - 1) < 2 ^ 53" using bounds n by linarith
  then have "bit_size n - 1 < 53" by (rule power_less_imp_less_exp [rotated]) simp
  moreover define k where "k = 53 - bit_size n"
  ultimately have k: "bit_size n + k = 53" by simp
  let ?e = "- int k"
  have e: "max (floor_log2 (of_nat n) - 52) (- 1074) = ?e"
    using k by (simp add: floor_log2_nat [OF pos])
  have p: "pow2 ?e = 1 / 2 ^ k" by (cases "k = 0") (simp_all add: pow2_def)
  have "of_nat n / pow2 ?e = (of_int (int n * 2 ^ k) :: rat)" by (simp add: p)
  then have v: "of_int (round_half_even (of_nat n / pow2 ?e)) * pow2 ?e = (of_nat n :: rat)"
    by (simp only: round_half_even_int) (simp add: p)
  have "(of_nat n :: rat) < 2 ^ 53" using n by (metis of_nat_less_iff of_nat_numeral of_nat_power)
  also have "\<dots> \<le> 2 ^ 1024" by (rule power_increasing) simp_all
  finally have "\<not> 2 ^ 1024 \<le> (of_nat n :: rat)" by (simp only: not_le)
  moreover have "0 < (of_nat n :: rat)" using pos by simp
  ultimately show ?thesis using round64_positive_eq [OF _ e v] by (simp only: if_False)
qed

lemma round64_large: "2 ^ 53 \<le> n \<Longrightarrow> round64 (of_nat n) = PosInf \<or> (\<exists>v. round64 (of_nat n) = Fin v \<and> 2 ^ 53 \<le> v)"
proof -
  assume n: "2 ^ 53 \<le> n"
  have "(0::nat) < 2 ^ 53" by simp
  with n have pos: "0 < n" by (rule less_le_trans [rotated])
  note bounds = bit_size_bounds [OF pos]
  have "(2::nat) ^ 53 < 2 ^ bit_size n" using bounds n by linarith
  then have "53 < bit_size n" by (rule power_less_imp_less_exp [rotated]) simp
  moreover define k where "k = bit_size n - 54"
  ultimately have k: "bit_size n = 54 + k" by simp
  let ?e = "1 + int k"
  have e: "max (floor_log2 (of_nat n) - 52) (- 1074) = ?e"
    using k by (simp add: floor_log2_nat [OF pos])
  have p: "pow2 ?e = 2 ^ Suc k" by (simp add: pow2_def nat_add_distrib)
  have "(2::nat) ^ 52 * 2 ^ Suc k \<le> n" using bounds by (simp add: k power_add)
  then have "(of_nat (2 ^ 52 * 2 ^ Suc k) :: rat) \<le> of_nat n" by (simp only: of_nat_le_iff)
  then have "of_int (2 ^ 52) \<le> (of_nat n :: rat) / pow2 ?e" by (simp add: p field_simps)
  then have r: "2 ^ 52 \<le> round_half_even (of_nat n / pow2 ?e)" by (rule round_half_even_ge)
  let ?v = "of_int (round_half_even (of_nat n / pow2 ?e)) * pow2 ?e :: rat"
  have "(2::rat) ^ 53 = of_int (2 ^ 52) * 2" by simp
  also have "\<dots> \<le> ?v"
  proof (rule mult_mono)
    show "of_int (2 ^ 52) \<le> (of_int (round_half_even (of_nat n / pow2 ?e)) :: rat)"
      using r by (simp only: of_int_le_iff)
    show "(2::rat) \<le> pow2 ?e" by (simp add: p)
    have "0 \<le> (2 ^ 52 :: int)" by simp
    with r have "0 \<le> round_half_even (of_nat n / pow2 ?e)" by (rule order_trans [rotated])
    then show "(0::rat) \<le> of_int (round_half_even (of_nat n / pow2 ?e))" by simp
  qed simp
  finally have "2 ^ 53 \<le> ?v" .
  moreover have "0 < (of_nat n :: rat)" using pos by simp
  ultimately show ?thesis using round64_positive_eq [OF _ e refl] by (metis (no_types))
qed

section \<open>Decimal text as a number\<close>

lemma digit_not_space: "is_digit u \<Longrightarrow> \<not> is_js_space u"
  by (auto simp: is_digit_def unit_in_def is_js_space_def word_le_nat_alt word_unat_eq_iff)

lemma trim_digits: "list_all is_digit s \<Longrightarrow> trim s = s"
proof -
  assume s: "list_all is_digit s"
  have strip: "dropWhile is_js_space t = t" if "set t \<subseteq> set s" for t
    using that s by (cases t) (auto simp: list_all_iff digit_not_space)
  show ?thesis by (simp add: trim_def strip)
qed

lemma js_number_digits:
  assumes "all_digits s"
  shows "js_number s = round64 (of_nat (parse_dec s))"
proof -
  have s: "s \<noteq> []" "list_all is_digit s" using assms by (simp_all add: all_digits_def)
  then obtain u us where us: "s = u # us" "is_digit u" "list_all is_digit us" by (cases s) auto
  have letters: "\<not> is_digit (of_char CHR ''x'')" "\<not> is_digit (of_char CHR ''X'')" "\<not> is_digit (of_char CHR ''o'')"
    "\<not> is_digit (of_char CHR ''O'')" "\<not> is_digit (of_char CHR ''b'')" "\<not> is_digit (of_char CHR ''B'')"
    "\<not> is_digit (of_char CHR ''+'')" "\<not> is_digit (of_char CHR ''-'')" "\<not> is_digit (of_char CHR ''I'')"
    by (simp_all add: is_digit_def unit_in_def word_le_nat_alt)
  have prefix: "\<not> startsWith s (lit [CHR ''0'', c])" if "\<not> is_digit (of_char c)" for c
    using that us by (cases us) (auto simp: startsWith_def lit_def)
  have span: "takeWhile is_digit s = s" "dropWhile is_digit s = []"
    using s(2) by (simp_all add: takeWhile_eq_all_conv list_all_iff)
  have sign: "hd s \<noteq> of_char CHR ''+''" "hd s \<noteq> of_char CHR ''-''" "s \<noteq> lit ''Infinity''"
    using us letters by (auto simp: lit_def)
  have "decimal_number s = Some (of_nat (parse_dec s))"
    using s(1) by (simp add: decimal_number_def span_digits_def span json_exponent_def pow10_def)
  then show ?thesis
    using s(1) prefix letters sign
    by (simp add: js_number_def trim_digits [OF s(2)] Let_def signed_number_def number_of_def)
qed

lemma count_exact:
  "nonNegativeCount (JStr (dec_nat n)) requestId =
     (if n \<le> 9007199254740991 then Inr n else Inl (medErrR MEDALLION_INVALID_INGEST_RESPONSE requestId))"
proof -
  have parsed: "js_number (dec_nat n) = round64 (of_nat n)" using js_number_digits [of "dec_nat n"] by simp
  show ?thesis
  proof (cases "n \<le> 9007199254740991")
    case True
    then have "js_number (dec_nat n) = num (int n)" by (simp add: parsed round64_small num_def)
    moreover have "isSafeInteger (num (int n))"
      using True unfolding isSafeInteger_iff by (intro exI [of _ "int n"]) (simp add: MAX_SAFE_def)
    ultimately show ?thesis using True by (simp add: nonNegativeCount_def)
  next
    case False
    then have "2 ^ 53 \<le> n" by simp
    from round64_large [OF this] have "\<not> isSafeInteger (js_number (dec_nat n))"
      by (auto simp: parsed isSafeInteger_def MAX_SAFE_def)
    with False show ?thesis by (simp add: nonNegativeCount_def Let_def invalidIngestResponse_def)
  qed
qed

text \<open>
  C35. A count that the server reports as decimal text, as protobuf does with 64-bit integers, is
  read exactly when it is at most \<open>2 ^ 53 - 1\<close>; any larger one is refused, so a count is never
  rounded silently, although it is read through a double.
\<close>

theorem nonNegativeCount_exact:
  "nonNegativeCount (JStr (dec_nat n)) requestId =
     (if n \<le> 9007199254740991 then Inr n else Inl (medErrR MEDALLION_INVALID_INGEST_RESPONSE requestId))"
  by (rule count_exact)

end
