(* ===== verification/Number_Text.thy ===== *)
theory Number_Text
  imports Count_Facts
begin

text \<open>
  Number::toString and its inverse. The canonical JSON of src/src/payload.ts prints numbers as
  JavaScript does, with the fewest digits that read back as the same double: here it is proved
  that they do read back, so that \<open>JSON.parse\<close> returns every double that was printed. The search
  for the digits stops at seventeen, which always suffice.
\<close>

section \<open>Powers\<close>

lemma pow2_powi: "pow2 e = 2 powi e"
  by (simp add: pow2_def power_int_def inverse_eq_divide power_one_over)

lemma pow10_powi: "pow10 e = 10 powi e"
  by (simp add: pow10_def power_int_def inverse_eq_divide power_one_over)

lemma pow_pos [simp]: "0 < pow2 e" "0 < pow10 e"
  by (simp_all add: pow2_def pow10_def)

lemma pow_nonzero [simp]: "pow2 e \<noteq> 0" "pow10 e \<noteq> 0" "\<not> pow2 e < 0" "\<not> pow10 e < 0"
  using pow_pos by (auto simp: less_le_not_le simp del: pow_pos) (metis less_irrefl pow_pos)+

lemma pow_abs [simp]: "\<bar>pow2 e\<bar> = pow2 e" "\<bar>pow10 e\<bar> = pow10 e"
  by (simp_all add: abs_if)

lemma pow_add: "pow2 (a + b) = pow2 a * pow2 b" "pow10 (a + b) = pow10 a * pow10 b"
  by (simp_all add: pow2_powi pow10_powi power_int_add)

lemma pow_mono: "a \<le> b \<Longrightarrow> pow2 a \<le> pow2 b" "a \<le> b \<Longrightarrow> pow10 a \<le> pow10 b"
  by (simp_all add: pow2_powi pow10_powi power_int_increasing)

lemma pow_strict: "a < b \<Longrightarrow> pow2 a < pow2 b" "a < b \<Longrightarrow> pow10 a < pow10 b"
  by (simp_all add: pow2_powi pow10_powi power_int_strict_increasing)

lemma pow_nat: "pow2 (int n) = 2 ^ n" "pow10 (int n) = 10 ^ n"
  by (simp_all add: pow2_def pow10_def)

lemma pow10_nat_nonneg: "0 \<le> e \<Longrightarrow> pow10 e = 10 ^ nat e"
  by (simp add: pow10_def)

text \<open>The size of a quotient from the sizes of its parts.\<close>

lemma quotient_size:
  fixes P :: "int \<Rightarrow> rat"
  assumes "\<And>a b. P (a + b) = P a * P b" "\<And>e. 0 < P e"
    and "P (i - 1) \<le> p" "p < P i" "P (j - 1) \<le> q" "q < P j"
  shows "P (i - j - 1) < p / q" "p / q < P (i - j + 1)"
proof -
  have q: "0 < q" using assms(2,5) by (rule less_le_trans)
  have "P (i - j - 1) * q < P (i - j - 1) * P j" using assms(2,6) by simp
  also have "\<dots> = P (i - 1)" using assms(1) [of "i - j - 1" j] by simp
  also have "\<dots> \<le> p" by (rule assms(3))
  finally show "P (i - j - 1) < p / q" using q by (simp add: pos_less_divide_eq)
  have "p < P i" by (rule assms(4))
  also have "\<dots> = P (i - j + 1) * P (j - 1)" using assms(1) [of "i - j + 1" "j - 1"] by simp
  also have "\<dots> \<le> P (i - j + 1) * q" using assms(2,5) by simp
  finally show "p / q < P (i - j + 1)" using q by (simp add: pos_divide_less_eq)
qed

lemma positive_quotient:
  assumes "0 < (r :: rat)"
  obtains p q where "quotient_of r = (int p, int q)" "0 < p" "0 < q" "r = of_nat p / of_nat q"
proof -
  obtain a b where ab: "quotient_of r = (a, b)" by (cases "quotient_of r")
  have b: "0 < b" and r: "r = of_int a / of_int b"
    using quotient_of_denom_pos [OF ab] quotient_of_div [OF ab] by simp_all
  with assms have a: "0 < a" by (simp add: zero_less_divide_iff)
  have "quotient_of r = (int (nat a), int (nat b))" "r = of_nat (nat a) / of_nat (nat b)"
    using a b ab r by simp_all
  moreover have "0 < nat a" "0 < nat b" using a b by simp_all
  ultimately show ?thesis using that by blast
qed

lemma bit_size_pow2: "0 < n \<Longrightarrow> pow2 (int (bit_size n) - 1) \<le> of_nat n \<and> of_nat n < pow2 (int (bit_size n))"
proof -
  assume n: "0 < n"
  note b = bit_size_bounds [OF n]
  then have e: "int (bit_size n) - 1 = int (bit_size n - 1)" by simp
  have "of_nat (2 ^ (bit_size n - 1)) \<le> (of_nat n :: rat)" "(of_nat n :: rat) < of_nat (2 ^ bit_size n)"
    using b by (simp_all only: of_nat_le_iff of_nat_less_iff)
  then show ?thesis unfolding e pow_nat by simp
qed

lemma dec_nat_size: "0 < n \<Longrightarrow> 10 ^ (length (dec_nat n) - 1) \<le> n \<and> n < 10 ^ length (dec_nat n)"
proof (induction n rule: dec_nat.induct)
  case (1 n)
  show ?case
  proof (cases "n < 10")
    case True
    with 1 show ?thesis by (simp add: dec_nat.simps [of n])
  next
    case False
    let ?l = "length (dec_nat (n div 10))"
    have IH: "10 ^ (?l - 1) \<le> n div 10" "n div 10 < 10 ^ ?l" using 1 False by simp_all
    have "0 < ?l" by simp
    then obtain l where l: "?l = Suc l" using gr0_conv_Suc by blast
    have "n div 10 * 10 \<le> n" by simp
    moreover have "10 ^ l * 10 \<le> n div 10 * 10" using IH(1) by (simp add: l)
    ultimately have "10 ^ Suc l \<le> n" by simp
    moreover have "n < (n div 10 + 1) * 10" by (simp add: dividend_less_div_times)
    then have "n < 10 ^ Suc l * 10" using IH(2) unfolding l by linarith
    ultimately show ?thesis using False l by (simp add: dec_nat.simps [of n])
  qed
qed

lemma dec_nat_pow10:
  "0 < n \<Longrightarrow> pow10 (int (length (dec_nat n)) - 1) \<le> of_nat n \<and> of_nat n < pow10 (int (length (dec_nat n)))"
proof -
  assume n: "0 < n"
  have e: "int (length (dec_nat n)) - 1 = int (length (dec_nat n) - 1)" by (cases "dec_nat n") simp_all
  have "of_nat (10 ^ (length (dec_nat n) - 1)) \<le> (of_nat n :: rat)" "(of_nat n :: rat) < of_nat (10 ^ length (dec_nat n))"
    using dec_nat_size [OF n] by (simp_all only: of_nat_le_iff of_nat_less_iff)
  then show ?thesis unfolding e pow_nat by simp
qed

lemma floor_log2_bounds:
  assumes "0 < r"
  shows "pow2 (floor_log2 r) \<le> r" "r < pow2 (floor_log2 r + 1)"
proof -
  obtain p q where pq: "quotient_of r = (int p, int q)" "0 < p" "0 < q" "r = of_nat p / of_nat q"
    using positive_quotient [OF assms] by blast
  define e where "e = int (bit_size p) - int (bit_size q)"
  have "pow2 (e - 1) < r" "r < pow2 (e + 1)"
    unfolding e_def pq(4)
    using quotient_size [of pow2, OF pow_add(1) pow_pos(1)] bit_size_pow2 [OF pq(2)] bit_size_pow2 [OF pq(3)]
    by blast+
  moreover have "floor_log2 r = (if pow2 e \<le> r then e else e - 1)"
    by (simp add: floor_log2_def pq(1) e_def)
  ultimately show "pow2 (floor_log2 r) \<le> r" "r < pow2 (floor_log2 r + 1)" by (auto simp: less_imp_le)
qed

lemma decimal_exponent_bounds:
  assumes "0 < x"
  shows "pow10 (decimal_exponent x - 1) \<le> x" "x < pow10 (decimal_exponent x)"
proof -
  obtain p q where pq: "quotient_of x = (int p, int q)" "0 < p" "0 < q" "x = of_nat p / of_nat q"
    using positive_quotient [OF assms] by blast
  define e where "e = int (length (dec_nat p)) - int (length (dec_nat q))"
  have "pow10 (e - 1) < x" "x < pow10 (e + 1)"
    unfolding e_def pq(4)
    using quotient_size [of pow10, OF pow_add(2) pow_pos(2)] dec_nat_pow10 [OF pq(2)] dec_nat_pow10 [OF pq(3)]
    by blast+
  moreover have "decimal_exponent x = (if pow10 e \<le> x then e + 1 else e)"
    by (simp add: decimal_exponent_def pq(1) e_def)
  ultimately show "pow10 (decimal_exponent x - 1) \<le> x" "x < pow10 (decimal_exponent x)" by (auto simp: less_imp_le)
qed

lemma floor_log2_unique:
  assumes "pow2 k \<le> r" "r < pow2 (k + 1)"
  shows "floor_log2 r = k"
proof -
  have r: "0 < r" using pow_pos(1) assms(1) by (rule less_le_trans)
  have "pow2 k < pow2 (floor_log2 r + 1)" "pow2 (floor_log2 r) < pow2 (k + 1)"
    using assms floor_log2_bounds [OF r] by simp_all
  then have "\<not> floor_log2 r + 1 \<le> k" "\<not> k + 1 \<le> floor_log2 r"
    using pow_mono(1) by (meson not_le)+
  then show ?thesis by simp
qed

section \<open>Rounding to the nearest double\<close>

lemma round_half_even_near:
  assumes "\<bar>y - of_int m\<bar> < 1 / 2"
  shows "round_half_even y = m"
proof -
  have near: "y - of_int m < 1 / 2" "of_int m - y < 1 / 2"
    using assms [unfolded abs_less_iff] by simp_all
  show ?thesis
  proof (cases "of_int m \<le> y")
    case True
    then have f: "\<lfloor>y\<rfloor> = m" using near by (intro floor_unique) linarith+
    show ?thesis using near by (simp add: round_half_even_def f)
  next
    case False
    then have f: "\<lfloor>y\<rfloor> = m - 1" using near by (intro floor_unique) (simp, linarith?)+
    have "\<not> y - of_int (m - 1) < 1 / 2" "1 / 2 < y - of_int (m - 1)" using near by simp_all
    then show ?thesis unfolding round_half_even_def f Let_def by simp
  qed
qed

lemma round_half_even_error: "\<bar>of_int (round_half_even y) - y\<bar> \<le> 1 / 2"
proof -
  define d where "d = y - of_int \<lfloor>y\<rfloor>"
  have d: "0 \<le> d" "d < 1" and y: "y = of_int \<lfloor>y\<rfloor> + d"
    using floor_correct [of y] unfolding d_def by (simp_all only: of_int_add of_int_1) linarith+
  have "round_half_even y = (if d < 1 / 2 then \<lfloor>y\<rfloor> else if 1 / 2 < d then \<lfloor>y\<rfloor> + 1
      else if even \<lfloor>y\<rfloor> then \<lfloor>y\<rfloor> else \<lfloor>y\<rfloor> + 1)"
    by (simp add: round_half_even_def Let_def d_def)
  moreover have f: "of_int \<lfloor>y\<rfloor> - y = - d" "of_int (\<lfloor>y\<rfloor> + 1) - y = 1 - d" by (simp_all add: d_def)
  have "\<bar>of_int \<lfloor>y\<rfloor> - y\<bar> = d" "\<bar>of_int (\<lfloor>y\<rfloor> + 1) - y\<bar> = 1 - d"
    unfolding f using d by simp_all
  ultimately show ?thesis by (simp split: if_splits)
qed

lemma round_half_even_le: "x \<le> of_int k \<Longrightarrow> round_half_even x \<le> k"
proof -
  assume x: "x \<le> of_int k"
  have "of_int (round_half_even x) \<le> x + 1 / 2" using round_half_even_error [of x, unfolded abs_le_iff] by linarith
  also have "\<dots> < of_int (k + 1)" using x by simp
  finally have "round_half_even x < k + 1" by (simp only: of_int_less_iff)
  then show ?thesis by simp
qed

lemma round64_at:
  assumes "0 < y" "max (floor_log2 y - 52) (- 1074) = e" "\<bar>y / pow2 e - of_int m\<bar> < 1 / 2"
    and "x = of_int m * pow2 e" "x < 2 ^ 1024"
  shows "round64 y = Fin x"
proof -
  have "of_int (round_half_even (y / pow2 e)) * pow2 e = x"
    using round_half_even_near [OF assms(3)] assms(4) by simp
  from round64_positive_eq [OF assms(1,2) this] assms(5) show ?thesis by (simp only: not_le [symmetric] if_False)
qed

text \<open>A positive double as an integer times a power of two.\<close>

lemma double_parts:
  assumes "0 < x" "round64 x = Fin x"
  obtains m e where "x = of_int m * pow2 e" "0 < m" "m < 2 ^ 53" "- 1074 \<le> e" "e = - 1074 \<or> 2 ^ 52 \<le> m" "x < 2 ^ 1024"
proof -
  define L where "L = floor_log2 x"
  define e where "e = max (L - 52) (- 1074)"
  define m where "m = round_half_even (x / pow2 e)"
  have "round64 x = (if 2 ^ 1024 \<le> of_int m * pow2 e then PosInf else Fin (of_int m * pow2 e))"
    by (rule round64_positive_eq [OF assms(1)]) (simp_all add: e_def L_def m_def)
  with assms(2) have x: "x = of_int m * pow2 e" and less: "x < 2 ^ 1024"
    by (simp_all add: not_le split: if_splits)
  have bounds: "pow2 L \<le> x" "x < pow2 (L + 1)" using floor_log2_bounds [OF assms(1)] by (simp_all add: L_def)
  have scale: "pow2 (e + 53) = of_int (2 ^ 53) * pow2 e" "pow2 (e + 52) = of_int (2 ^ 52) * pow2 e"
    using pow_nat(1) [of 53] pow_nat(1) [of 52] by (simp_all add: pow_add)
  have "0 < m" using assms(1) by (simp add: x zero_less_mult_iff)
  moreover have "m < 2 ^ 53"
  proof -
    have "x < pow2 (e + 53)" using bounds(2) by (rule less_le_trans) (rule pow_mono(1), simp add: e_def)
    then have "(of_int m :: rat) < of_int (2 ^ 53)" unfolding scale x by simp
    then show ?thesis by (simp only: of_int_less_iff)
  qed
  moreover have "e = - 1074 \<or> 2 ^ 52 \<le> m"
  proof (cases "e = - 1074")
    case False
    then have "e + 52 = L" by (simp add: e_def max_def split: if_splits)
    then have "pow2 (e + 52) \<le> x" using bounds(1) by simp
    then have "of_int (2 ^ 52) \<le> (of_int m :: rat)" unfolding scale x by simp
    then have "2 ^ 52 \<le> m" by (simp only: of_int_le_iff)
    then show ?thesis ..
  qed simp
  ultimately show ?thesis using that x less by (auto simp: e_def)
qed

text \<open>A number whose relative distance to a double is at most half of \<open>10 ^ - 16\<close> rounds to it.\<close>

lemma round64_near:
  assumes "0 < x" "round64 x = Fin x" "\<bar>y - x\<bar> * (2 * 10 ^ 16) \<le> x"
  shows "round64 y = Fin x"
proof -
  from double_parts [OF assms(1,2)] obtain m e where x: "x = of_int m * pow2 e"
    and m: "0 < m" "m < 2 ^ 53" and e: "- 1074 \<le> e" "e = - 1074 \<or> 2 ^ 52 \<le> m" and less: "x < 2 ^ 1024"
    by blast
  define t where "t = y / pow2 e"
  have y: "y = t * pow2 e" by (simp add: t_def)
  have "\<bar>y - x\<bar> = \<bar>t - of_int m\<bar> * pow2 e"
    by (simp add: x y left_diff_distrib [symmetric] abs_mult)
  then have "\<bar>t - of_int m\<bar> * (2 * 10 ^ 16) * pow2 e \<le> of_int m * pow2 e"
    using assms(3) x by (simp only: mult_ac)
  then have near: "\<bar>t - of_int m\<bar> * (2 * 10 ^ 16) \<le> of_int m"
    by (simp only: mult_le_cancel_right_pos [OF pow_pos(1)])
  have big: "(of_int m :: rat) \<le> of_int (2 ^ 53 - 1)" using m(2) by (subst of_int_le_iff) simp
  have small: "1 \<le> (of_int m :: rat)" using m(1) by simp
  have half: "\<bar>t - of_int m\<bar> < 1 / 2" using near big by simp
  have t: "0 < t" "t < 2 ^ 53" using near big small by (simp_all add: abs_le_iff abs_if split: if_splits)
  have pos: "0 < y" using t(1) by (simp add: y)
  define K where "K = floor_log2 y"
  have K: "pow2 K \<le> y" "y < pow2 (K + 1)" using floor_log2_bounds [OF pos] by (simp_all add: K_def)
  have scale: "pow2 (e + 53) = 2 ^ 53 * pow2 e" "pow2 (e + 52) = 2 ^ 52 * pow2 e" "pow2 (e + 51) = 2 ^ 51 * pow2 e"
    using pow_nat(1) [of 53] pow_nat(1) [of 52] pow_nat(1) [of 51] by (simp_all add: pow_add)
  show ?thesis
  proof (cases "e = - 1074 \<or> 2 ^ 52 \<le> t")
    case True
    have "y < pow2 (e + 53)" using t(2) unfolding scale y by simp
    with K(1) have "\<not> pow2 (e + 53) \<le> pow2 K" by simp
    then have "K < e + 53" using pow_mono(1) [of "e + 53" K] by (meson not_le)
    moreover have "e \<le> K - 52" if "e \<noteq> - 1074"
    proof -
      have "pow2 (e + 52) \<le> y" using True that unfolding scale y by simp
      with K(2) have "\<not> pow2 (K + 1) \<le> pow2 (e + 52)" by simp
      then have "\<not> K + 1 \<le> e + 52" using pow_mono(1) by blast
      then show ?thesis by simp
    qed
    ultimately have "max (floor_log2 y - 52) (- 1074) = e" using e(1) by (cases "e = - 1074") (simp_all add: K_def)
    then show ?thesis using half x less pos by (intro round64_at) (simp_all add: t_def)
  next
    case False
    then have e': "- 1074 < e" and low: "2 ^ 52 \<le> m" "t < 2 ^ 52" using e by auto
    have "m < 2 ^ 52 + 1"
    proof (rule ccontr)
      assume "\<not> m < 2 ^ 52 + 1"
      then have "of_int (2 ^ 52 + 1) \<le> (of_int m :: rat)" by (simp only: of_int_le_iff not_less)
      then show False using near low(2) by (simp add: abs_le_iff abs_if split: if_splits)
    qed
    with low(1) have m': "m = 2 ^ 52" by simp
    have "2 ^ 51 \<le> t" using near unfolding m' by (simp add: abs_le_iff abs_if split: if_splits)
    moreover have "e + 51 + 1 = e + 52" by simp
    ultimately have "pow2 (e + 51) \<le> y" "y < pow2 (e + 51 + 1)" using low(2) unfolding y by (simp_all only: scale) simp_all
    then have "floor_log2 y = e + 51" by (rule floor_log2_unique)
    then have "max (floor_log2 y - 52) (- 1074) = e - 1" using e' by simp
    moreover have half_scale: "pow2 e = 2 * pow2 (e - 1)" using pow_add(1) [of 1 "e - 1"] pow_nat(1) [of 1] by simp
    moreover have "\<bar>y / pow2 (e - 1) - of_int (2 ^ 53)\<bar> < 1 / 2"
      using near unfolding m' y half_scale by (simp add: abs_le_iff abs_less_iff abs_if split: if_splits)
    ultimately show ?thesis using x less pos
      by (intro round64_at [where e = "e - 1" and m = "2 ^ 53"]) (simp_all add: m')
  qed
qed

section \<open>The digits of a double\<close>

lemma shortest_bounds:
  assumes "0 < x" "s = round_half_even (x * pow10 (int k - decimal_exponent x))" "1 \<le> k"
  shows "10 ^ (k - 1) \<le> s" "s \<le> 10 ^ k"
proof -
  let ?n = "decimal_exponent x" and ?y = "x * pow10 (int k - decimal_exponent x)"
  note x = decimal_exponent_bounds [OF assms(1)]
  have k: "int k - 1 = int (k - 1)" using assms(3) by simp
  have "pow10 (?n - 1) * pow10 (int k - ?n) \<le> ?y" "?y < pow10 ?n * pow10 (int k - ?n)"
    using x by simp_all
  then have "pow10 (int k - 1) \<le> ?y" "?y < pow10 (int k)"
    by (simp_all add: pow_add(2) [symmetric])
  then have "of_int (10 ^ (k - 1)) \<le> ?y" "?y \<le> of_int (10 ^ k)"
    unfolding k pow_nat by simp_all
  then show "10 ^ (k - 1) \<le> s" "s \<le> 10 ^ k"
    unfolding assms(2) by (blast intro: round_half_even_ge round_half_even_le)+
qed

text \<open>Seventeen digits are within half of the last digit, which is close enough.\<close>

lemma seventeen_digits:
  assumes "0 < x" "round64 x = Fin x" "s = round_half_even (x * pow10 (17 - decimal_exponent x))"
  shows "round64 (of_int s * pow10 (decimal_exponent x - 17)) = Fin x"
proof (rule round64_near [OF assms(1,2)])
  let ?n = "decimal_exponent x"
  have inverse: "pow10 (17 - ?n) * pow10 (?n - 17) = 1"
    using pow_add(2) [of "17 - ?n" "?n - 17"] by (simp add: pow10_def)
  have "of_int s * pow10 (?n - 17) - x = (of_int s - x * pow10 (17 - ?n)) * pow10 (?n - 17)"
    by (simp only: left_diff_distrib mult.assoc inverse mult_1_right)
  then have "\<bar>of_int s * pow10 (?n - 17) - x\<bar> = \<bar>of_int s - x * pow10 (17 - ?n)\<bar> * pow10 (?n - 17)"
    by (simp add: abs_mult)
  also have "\<dots> \<le> 1 / 2 * pow10 (?n - 17)"
    using round_half_even_error unfolding assms(3) by (intro mult_right_mono) (simp_all add: less_imp_le)
  finally have "\<bar>of_int s * pow10 (?n - 17) - x\<bar> * (2 * 10 ^ 16) \<le> pow10 (?n - 17) * 10 ^ 16" by simp
  also have "\<dots> = pow10 (?n - 1)" using pow_add(2) [of "?n - 17" 16] pow_nat(2) [of 16] by simp
  also have "\<dots> \<le> x" by (rule decimal_exponent_bounds [OF assms(1)])
  finally show "\<bar>of_int s * pow10 (?n - 17) - x\<bar> * (2 * 10 ^ 16) \<le> x" .
qed

lemma shortest_reads_back:
  assumes "0 < x" "round64 x = Fin x"
  shows "fuel + k0 = 17 \<Longrightarrow> 1 \<le> k0 \<Longrightarrow> shortest_from fuel x (decimal_exponent x) k0 = (s, k) \<Longrightarrow>
    round64 (of_int s * pow10 (decimal_exponent x - int k)) = Fin x \<and> 1 \<le> k \<and> 10 ^ (k - 1) \<le> s \<and> s \<le> 10 ^ k"
proof (induction fuel arbitrary: k0)
  case 0
  then have sk: "k = 17" "s = round_half_even (x * pow10 (int k - decimal_exponent x))" by simp_all
  then show ?case
    using seventeen_digits [OF assms] shortest_bounds [OF assms(1) sk(2)] by simp
next
  case (Suc fuel)
  let ?s = "round_half_even (x * pow10 (int k0 - decimal_exponent x))"
  show ?case
  proof (cases "round64 (of_int ?s * pow10 (decimal_exponent x - int k0)) = Fin x")
    case True
    then have "(?s, k0) = (s, k)" using Suc.prems(3) by (simp only: shortest_from.simps Let_def simp_thms if_True)
    then have sk: "?s = s" "k0 = k" by (blast elim: Pair_inject)+
    then show ?thesis using True Suc.prems(2) shortest_bounds [OF assms(1) sk(1) [symmetric] Suc.prems(2)] by simp
  next
    case False
    then show ?thesis using Suc.prems by (intro Suc.IH [of "Suc k0"]) (simp_all add: Let_def)
  qed
qed

lemma dec_nat_length:
  assumes "10 ^ (k - 1) \<le> d" "d < 10 ^ k" "1 \<le> k"
  shows "length (dec_nat d) = k"
proof -
  let ?l = "length (dec_nat d)"
  have "(0::nat) < 10 ^ (k - 1)" by simp
  with assms(1) have "0 < d" by (rule less_le_trans [rotated])
  note l = dec_nat_size [OF this]
  have "10 ^ (k - 1) < (10::nat) ^ ?l" "10 ^ (?l - 1) < (10::nat) ^ k" using assms l by linarith+
  then have "k - 1 < ?l" "?l - 1 < k" by (auto dest: power_less_imp_less_exp [rotated])
  moreover have "0 < ?l" by simp
  ultimately show ?thesis using assms(3) by linarith
qed

lemma positive_text_digits:
  assumes "0 < x" "round64 x = Fin x"
  shows "\<exists>d n. 0 < d \<and> positive_text x = digits_text (dec_nat d) n \<and>
    round64 (of_nat d * pow10 (n - int (length (dec_nat d)))) = Fin x"
proof -
  define n where "n = decimal_exponent x"
  obtain s k where sk: "shortest_from 16 x n 1 = (s, k)" by fastforce
  from shortest_reads_back [OF assms _ _ sk [unfolded n_def]]
  have r: "round64 (of_int s * pow10 (n - int k)) = Fin x" "1 \<le> k" "10 ^ (k - 1) \<le> s" "s \<le> 10 ^ k"
    by (simp_all add: n_def)
  show ?thesis
  proof (cases "s = 10 ^ k")
    case True
    have one: "dec_nat 1 = lit ''1''" by (subst dec_nat.simps) (simp add: digit_unit_def lit_def)
    have "of_int s * pow10 (n - int k) = pow10 n"
      using pow_add(2) [of "int k" "n - int k"] by (simp add: True pow_nat)
    then have "round64 (of_nat 1 * pow10 (n + 1 - int (length (dec_nat 1)))) = Fin x"
      using r(1) unfolding one by simp
    moreover have "positive_text x = digits_text (dec_nat 1) (n + 1)"
      using sk True unfolding one by (simp add: positive_text_def n_def Let_def)
    ultimately show ?thesis using zero_less_one by blast
  next
    case False
    have s: "0 < s" using r(3) by (rule less_le_trans [rotated]) simp
    have "int (10 ^ (k - 1)) \<le> int (nat s)" "int (nat s) < int (10 ^ k)" using s r False by simp_all
    then have "10 ^ (k - 1) \<le> nat s" "nat s < 10 ^ k" by (simp_all only: of_nat_le_iff of_nat_less_iff)
    then have len: "length (dec_nat (nat s)) = k" using r(2) by (intro dec_nat_length)
    have "positive_text x = digits_text (dec_nat (nat s)) n"
      using sk False by (simp add: positive_text_def n_def Let_def)
    moreover have "round64 (of_nat (nat s) * pow10 (n - int (length (dec_nat (nat s))))) = Fin x"
      using r(1) s by (simp add: len)
    ultimately show ?thesis using s by (intro exI [of _ "nat s"] exI [of _ n]) simp
  qed
qed

section \<open>Reading a number literal\<close>

text \<open>What can follow a literal: nothing that continues a number.\<close>

definition number_unit :: "code_unit \<Rightarrow> bool" where
  "number_unit c \<longleftrightarrow> is_digit c \<or> c = of_char CHR ''.'' \<or> c = of_char CHR ''e'' \<or> c = of_char CHR ''E''"

definition delimited :: "jstr \<Rightarrow> bool" where
  "delimited rest = (case rest of [] \<Rightarrow> True | c # _ \<Rightarrow> \<not> number_unit c)"

lemma delimited_simps [simp]:
  "delimited []" "delimited (10 # cs)" "delimited (lit '','' @ cs)" "delimited (lit (CHR '','' # s) @ cs)"
  "delimited (lit '']'' @ cs)" "delimited (lit ''}'' @ cs)"
  by (simp_all add: delimited_def number_unit_def is_digit_def unit_in_def lit_def word_le_nat_alt)

lemma delimited_comma [simp]: "delimited (of_char CHR '','' # cs)" "delimited (44 # cs)"
  by (simp_all add: delimited_def number_unit_def is_digit_def unit_in_def word_le_nat_alt)

lemma delimited_append: "delimited w \<Longrightarrow> w \<noteq> [] \<Longrightarrow> delimited (w @ s)"
  by (cases w) (simp_all add: delimited_def)

lemma delimited_not_digit: "delimited rest \<Longrightarrow> takeWhile is_digit rest = [] \<and> dropWhile is_digit rest = rest"
  by (auto simp: delimited_def number_unit_def split: list.splits)

lemma delimited_fraction: "delimited rest \<Longrightarrow> json_fraction rest = Some ([], rest)"
  by (auto simp: delimited_def number_unit_def json_fraction_def split: list.splits)

lemma delimited_exponent: "delimited rest \<Longrightarrow> json_exponent rest = Some (0, rest)"
  by (auto simp: delimited_def number_unit_def json_exponent_def split: list.splits)

definition no_digit :: "jstr \<Rightarrow> bool" where
  "no_digit rest = (case rest of [] \<Rightarrow> True | c # _ \<Rightarrow> \<not> is_digit c)"

lemma span_digits_append: "list_all is_digit ds \<Longrightarrow> no_digit rest \<Longrightarrow> span_digits (ds @ rest) = (ds, rest)"
proof -
  assume "list_all is_digit ds" "no_digit rest"
  then have "\<forall>d \<in> set ds. is_digit d" "takeWhile is_digit rest = []" "dropWhile is_digit rest = rest"
    by (auto simp: list_all_iff no_digit_def split: list.splits)
  then show ?thesis by (simp add: span_digits_def takeWhile_append dropWhile_append)
qed

lemma delimited_no_digit: "delimited rest \<Longrightarrow> no_digit rest"
  by (auto simp: delimited_def no_digit_def number_unit_def split: list.splits)

lemma exponent_reads: "delimited rest \<Longrightarrow> json_exponent (exponent_text e @ rest) = Some (e, rest)"
proof -
  assume rest: "delimited rest"
  have "list_all is_digit (dec_nat (nat \<bar>e\<bar>))" using all_digits_dec_nat by (simp add: all_digits_def)
  note span = span_digits_append [OF this delimited_no_digit [OF rest]]
  show ?thesis
  proof (cases "0 \<le> e")
    case True
    then have "nat \<bar>e\<bar> = nat e" by simp
    with True span show ?thesis by (simp add: json_exponent_def exponent_text_def lit_def)
  next
    case False
    then have "nat \<bar>e\<bar> = nat (- e)" by simp
    with False span show ?thesis by (simp add: json_exponent_def exponent_text_def lit_def)
  qed
qed

text \<open>A literal is its integer part, then perhaps a fraction, then perhaps an exponent.\<close>

definition fraction_text :: "jstr \<Rightarrow> jstr" where
  "fraction_text fp = (if fp = [] then [] else lit ''.'' @ fp)"

lemma json_number_reads:
  assumes "ip \<noteq> []" "list_all is_digit ip" "1 < length ip \<Longrightarrow> hd ip \<noteq> of_char CHR ''0''" "list_all is_digit fp"
    and "etext = [] \<and> e = 0 \<or> etext = exponent_text e" "delimited rest"
  shows "json_number (ip @ fraction_text fp @ etext @ rest) =
      Some (round64 (of_nat (parse_dec (ip @ fp)) * pow10 (e - int (length fp))), rest)"
    and "json_number (lit ''-'' @ ip @ fraction_text fp @ etext @ rest) =
      Some (round64 (- (of_nat (parse_dec (ip @ fp)) * pow10 (e - int (length fp)))), rest)"
proof -
  have dot: "\<not> is_digit (of_char CHR ''.'')" "\<not> is_digit (of_char CHR ''e'')" "\<not> is_digit (of_char CHR ''-'')"
    by (simp_all add: is_digit_def unit_in_def word_le_nat_alt)
  let ?er = "etext @ rest"
  have er: "no_digit ?er" "json_exponent ?er = Some (e, rest)"
    using assms(5,6) delimited_no_digit delimited_exponent exponent_reads dot
    by (auto simp: exponent_text_def no_digit_def lit_def)
  have "json_fraction ?er = Some ([], ?er)"
  proof -
    have "json_fraction (exponent_text e @ rest) = Some ([], exponent_text e @ rest)"
      by (simp add: json_fraction_def exponent_text_def lit_def)
    then show ?thesis using assms(5) delimited_fraction [OF assms(6)] by auto
  qed
  then have frac: "json_fraction (fraction_text fp @ ?er) = Some (fp, ?er)"
    using span_digits_append [OF assms(4) er(1)]
    by (cases "fp = []") (simp_all add: fraction_text_def, simp add: json_fraction_def lit_def)
  have "no_digit (fraction_text fp @ ?er)"
    using er(1) dot by (cases "fp = []") (simp_all add: fraction_text_def, simp add: no_digit_def lit_def)
  note span = span_digits_append [OF assms(2) this]
  obtain d ds where ip: "ip = d # ds" using assms(1) by (cases ip) auto
  have sign: "d \<noteq> of_char CHR ''-''" using assms(2) dot by (auto simp: ip)
  have zero: "\<not> (ip = [] \<or> 1 < length ip \<and> hd ip = of_char CHR ''0'')" using assms(1,3) by blast
  have split: "(case ip @ s of c # r \<Rightarrow> if c = of_char CHR ''-'' then (True, r) else (False, ip @ s) | [] \<Rightarrow> (False, ip @ s)) =
      (False, ip @ s)" for s
    using sign by (simp add: ip)
  show "json_number (ip @ fraction_text fp @ etext @ rest) =
      Some (round64 (of_nat (parse_dec (ip @ fp)) * pow10 (e - int (length fp))), rest)"
    unfolding json_number_def split using span zero frac er(2) by simp
  show "json_number (lit ''-'' @ ip @ fraction_text fp @ etext @ rest) =
      Some (round64 (- (of_nat (parse_dec (ip @ fp)) * pow10 (e - int (length fp)))), rest)"
    using span zero frac er(2) by (simp add: json_number_def lit_def)
qed

section \<open>The five layouts\<close>

lemma parse_dec_append: "parse_dec (a @ b) = parse_dec a * 10 ^ length b + parse_dec b"
proof (induction b rule: rev_induct)
  case (snoc u b)
  have "parse_dec (a @ b @ [u]) = 10 * parse_dec (a @ b) + digit_value u"
    using parse_dec_snoc [of "a @ b" u] by simp
  with snoc show ?case by (simp add: algebra_simps)
qed (simp add: parse_dec_def)

lemma parse_dec_only_zeros: "parse_dec (replicate n (of_char CHR ''0'')) = 0"
proof (induction n)
  case (Suc n)
  have "parse_dec [of_char CHR ''0'' :: code_unit] = 0" by (simp add: parse_dec_def digit_value_def)
  with Suc parse_dec_append [of "[of_char CHR ''0'']" "replicate n (of_char CHR ''0'')"] show ?case by simp
qed (simp add: parse_dec_def)

definition literal_of :: "jstr \<Rightarrow> jstr \<Rightarrow> int \<Rightarrow> jstr \<Rightarrow> bool" where
  "literal_of t ip e fp \<longleftrightarrow> (\<exists>etext. t = ip @ fraction_text fp @ etext \<and> (etext = [] \<and> e = 0 \<or> etext = exponent_text e) \<and>
     ip \<noteq> [] \<and> list_all is_digit ip \<and> (1 < length ip \<longrightarrow> hd ip \<noteq> of_char CHR ''0'') \<and> list_all is_digit fp)"

lemma digits_text_literal:
  assumes "ds \<noteq> []" "list_all is_digit ds" "hd ds \<noteq> of_char CHR ''0''"
  shows "\<exists>ip e fp. literal_of (digits_text ds n) ip e fp \<and>
    of_nat (parse_dec (ip @ fp)) * pow10 (e - int (length fp)) = of_nat (parse_dec ds) * pow10 (n - int (length ds))"
proof -
  let ?k = "int (length ds)"
  have all: "is_digit d" if "d \<in> set ds" for d using that assms(2) by (simp add: list_all_iff)
  have sub: "list_all is_digit (take i ds)" "list_all is_digit (drop i ds)" for i
    using all by (auto simp: list_all_iff dest: in_set_takeD in_set_dropD)
  consider (zeros) "?k \<le> n" "n \<le> 21" | (inside) "0 < n" "n < ?k" "n \<le> 21" | (before) "- 6 < n" "n \<le> 0"
    | (one) "\<not> (?k \<le> n \<and> n \<le> 21)" "\<not> (0 < n \<and> n \<le> 21)" "\<not> (- 6 < n \<and> n \<le> 0)" "?k = 1"
    | (many) "\<not> (?k \<le> n \<and> n \<le> 21)" "\<not> (0 < n \<and> n \<le> 21)" "\<not> (- 6 < n \<and> n \<le> 0)" "?k \<noteq> 1"
    by linarith
  then show ?thesis
  proof cases
    case zeros
    let ?ip = "ds @ replicate (nat (n - ?k)) (of_char CHR ''0'')"
    have "literal_of (digits_text ds n) ?ip 0 []"
      using assms zeros zero_digit by (auto simp: literal_of_def digits_text_def fraction_text_def list_all_iff)
    moreover have "of_nat (parse_dec (?ip @ [])) * pow10 (0 - int (length [])) = of_nat (parse_dec ds) * pow10 (n - ?k)"
      using zeros(1) by (simp add: parse_dec_append parse_dec_only_zeros [simplified] pow10_def)
    ultimately show ?thesis by blast
  next
    case inside
    let ?ip = "take (nat n) ds" and ?fp = "drop (nat n) ds"
    have "literal_of (digits_text ds n) ?ip 0 ?fp"
      using assms inside sub by (auto simp: literal_of_def digits_text_def fraction_text_def hd_take)
    moreover have "0 - int (length ?fp) = n - ?k" using inside by simp
    ultimately show ?thesis by (metis append_take_drop_id)
  next
    case before
    let ?fp = "replicate (nat (- n)) (of_char CHR ''0'') @ ds"
    have "literal_of (digits_text ds n) [of_char CHR ''0''] 0 ?fp"
    proof -
      have "\<not> int (length ds) \<le> n" using assms(1) before(2) by (cases ds) simp_all
      with before have "digits_text ds n = [of_char CHR ''0''] @ fraction_text ?fp @ []"
        using assms(1) by (simp add: digits_text_def fraction_text_def lit_def)
      moreover have "list_all is_digit ?fp" using assms(2) zero_digit by (auto simp: list_all_iff)
      ultimately show ?thesis using zero_digit unfolding literal_of_def by (intro exI [of _ "[]"]) simp
    qed
    moreover have "parse_dec ([of_char CHR ''0''] @ ?fp) = parse_dec ds"
      using parse_dec_append [of "replicate (Suc (nat (- n))) (of_char CHR ''0'')" ds] parse_dec_only_zeros [of "Suc (nat (- n))"]
      by simp
    moreover have "0 - int (length ?fp) = n - ?k" using before by simp
    ultimately show ?thesis by metis
  next
    case one
    have "literal_of (digits_text ds n) ds (n - 1) []"
      using assms one by (auto simp: literal_of_def digits_text_def fraction_text_def)
    moreover have "n - 1 - int (length []) = n - ?k" using one by simp
    ultimately show ?thesis by (metis append_Nil2)
  next
    case many
    let ?ip = "take 1 ds" and ?fp = "drop 1 ds"
    have "1 < length ds" using many(4) assms(1) by (cases ds) auto
    then have "literal_of (digits_text ds n) ?ip (n - 1) ?fp"
      using assms many sub by (auto simp: literal_of_def digits_text_def fraction_text_def hd_take)
    moreover have "n - 1 - int (length ?fp) = n - ?k" using many assms(1) by (cases ds) simp_all
    ultimately show ?thesis by (metis append_take_drop_id)
  qed
qed

section \<open>A printed double reads back\<close>

definition is_double :: "jsnum \<Rightarrow> bool" where
  "is_double n = (case n of Fin r \<Rightarrow> round64 r = Fin r | _ \<Rightarrow> False)"

lemma round64_minus: "round64 r = Fin v \<Longrightarrow> round64 (- r) = Fin (- v)"
proof -
  define V where "V = (\<lambda>a. of_int (round_half_even (a / pow2 (max (floor_log2 a - 52) (- 1074)))) *
    pow2 (max (floor_log2 a - 52) (- 1074)) :: rat)"
  have R: "round64 s = (if s = 0 then Fin 0 else if 2 ^ 1024 \<le> V \<bar>s\<bar> then (if s < 0 then NegInf else PosInf)
      else Fin (sgn s * V \<bar>s\<bar>))" for s
    by (simp only: round64_def Let_def V_def)
  assume v: "round64 r = Fin v"
  show ?thesis
  proof (cases "r = 0")
    case False
    define b where "b = (2 ^ 1024 \<le> V \<bar>r\<bar>)"
    have "round64 r = (if b then (if r < 0 then NegInf else PosInf) else Fin (sgn r * V \<bar>r\<bar>))"
      "round64 (- r) = (if b then (if - r < 0 then NegInf else PosInf) else Fin (sgn (- r) * V \<bar>r\<bar>))"
      using R [of r] R [of "- r"] False by (simp_all only: b_def abs_minus_cancel neg_equal_0_iff_equal if_False)
    with v show ?thesis by (cases b; cases "r < 0") (simp_all add: sgn_minus)
  next
    case True
    have "round64 0 = Fin 0" using R [of 0] by (simp only: refl if_True)
    with v True show ?thesis by simp
  qed
qed

lemma dec_nat_leading: "0 < n \<Longrightarrow> hd (dec_nat n) \<noteq> of_char CHR ''0''"
proof (induction n rule: dec_nat.induct)
  case (1 n)
  show ?case
  proof (cases "n < 10")
    case True
    have "digit_value (hd (dec_nat n)) = n" using True by (simp add: dec_nat.simps [of n] digit_unit_facts)
    moreover have "digit_value (of_char CHR ''0'') = 0" by (simp add: digit_value_def)
    ultimately have "digit_value (hd (dec_nat n)) \<noteq> digit_value (of_char CHR ''0'')" using "1.prems" by linarith
    then show ?thesis by (rule contrapos_nn) (rule arg_cong)
  next
    case False
    then have "dec_nat n = dec_nat (n div 10) @ [digit_unit (n mod 10)]" by (subst dec_nat.simps) (simp only: if_False)
    then have first: "hd (dec_nat n) = hd (dec_nat (n div 10))" by (simp only: hd_append2 dec_nat_neq_Nil not_False_eq_True)
    have "0 < n div 10" using False by simp
    from "1.IH" [OF False this] show ?thesis unfolding first .
  qed
qed

lemma dec_nat_literal: "literal_of (dec_nat n) (dec_nat n) 0 []"
proof -
  have "dec_nat 0 = [digit_unit 0]" by (subst dec_nat.simps) simp
  then have "1 < length (dec_nat n) \<Longrightarrow> 0 < n" by (cases n) simp_all
  then show ?thesis
    using all_digits_dec_nat [of n] dec_nat_leading [of n]
    by (auto simp: literal_of_def fraction_text_def all_digits_def)
qed

lemma literal_reads:
  assumes "literal_of t ip e fp" "delimited rest"
  shows "json_number (t @ rest) = Some (round64 (of_nat (parse_dec (ip @ fp)) * pow10 (e - int (length fp))), rest)"
    and "json_number (lit ''-'' @ t @ rest) =
      Some (round64 (- (of_nat (parse_dec (ip @ fp)) * pow10 (e - int (length fp)))), rest)"
proof -
  from assms(1) obtain etext where t: "t = ip @ fraction_text fp @ etext" "etext = [] \<and> e = 0 \<or> etext = exponent_text e"
    and d: "ip \<noteq> []" "list_all is_digit ip" "1 < length ip \<Longrightarrow> hd ip \<noteq> of_char CHR ''0''" "list_all is_digit fp"
    by (auto simp: literal_of_def)
  from json_number_reads [OF d t(2) assms(2)]
  show "json_number (t @ rest) = Some (round64 (of_nat (parse_dec (ip @ fp)) * pow10 (e - int (length fp))), rest)"
    and "json_number (lit ''-'' @ t @ rest) =
      Some (round64 (- (of_nat (parse_dec (ip @ fp)) * pow10 (e - int (length fp)))), rest)"
    by (simp_all add: t(1))
qed

lemma positive_text_literal:
  assumes "0 < x" "round64 x = Fin x"
  shows "\<exists>ip e fp. literal_of (positive_text x) ip e fp \<and>
    round64 (of_nat (parse_dec (ip @ fp)) * pow10 (e - int (length fp))) = Fin x"
proof -
  from positive_text_digits [OF assms] obtain d n where d: "0 < d" "positive_text x = digits_text (dec_nat d) n"
    "round64 (of_nat d * pow10 (n - int (length (dec_nat d)))) = Fin x" by blast
  have "list_all is_digit (dec_nat d)" using all_digits_dec_nat [of d] by (simp add: all_digits_def)
  from digits_text_literal [OF _ this dec_nat_leading [OF d(1)], of n] obtain ip e fp where
    "literal_of (digits_text (dec_nat d) n) ip e fp"
    "of_nat (parse_dec (ip @ fp)) * pow10 (e - int (length fp)) = (of_nat d * pow10 (n - int (length (dec_nat d))) :: rat)"
    by auto
  with d(2,3) show ?thesis by metis
qed

text \<open>Every finite number prints as a literal, perhaps after a minus sign.\<close>

lemma num_text_literal:
  assumes "is_double n"
  shows "\<exists>r t ip e fp. n = Fin r \<and> literal_of t ip e fp \<and>
    (num_text n = t \<and> round64 (of_nat (parse_dec (ip @ fp)) * pow10 (e - int (length fp))) = n \<or>
     num_text n = lit ''-'' @ t \<and> round64 (- (of_nat (parse_dec (ip @ fp)) * pow10 (e - int (length fp)))) = n)"
proof -
  from assms obtain r where n: "n = Fin r" and r: "round64 r = Fin r" by (cases n) (simp_all add: is_double_def)
  show ?thesis
  proof (cases "rat_integral r \<and> \<bar>r\<bar> \<le> 2 ^ 53")
    case True
    then obtain i where i: "r = of_int i" by (auto simp: rat_integral_iff)
    let ?m = "nat \<bar>i\<bar>"
    have t: "num_text n = (if i < 0 then lit ''-'' @ dec_nat ?m else dec_nat ?m)"
      using True by (simp add: n num_text_def i dec_int_def)
    have one: "pow10 0 = 1" by (simp add: pow10_def)
    have "of_nat (parse_dec (dec_nat ?m @ [])) * pow10 (0 - int (length [])) = (if i < 0 then - r else r)"
      by (simp add: one i)
    then show ?thesis
      using dec_nat_literal [of ?m] r t n
      by (intro exI [of _ r] exI [of _ "dec_nat ?m"] exI [of _ 0] exI [of _ "[]"]) (cases "i < 0"; simp)
  next
    case False
    have "r \<noteq> 0" using False by (auto simp: rat_integral_def)
    show ?thesis
    proof (cases "r < 0")
      case True
      then have "0 < - r" "round64 (- r) = Fin (- r)" using round64_minus [OF r] by simp_all
      from positive_text_literal [OF this] obtain ip e fp where
        p: "literal_of (positive_text (- r)) ip e fp"
          "round64 (of_nat (parse_dec (ip @ fp)) * pow10 (e - int (length fp))) = Fin (- r)" by blast
      from round64_minus [OF p(2)] have "round64 (- (of_nat (parse_dec (ip @ fp)) * pow10 (e - int (length fp)))) = n"
        by (simp add: n)
      moreover have "num_text n = lit ''-'' @ positive_text (- r)"
        using False True by (simp only: n num_text_def jsnum.case if_False if_True)
      ultimately show ?thesis using p(1) n by blast
    next
      case nonneg: False
      with \<open>r \<noteq> 0\<close> have "0 < r" by simp
      from positive_text_literal [OF this r] obtain ip e fp where
        "literal_of (positive_text r) ip e fp"
        "round64 (of_nat (parse_dec (ip @ fp)) * pow10 (e - int (length fp))) = n" by (auto simp: n)
      moreover have "num_text n = positive_text r"
        using False nonneg by (simp only: n num_text_def jsnum.case if_False)
      ultimately show ?thesis using n by metis
    qed
  qed
qed

lemma num_text_reads_back:
  assumes "is_double n" "delimited rest"
  shows "json_number (num_text n @ rest) = Some (n, rest)"
  using num_text_literal [OF assms(1)] literal_reads [OF _ assms(2)] by fastforce

lemma num_text_first:
  assumes "is_double n"
  shows "\<exists>c cs. num_text n = c # cs \<and> (is_digit c \<or> c = of_char CHR ''-'')"
proof -
  have "\<exists>c cs. t = c # cs \<and> is_digit c" if "literal_of t ip e fp" for t ip e fp
    using that by (cases ip) (auto simp: literal_of_def)
  with num_text_literal [OF assms] show ?thesis by (fastforce simp: lit_def)
qed

lemma is_double_num: "\<bar>i\<bar> \<le> MAX_SAFE \<Longrightarrow> is_double (num i)"
proof -
  assume i: "\<bar>i\<bar> \<le> MAX_SAFE"
  then have "nat \<bar>i\<bar> < 2 ^ 53" by (simp add: MAX_SAFE_def nat_less_iff)
  from round64_small [OF this] have r: "round64 (of_int \<bar>i\<bar>) = Fin (of_int \<bar>i\<bar>)" by simp
  from round64_minus [OF r] r have "round64 (of_int i) = Fin (of_int i)"
    by (cases "i < 0") (simp_all add: abs_if)
  then show ?thesis by (simp add: is_double_def num_def)
qed

lemma safe_is_double: "isSafeInteger n \<Longrightarrow> is_double n"
  by (auto simp: isSafeInteger_iff is_double_num)

lemma double_finite: "is_double n \<Longrightarrow> isFinite n"
  by (cases n) (simp_all add: is_double_def isFinite_def)

end
