(* ===== verification/Json_Reads.thy ===== *)
theory Json_Reads
  imports Number_Text
begin

text \<open>
  Texts that \<open>JSON.parse\<close> reads as a given value: the scalars as they are printed, and arrays and
  objects whose elements are separated by a comma and any white space. Both printers of the
  source, the indenting one of the contract gate and the compact one of the payloads, are
  instances.
\<close>

section \<open>Values read back\<close>

lemma list_all2_in: "list_all2 P xs ys \<Longrightarrow> x \<in> set xs \<Longrightarrow> \<exists>y \<in> set ys. P x y"
  by (induction rule: list_all2_induct) auto

definition blank :: "jstr \<Rightarrow> bool" where
  "blank w \<longleftrightarrow> list_all json_space w"

lemma blank_simps [simp]:
  "blank []" "blank (10 # w) = blank w" "blank (lit ''  '')" "blank (v @ w) \<longleftrightarrow> blank v \<and> blank w"
  by (auto simp: blank_def json_space_def lit_def)

lemma skip_blank [simp]: "blank w \<Longrightarrow> skip_ws (w @ s) = skip_ws s"
  by (simp add: blank_def skip_ws_def list_all_iff dropWhile_append)

lemma skip_solid [simp]: "\<not> json_space c \<Longrightarrow> skip_ws (c # s) = c # s"
  by (simp add: skip_ws_def)

lemma json_value_blank: "blank w \<Longrightarrow> json_value n (w @ s) = json_value n s"
  by (cases n) simp_all

definition reads :: "jstr \<Rightarrow> jsval \<Rightarrow> bool" where
  "reads t v \<longleftrightarrow>
     (\<exists>c cs. t = c # cs \<and> \<not> json_space c \<and> c \<noteq> of_char CHR '']'') \<and>
     (\<forall>rest n. delimited rest \<longrightarrow> 2 * length (t @ rest) < n \<longrightarrow> json_value n (t @ rest) = Some (v, rest))"

lemma readsD:
  "reads t v \<Longrightarrow> delimited rest \<Longrightarrow> 2 * length (t @ rest) < n \<Longrightarrow> json_value n (t @ rest) = Some (v, rest)"
  by (simp add: reads_def)

lemma reads_string: "reads (json_quote s) (JStr s)"
proof -
  have "json_value n (json_quote s @ rest) = Some (JStr s, rest)" if "2 * length (json_quote s @ rest) < n" for rest n
  proof -
    from that have "n \<noteq> 0" by auto
    then obtain m where n: "n = Suc m" using not0_implies_Suc by blast
    have "json_string (quote_body s @ dquote # rest) = Some (s, rest)" by (rule json_string_quote_body)
    then show ?thesis by (simp add: n json_quote_def json_space_def dquote_def)
  qed
  then show ?thesis by (simp add: reads_def) (simp add: json_quote_def json_space_def dquote_def)
qed

lemma reads_scalars:
  "reads (lit ''null'') JNull" "reads (lit ''true'') (JBool True)" "reads (lit ''false'') (JBool False)"
proof -
  have v: "json_value n (lit ''null'' @ rest) = Some (JNull, rest)" "json_value n (lit ''true'' @ rest) = Some (JBool True, rest)"
    "json_value n (lit ''false'' @ rest) = Some (JBool False, rest)" if "0 < n" for n rest
  proof -
    obtain m where n: "n = Suc m" using \<open>0 < n\<close> gr0_conv_Suc by auto
    show "json_value n (lit ''null'' @ rest) = Some (JNull, rest)" "json_value n (lit ''true'' @ rest) = Some (JBool True, rest)"
      "json_value n (lit ''false'' @ rest) = Some (JBool False, rest)"
      by (simp_all add: n lit_def json_space_def dquote_def startsWith_def)
  qed
  show "reads (lit ''null'') JNull" "reads (lit ''true'') (JBool True)" "reads (lit ''false'') (JBool False)"
    unfolding reads_def using v by (auto simp: lit_def json_space_def)
qed

lemma reads_number:
  assumes "is_double x"
  shows "reads (num_text x) (JNum x)"
proof -
  obtain c cs where t: "num_text x = c # cs" and c: "is_digit c \<or> c = of_char CHR ''-''"
    using num_text_first [OF assms] by blast
  have first: "\<not> json_space c" "c \<noteq> of_char CHR '']''" "c \<noteq> of_char CHR ''{''" "c \<noteq> of_char CHR ''[''"
    "c \<noteq> dquote" "c \<noteq> of_char CHR ''t''" "c \<noteq> of_char CHR ''f''" "c \<noteq> of_char CHR ''n''"
    using c by (auto simp: is_digit_def unit_in_def json_space_def dquote_def word_le_nat_alt)
  have "json_value n (num_text x @ rest) = Some (JNum x, rest)" if "delimited rest" "0 < n" for rest n
  proof -
    obtain m where n: "n = Suc m" using \<open>0 < n\<close> gr0_conv_Suc by auto
    have skip: "skip_ws (num_text x @ rest) = c # cs @ rest" using first by (simp add: t)
    have other: "\<not> startsWith (c # cs @ rest) (lit ''true'')" "\<not> startsWith (c # cs @ rest) (lit ''false'')"
      "\<not> startsWith (c # cs @ rest) (lit ''null'')"
      using first by (auto simp: startsWith_def lit_def)
    have "json_number (c # cs @ rest) = Some (x, rest)"
      using num_text_reads_back [OF assms that(1)] by (simp add: t)
    with first other show ?thesis by (simp add: n skip del: startsWith_lit)
  qed
  with first t show ?thesis by (auto simp: reads_def)
qed

text \<open>The texts of a block, \<open>w\<close> between them and \<open>w'\<close> before the bracket.\<close>

lemma elements_read:
  assumes "list_all2 reads ts vs" "ts \<noteq> []" "blank w" "blank w'" "delimited w'"
    "2 * length (w @ join (lit '','' @ w) ts @ w' @ lit '']'' @ rest) + 1 < n"
  shows "json_elements n (w @ join (lit '','' @ w) ts @ w' @ lit '']'' @ rest) = Some (vs, rest)"
  using assms(1,2,6)
proof (induction ts vs arbitrary: n rule: list_all2_induct)
  case (Cons t ts v vs)
  have "0 < n" using Cons.prems(2) by (rule order_le_less_trans [rotated]) simp
  then obtain m where n: "n = Suc m" using gr0_conv_Suc by blast
  have tail: "delimited (w' @ lit '']'' @ s)" for s
    using assms(5) delimited_append [of w'] by (cases "w' = []") simp_all
  show ?case
  proof (cases "ts = []")
    case True
    with Cons.hyps have "vs = []" by simp
    moreover have "json_value m (t @ w' @ lit '']'' @ rest) = Some (v, w' @ lit '']'' @ rest)"
      using Cons.prems(2) True by (intro readsD [OF Cons.hyps(1) tail]) (simp add: n)
    ultimately show ?thesis
      using assms(3,4) True by (simp add: n json_value_blank) (simp add: lit_def json_space_def)
  next
    case False
    let ?rest = "w @ join (lit '','' @ w) ts @ w' @ lit '']'' @ rest"
    have j: "join (lit '','' @ w) (t # ts) = t @ lit '','' @ w @ join (lit '','' @ w) ts"
      using join_Cons [OF False] by simp
    have l: "length (join (lit '','' @ w) (t # ts)) = length t + Suc (length w + length (join (lit '','' @ w) ts))"
      unfolding j by simp
    have "json_value m (t @ lit '','' @ ?rest) = Some (v, lit '','' @ ?rest)"
      using Cons.prems(2) by (intro readsD [OF Cons.hyps(1)]) (simp_all add: n l del: join.simps)
    moreover have "json_elements m ?rest = Some (vs, rest)"
      using Cons.prems(2) False by (intro Cons.IH) (simp_all add: n l del: join.simps)
    ultimately show ?thesis
      using assms(3) by (simp add: n j json_value_blank) (simp add: lit_def json_space_def)
  qed
qed simp

text \<open>\<open>gap\<close> is the white space after the colon of a member.\<close>

definition member_text :: "jstr \<Rightarrow> jstr \<Rightarrow> jstr \<Rightarrow> jstr" where
  "member_text gap k t = json_quote k @ lit '':'' @ gap @ t"

lemma json_string_member: "json_string (quote_body k @ [dquote] @ s) = Some (k, s)"
  using json_string_quote_body [of k s] by simp

lemma members_read:
  assumes "list_all2 (\<lambda>e p. fst e = fst p \<and> reads (snd e) (snd p)) es ps" "es \<noteq> []" "blank w" "blank w'"
    "delimited w'" "blank gap"
    "2 * length (w @ join (lit '','' @ w) (map (\<lambda>e. member_text gap (fst e) (snd e)) es) @ w' @ lit ''}'' @ rest) + 1 < n"
  shows "json_members n (w @ join (lit '','' @ w) (map (\<lambda>e. member_text gap (fst e) (snd e)) es) @ w' @ lit ''}'' @ rest)
    = Some (ps, rest)"
  using assms(1,2,7)
proof (induction es ps arbitrary: n rule: list_all2_induct)
  case (Cons e es p ps)
  obtain k t where e: "e = (k, t)" by (cases e)
  with Cons.hyps obtain v where p: "p = (k, v)" and r: "reads t v" by (cases p) auto
  have "0 < n" using Cons.prems(2) by (rule order_le_less_trans [rotated]) simp
  then obtain m where n: "n = Suc m" using gr0_conv_Suc by blast
  have tail: "delimited (w' @ lit ''}'' @ s)" for s
    using assms(5) delimited_append [of w'] by (cases "w' = []") simp_all
  have field: "json_value j (gap @ t @ s) = Some (v, s)" if "delimited s" "2 * length (t @ s) < j" for s j
    using readsD [OF r that] by (simp add: json_value_blank [OF assms(6)])
  let ?join = "\<lambda>es. join (lit '','' @ w) (map (\<lambda>e. member_text gap (fst e) (snd e)) es)"
  have solid: "\<not> json_space dquote" "\<not> json_space (of_char CHR '':'')" "\<not> json_space (of_char CHR '','')"
    "\<not> json_space (of_char CHR ''}'')"
    by (simp_all add: json_space_def dquote_def)
  note single = lit_def [of "'':''"] lit_def [of "'',''"] lit_def [of "''}''"]
  show ?case
  proof (cases "es = []")
    case True
    with Cons.hyps have ps: "ps = []" by simp
    have "json_value m (gap @ t @ w' @ lit ''}'' @ rest) = Some (v, w' @ lit ''}'' @ rest)"
      using Cons.prems(2) True by (intro field [OF tail]) (simp add: n e member_text_def)
    then show ?thesis
      using assms(3,4) True solid
      by (simp add: n e p ps member_text_def json_quote_def json_string_member [simplified] single)
  next
    case False
    let ?rest = "w @ ?join es @ w' @ lit ''}'' @ rest"
    have j: "?join (e # es) = member_text gap k t @ lit '','' @ w @ ?join es"
      using join_Cons [of "map (\<lambda>e. member_text gap (fst e) (snd e)) es"] False by (simp add: e)
    have l: "length (?join (e # es)) = length (json_quote k) + Suc (length gap + length t) + Suc (length w + length (?join es))"
      unfolding j by (simp add: member_text_def)
    have whole: "?join (e # es) @ w' @ lit ''}'' @ rest =
        dquote # quote_body k @ [dquote] @ of_char CHR '':'' # gap @ t @ of_char CHR '','' # ?rest"
      unfolding j by (simp add: member_text_def json_quote_def single)
    have "json_value m (gap @ t @ of_char CHR '','' # ?rest) = Some (v, of_char CHR '','' # ?rest)"
      using Cons.prems(2) by (intro field) (simp_all add: n l delimited_comma del: list.map join.simps)
    moreover have "json_members m ?rest = Some (ps, rest)"
      using Cons.prems(2) False by (intro Cons.IH) (simp_all add: n l del: list.map join.simps)
    ultimately show ?thesis
      unfolding whole using assms(3) solid json_string_member [of k]
      by (simp add: n p del: list.map join.simps)
  qed
qed simp

lemma array_reads:
  assumes "list_all2 reads ts vs" "ts \<noteq> []" "blank w" "blank w'" "delimited w'"
  shows "reads (lit ''['' @ w @ join (lit '','' @ w) ts @ w' @ lit '']'') (JArr vs)"
proof -
  let ?t = "lit ''['' @ w @ join (lit '','' @ w) ts @ w' @ lit '']''"
  have brackets: "\<not> json_space (of_char CHR ''['')" "\<not> json_space (of_char CHR '']'')"
    by (simp_all add: json_space_def)
  have "json_value n (?t @ rest) = Some (JArr vs, rest)" if n: "2 * length (?t @ rest) < n" for rest n
  proof -
    from n have "0 < n" by (rule order_le_less_trans [rotated]) simp
    then obtain m where m: "n = Suc m" using gr0_conv_Suc by blast
    let ?body = "w @ join (lit '','' @ w) ts @ w' @ lit '']'' @ rest"
    have block: "?t @ rest = of_char CHR ''['' # ?body" by (simp add: lit_def)
    have inside: "json_elements m ?body = Some (vs, rest)"
      using n assms unfolding block by (intro elements_read) (simp_all add: m)
    obtain t ts' where ts: "ts = t # ts'" using assms(2) by (cases ts) auto
    with assms(1) obtain c cs where c: "t = c # cs" "\<not> json_space c" "c \<noteq> of_char CHR '']''"
      by (auto simp: list_all2_Cons1 reads_def)
    have "\<exists>s. join (lit '','' @ w) ts = c # s" by (cases ts') (simp_all add: ts c)
    then obtain s where "join (lit '','' @ w) ts = c # s" by blast
    then have "skip_ws ?body = c # s @ w' @ lit '']'' @ rest"
      using skip_blank [OF assms(3)] c(2) by simp
    with inside c(3) brackets show ?thesis by (simp only: m block) simp
  qed
  with brackets show ?thesis by (auto simp: reads_def lit_def)
qed

lemma build_distinct: "distinct (map fst ps) \<Longrightarrow> build_object ps = ps"
proof -
  have "foldl (\<lambda>acc (k, v). set_prop acc k v) acc ps = acc @ ps"
    if "distinct (map fst (acc @ ps))" for acc and ps :: "(jstr \<times> jsval) list"
    using that
  proof (induction ps arbitrary: acc)
    case (Cons p ps)
    then have "fst p \<notin> fst ` set acc" by auto
    with Cons show ?case by (simp add: set_prop_fresh split_def)
  qed simp
  from this [of "[]" ps] show "distinct (map fst ps) \<Longrightarrow> ?thesis" by (simp add: build_object_def)
qed

lemma object_reads:
  assumes "list_all2 (\<lambda>e p. fst e = fst p \<and> reads (snd e) (snd p)) es ps" "es \<noteq> []" "distinct (map fst ps)"
    "blank w" "blank w'" "delimited w'" "blank gap"
  shows "reads (lit ''{'' @ w @ join (lit '','' @ w) (map (\<lambda>e. member_text gap (fst e) (snd e)) es) @ w' @ lit ''}'') (JObj ps)"
proof -
  let ?ts = "map (\<lambda>e. member_text gap (fst e) (snd e)) es"
  let ?t = "lit ''{'' @ w @ join (lit '','' @ w) ?ts @ w' @ lit ''}''"
  have brackets: "\<not> json_space (of_char CHR ''{'')" "\<not> json_space (of_char CHR ''}'')" "\<not> json_space dquote"
    by (simp_all add: json_space_def dquote_def)
  have "json_value n (?t @ rest) = Some (JObj ps, rest)" if n: "2 * length (?t @ rest) < n" for rest n
  proof -
    from n have "0 < n" by (rule order_le_less_trans [rotated]) simp
    then obtain m where m: "n = Suc m" using gr0_conv_Suc by blast
    let ?body = "w @ join (lit '','' @ w) ?ts @ w' @ lit ''}'' @ rest"
    have block: "?t @ rest = of_char CHR ''{'' # ?body" by (simp add: lit_def)
    have inside: "json_members m ?body = Some (ps, rest)"
      using n assms unfolding block by (intro members_read) (simp_all add: m)
    obtain e es' where es: "es = e # es'" using assms(2) by (cases es) auto
    have "\<exists>s. join (lit '','' @ w) ?ts = dquote # s"
      by (cases es') (simp_all add: es member_text_def json_quote_def)
    then obtain s where "join (lit '','' @ w) ?ts = dquote # s" by blast
    then have "skip_ws ?body = dquote # s @ w' @ lit ''}'' @ rest"
      using skip_blank [OF assms(4)] brackets(3) by simp
    moreover have "dquote \<noteq> of_char CHR ''}''" by (simp add: dquote_def)
    ultimately show ?thesis using inside brackets build_distinct [OF assms(3)] by (simp only: m block) simp
  qed
  with brackets show ?thesis by (auto simp: reads_def lit_def)
qed

lemma empty_reads: "reads (lit ''[]'') (JArr [])" "reads (lit ''{}'') (JObj [])"
proof -
  have "json_value n (lit ''[]'' @ rest) = Some (JArr [], rest)" "json_value n (lit ''{}'' @ rest) = Some (JObj [], rest)"
    if "0 < n" for n rest
  proof -
    obtain m where m: "n = Suc m" using \<open>0 < n\<close> gr0_conv_Suc by auto
    show "json_value n (lit ''[]'' @ rest) = Some (JArr [], rest)" "json_value n (lit ''{}'' @ rest) = Some (JObj [], rest)"
      by (simp_all add: m lit_def json_space_def)
  qed
  then show "reads (lit ''[]'') (JArr [])" "reads (lit ''{}'') (JObj [])"
    unfolding reads_def by (auto simp: lit_def json_space_def)
qed

lemma reads_parse: "reads t v \<Longrightarrow> blank w \<Longrightarrow> delimited w \<Longrightarrow> json_parse (t @ w) = Some v"
proof -
  assume "reads t v" "blank w" "delimited w"
  then have "json_value (Suc (2 * length (t @ w))) (t @ w) = Some (v, w)" by (intro readsD) simp_all
  moreover have "skip_ws w = []" using skip_blank [OF \<open>blank w\<close>, of "[]"] by (simp add: skip_ws_def)
  ultimately show ?thesis by (simp add: json_parse_def)
qed

end
