(* ===== verification/Payload_Roundtrip.thy ===== *)
theory Payload_Roundtrip
  imports Json_Reads Event_Fields
begin

text \<open>
  What the canonical JSON of src/src/payload.ts means. \<open>stands_for\<close> says which JSON value a value of
  the caller is, whatever objects it is made of; \<open>jsonString\<close> prints exactly the values that are
  one, and \<open>JSON.parse\<close> returns that value from the text. So the payload of an event is read
  back from a listed event as it was given.
\<close>

section \<open>The JSON value of caller data\<close>

definition enumerable :: "jstr \<times> hprop \<Rightarrow> bool" where
  "enumerable p = (case snd p of DataProp e _ \<Rightarrow> e | Accessor \<Rightarrow> True)"

text \<open>The derivation is finite, so a cyclic value stands for nothing.\<close>

inductive stands_for :: "heap \<Rightarrow> hval \<Rightarrow> jsval \<Rightarrow> bool" for h where
  null_value: "stands_for h HNull JNull"
| bool_value: "stands_for h (HBool b) (JBool b)"
| text_value: "stands_for h (HStr s) (JStr s)"
| number_value: "isFinite n \<Longrightarrow> stands_for h (HNum n) (JNum n)"
| array_value: "i < length h \<Longrightarrow> h ! i = HArray items \<Longrightarrow>
    list_all2 (\<lambda>item w. \<exists>v. item = Some v \<and> stands_for h v w) items ws \<Longrightarrow> stands_for h (HRef i) (JArr ws)"
| object_value: "i < length h \<Longrightarrow> h ! i = HObject True False props \<Longrightarrow>
    list_all2 (\<lambda>p q. fst p = fst q \<and> (\<exists>v. snd p = DataProp True v \<and> stands_for h v (snd q)))
      (filter enumerable (sorted_props props)) qs \<Longrightarrow> stands_for h (HRef i) (JObj qs)"

inductive_simps stands_for_simps [simp]:
  "stands_for h HNull w" "stands_for h (HBool b) w" "stands_for h (HStr s) w" "stands_for h (HNum n) w"
  "stands_for h HUndef w" "stands_for h (HBig i) w" "stands_for h HFunction w" "stands_for h HSymbol w"

inductive_cases stands_for_refE: "stands_for h (HRef i) w"

text \<open>An absent payload is the empty object.\<close>

definition payload_value :: "heap \<Rightarrow> hval \<Rightarrow> jsval \<Rightarrow> bool" where
  "payload_value h v w = (if v = HUndef then w = JObj [] else stands_for h v w)"

text \<open>Data of JavaScript: its numbers are doubles and the keys of an object are distinct.\<close>

definition js_number_value :: "hval \<Rightarrow> bool" where
  "js_number_value v = (case v of HNum n \<Rightarrow> isFinite n \<longrightarrow> is_double n | _ \<Rightarrow> True)"

fun js_object :: "hobj \<Rightarrow> bool" where
  "js_object (HArray items) = list_all js_number_value (List.map_filter id items)"
| "js_object (HObject plain symbols ps) =
     (distinct (map fst ps) \<and> list_all (\<lambda>p. case snd p of DataProp _ v \<Rightarrow> js_number_value v | Accessor \<Rightarrow> True) ps)"

definition js_graph :: "heap \<Rightarrow> hval \<Rightarrow> bool" where
  "js_graph h v \<longleftrightarrow> js_number_value v \<and> list_all js_object h"

section \<open>Helpers on lists\<close>

lemma list_all2_split:
  assumes "list_all2 P xs ts" "\<And>x t. x \<in> set xs \<Longrightarrow> P x t \<Longrightarrow> \<exists>w. Q t w \<and> R x w"
  shows "\<exists>ws. list_all2 Q ts ws \<and> list_all2 R xs ws"
  using assms
proof (induction xs ts rule: list_all2_induct)
  case (Cons x xs t ts)
  from Cons.prems [of x t] Cons.hyps(1) obtain w where "Q t w" "R x w" by auto
  moreover from Cons.IH Cons.prems obtain ws where "list_all2 Q ts ws" "list_all2 R xs ws" by auto
  ultimately show ?case by (intro exI [of _ "w # ws"]) simp
qed simp

lemma map_filter_id:
  "List.map_filter id [] = []" "List.map_filter id (Some x # xs) = x # List.map_filter id xs"
  "List.map_filter id (None # xs) = List.map_filter id xs"
  by (simp_all add: List.map_filter_def)

text \<open>The texts of the members, those of the enumerable properties.\<close>

lemma canonical_entries:
  "mapE (canonical_entry f) ps = Inr os \<Longrightarrow>
   \<exists>es. List.map_filter id os = map (\<lambda>e. member_text [] (fst e) (snd e)) es \<and>
     list_all2 (\<lambda>p e. fst p = fst e \<and> (\<exists>v. snd p = DataProp True v \<and> f v = Inr (snd e))) (filter enumerable ps) es"
proof (induction ps arbitrary: os)
  case Nil
  then show ?case by (intro exI [of _ "[]"]) (simp add: map_filter_id)
next
  case (Cons p ps)
  then obtain x xs where x: "canonical_entry f p = Inr x" and xs: "mapE (canonical_entry f) ps = Inr xs" "os = x # xs"
    by (auto simp: result_iff)
  from Cons.IH [OF xs(1)] obtain es where es: "List.map_filter id xs = map (\<lambda>e. member_text [] (fst e) (snd e)) es"
    "list_all2 (\<lambda>p e. fst p = fst e \<and> (\<exists>v. snd p = DataProp True v \<and> f v = Inr (snd e))) (filter enumerable ps) es"
    by blast
  show ?case
  proof (cases "enumerable p")
    case True
    with x obtain v t where v: "snd p = DataProp True v" "f v = Inr t" and t: "x = Some (member_text [] (fst p) t)"
      by (auto simp: canonical_entry_def enumerable_def member_text_def result_iff split: hprop.splits if_splits)
    have "List.map_filter id os = map (\<lambda>e. member_text [] (fst e) (snd e)) ((fst p, t) # es)"
      unfolding xs(2) t map_filter_id by (simp add: es(1))
    moreover have "list_all2 (\<lambda>p e. fst p = fst e \<and> (\<exists>v. snd p = DataProp True v \<and> f v = Inr (snd e)))
        (filter enumerable (p # ps)) ((fst p, t) # es)"
      using es(2) v True by simp
    ultimately show ?thesis by blast
  next
    case False
    with x have "x = None" by (auto simp: canonical_entry_def enumerable_def split: hprop.splits)
    then have "List.map_filter id os = map (\<lambda>e. member_text [] (fst e) (snd e)) es"
      unfolding xs(2) by (simp only: map_filter_id es(1))
    moreover have "list_all2 (\<lambda>p e. fst p = fst e \<and> (\<exists>v. snd p = DataProp True v \<and> f v = Inr (snd e)))
        (filter enumerable (p # ps)) es"
      using es(2) False by simp
    ultimately show ?thesis by blast
  qed
qed

lemma member_js_number:
  assumes "js_object (HObject plain symbols ps)" "p \<in> set ps" "snd p = DataProp e v"
  shows "js_number_value v"
  using assms by (fastforce simp: list_all_iff)

section \<open>What is printed reads back\<close>

lemma canonical_reads:
  "canonicalJson h ancestors v = Inr t \<Longrightarrow> js_graph h v \<Longrightarrow> \<exists>w. reads t w \<and> stands_for h v w"
proof (induction h ancestors v arbitrary: t rule: canonicalJson.induct)
  case (1 h ancestors v)
  show ?case
  proof (cases v)
    case (HRef i)
    with "1.prems"(1) have free: "i \<notin> set ancestors" "i < length h"
      by (subst (asm) canonicalJson.simps, simp split: if_splits)+
    have ob: "js_object (h ! i)" using "1.prems"(2) free(2) by (simp add: js_graph_def list_all_length)
    have graph: "js_graph h u" if "js_number_value u" for u using that "1.prems"(2) by (simp add: js_graph_def)
    show ?thesis
    proof (cases "h ! i")
      case (HArray items)
      with HRef "1.prems"(1) free obtain ts where solid: "\<not> has_holes items"
        and ts: "mapE (\<lambda>item. canonicalJson h (i # ancestors) (the item)) items = Inr ts" and t: "t = json_array ts"
        by (subst (asm) canonicalJson.simps) (auto simp: result_iff split: if_splits)
      have one: "\<exists>w. reads u w \<and> (\<exists>v. item = Some v \<and> stands_for h v w)"
        if "item \<in> set items" "canonicalJson h (i # ancestors) (the item) = Inr u" for item u
      proof -
        from solid that(1) obtain v where v: "item = Some v" by (cases item) (auto simp: has_holes_def list_ex_iff)
        with ob HArray that(1) have "js_number_value v" by (force simp: list_all_iff map_filter_def)
        with "1.IH"(1) [OF HRef _ _ HArray solid that(1) that(2)] graph free v show ?thesis by auto
      qed
      have "\<exists>ws. list_all2 reads ts ws \<and> list_all2 (\<lambda>item w. \<exists>v. item = Some v \<and> stands_for h v w) items ws"
        using ts [unfolded mapE_Inr_iff] one by (rule list_all2_split)
      then obtain ws where
        ws: "list_all2 reads ts ws" "list_all2 (\<lambda>item w. \<exists>v. item = Some v \<and> stands_for h v w) items ws"
        by blast
      have "reads t (JArr ws)"
        using array_reads [OF ws(1), of "[]" "[]"] ws(1) empty_reads
        by (cases "ts = []") (auto simp: t json_array_def lit_def)
      with array_value [OF free(2) HArray ws(2)] HRef show ?thesis by blast
    next
      case (HObject plain symbols props)
      with HRef "1.prems"(1) free obtain os where simple: "plain" "\<not> symbols"
        and os: "mapE (canonical_entry (\<lambda>w. canonicalJson h (i # ancestors) w)) (sorted_props props) = Inr os"
        and t: "t = json_object (List.map_filter id os)"
        by (subst (asm) canonicalJson.simps) (auto simp: result_iff split: if_splits)
      let ?ps = "filter enumerable (sorted_props props)"
      from canonical_entries [OF os] obtain es where es: "List.map_filter id os = map (\<lambda>e. member_text [] (fst e) (snd e)) es"
        "list_all2 (\<lambda>p e. fst p = fst e \<and> (\<exists>v. snd p = DataProp True v \<and> canonicalJson h (i # ancestors) v = Inr (snd e))) ?ps es"
        by blast
      have one: "\<exists>q. (fst e = fst q \<and> reads (snd e) (snd q)) \<and> fst p = fst q \<and> (\<exists>v. snd p = DataProp True v \<and> stands_for h v (snd q))"
        if "p \<in> set ?ps" "fst p = fst e \<and> (\<exists>v. snd p = DataProp True v \<and> canonicalJson h (i # ancestors) v = Inr (snd e))" for p e
      proof -
        from that(2) obtain v where v: "snd p = DataProp True v" "canonicalJson h (i # ancestors) v = Inr (snd e)" by blast
        have p: "p \<in> set (sorted_props props)" using that(1) by simp
        have "js_number_value v" using member_js_number [OF ob [unfolded HObject] _ v(1)] p by (simp add: sorted_props_def)
        with "1.IH"(2) [OF HRef _ _ HObject _ _ p v(1) v(2)] graph free simple obtain w where "reads (snd e) w" "stands_for h v w"
          by auto
        with v(1) that(2) show ?thesis by (intro exI [of _ "(fst e, w)"]) simp
      qed
      have "\<exists>qs. list_all2 (\<lambda>e q. fst e = fst q \<and> reads (snd e) (snd q)) es qs \<and>
          list_all2 (\<lambda>p q. fst p = fst q \<and> (\<exists>v. snd p = DataProp True v \<and> stands_for h v (snd q))) ?ps qs"
        using es(2) one by (rule list_all2_split)
      then obtain qs where
        qs: "list_all2 (\<lambda>e q. fst e = fst q \<and> reads (snd e) (snd q)) es qs"
          "list_all2 (\<lambda>p q. fst p = fst q \<and> (\<exists>v. snd p = DataProp True v \<and> stands_for h v (snd q))) ?ps qs"
        by blast
      have keys: "map fst qs = map fst ?ps" using qs(2) by (induction rule: list_all2_induct) simp_all
      have "distinct (map fst (sorted_props props))"
        using ob by (simp add: HObject sorted_props_def distinct_map)
      then have "distinct (map fst qs)" unfolding keys by (rule distinct_map_filter)
      then have "reads t (JObj qs)"
        using object_reads [OF qs(1), of "[]" "[]" "[]"] qs(1) empty_reads
        by (cases "es = []") (auto simp: t es(1) json_object_def lit_def)
      moreover have "h ! i = HObject True False props" using HObject simple by simp
      ultimately show ?thesis using object_value [OF free(2) _ qs(2)] HRef by blast
    qed
  qed (use "1.prems" in \<open>subst (asm) canonicalJson.simps,
        auto simp: reads_scalars reads_string js_graph_def js_number_value_def intro: reads_number split: if_splits\<close>)+
qed

lemma mapE_succeeds: "(\<And>x. x \<in> set xs \<Longrightarrow> \<exists>y. f x = Inr y) \<Longrightarrow> \<exists>ys. mapE f xs = Inr ys"
proof (induction xs)
  case (Cons x xs)
  then obtain y ys where "f x = Inr y" "mapE f xs = Inr ys" by (metis list.set_intros)
  then show ?case by simp
qed simp

section \<open>What stands for a value is printed\<close>

lemma stands_for_unique: "stands_for h v w \<Longrightarrow> stands_for h v w' \<Longrightarrow> w = w'"
proof (induction arbitrary: w' rule: stands_for.induct)
  case (array_value i items ws)
  from array_value(4) array_value(1,2) obtain ws' where w': "w' = JArr ws'"
    and 2: "list_all2 (\<lambda>item w. \<exists>v. item = Some v \<and> stands_for h v w) items ws'"
    by (auto elim: stands_for_refE)
  from array_value(3) 2 have "ws = ws'"
  proof (induction arbitrary: ws' rule: list_all2_induct)
    case (Cons x xs y ys)
    then show ?case by (auto simp: list_all2_Cons1)
  qed simp
  then show ?case by (simp add: w')
next
  case (object_value i props qs)
  from object_value(4) object_value(1,2) obtain qs' where w': "w' = JObj qs'"
    and 2: "list_all2 (\<lambda>p q. fst p = fst q \<and> (\<exists>v. snd p = DataProp True v \<and> stands_for h v (snd q)))
      (filter enumerable (sorted_props props)) qs'"
    by (auto elim: stands_for_refE)
  from object_value(3) 2 have "qs = qs'"
  proof (induction arbitrary: qs' rule: list_all2_induct)
    case (Cons x xs y ys)
    then show ?case by (fastforce simp: list_all2_Cons1 prod_eq_iff)
  qed simp
  then show ?case by (simp add: w')
qed simp_all

text \<open>The objects that a value is inside of have larger values, so that it is none of them.\<close>

lemma inside:
  assumes "stands_for h (HRef i) w" "\<forall>a \<in> set ancestors. \<forall>u. stands_for h (HRef a) u \<longrightarrow> size w < size u"
    "size (x :: jsval) < size w"
  shows "\<forall>a \<in> set (i # ancestors). \<forall>u. stands_for h (HRef a) u \<longrightarrow> size x < size u"
proof (intro ballI allI impI)
  fix a u
  assume a: "a \<in> set (i # ancestors)" and u: "stands_for h (HRef a) u"
  show "size x < size u"
  proof (cases "a = i")
    case True
    with stands_for_unique [OF assms(1)] u assms(3) show ?thesis by blast
  next
    case False
    with a u assms(2) have "size w < size u" by simp
    with assms(3) show ?thesis by (rule less_trans)
  qed
qed

lemma stands_for_prints:
  "stands_for h v w \<Longrightarrow> \<forall>a \<in> set ancestors. \<forall>u. stands_for h (HRef a) u \<longrightarrow> size w < size u \<Longrightarrow>
   \<exists>t. canonicalJson h ancestors v = Inr t"
proof (induction arbitrary: ancestors rule: stands_for.induct)
  case (array_value i items ws)
  have here: "stands_for h (HRef i) (JArr ws)"
    using array_value(1,2) by (rule stands_for.array_value) (use array_value(3) in \<open>auto elim: list_all2_mono\<close>)
  with array_value.prems have free: "i \<notin> set ancestors" by blast
  have solid: "\<not> has_holes items"
    using array_value(3) by (auto simp: has_holes_def list_ex_iff list_all2_conv_all_nth in_set_conv_nth)
  have "\<exists>ts. mapE (\<lambda>item. canonicalJson h (i # ancestors) (the item)) items = Inr ts"
  proof -
    have "\<exists>t. canonicalJson h (i # ancestors) (the item) = Inr t" if item: "item \<in> set items" for item
    proof -
      obtain w v where w: "w \<in> set ws" "item = Some v"
        and IH: "\<And>anc. \<forall>a \<in> set anc. \<forall>u. stands_for h (HRef a) u \<longrightarrow> size w < size u \<Longrightarrow>
          \<exists>t. canonicalJson h anc v = Inr t"
        using list_all2_in [OF array_value(3) item] by blast
      have less: "size w < size (JArr ws)" using w(1) size_list_estimation' [of w ws "size w" size] by simp
      from IH [OF inside [OF here array_value.prems less]] w(2) show ?thesis by simp
    qed
    then show ?thesis by (rule mapE_succeeds)
  qed
  with array_value(1,2) free solid show ?case by (subst canonicalJson.simps) auto
next
  case (object_value i props qs)
  let ?ps = "filter enumerable (sorted_props props)"
  have here: "stands_for h (HRef i) (JObj qs)"
    using object_value(1,2) by (rule stands_for.object_value) (use object_value(3) in \<open>auto elim: list_all2_mono\<close>)
  with object_value.prems have free: "i \<notin> set ancestors" by blast
  have "\<exists>o'. canonical_entry (\<lambda>w. canonicalJson h (i # ancestors) w) p = Inr o'" if p: "p \<in> set (sorted_props props)" for p
  proof (cases "enumerable p")
    case True
    with p have "p \<in> set ?ps" by simp
    then obtain q v where q: "q \<in> set qs" "snd p = DataProp True v"
      and IH: "\<And>anc. \<forall>a \<in> set anc. \<forall>u. stands_for h (HRef a) u \<longrightarrow> size (snd q) < size u \<Longrightarrow>
        \<exists>t. canonicalJson h anc v = Inr t"
      using list_all2_in [OF object_value(3)] by blast
    have less: "size (snd q) < size (JObj qs)" using q(1) size_member [of "fst q" "snd q" qs] by simp
    from IH [OF inside [OF here object_value.prems less]] q(2) show ?thesis by (auto simp: canonical_entry_def)
  qed (auto simp: enumerable_def canonical_entry_def split: hprop.splits)
  then have "\<exists>os. mapE (canonical_entry (\<lambda>w. canonicalJson h (i # ancestors) w)) (sorted_props props) = Inr os"
    by (rule mapE_succeeds)
  with object_value(1,2) free show ?case by (subst canonicalJson.simps) auto
qed (subst canonicalJson.simps, simp)+

section \<open>The property\<close>

lemma printed_parses:
  assumes "jsonString h v = Inr t" "js_graph h v"
  shows "\<exists>w. t \<noteq> [] \<and> json_parse t = Some w \<and> payload_value h v w"
proof -
  have "\<exists>w. reads t w \<and> payload_value h v w"
  proof (cases "v = HUndef")
    case True
    with assms(1) empty_reads show ?thesis by (auto simp: jsonString_def payload_value_def)
  next
    case False
    with assms(1) have "canonicalJson h [] v = Inr t" by (simp add: jsonString_def)
    from canonical_reads [OF this assms(2)] False show ?thesis by (simp add: payload_value_def)
  qed
  then obtain w where w: "reads t w" "payload_value h v w" by blast
  moreover have "json_parse t = Some w" using reads_parse [OF w(1), of "[]"] by simp
  moreover have "t \<noteq> []" using w(1) by (auto simp: reads_def)
  ultimately show ?thesis by blast
qed

text \<open>C7. The payload of an event comes back as it was given: the text of \<open>payload_json\<close> exists exactly
  when the caller's data stands for a JSON value (it has no cycle, hole, accessor, symbol, foreign
  prototype, function, big integer or infinite number), and the reader of listed events parses that
  text to the very value, numbers included, with the members of every object in the order of their
  keys.\<close>

theorem payload_roundtrip:
  assumes "js_graph h v"
  shows "case jsonString h v of
      Inl e \<Rightarrow> \<not> (\<exists>w. payload_value h v w)
    | Inr t \<Rightarrow> (\<exists>w. payload_value h v w \<and> parseListJsonPayload (JStr t) requestId = Inr w)"
proof (cases "jsonString h v")
  case (Inl e)
  then have "v \<noteq> HUndef" "canonicalJson h [] v = Inl e" by (auto simp: jsonString_def split: if_splits)
  with stands_for_prints [of h v _ "[]"] Inl show ?thesis by (auto simp: payload_value_def)
next
  case (Inr t)
  from printed_parses [OF Inr assms] Inr show ?thesis by (auto simp: parseListJsonPayload_def)
qed

definition sample_payload :: heap where
  "sample_payload =
     [HObject True False [(lit ''b'', DataProp True (HRef 1)), (lit ''a'', DataProp True (HNum (num 5)))],
      HArray [Some HNull, Some (HStr (lit ''x''))]]"

definition sample_payload_text :: jstr where
  "sample_payload_text = lit ''{'' @ json_quote (lit ''a'') @ lit '':5,'' @ json_quote (lit ''b'') @ lit '':[null,'' @
     json_quote (lit ''x'') @ lit '']}''"

lemma sample_payload_graph: "js_graph sample_payload (HRef 0)"
proof -
  have "is_double (num 5)" by (rule is_double_num) (simp add: MAX_SAFE_def)
  then show ?thesis by (simp add: js_graph_def js_number_value_def sample_payload_def map_filter_id lit_eq_iff)
qed

lemma sample_payload_printed: "jsonString sample_payload (HRef 0) = Inr sample_payload_text"
  by code_simp

theorem payload_roundtrip_witness:
  "\<exists>w. payload_value sample_payload (HRef 0) w \<and> parseListJsonPayload (JStr sample_payload_text) None = Inr w"
  using payload_roundtrip [OF sample_payload_graph, of None] by (simp add: sample_payload_printed)

end
