(* ===== verification/Pagination.thy ===== *)
theory Pagination
  imports Ingestion Dispatch_Facts
begin

text \<open>
  Iteration over pages, the loop that \<open>CdcClient.iterate\<close> and \<open>AuditClient.iterate\<close> of src/src
  share. A page is fetched by a function of the number of the page and the cursor; the loop
  yields the events of each page, and ends, fails, or refuses a cursor it has seen. The locale
  \<open>paged_source\<close> is the contract of such a fetch; the relation \<open>page_chain\<close> is what a caller
  expects of an iteration: follow the cursors until there is none.
\<close>

section \<open>The loop\<close>

record 'e page =
  pg_requestId :: "jstr option"
  pg_events :: "'e list"
  pg_nextCursor :: "jstr option"

type_synonym 'e page_fetch = "nat \<Rightarrow> jstr option \<Rightarrow> (thrown + 'e page) \<times> effect list"

definition no_next :: "'e page \<Rightarrow> bool" where
  "no_next page = (case pg_nextCursor page of None \<Rightarrow> True | Some c \<Rightarrow> c = [])"

text \<open>The result: the events yielded, the error that ended the iteration if there was one, and
  the effects. \<open>pages\<close> counts the pages asked for so far.\<close>

function page_loop ::
    "'e page_fetch \<Rightarrow> nat \<Rightarrow> jstr option \<Rightarrow> jstr list \<Rightarrow> 'e list \<times> thrown option \<times> effect list" where
  "page_loop fetch pages cursor seen =
     (case assertIteratorPageWithinLimit (pages + 1) of
        Inl e \<Rightarrow> ([], Some e, [])
      | Inr _ \<Rightarrow>
          (case fetch (pages + 1) cursor of
             (Inl e, fx) \<Rightarrow> ([], Some e, fx)
           | (Inr page, fx) \<Rightarrow>
               if no_next page then (pg_events page, None, fx)
               else
                 (let nextCursor = the (pg_nextCursor page) in
                  if nextCursor \<in> set seen then (pg_events page, Some repeatedCursor, fx)
                  else
                    (case page_loop fetch (pages + 1) (Some nextCursor) (seen @ [nextCursor]) of
                       (events, out, fx') \<Rightarrow> (pg_events page @ events, out, fx @ fx')))))"
  by pat_completeness auto
termination
  by (relation "measure (\<lambda>(fetch, pages, cursor, seen). MAX_INGESTION_ITERATOR_PAGES - pages)")
     (auto simp: assertIteratorPageWithinLimit_def failIf_def split: if_splits)

declare page_loop.simps [simp del]

definition initial_seen :: "jstr option \<Rightarrow> jstr list" where
  "initial_seen cursor = (case cursor of None \<Rightarrow> [] | Some c \<Rightarrow> if c = [] then [] else [c])"

definition iterate_pages :: "'e page_fetch \<Rightarrow> jstr option \<Rightarrow> 'e list \<times> thrown option \<times> effect list" where
  "iterate_pages fetch cursor = page_loop fetch 0 cursor (initial_seen cursor)"

section \<open>The pages a caller expects\<close>

inductive page_chain :: "'e page_fetch \<Rightarrow> nat \<Rightarrow> jstr option \<Rightarrow> 'e page list \<Rightarrow> bool"
  for fetch :: "'e page_fetch" where
  chain_last: "fetch n cursor = (Inr page, fx) \<Longrightarrow> no_next page \<Longrightarrow> page_chain fetch n cursor [page]"
| chain_more: "fetch n cursor = (Inr page, fx) \<Longrightarrow> \<not> no_next page \<Longrightarrow>
     page_chain fetch (n + 1) (pg_nextCursor page) pages \<Longrightarrow> page_chain fetch n cursor (page # pages)"

inductive_cases page_chain_ConsE: "page_chain fetch n cursor (page # pages)"

lemma page_chain_neq_Nil: "page_chain fetch n cursor pages \<Longrightarrow> pages \<noteq> []"
  by (induction rule: page_chain.induct) simp_all

text \<open>The cursors that a chain of pages hands out.\<close>

definition chain_cursors :: "'e page list \<Rightarrow> jstr list" where
  "chain_cursors pages = map (\<lambda>p. the (pg_nextCursor p)) (filter (\<lambda>p. \<not> no_next p) pages)"

lemma chain_cursors_simps [simp]:
  "chain_cursors [] = []"
  "no_next p \<Longrightarrow> chain_cursors (p # ps) = chain_cursors ps"
  "\<not> no_next p \<Longrightarrow> chain_cursors (p # ps) = the (pg_nextCursor p) # chain_cursors ps"
  by (simp_all add: chain_cursors_def)

lemma next_Some: "\<not> no_next page \<Longrightarrow> pg_nextCursor page = Some (the (pg_nextCursor page))"
  by (simp add: no_next_def split: option.splits)

lemma limit_iff: "assertIteratorPageWithinLimit n = Inr u \<longleftrightarrow> n \<le> 10000"
  by (auto simp: assertIteratorPageWithinLimit_def MAX_INGESTION_ITERATOR_PAGES_def result_iff)

lemma limit_cases:
  "assertIteratorPageWithinLimit n = (if n \<le> 10000 then Inr () else Inl (medErr MEDALLION_PAGINATION_LIMIT))"
  by (simp add: assertIteratorPageWithinLimit_def MAX_INGESTION_ITERATOR_PAGES_def failIf_def)

section \<open>The loop against the chain\<close>

text \<open>The five ways a round of the loop goes, as an induction rule.\<close>

lemma page_loop_induct [consumes 1, case_names Limit Fails Last Repeats Continues]:
  assumes "page_loop fetch pages cursor seen = (events, out, fx)"
    and "\<And>pages cursor seen. 10000 \<le> pages \<Longrightarrow>
      P pages cursor seen [] (Some (medErr MEDALLION_PAGINATION_LIMIT)) []"
    and "\<And>pages cursor seen e fx. pages < 10000 \<Longrightarrow> fetch (pages + 1) cursor = (Inl e, fx) \<Longrightarrow>
      P pages cursor seen [] (Some e) fx"
    and "\<And>pages cursor seen page fx. pages < 10000 \<Longrightarrow> fetch (pages + 1) cursor = (Inr page, fx) \<Longrightarrow>
      no_next page \<Longrightarrow> P pages cursor seen (pg_events page) None fx"
    and "\<And>pages cursor seen page fx. pages < 10000 \<Longrightarrow> fetch (pages + 1) cursor = (Inr page, fx) \<Longrightarrow>
      \<not> no_next page \<Longrightarrow> the (pg_nextCursor page) \<in> set seen \<Longrightarrow>
      P pages cursor seen (pg_events page) (Some repeatedCursor) fx"
    and "\<And>pages cursor seen page fx events out fx'. pages < 10000 \<Longrightarrow>
      fetch (pages + 1) cursor = (Inr page, fx) \<Longrightarrow> \<not> no_next page \<Longrightarrow>
      the (pg_nextCursor page) \<notin> set seen \<Longrightarrow>
      P (pages + 1) (pg_nextCursor page) (seen @ [the (pg_nextCursor page)]) events out fx' \<Longrightarrow>
      P pages cursor seen (pg_events page @ events) out (fx @ fx')"
  shows "P pages cursor seen events out fx"
  using assms(1)
proof (induction "10000 - pages" arbitrary: pages cursor seen events out fx)
  case 0
  then have "10000 \<le> pages" by simp
  moreover from this "0.prems" have "events = []" "out = Some (medErr MEDALLION_PAGINATION_LIMIT)" "fx = []"
    by (simp_all add: page_loop.simps limit_cases)
  ultimately show ?case by (simp add: assms(2))
next
  case (Suc k)
  then have lim: "pages < 10000" "pages + 1 \<le> 10000" by simp_all
  note eq = Suc.prems [unfolded page_loop.simps [of fetch pages cursor seen] limit_cases if_P [OF lim(2)]]
  obtain r fx0 where f: "fetch (pages + 1) cursor = (r, fx0)" by (cases "fetch (pages + 1) cursor")
  show ?case
  proof (cases r)
    case (Inl e)
    with eq f assms(3) [OF lim(1), of cursor e fx0 seen] show ?thesis by simp
  next
    case r: (Inr page)
    let ?next = "the (pg_nextCursor page)"
    consider "no_next page" | "\<not> no_next page" "?next \<in> set seen" | "\<not> no_next page" "?next \<notin> set seen"
      by blast
    then show ?thesis
    proof cases
      case 1
      with eq f r assms(4) [OF lim(1), of cursor page fx0 seen] show ?thesis by simp
    next
      case 2
      with eq f r assms(5) [OF lim(1), of cursor page fx0 seen] show ?thesis by (simp add: Let_def)
    next
      case 3
      obtain es o' fx' where rec: "page_loop fetch (pages + 1) (Some ?next) (seen @ [?next]) = (es, o', fx')"
        by (cases "page_loop fetch (pages + 1) (Some ?next) (seen @ [?next])") auto
      with eq f r 3 have res: "events = pg_events page @ es" "out = o'" "fx = fx0 @ fx'"
        by (simp_all add: Let_def)
      have "P (pages + 1) (Some ?next) (seen @ [?next]) es o' fx'"
        using Suc.hyps(2) by (intro Suc.hyps(1) [OF _ rec]) simp
      then show ?thesis
        unfolding res using f r 3 next_Some [OF 3(1)]
        by (intro assms(6) [OF lim(1)]) simp_all
    qed
  qed
qed

lemma loop_completes:
  "page_loop fetch pages cursor seen = (events, out, fx) \<Longrightarrow> out = None \<Longrightarrow>
   \<exists>ps. page_chain fetch (pages + 1) cursor ps \<and> pages + length ps \<le> 10000 \<and>
     distinct (chain_cursors ps) \<and> set (chain_cursors ps) \<inter> set seen = {} \<and>
     events = concat (map pg_events ps)"
proof (induction rule: page_loop_induct)
  case (Last pages cursor seen page fx)
  then have "page_chain fetch (pages + 1) cursor [page]" by (intro page_chain.chain_last) auto
  with Last show ?case by (intro exI [of _ "[page]"]) simp
next
  case (Continues pages cursor seen page fx events out fx')
  then obtain ps where ps: "page_chain fetch (pages + 1 + 1) (pg_nextCursor page) ps"
    "pages + 1 + length ps \<le> 10000" "distinct (chain_cursors ps)"
    "set (chain_cursors ps) \<inter> set (seen @ [the (pg_nextCursor page)]) = {}"
    "events = concat (map pg_events ps)" by blast
  have "page_chain fetch (pages + 1) cursor (page # ps)"
    by (rule page_chain.chain_more [OF Continues.hyps(2,3) ps(1)])
  with ps Continues.hyps show ?case by (intro exI [of _ "page # ps"]) auto
qed simp_all

lemma loop_yields:
  "page_loop fetch pages cursor seen = (events, out, fx) \<Longrightarrow> e \<in> set events \<Longrightarrow>
   \<exists>n c page fx'. fetch n c = (Inr page, fx') \<and> e \<in> set (pg_events page)"
  by (induction rule: page_loop_induct) auto

lemma loop_cost:
  assumes "\<And>n c. length (fetches (snd (fetch n c))) \<le> k"
  shows "page_loop fetch pages cursor seen = (events, out, fx) \<Longrightarrow>
    length (fetches fx) \<le> k * (10000 - pages)"
proof (induction rule: page_loop_induct)
  case (Fails pages cursor seen e fx)
  then show ?case using assms [of "pages + 1" cursor] by (cases "10000 - pages") simp_all
next
  case (Last pages cursor seen page fx)
  then show ?case using assms [of "pages + 1" cursor] by (cases "10000 - pages") simp_all
next
  case (Repeats pages cursor seen page fx)
  then show ?case using assms [of "pages + 1" cursor] by (cases "10000 - pages") simp_all
next
  case (Continues pages cursor seen page fx events out fx')
  then have "length (fetches fx) \<le> k" using assms [of "pages + 1" cursor] by simp
  moreover from Continues.hyps(1) have "10000 - pages = Suc (10000 - (pages + 1))" by simp
  ultimately show ?case using Continues.IH by simp
qed simp

lemma loop_failure:
  "page_loop fetch pages cursor seen = (events, out, fx) \<Longrightarrow> out = Some e \<Longrightarrow>
   e = medErr MEDALLION_PAGINATION_LIMIT \<or> e = repeatedCursor \<or> (\<exists>n c fx'. fetch n c = (Inl e, fx'))"
  by (induction rule: page_loop_induct) auto

lemma loop_follows_chain:
  "page_chain fetch n cursor ps \<Longrightarrow> n = pages + 1 \<Longrightarrow> pages + length ps \<le> 10000 \<Longrightarrow>
   distinct (chain_cursors ps) \<Longrightarrow> set (chain_cursors ps) \<inter> set seen = {} \<Longrightarrow>
   \<exists>fx. page_loop fetch pages cursor seen = (concat (map pg_events ps), None, fx)"
proof (induction n cursor ps arbitrary: pages seen rule: page_chain.induct)
  case (chain_last n cursor page fx)
  then show ?case by (subst page_loop.simps) (simp add: limit_cases)
next
  case (chain_more n cursor page fx ps)
  let ?next = "the (pg_nextCursor page)"
  from chain_more.prems chain_more.hyps(2) have fresh: "?next \<notin> set seen" by auto
  have "\<exists>fx'. page_loop fetch (pages + 1) (pg_nextCursor page) (seen @ [?next]) =
      (concat (map pg_events ps), None, fx')"
    using chain_more.prems chain_more.hyps(2) by (intro chain_more.IH) auto
  then obtain fx' where rec: "page_loop fetch (pages + 1) (Some ?next) (seen @ [?next]) =
      (concat (map pg_events ps), None, fx')"
    using next_Some [OF chain_more.hyps(2)] by metis
  have "page_loop fetch pages cursor seen = (pg_events page @ concat (map pg_events ps), None, fx @ fx')"
    using chain_more.hyps(1,2) chain_more.prems fresh rec
    by (subst page_loop.simps) (simp add: limit_cases Let_def)
  then show ?case by auto
qed

lemma iterate_pages_iff:
  "(\<exists>fx. iterate_pages fetch cursor = (events, None, fx)) \<longleftrightarrow>
     (\<exists>ps. page_chain fetch 1 cursor ps \<and> length ps \<le> 10000 \<and>
        distinct (initial_seen cursor @ chain_cursors ps) \<and> events = concat (map pg_events ps))"
proof -
  have seen: "distinct (initial_seen cursor)" by (simp add: initial_seen_def split: option.split)
  have "\<exists>ps. page_chain fetch 1 cursor ps \<and> length ps \<le> 10000 \<and>
      distinct (initial_seen cursor @ chain_cursors ps) \<and> events = concat (map pg_events ps)"
    if "iterate_pages fetch cursor = (events, None, fx)" for fx
    using loop_completes [OF that [unfolded iterate_pages_def] refl] seen by (auto simp: Int_commute)
  moreover have "\<exists>fx. iterate_pages fetch cursor = (events, None, fx)"
    if "page_chain fetch 1 cursor ps" "length ps \<le> 10000"
      "distinct (initial_seen cursor @ chain_cursors ps)" "events = concat (map pg_events ps)" for ps
    unfolding iterate_pages_def that(4)
    using that by (intro loop_follows_chain) (auto simp: Int_commute)
  ultimately show ?thesis by blast
qed

section \<open>The contract of a page source\<close>

text \<open>
  \<open>good\<close> is what the source promises of every event it lists, and \<open>cost\<close> bounds the fetches
  one page may take.
\<close>

locale paged_source =
  fixes fetch :: "'e page_fetch" and good :: "'e \<Rightarrow> bool" and cost :: nat
  assumes listed_good: "fetch n cursor = (Inr page, fx) \<Longrightarrow> e \<in> set (pg_events page) \<Longrightarrow> good e"
    and fetch_cost: "length (fetches (snd (fetch n cursor))) \<le> cost"
begin

lemma iterate_good: "iterate_pages fetch cursor = (events, out, fx) \<Longrightarrow> list_all good events"
  unfolding iterate_pages_def list_all_iff by (blast dest: loop_yields listed_good)

lemma iterate_cost: "iterate_pages fetch cursor = (events, out, fx) \<Longrightarrow> length (fetches fx) \<le> cost * 10000"
  unfolding iterate_pages_def using loop_cost [OF fetch_cost] by fastforce

end

end
