(* ===== verification/Cdc_Client.thy ===== *)
theory Cdc_Client
  imports Protocol Pagination
begin

text \<open>
  \<open>CdcClient\<close> (src/src/cdc.ts): publishing one event or a batch, listing a page, iterating over
  the pages. Every operation goes through the protocol layer, so what is proved here is about
  the composition of the client, the protocol and the transport.
\<close>

section \<open>State and inputs\<close>

record 'msg cdc_client =
  cc_connect :: "'msg connect_client"
  cc_defaultConnectorId :: "jstr option"
  cc_workspaceId :: jstr

datatype cdc_record_event = CdcModern cdc_event_input | CdcLegacy legacy_cdc_input

record cdc_record_input =
  cri_connectorId :: "jstr option"
  cri_event :: cdc_record_event

record cdc_batch_input =
  cbi_connectorId :: "jstr option"
  cbi_events :: "cdc_event_input list"

record cdc_list_input =
  cq_connectorId :: "jstr option"
  cq_entityType :: "jstr option"
  cq_entityId :: jsval
  cq_streamName :: "jstr option"
  cq_sourceSystem :: "jstr option"
  cq_actor :: "actor_ref option"
  cq_ingesterPrincipal :: "jstr option"
  cq_occurredAtFrom :: "timestamp_input option"
  cq_occurredAtTo :: "timestamp_input option"
  cq_cursor :: "jstr option"
  cq_limit :: "jsnum option"

definition newCdcClient :: "'msg connect_client \<Rightarrow> jstr \<Rightarrow> jstr option \<Rightarrow> 'msg cdc_client" where
  "newCdcClient connect workspaceId defaultConnectorId =
     \<lparr>cc_connect = connect, cc_defaultConnectorId = defaultConnectorId, cc_workspaceId = workspaceId\<rparr>"

section \<open>Publishing\<close>

text \<open>\<open>events.map((event) => event.idempotency_key)\<close> on the objects that were just built.\<close>

definition wire_key :: "(jstr \<times> jsval) list \<Rightarrow> jstr" where
  "wire_key event = (case own_prop event (lit ''idempotency_key'') of JStr s \<Rightarrow> s | _ \<Rightarrow> [])"

definition publish_body :: "jstr \<Rightarrow> (jstr \<times> jsval) list list \<Rightarrow> jsval" where
  "publish_body connectorId events =
     JObj [(lit ''connector_id'', JStr connectorId), (lit ''events'', JArr (map JObj events))]"

definition cdc_publishWireEvents ::
    "'msg cdc_client \<Rightarrow> jstr \<Rightarrow> (jstr \<times> jsval) list list \<Rightarrow> request_options \<Rightarrow> request_script \<Rightarrow>
     (thrown + event_batch_response) \<times> effect list" where
  "cdc_publishWireEvents c connectorId events options script =
     (case publishCdcEvents (cc_connect c) (publish_body connectorId events) options script of
        (Inl e, fx) \<Rightarrow> (Inl e, fx)
      | (Inr response, fx) \<Rightarrow>
          (batchResponse (publish_view (rp_body response)) (map wire_key events) (rp_requestId response),
           fx))"

definition cdc_recordToWire :: "heap \<Rightarrow> cdc_record_event \<Rightarrow> thrown + (jstr \<times> jsval) list" where
  "cdc_recordToWire h event =
     (case event of
        CdcModern input \<Rightarrow> cdc_modernEventToWire h input
      | CdcLegacy input \<Rightarrow> cdc_legacyEventToWire h input)"

definition cdc_record ::
    "'msg cdc_client \<Rightarrow> heap \<Rightarrow> cdc_record_input \<Rightarrow> request_options \<Rightarrow> request_script \<Rightarrow>
     (thrown + event_record_response) \<times> effect list" where
  "cdc_record c h input options script =
     (case bindE (requiredConnectorId (orOption (cri_connectorId input) (cc_defaultConnectorId c)))
              (\<lambda>connectorId. bindE (cdc_recordToWire h (cri_event input)) (\<lambda>event.
                Inr (connectorId, event))) of
        Inl e \<Rightarrow> (Inl e, [])
      | Inr (connectorId, event) \<Rightarrow>
          (case cdc_publishWireEvents c connectorId [event] options script of
             (r, fx) \<Rightarrow> (bindE r singleEventResponse, fx)))"

definition cdc_publishBatch ::
    "'msg cdc_client \<Rightarrow> heap \<Rightarrow> cdc_batch_input \<Rightarrow> request_options \<Rightarrow> request_script \<Rightarrow>
     (thrown + event_batch_response) \<times> effect list" where
  "cdc_publishBatch c h input options script =
     (case thenE (validateBatchSize (cbi_events input))
              (bindE (requiredConnectorId (orOption (cbi_connectorId input) (cc_defaultConnectorId c)))
                (\<lambda>connectorId. bindE (mapE (cdc_modernEventToWire h) (cbi_events input)) (\<lambda>events.
                  Inr (connectorId, events)))) of
        Inl e \<Rightarrow> (Inl e, [])
      | Inr (connectorId, events) \<Rightarrow> cdc_publishWireEvents c connectorId events options script)"

section \<open>Listing\<close>

definition cdc_listRequest :: "'msg cdc_client \<Rightarrow> cdc_list_input \<Rightarrow> thrown + jsval" where
  "cdc_listRequest c input =
     bindE (normalizedActor (cq_actor input)) (\<lambda>actor.
     bindE (optionalText (orOption (cq_connectorId input) (cc_defaultConnectorId c)) 128) (\<lambda>connector_id.
     bindE (optionalText (cq_entityType input) 256) (\<lambda>entity_type.
     bindE (optionalId (cq_entityId input) (Some 1024)) (\<lambda>entity_id.
     bindE (ingestionPageSize (cq_limit input)) (\<lambda>limit.
     bindE (actorPrincipalField actor) (\<lambda>actor_principal.
     bindE (optionalText (cq_ingesterPrincipal input) 512) (\<lambda>ingested_by.
     bindE (occurredAt (cq_occurredAtFrom input)) (\<lambda>occurred_from.
     bindE (occurredAt (cq_occurredAtTo input)) (\<lambda>occurred_to.
     bindE (optionalText (cq_sourceSystem input) 256) (\<lambda>source_system.
     bindE (optionalText (cq_streamName input) 256) (\<lambda>stream_name.
     bindE (optionalText (cq_cursor input) 2048) (\<lambda>page_cursor.
       Inr (JObj (compactRecord
         [(lit ''workspace_id'', JStr (cc_workspaceId c)), (lit ''connector_id'', opt_str connector_id),
          (lit ''entity_type'', opt_str entity_type), (lit ''entity_id'', opt_str entity_id),
          (lit ''limit'', JNum (num limit)), (lit ''actor_principal'', opt_str actor_principal),
          (lit ''ingested_by_principal'', opt_str ingested_by),
          (lit ''occurred_at_from'', opt_str occurred_from),
          (lit ''occurred_at_to'', opt_str occurred_to),
          (lit ''source_system'', opt_str source_system), (lit ''stream_name'', opt_str stream_name),
          (lit ''page_cursor'', opt_str page_cursor)]))))))))))))))"

text \<open>\<open>response.body.events ?? []\<close>; the protocol layer has checked that the events are objects.\<close>

definition listed_events :: "jsval \<Rightarrow> (jstr \<times> jsval) list list" where
  "listed_events body =
     (case own_prop (orElse (object_props body) []) (lit ''events'') of
        JArr events \<Rightarrow> map (\<lambda>e. orElse (object_props e) []) events
      | _ \<Rightarrow> [])"

definition cdc_page :: "jstr \<Rightarrow> rpc_response \<Rightarrow> thrown + cdc_read_event page" where
  "cdc_page workspaceId response =
     bindE (optionalListText (own_prop (orElse (object_props (rp_body response)) [])
              (lit ''next_page_cursor'')) 2048 (rp_requestId response)) (\<lambda>nextCursor.
     bindE (mapE (\<lambda>event. cdcEventFromWire event workspaceId (rp_requestId response))
              (listed_events (rp_body response))) (\<lambda>events.
       Inr \<lparr>pg_requestId = rp_requestId response, pg_events = events, pg_nextCursor = nextCursor\<rparr>))"

definition cdc_list ::
    "'msg cdc_client \<Rightarrow> cdc_list_input \<Rightarrow> request_options \<Rightarrow> request_script \<Rightarrow>
     (thrown + cdc_read_event page) \<times> effect list" where
  "cdc_list c input options script =
     (case cdc_listRequest c input of
        Inl e \<Rightarrow> (Inl e, [])
      | Inr req \<Rightarrow>
          (case listCdcEvents (cc_connect c) req options script of
             (Inl e, fx) \<Rightarrow> (Inl e, fx)
           | (Inr response, fx) \<Rightarrow> (cdc_page (cc_workspaceId c) response, fx)))"

section \<open>Iterating\<close>

text \<open>The snapshot of the filters: a \<open>Date\<close> becomes its text once, at the start.\<close>

definition cdc_filters :: "cdc_list_input \<Rightarrow> thrown + cdc_list_input" where
  "cdc_filters input =
     bindE (occurredAt (cq_occurredAtFrom input)) (\<lambda>occurred_from.
     bindE (occurredAt (cq_occurredAtTo input)) (\<lambda>occurred_to.
       Inr (input\<lparr>cq_occurredAtFrom := map_option TimeText occurred_from,
                  cq_occurredAtTo := map_option TimeText occurred_to\<rparr>)))"

text \<open>One round asks for the page under the cursor; \<open>scripts n\<close> is the environment of the
  \<open>n\<close>-th request.\<close>

definition cdc_fetch ::
    "'msg cdc_client \<Rightarrow> cdc_list_input \<Rightarrow> request_options \<Rightarrow> (nat \<Rightarrow> request_script) \<Rightarrow>
     cdc_read_event page_fetch" where
  "cdc_fetch c filters options scripts n cursor =
     cdc_list c (filters\<lparr>cq_cursor := cursor\<rparr>) options (scripts n)"

definition cdc_iterate ::
    "'msg cdc_client \<Rightarrow> cdc_list_input \<Rightarrow> request_options \<Rightarrow> (nat \<Rightarrow> request_script) \<Rightarrow>
     cdc_read_event list \<times> thrown option \<times> effect list" where
  "cdc_iterate c input options scripts =
     (case cdc_filters input of
        Inl e \<Rightarrow> ([], Some e, [])
      | Inr filters \<Rightarrow> iterate_pages (cdc_fetch c filters options scripts) (cq_cursor filters))"

end
