(* ===== verification/Audit_Client.thy ===== *)
theory Audit_Client
  imports Cdc_Client
begin

text \<open>
  \<open>AuditClient\<close> (src/src/audit.ts): the operations of the CDC client for audit events, with the
  resource, outcome and origin filters and the deprecated \<open>trail\<close>.
\<close>

section \<open>State and inputs\<close>

record 'msg audit_client =
  ac_connect :: "'msg connect_client"
  ac_defaultConnectorId :: "jstr option"
  ac_workspaceId :: jstr

datatype audit_record_event = AuditModern audit_event_input | AuditLegacy legacy_audit_input

record audit_record_input =
  ari_connectorId :: "jstr option"
  ari_event :: audit_record_event

record audit_batch_input =
  abi_connectorId :: "jstr option"
  abi_events :: "audit_event_input list"

record audit_list_input =
  aq_connectorId :: "jstr option"
  aq_resourceType :: "jstr option"
  aq_resourceId :: jsval
  aq_action :: "jstr option"
  aq_cursor :: "jstr option"
  aq_limit :: "jsnum option"
  aq_actor :: "actor_ref option"
  aq_ingesterPrincipal :: "jstr option"
  aq_sourceSystem :: "jstr option"
  aq_occurredAtFrom :: "timestamp_input option"
  aq_occurredAtTo :: "timestamp_input option"
  aq_origin :: "jstr option"
  aq_outcome :: "jstr option"

record audit_trail_input =
  at_connectorId :: "jstr option"
  at_resourceType :: "jstr option"
  at_resourceId :: jsval
  at_action :: "jstr option"
  at_cursor :: "jstr option"
  at_limit :: "jsnum option"
  at_pageSize :: "jsnum option"
  at_actor :: "actor_ref option"
  at_ingesterPrincipal :: "jstr option"
  at_origin :: "jstr option"
  at_outcome :: "jstr option"

definition newAuditClient :: "'msg connect_client \<Rightarrow> jstr \<Rightarrow> jstr option \<Rightarrow> 'msg audit_client" where
  "newAuditClient connect workspaceId defaultConnectorId =
     \<lparr>ac_connect = connect, ac_defaultConnectorId = defaultConnectorId, ac_workspaceId = workspaceId\<rparr>"

section \<open>Publishing\<close>

definition audit_publishWireEvents ::
    "'msg audit_client \<Rightarrow> jstr \<Rightarrow> (jstr \<times> jsval) list list \<Rightarrow> request_options \<Rightarrow> request_script \<Rightarrow>
     (thrown + event_batch_response) \<times> effect list" where
  "audit_publishWireEvents c connectorId events options script =
     (case publishAuditEvents (ac_connect c) (publish_body connectorId events) options script of
        (Inl e, fx) \<Rightarrow> (Inl e, fx)
      | (Inr response, fx) \<Rightarrow>
          (batchResponse (publish_view (rp_body response)) (map wire_key events) (rp_requestId response),
           fx))"

definition audit_recordToWire :: "heap \<Rightarrow> audit_record_event \<Rightarrow> thrown + (jstr \<times> jsval) list" where
  "audit_recordToWire h event =
     (case event of
        AuditModern input \<Rightarrow> audit_modernEventToWire h input
      | AuditLegacy input \<Rightarrow> audit_legacyEventToWire h input)"

definition audit_record ::
    "'msg audit_client \<Rightarrow> heap \<Rightarrow> audit_record_input \<Rightarrow> request_options \<Rightarrow> request_script \<Rightarrow>
     (thrown + event_record_response) \<times> effect list" where
  "audit_record c h input options script =
     (case bindE (requiredConnectorId (orOption (ari_connectorId input) (ac_defaultConnectorId c)))
              (\<lambda>connectorId. bindE (audit_recordToWire h (ari_event input)) (\<lambda>event.
                Inr (connectorId, event))) of
        Inl e \<Rightarrow> (Inl e, [])
      | Inr (connectorId, event) \<Rightarrow>
          (case audit_publishWireEvents c connectorId [event] options script of
             (r, fx) \<Rightarrow> (bindE r singleEventResponse, fx)))"

definition audit_publishBatch ::
    "'msg audit_client \<Rightarrow> heap \<Rightarrow> audit_batch_input \<Rightarrow> request_options \<Rightarrow> request_script \<Rightarrow>
     (thrown + event_batch_response) \<times> effect list" where
  "audit_publishBatch c h input options script =
     (case thenE (validateBatchSize (abi_events input))
              (bindE (requiredConnectorId (orOption (abi_connectorId input) (ac_defaultConnectorId c)))
                (\<lambda>connectorId. bindE (mapE (audit_modernEventToWire h) (abi_events input)) (\<lambda>events.
                  Inr (connectorId, events)))) of
        Inl e \<Rightarrow> (Inl e, [])
      | Inr (connectorId, events) \<Rightarrow> audit_publishWireEvents c connectorId events options script)"

section \<open>Listing\<close>

definition audit_listRequest :: "'msg audit_client \<Rightarrow> audit_list_input \<Rightarrow> thrown + jsval" where
  "audit_listRequest c input =
     bindE (optionalText (aq_resourceType input) 256) (\<lambda>resourceType.
     bindE (optionalId (aq_resourceId input) (Some 1024)) (\<lambda>resourceId.
     thenE (failIf ((resourceType = None) \<noteq> (resourceId = None)) (medErr MEDALLION_INVALID_AUDIT_FILTER))
     (bindE (normalizedActor (aq_actor input)) (\<lambda>sourceActor.
      bindE (actorPrincipalField sourceActor) (\<lambda>sourceActorPrincipal.
      bindE (optionalText (orOption (aq_connectorId input) (ac_defaultConnectorId c)) 128) (\<lambda>connector_id.
      bindE (ingestionPageSize (aq_limit input)) (\<lambda>limit.
      bindE (optionalText (aq_ingesterPrincipal input) 512) (\<lambda>ingested_by.
      bindE (optionalText (aq_action input) 256) (\<lambda>action.
      bindE (occurredAt (aq_occurredAtFrom input)) (\<lambda>occurred_from.
      bindE (occurredAt (aq_occurredAtTo input)) (\<lambda>occurred_to.
      bindE (optionalText (aq_sourceSystem input) 256) (\<lambda>source_system.
      bindE (mapOptE auditOrigin (aq_origin input)) (\<lambda>origin.
      bindE (mapOptE (\<lambda>v. auditOutcome (Some v)) (aq_outcome input)) (\<lambda>outcome.
      bindE (optionalText (aq_cursor input) 2048) (\<lambda>page_cursor.
        Inr (JObj (compactRecord
          [(lit ''workspace_id'', JStr (ac_workspaceId c)), (lit ''connector_id'', opt_str connector_id),
           (lit ''resource_type'', opt_str resourceType), (lit ''resource_id'', opt_str resourceId),
           (lit ''limit'', JNum (num limit)), (lit ''actor_principal'', opt_str sourceActorPrincipal),
           (lit ''ingested_by_principal'', opt_str ingested_by), (lit ''action'', opt_str action),
           (lit ''occurred_at_from'', opt_str occurred_from),
           (lit ''occurred_at_to'', opt_str occurred_to),
           (lit ''source_system'', opt_str source_system), (lit ''origin'', opt_str origin),
           (lit ''outcome'', opt_str outcome), (lit ''page_cursor'', opt_str page_cursor)])))))))))))))))))"

definition audit_page :: "jstr \<Rightarrow> rpc_response \<Rightarrow> thrown + audit_read_event page" where
  "audit_page workspaceId response =
     bindE (mapE (\<lambda>event. auditEventFromWire event workspaceId (rp_requestId response))
              (listed_events (rp_body response))) (\<lambda>events.
     bindE (optionalListText (own_prop (orElse (object_props (rp_body response)) [])
              (lit ''next_page_cursor'')) 2048 (rp_requestId response)) (\<lambda>nextCursor.
       Inr \<lparr>pg_requestId = rp_requestId response, pg_events = events, pg_nextCursor = nextCursor\<rparr>))"

definition audit_list ::
    "'msg audit_client \<Rightarrow> audit_list_input \<Rightarrow> request_options \<Rightarrow> request_script \<Rightarrow>
     (thrown + audit_read_event page) \<times> effect list" where
  "audit_list c input options script =
     (case audit_listRequest c input of
        Inl e \<Rightarrow> (Inl e, [])
      | Inr req \<Rightarrow>
          (case listAuditEvents (ac_connect c) req options script of
             (Inl e, fx) \<Rightarrow> (Inl e, fx)
           | (Inr response, fx) \<Rightarrow> (audit_page (ac_workspaceId c) response, fx)))"

definition audit_trail ::
    "'msg audit_client \<Rightarrow> audit_trail_input \<Rightarrow> request_options \<Rightarrow> request_script \<Rightarrow>
     (thrown + audit_read_event page) \<times> effect list" where
  "audit_trail c input options script =
     audit_list c
       \<lparr>aq_connectorId = at_connectorId input, aq_resourceType = at_resourceType input,
        aq_resourceId = at_resourceId input, aq_action = at_action input, aq_cursor = at_cursor input,
        aq_limit = orOption (at_limit input) (at_pageSize input), aq_actor = at_actor input,
        aq_ingesterPrincipal = at_ingesterPrincipal input, aq_sourceSystem = None,
        aq_occurredAtFrom = None, aq_occurredAtTo = None, aq_origin = at_origin input,
        aq_outcome = at_outcome input\<rparr> options script"

section \<open>Iterating\<close>

definition audit_filters :: "audit_list_input \<Rightarrow> thrown + audit_list_input" where
  "audit_filters input =
     bindE (occurredAt (aq_occurredAtFrom input)) (\<lambda>occurred_from.
     bindE (occurredAt (aq_occurredAtTo input)) (\<lambda>occurred_to.
       Inr (input\<lparr>aq_occurredAtFrom := map_option TimeText occurred_from,
                  aq_occurredAtTo := map_option TimeText occurred_to\<rparr>)))"

definition audit_fetch ::
    "'msg audit_client \<Rightarrow> audit_list_input \<Rightarrow> request_options \<Rightarrow> (nat \<Rightarrow> request_script) \<Rightarrow>
     audit_read_event page_fetch" where
  "audit_fetch c filters options scripts n cursor =
     audit_list c (filters\<lparr>aq_cursor := cursor\<rparr>) options (scripts n)"

definition audit_iterate ::
    "'msg audit_client \<Rightarrow> audit_list_input \<Rightarrow> request_options \<Rightarrow> (nat \<Rightarrow> request_script) \<Rightarrow>
     audit_read_event list \<times> thrown option \<times> effect list" where
  "audit_iterate c input options scripts =
     (case audit_filters input of
        Inl e \<Rightarrow> ([], Some e, [])
      | Inr filters \<Rightarrow> iterate_pages (audit_fetch c filters options scripts) (aq_cursor filters))"

end
