(* ===== verification/Client_Preflight.thy ===== *)
theory Client_Preflight
  imports Payload_Roundtrip Cdc_Client Audit_Client
begin

text \<open>
  The two validations of a published batch, one after the other: the clients (src/src/cdc.ts and
  src/src/audit.ts) check the caller's events while they translate them, and the protocol layer
  (src/src/protocol.ts with src/src/protocol-preflight.ts) renames the members of the result and
  checks it again. The second check has nothing left to refuse but what needs the whole batch or
  the range of a timestamp.
\<close>

section \<open>Members renamed by the descriptor\<close>

text \<open>The descriptor knows the members as plain fields under their JSON names.\<close>

definition renames :: "descriptor \<Rightarrow> jstr \<Rightarrow> (jstr \<times> jstr) list \<Rightarrow> bool" where
  "renames ds t names \<longleftrightarrow>
     list_all (\<lambda>(k, j). case find_field (ds_messages ds t) k of
         None \<Rightarrow> False
       | Some f \<Rightarrow> df_jsonName f = j \<and> df_kind f = OtherField) names"

definition renaming :: "(jstr \<times> jstr) list \<Rightarrow> bool" where
  "renaming names \<longleftrightarrow>
     distinct (map fst names) \<and> distinct (map snd names) \<and> lit ''__proto__'' \<notin> set (map snd names)"

text \<open>What the check sees of the renamed members.\<close>

definition renamed :: "(jstr \<times> jstr) list \<Rightarrow> (jstr \<times> jsval) list \<Rightarrow> (jstr \<times> jsval) list \<Rightarrow> bool" where
  "renamed names ps qs \<longleftrightarrow>
     (\<forall>n \<in> set names. own_prop qs (snd n) = own_prop ps (fst n)) \<and>
     (\<forall>j. j \<notin> set (map snd names) \<longrightarrow> own_prop qs j = JUndef)"

lemma assign_all_distinct:
  assumes "distinct (map fst es)" "lit ''__proto__'' \<notin> set (map fst es)"
  shows "assign_all es = es"
proof -
  have "foldl (\<lambda>acc (k, v). if k = lit ''__proto__'' then acc else set_prop acc k v) acc es = acc @ es"
    if "distinct (map fst (acc @ es))" "lit ''__proto__'' \<notin> set (map fst es)" for acc and es :: "(jstr \<times> jsval) list"
    using that
  proof (induction es arbitrary: acc)
    case (Cons e es)
    then have "fst e \<notin> fst ` set acc" "fst e \<noteq> lit ''__proto__''" by auto
    with Cons show ?case by (simp add: set_prop_fresh split_def)
  qed simp
  from this [of "[]" es] assms show ?thesis by (simp add: assign_all_def)
qed

lemma normalize_renames:
  assumes "renames ds t names" "renaming names" "distinct (map fst ps)" "set (map fst ps) \<subseteq> set (map fst names)"
  obtains qs where "normalizeProtoJson ds t (JObj ps) = JObj qs" "renamed names ps qs"
proof -
  define R where "R = (\<lambda>k. the (map_of names k))"
  have R: "(k, R k) \<in> set names" if "k \<in> set (map fst names)" for k
  proof -
    from that obtain j where "map_of names k = Some j" by (cases "map_of names k") (auto simp: map_of_eq_None_iff)
    then show ?thesis by (simp add: R_def map_of_SomeD)
  qed
  have name: "R (fst n) = snd n" if "n \<in> set names" for n
  proof -
    have "map_of names (fst n) = Some (snd n)"
      using that assms(2) by (intro map_of_is_SomeI) (simp_all add: renaming_def)
    then show ?thesis by (simp add: R_def)
  qed
  have inj: "k = k'" if "R k = R k'" "k \<in> set (map fst names)" "k' \<in> set (map fst names)" for k k'
  proof -
    have "inj_on snd (set names)" using assms(2) by (simp add: renaming_def distinct_map)
    then have "(k, R k) = (k', R k')" by (rule inj_onD) (use R [OF that(2)] R [OF that(3)] that(1) in simp_all)
    then show ?thesis by simp
  qed
  let ?ps = "filter (\<lambda>p. snd p \<noteq> JUndef) ps"
  let ?qs = "map (\<lambda>p. (R (fst p), snd p)) ?ps"
  have keys: "fst p \<in> set (map fst names)" if "p \<in> set ?ps" for p using that assms(4) by auto
  have entry: "(case find_field (ds_messages ds t) (fst p) of None \<Rightarrow> p
      | Some f \<Rightarrow> (df_jsonName f, normalizeFieldValue ds (df_kind f) (snd p))) = (R (fst p), snd p)"
    if "p \<in> set ?ps" for p
    using assms(1) R [OF keys [OF that]] by (auto simp: renames_def list_all_iff split: option.splits)
  have members: "map (\<lambda>p. case find_field (ds_messages ds t) (fst p) of None \<Rightarrow> p
      | Some f \<Rightarrow> (df_jsonName f, normalizeFieldValue ds (df_kind f) (snd p))) ?ps = ?qs"
    using entry by (intro map_cong refl)
  have "distinct (map fst ?ps)" using assms(3) by (simp add: distinct_map_filter)
  then have "distinct (map R (map fst ?ps))" using inj keys by (subst distinct_map) (auto intro!: inj_onI)
  then have d: "distinct (map fst ?qs)" by (simp add: comp_def)
  have "lit ''__proto__'' \<notin> set (map fst ?qs)"
    using keys R assms(2) by (force simp: renaming_def)
  with d have "assign_all ?qs = ?qs" by (rule assign_all_distinct)
  then have n: "normalizeProtoJson ds t (JObj ps) = JObj ?qs" by (simp only: normalizeProtoJson.simps members)
  have pick: "own_prop (map (\<lambda>p. (R (fst p), snd p)) xs) (R k) = own_prop xs k"
    if "set xs \<subseteq> set ?ps" "k \<in> set (map fst names)" for xs k
    using that(1)
  proof (induction xs)
    case (Cons x xs)
    then have "R (fst x) = R k \<longleftrightarrow> fst x = k" using inj [of "fst x" k] keys [of x] that(2) by auto
    with Cons show ?case by (cases x) simp
  qed simp
  have "own_prop ?qs (snd n) = own_prop ps (fst n)" if "n \<in> set names" for n
    using pick [of ?ps "fst n"] name [OF that] that own_prop_compact [OF assms(3), of "fst n"]
    by (simp add: compactRecord_def)
  moreover have "own_prop ?qs j = JUndef" if "j \<notin> set (map snd names)" for j
    using that keys R by (intro own_prop_not_has) (force simp: hasOwn_def)
  ultimately have "renamed names ps ?qs" by (simp add: renamed_def)
  with n show ?thesis by (rule that)
qed

declare normalizeProtoJson.simps [simp del]

section \<open>A batch of either family\<close>

text \<open>
  What the families share. The client translates an event to the wire or refuses it; the check of
  the protocol layer decides the renamed event. The contract: the translated members are among
  those that the descriptor renames, and of what the check looks at only the timestamp is open.
\<close>

definition publish_renames :: "descriptor \<Rightarrow> jstr \<Rightarrow> jstr \<Rightarrow> (jstr \<times> jstr) list \<Rightarrow> bool" where
  "publish_renames ds t et names \<longleftrightarrow>
     renames ds t [(lit ''connector_id'', lit ''connectorId'')] \<and>
     (case find_field (ds_messages ds t) (lit ''events'') of
        None \<Rightarrow> False
      | Some f \<Rightarrow> df_jsonName f = lit ''events'' \<and> df_kind f = MessageList et) \<and>
     renames ds et names"

lemma trim_solid: "trim s \<noteq> [] \<Longrightarrow> trim (trim s) \<noteq> []"
proof -
  let ?r = "dropWhile is_js_space (rev (dropWhile is_js_space s))"
  assume "trim s \<noteq> []"
  then have "?r \<noteq> []" by (simp add: trim_def)
  then have "\<not> is_js_space (hd ?r)" "hd ?r \<in> set (trim s)" by (rule hd_dropWhile, simp add: trim_def)
  then show ?thesis by (auto simp: trim_eq_Nil_iff list_all_iff)
qed

lemma connector_ok: "requiredConnectorId v = Inr c \<Longrightarrow> text_ok 128 (JStr c)"
  by (auto simp: requiredConnectorId_def boundedText_def exceeds_bytes_def text_ok_def MAX_CONNECTOR_ID_BYTES_def
      trim_solid split: option.splits if_splits)

locale event_family =
  fixes wire :: "'i \<Rightarrow> thrown + (jstr \<times> jsval) list"
    and sane :: "'i \<Rightarrow> bool"
    and names :: "(jstr \<times> jstr) list"
    and ok :: "jsval \<Rightarrow> bool"
  assumes renaming: "renaming names"
    and key_name: "(lit ''idempotency_key'', lit ''idempotencyKey'') \<in> set names"
    and wire_members: "wire i = Inr ev \<Longrightarrow> distinct (map fst ev) \<and> set (map fst ev) \<subseteq> set (map fst names)"
    and wire_checked: "wire i = Inr ev \<Longrightarrow> sane i \<Longrightarrow> renamed names ev qs \<Longrightarrow>
      ok (JObj qs) \<longleftrightarrow> time_ok (own_prop ev (lit ''occurred_at''))"
begin

lemma event_checked:
  assumes "wire i = Inr ev" "sane i" "renames ds et names"
  shows "ok (normalizeProtoJson ds et (JObj ev)) \<longleftrightarrow> time_ok (own_prop ev (lit ''occurred_at''))"
    and "event_key (normalizeProtoJson ds et (JObj ev)) = wire_key ev"
proof -
  note members = wire_members [OF assms(1)]
  from normalize_renames [OF assms(3) renaming, of ev] members obtain qs where
    qs: "normalizeProtoJson ds et (JObj ev) = JObj qs" "renamed names ev qs" by blast
  show "ok (normalizeProtoJson ds et (JObj ev)) \<longleftrightarrow> time_ok (own_prop ev (lit ''occurred_at''))"
    unfolding qs(1) by (rule wire_checked [OF assms(1,2) qs(2)])
  have "own_prop qs (lit ''idempotencyKey'') = own_prop ev (lit ''idempotency_key'')"
    using qs(2) key_name by (force simp: renamed_def)
  then show "event_key (normalizeProtoJson ds et (JObj ev)) = wire_key ev"
    by (simp add: qs(1) event_key_def wire_key_def)
qed

lemma batch_checked:
  assumes "publish_renames ds t et names" "validateBatchSize inputs = Inr ()" "requiredConnectorId v = Inr c"
    and "mapE wire inputs = Inr events" "list_all sane inputs"
  shows "\<exists>request. normalizeProtoJson ds t (publish_body c events) = JObj request \<and>
    (publish_ok ok request \<longleftrightarrow>
      distinct (map wire_key events) \<and> list_all (\<lambda>ev. time_ok (own_prop ev (lit ''occurred_at''))) events)"
proof -
  let ?norm = "\<lambda>ev. normalizeProtoJson ds et (JObj ev)"
  from assms(1) obtain f g where f: "find_field (ds_messages ds t) (lit ''connector_id'') = Some f"
      "df_jsonName f = lit ''connectorId''" "df_kind f = OtherField"
    and g: "find_field (ds_messages ds t) (lit ''events'') = Some g" "df_jsonName g = lit ''events''"
      "df_kind g = MessageList et"
    and names: "renames ds et names"
    by (auto simp: publish_renames_def renames_def split: option.splits)
  let ?request = "[(lit ''connectorId'', JStr c), (lit ''events'', JArr (map ?norm events))]"
  have members: "own_prop ?request (lit ''connectorId'') = JStr c" "own_prop ?request (lit ''events'') = JArr (map ?norm events)"
    by (simp_all add: lit_eq_iff)
  have n: "normalizeProtoJson ds t (publish_body c events) = JObj ?request"
    by (simp add: publish_body_def normalizeProtoJson.simps(1) [of ds t] f g assign_all_def lit_eq_iff comp_def)
  have each: "(ok (?norm ev) \<longleftrightarrow> time_ok (own_prop ev (lit ''occurred_at''))) \<and> event_key (?norm ev) = wire_key ev"
    if "ev \<in> set events" for ev
    using mapE_set_dest [OF assms(4) that] assms(5) event_checked [OF _ _ names] by (auto simp: list_all_iff)
  have "length events = length inputs" by (rule mapE_length [OF assms(4)])
  then have size: "1 \<le> length events" "length events \<le> 1000"
    using assms(2) by (auto simp: validateBatchSize_def MAX_INGESTION_BATCH_SIZE_def failIf_def Suc_le_eq split: if_splits)
  have keys: "map event_key (map ?norm events) = map wire_key events" using each by simp
  have oks: "list_all ok (map ?norm events) \<longleftrightarrow> list_all (\<lambda>ev. time_ok (own_prop ev (lit ''occurred_at''))) events"
    using each by (auto simp: list_all_iff)
  have "publish_ok ok ?request \<longleftrightarrow>
      distinct (map wire_key events) \<and> list_all (\<lambda>ev. time_ok (own_prop ev (lit ''occurred_at''))) events"
    using size connector_ok [OF assms(3)] unfolding publish_ok_def members jsval.case keys oks by auto
  with n show ?thesis by blast
qed

end

section \<open>The two families\<close>

definition shared_names :: "(jstr \<times> jstr) list" where
  "shared_names = map (\<lambda>(k, j). (lit k, lit j))
     [(''source_event_id'', ''sourceEventId''), (''idempotency_key'', ''idempotencyKey''),
      (''actor_principal'', ''actorPrincipal''), (''payload_json'', ''payloadJson''),
      (''occurred_at'', ''occurredAt''), (''description'', ''description'')]"

definition cdc_names :: "(jstr \<times> jstr) list" where
  "cdc_names = map (\<lambda>(k, j). (lit k, lit j))
     [(''stream_name'', ''streamName''), (''entity_type'', ''entityType''), (''entity_id'', ''entityId''),
      (''operation'', ''operation'')] @ shared_names"

definition audit_names :: "(jstr \<times> jstr) list" where
  "audit_names = map (\<lambda>(k, j). (lit k, lit j))
     [(''resource_type'', ''resourceType''), (''resource_id'', ''resourceId''), (''action'', ''action''),
      (''outcome'', ''outcome'')] @ shared_names"

lemma payload_text_ok:
  assumes "rawOrJsonString h v raw = Inr t" "js_graph h v"
  shows "payload_ok (JStr t)"
proof (cases raw)
  case None
  with assms(1) have "jsonString h v = Inr t" by (simp add: rawOrJsonString_def)
  from printed_parses [OF this assms(2)] show ?thesis by (auto simp: payload_ok_def)
next
  case (Some s)
  with assms(1) have "json_parse t \<noteq> None" by (auto simp: rawOrJsonString_def split: if_splits option.splits)
  moreover have "json_parse [] = None" by (simp add: json_parse_def skip_ws_def)
  ultimately show ?thesis by (auto simp: payload_ok_def)
qed

lemma key_text_ok: "requiredIdempotencyKey v (Some 512) = Inr k \<Longrightarrow> key_ok (JStr k)"
  using key_ok_iff [of v k] by auto

lemma enum_text_ok:
  "cdcOperation v = Inr t \<Longrightarrow> enum_ok CDC_OPERATIONS (JStr t)" "auditOutcome u = Inr s \<Longrightarrow> enum_ok AUDIT_OUTCOMES (JStr s)"
  by (auto simp: cdcOperation_def auditOutcome_def enum_ok_def text_or_empty_def CDC_OPERATIONS_def AUDIT_OUTCOMES_def
      split: if_splits)

lemma text_field_ok:
  "requiredText v (Some n) = Inr s \<Longrightarrow> text_ok n (JStr s)" "requiredId u (Some n) = Inr s \<Longrightarrow> text_ok n (JStr s)"
  by (auto simp: requiredText_iff requiredId_iff text_ok_def exceeds_bytes_def)

lemma optional_field_ok:
  "optionalText d n = Inr a \<Longrightarrow> opt_text_ok n (opt_str a)" "optionalId u (Some n) = Inr b \<Longrightarrow> opt_text_ok n (opt_str b)"
  "actorPrincipalField actor = Inr c \<Longrightarrow> opt_text_ok 512 (opt_str c)"
proof -
  show "optionalText d n = Inr a \<Longrightarrow> opt_text_ok n (opt_str a)"
    by (cases a) (auto simp: optionalText_iff opt_text_ok_def split: option.splits if_splits)
  show "optionalId u (Some n) = Inr b \<Longrightarrow> opt_text_ok n (opt_str b)"
    by (cases b) (auto simp: opt_text_ok_def dest: optionalId_ok)
  show "actorPrincipalField actor = Inr c \<Longrightarrow> opt_text_ok 512 (opt_str c)"
    by (cases c) (auto simp: opt_text_ok_def dest: actorPrincipal_ok)
qed

lemmas field_ok = text_field_ok optional_field_ok enum_text_ok key_text_ok payload_text_ok

lemma compact_members: "distinct (map fst ps) \<Longrightarrow> distinct (map fst (compactRecord ps)) \<and>
    set (map fst (compactRecord ps)) \<subseteq> set (map fst ps)"
  by (auto simp: compactRecord_def distinct_map_filter)

lemma names_renaming: "renaming cdc_names" "renaming audit_names"
  by (simp_all add: renaming_def cdc_names_def audit_names_def shared_names_def lit_eq_iff)

lemma no_default: "\<not> hasNonDefaultValue JUndef"
  by (simp add: hasNonDefaultValue_def)

lemma cdc_wire_members:
  "distinct (map fst (cdc_wire a b c d e f g p q r)) \<and>
   set (map fst (cdc_wire a b c d e f g p q r)) \<subseteq> set (map fst cdc_names)"
  unfolding cdc_wire_def
  by (rule conj_forward [OF compact_members])
     (auto simp: lit_eq_iff cdc_names_def shared_names_def elim!: subset_trans)

interpretation cdc_family: event_family "cdc_modernEventToWire h" "\<lambda>i. js_graph h (ef_payload i)" cdc_names cdc_event_ok
  for h
proof
  show "renaming cdc_names" by (rule names_renaming)
  show "(lit ''idempotency_key'', lit ''idempotencyKey'') \<in> set cdc_names"
    by (simp add: cdc_names_def shared_names_def)
  show "distinct (map fst ev) \<and> set (map fst ev) \<subseteq> set (map fst cdc_names)"
    if "cdc_modernEventToWire h i = Inr ev" for i ev
  proof -
    from that obtain a b c d e f g p q r where ev: "ev = cdc_wire a b c d e f g p q r"
      by (auto simp: cdc_modernEventToWire_def result_iff)
    show ?thesis unfolding ev by (rule cdc_wire_members)
  qed
  show "cdc_event_ok (JObj qs) \<longleftrightarrow> time_ok (own_prop ev (lit ''occurred_at''))"
    if "cdc_modernEventToWire h i = Inr ev" "js_graph h (ef_payload i)" "renamed cdc_names ev qs" for i ev qs
  proof -
    from that(1) obtain stream etype eid op source_id key actor_text payload time description actor where
      ev: "ev = cdc_wire stream etype eid op source_id key actor_text payload time description"
      and fields: "requiredText (opt_str (ci_streamName i)) (Some 256) = Inr stream"
        "requiredText (opt_str (ci_entityType i)) (Some 256) = Inr etype" "requiredId (ci_entityId i) (Some 1024) = Inr eid"
        "cdcOperation (ci_operation i) = Inr op" "optionalId (ef_sourceEventId i) (Some 1024) = Inr source_id"
        "requiredIdempotencyKey (ef_idempotencyKey i) (Some 512) = Inr key" "actorPrincipalField actor = Inr actor_text"
        "rawOrJsonString h (ef_payload i) (ef_payloadJson i) = Inr payload"
        "optionalText (ef_description i) 4096 = Inr description"
      by (auto simp: cdc_modernEventToWire_def result_iff)
    have wire: "own_prop ev k = own_prop [(lit ''stream_name'', JStr stream), (lit ''entity_type'', JStr etype),
        (lit ''entity_id'', JStr eid), (lit ''operation'', JStr op),
        (lit ''source_event_id'', opt_str source_id), (lit ''idempotency_key'', JStr key),
        (lit ''actor_principal'', opt_str actor_text), (lit ''payload_json'', JStr payload),
        (lit ''occurred_at'', opt_str time), (lit ''description'', opt_str description)] k" for k
      unfolding ev cdc_wire_def by (rule own_prop_compact) (simp add: lit_eq_iff)
    have "own_prop qs (snd n) = own_prop ev (fst n)" if "n \<in> set cdc_names" for n
      using that \<open>renamed cdc_names ev qs\<close> by (simp add: renamed_def)
    then have qs: "own_prop qs (lit ''streamName'') = JStr stream" "own_prop qs (lit ''entityType'') = JStr etype"
      "own_prop qs (lit ''entityId'') = JStr eid" "own_prop qs (lit ''operation'') = JStr op"
      "own_prop qs (lit ''sourceEventId'') = opt_str source_id" "own_prop qs (lit ''idempotencyKey'') = JStr key"
      "own_prop qs (lit ''actorPrincipal'') = opt_str actor_text" "own_prop qs (lit ''payloadJson'') = JStr payload"
      "own_prop qs (lit ''occurredAt'') = own_prop ev (lit ''occurred_at'')" "own_prop qs (lit ''description'') = opt_str description"
      by (fastforce simp: cdc_names_def shared_names_def wire lit_eq_iff)+
    have derived: "own_prop qs f = JUndef" if "f \<in> set cdc_derived_fields" for f
      using that \<open>renamed cdc_names ev qs\<close>
      by (auto simp: renamed_def cdc_derived_fields_def cdc_names_def shared_names_def lit_eq_iff)
    note checked = text_field_ok(1) [OF fields(1)] text_field_ok(1) [OF fields(2)] text_field_ok(2) [OF fields(3)]
      enum_text_ok(1) [OF fields(4)] optional_field_ok(2) [OF fields(5)] key_text_ok [OF fields(6)]
      optional_field_ok(3) [OF fields(7)] payload_text_ok [OF fields(8) that(2)] optional_field_ok(1) [OF fields(9)]
    show ?thesis
      by (simp add: cdc_event_ok_def event_ok_def qs derived list_all_iff no_default checked)
  qed
qed

lemma audit_wire_members:
  "distinct (map fst (audit_wire a b c d e f g p q r)) \<and>
   set (map fst (audit_wire a b c d e f g p q r)) \<subseteq> set (map fst audit_names)"
  unfolding audit_wire_def
  by (rule conj_forward [OF compact_members])
     (auto simp: lit_eq_iff audit_names_def shared_names_def elim!: subset_trans)

interpretation audit_family: event_family "audit_modernEventToWire h" "\<lambda>i. js_graph h (ef_payload i)" audit_names audit_event_ok
  for h
proof
  show "renaming audit_names" by (rule names_renaming)
  show "(lit ''idempotency_key'', lit ''idempotencyKey'') \<in> set audit_names"
    by (simp add: audit_names_def shared_names_def)
  show "distinct (map fst ev) \<and> set (map fst ev) \<subseteq> set (map fst audit_names)"
    if "audit_modernEventToWire h i = Inr ev" for i ev
  proof -
    from that obtain a b c d e f g p q r where ev: "ev = audit_wire a b c d e f g p q r"
      by (auto simp: audit_modernEventToWire_def result_iff)
    show ?thesis unfolding ev by (rule audit_wire_members)
  qed
  show "audit_event_ok (JObj qs) \<longleftrightarrow> time_ok (own_prop ev (lit ''occurred_at''))"
    if "audit_modernEventToWire h i = Inr ev" "js_graph h (ef_payload i)" "renamed audit_names ev qs" for i ev qs
  proof -
    from that(1) obtain rtype rid action outcome key actor_text payload time description source_id actor where
      ev: "ev = audit_wire rtype rid action outcome key actor_text payload time description source_id"
      and fields: "requiredText (opt_str (ai_resourceType i)) (Some 256) = Inr rtype"
        "requiredId (ai_resourceId i) (Some 1024) = Inr rid" "requiredText (opt_str (ai_action i)) (Some 256) = Inr action"
        "auditOutcome (ai_outcome i) = Inr outcome" "optionalId (ef_sourceEventId i) (Some 1024) = Inr source_id"
        "requiredIdempotencyKey (ef_idempotencyKey i) (Some 512) = Inr key" "actorPrincipalField actor = Inr actor_text"
        "rawOrJsonString h (ef_payload i) (ef_payloadJson i) = Inr payload"
        "optionalText (ef_description i) 4096 = Inr description"
      by (auto simp: audit_modernEventToWire_def result_iff)
    have wire: "own_prop ev k = own_prop [(lit ''resource_type'', JStr rtype), (lit ''resource_id'', JStr rid),
        (lit ''action'', JStr action), (lit ''outcome'', JStr outcome),
        (lit ''idempotency_key'', JStr key), (lit ''actor_principal'', opt_str actor_text),
        (lit ''payload_json'', JStr payload), (lit ''occurred_at'', opt_str time),
        (lit ''description'', opt_str description), (lit ''source_event_id'', opt_str source_id)] k" for k
      unfolding ev audit_wire_def by (rule own_prop_compact) (simp add: lit_eq_iff)
    have "own_prop qs (snd n) = own_prop ev (fst n)" if "n \<in> set audit_names" for n
      using that \<open>renamed audit_names ev qs\<close> by (simp add: renamed_def)
    then have qs: "own_prop qs (lit ''resourceType'') = JStr rtype" "own_prop qs (lit ''resourceId'') = JStr rid"
      "own_prop qs (lit ''action'') = JStr action" "own_prop qs (lit ''outcome'') = JStr outcome"
      "own_prop qs (lit ''sourceEventId'') = opt_str source_id" "own_prop qs (lit ''idempotencyKey'') = JStr key"
      "own_prop qs (lit ''actorPrincipal'') = opt_str actor_text" "own_prop qs (lit ''payloadJson'') = JStr payload"
      "own_prop qs (lit ''occurredAt'') = own_prop ev (lit ''occurred_at'')" "own_prop qs (lit ''description'') = opt_str description"
      by (fastforce simp: audit_names_def shared_names_def wire lit_eq_iff)+
    have derived: "own_prop qs f = JUndef" if "f \<in> set audit_derived_fields" for f
      using that \<open>renamed audit_names ev qs\<close>
      by (auto simp: renamed_def audit_derived_fields_def cdc_derived_fields_def audit_names_def shared_names_def lit_eq_iff)
    note checked = text_field_ok(1) [OF fields(1)] text_field_ok(2) [OF fields(2)] text_field_ok(1) [OF fields(3)]
      enum_text_ok(2) [OF fields(4)] optional_field_ok(2) [OF fields(5)] key_text_ok [OF fields(6)]
      optional_field_ok(3) [OF fields(7)] payload_text_ok [OF fields(8) that(2)] optional_field_ok(1) [OF fields(9)]
    show ?thesis
      by (simp add: audit_event_ok_def event_ok_def qs derived list_all_iff no_default checked)
  qed
qed

section \<open>The properties\<close>

definition batch_distinct :: "(jstr \<times> jsval) list list \<Rightarrow> bool" where
  "batch_distinct events \<longleftrightarrow> distinct (map wire_key events)"

definition times_in_range :: "(jstr \<times> jsval) list list \<Rightarrow> bool" where
  "times_in_range events \<longleftrightarrow> list_all (\<lambda>ev. time_ok (own_prop ev (lit ''occurred_at''))) events"


definition sample_names_descriptor :: descriptor where
  "sample_names_descriptor =
     \<lparr>ds_messages = (\<lambda>t.
        if t = lit ''Request'' then
          [\<lparr>df_name = lit ''connector_id'', df_jsonName = lit ''connectorId'', df_kind = OtherField\<rparr>,
           \<lparr>df_name = lit ''events'', df_jsonName = lit ''events'', df_kind = MessageList (lit ''Event'')\<rparr>]
        else map (\<lambda>(k, j). \<lparr>df_name = k, df_jsonName = j, df_kind = OtherField\<rparr>) cdc_names),
      ds_services = []\<rparr>"

definition sample_event :: cdc_event_input where
  "sample_event =
     \<lparr>ef_idempotencyKey = JStr (lit ''k''), ef_payload = HRef 0, ef_payloadJson = None,
      ef_sourceEventId = JUndef, ef_actor = None, ef_occurredAt = None, ef_description = None,
      ef_otherKeys = [], ci_streamName = Some (lit ''s''), ci_entityType = Some (lit ''t''),
      ci_entityId = JStr (lit ''1''), ci_operation = Some (lit ''insert'')\<rparr>"

lemma sample_event_wire:
  "mapE (cdc_modernEventToWire sample_payload) [sample_event] =
     Inr [cdc_wire (lit ''s'') (lit ''t'') (lit ''1'') (lit ''CDC_OPERATION_INSERT'') None (lit ''k'')
       None sample_payload_text None None]"
proof -
  have parts: "cdc_rejectServerOwnedInput [] = Inr ()" "normalizedActor None = Inr None"
    "requiredText (JStr (lit ''s'')) (Some 256) = Inr (lit ''s'')"
    "requiredText (JStr (lit ''t'')) (Some 256) = Inr (lit ''t'')"
    "requiredId (JStr (lit ''1'')) (Some 1024) = Inr (lit ''1'')"
    "cdcOperation (Some (lit ''insert'')) = Inr (lit ''CDC_OPERATION_INSERT'')"
    "optionalId JUndef (Some 1024) = Inr None" "requiredIdempotencyKey (JStr (lit ''k'')) (Some 512) = Inr (lit ''k'')"
    "actorPrincipalField None = Inr None" "occurredAt None = Inr None" "optionalText None 4096 = Inr None"
    by code_simp+
  have "rawOrJsonString sample_payload (HRef 0) None = Inr sample_payload_text"
    by (simp add: rawOrJsonString_def sample_payload_printed)
  moreover have "cdc_modernEventToWire sample_payload sample_event =
      bindE (rawOrJsonString sample_payload (HRef 0) None) (\<lambda>payload.
        Inr (cdc_wire (lit ''s'') (lit ''t'') (lit ''1'') (lit ''CDC_OPERATION_INSERT'') None (lit ''k'')
          None payload None None))"
    by (simp add: cdc_modernEventToWire_def sample_event_def parts)
  ultimately show ?thesis by simp
qed


text \<open>The same for the audit client.\<close>

theorem audit_batch_preflight:
  assumes "publish_renames ds t et audit_names" "validateBatchSize inputs = Inr ()" "requiredConnectorId v = Inr c"
    and "mapE (audit_modernEventToWire h) inputs = Inr events" "list_all (\<lambda>i. js_graph h (ef_payload i)) inputs"
  shows "preflightConnectRequest (lit ''PublishAuditEvents'') (normalizeProtoJson ds t (publish_body c events)) = Inr () \<longleftrightarrow>
    batch_distinct events \<and> times_in_range events"
proof -
  from audit_family.batch_checked [OF assms] obtain request where
    "normalizeProtoJson ds t (publish_body c events) = JObj request"
    "publish_ok audit_event_ok request \<longleftrightarrow> batch_distinct events \<and> times_in_range events"
    unfolding batch_distinct_def times_in_range_def by blast
  then show ?thesis
    by (simp add: preflightConnectRequest_def preflight_requiredRecord_def preflightPublishAudit_ok lit_eq_iff)
qed

end
