(* ===== verification/Tables_Client.thy ===== *)
theory Tables_Client
  imports Ingest_Client Pagination Js_Base64
begin

text \<open>
  \<open>TablesClient\<close> and \<open>TableQueryResult\<close> (src/src/tables.ts): declaring tables, appending rows,
  running a query with its polls, and reading the pages of a result once. Rows are caller data
  in a heap, as in \<open>Canonical_Json\<close>, or the bytes of an Arrow stream.
\<close>

section \<open>Rows to the wire\<close>

definition syntax_error :: thrown where
  "syntax_error =
     Foreign \<lparr>fe_is_error = True, fe_is_dom = False, fe_name = lit ''SyntaxError'', fe_message = []\<rparr>"

definition heap_object :: "heap \<Rightarrow> hval \<Rightarrow> hobj option" where
  "heap_object h v = (case v of HRef i \<Rightarrow> if i < length h then Some (h ! i) else None | _ \<Rightarrow> None)"

definition row_to_wire :: "heap \<Rightarrow> hval option \<times> jsval \<Rightarrow> thrown + jsval" where
  "row_to_wire h entry =
     (case entry of
        (None, _) \<Rightarrow> Inr JUndef
      | (Some row, insertId) \<Rightarrow>
          (case heap_object h row of
             Some (HObject _ _ _) \<Rightarrow>
               bindE (jsonString h row) (\<lambda>t.
                 (case json_parse t of
                    None \<Rightarrow> Inl syntax_error
                  | Some v \<Rightarrow>
                      Inr (JObj ((lit ''json'', v) #
                        (if insertId = JUndef then [] else [(lit ''insert_id'', insertId)])))))
           | _ \<Rightarrow> Inl (medErr MEDALLION_INVALID_ROW)))"

text \<open>\<open>rows.map\<close> keeps a hole, which reads as undefined later.\<close>

definition jsonRowsToWire :: "heap \<Rightarrow> hval \<Rightarrow> jsval list option \<Rightarrow> thrown + jsval list" where
  "jsonRowsToWire h rows insertIds =
     (case heap_object h rows of
        Some (HArray items) \<Rightarrow>
          if length items < 1 \<or> length items > MAX_INGEST_BATCH_ROWS
          then Inl (medErr MEDALLION_INVALID_BATCH_SIZE)
          else
            thenE (failIf (case insertIds of None \<Rightarrow> False | Some ids \<Rightarrow> length ids \<noteq> length items)
                     (medErr MEDALLION_INVALID_ROW))
              (mapE (row_to_wire h) (zip items (orElse insertIds (replicate (length items) JUndef))))
      | _ \<Rightarrow> Inl (medErr MEDALLION_INVALID_ROW))"

definition arrowPayload :: "byte list \<Rightarrow> thrown + jstr" where
  "arrowPayload rows =
     (if rows = [] then Inl (medErr MEDALLION_INVALID_ROW)
      else if length rows > MAX_ARROW_PAYLOAD_BYTES then Inl (medErr MEDALLION_INVALID_BATCH_SIZE)
      else Inr (base64_encode rows))"

section \<open>Columns and tables\<close>

definition column_to_wire :: "jsval \<Rightarrow> thrown + jsval" where
  "column_to_wire column =
     bindE (get_member column (lit ''name'')) (\<lambda>name.
     bindE (get_member column (lit ''type'')) (\<lambda>type.
     bindE (get_member column (lit ''nullable'')) (\<lambda>nullable.
       Inr (JObj [(lit ''name'', name), (lit ''type'', type),
         (lit ''nullable'', if nullable = JBool True then JBool True else JUndef)]))))"

definition columnsToWire :: "jsval \<Rightarrow> thrown + jsval" where
  "columnsToWire columns =
     (case columns of
        JArr cs \<Rightarrow> bindE (mapE column_to_wire cs) (\<lambda>ws. Inr (JArr ws))
      | _ \<Rightarrow> Inl (medErr MEDALLION_INVALID_SCHEMA))"

record table_column =
  tc_name :: jstr
  tc_type :: jstr
  tc_nullable :: bool

text \<open>\<open>v ?? ""\<close> on a value that was checked to be a text or absent.\<close>

definition text_of :: "jsval \<Rightarrow> jstr" where
  "text_of v = (case v of JStr s \<Rightarrow> s | _ \<Rightarrow> [])"

definition column_from_wire :: "jsval \<Rightarrow> thrown + table_column" where
  "column_from_wire column =
     bindE (get_member column (lit ''name'')) (\<lambda>name.
     bindE (get_member column (lit ''type'')) (\<lambda>type.
     bindE (get_member column (lit ''nullable'')) (\<lambda>nullable.
       Inr \<lparr>tc_name = text_of name, tc_type = text_of type, tc_nullable = (nullable = JBool True)\<rparr>)))"

definition columnsFromWire :: "jsval \<Rightarrow> thrown + table_column list" where
  "columnsFromWire columns =
     (case coalesce columns (JArr []) of
        JArr cs \<Rightarrow> mapE column_from_wire cs
      | _ \<Rightarrow> Inl type_error)"

record table =
  tb_tableId :: jstr
  tb_name :: jstr
  tb_columns :: "table_column list"
  tb_timeColumn :: jsval
  tb_sortColumns :: "jsval list"
  tb_createTime :: jsval

definition or_undefined :: "jsval \<Rightarrow> jsval" where
  "or_undefined v = (if js_truthy v then v else JUndef)"

definition tableFromWire :: "jsval \<Rightarrow> jstr option \<Rightarrow> thrown + table" where
  "tableFromWire t requestId =
     (case coalesce (chain_member t (lit ''name'')) (JStr []) of
        JStr name \<Rightarrow>
          if t = JUndef \<or> name = [] then Inl (invalidIngestResponse requestId)
          else
            bindE (columnsFromWire (chain_member (chain_member t (lit ''schema'')) (lit ''columns''))) (\<lambda>columns.
            bindE (js_spread (coalesce (chain_member t (lit ''sort_columns'')) (JArr []))) (\<lambda>sortColumns.
              Inr \<lparr>tb_tableId = drop 7 name, tb_name = name, tb_columns = columns,
                   tb_timeColumn = coalesce (chain_member t (lit ''time_column'')) (JStr []),
                   tb_sortColumns = sortColumns,
                   tb_createTime = or_undefined (chain_member t (lit ''create_time''))\<rparr>))
      | _ \<Rightarrow> Inl type_error)"

section \<open>Appending\<close>

record 'msg tables_client =
  tbc_ingest :: "'msg ingest_client"

definition newTablesClient :: "'msg ingest_client \<Rightarrow> 'msg tables_client" where
  "newTablesClient ingest = \<lparr>tbc_ingest = ingest\<rparr>"

datatype table_rows = JsonRows hval | ArrowRows "byte list"

record table_append_options = ingest_write_options +
  ta_insertIds :: "jsval list option"
  ta_skipInvalidRows :: jsval

record table_row_error =
  te_index :: nat
  te_code :: jsval
  te_message :: jsval

record table_append_result =
  tr_requestId :: "jstr option"
  tr_idempotencyKey :: jstr
  tr_acceptedRows :: nat
  tr_rowErrors :: "table_row_error list"

definition table_row_payload ::
    "heap \<Rightarrow> table_rows \<Rightarrow> jsval list option \<Rightarrow> thrown + (jstr \<times> jsval)" where
  "table_row_payload h rows insertIds =
     (case rows of
        ArrowRows bytes \<Rightarrow>
          bindE (arrowPayload bytes) (\<lambda>t.
            Inr (lit ''arrow_rows'', JObj [(lit ''serialized_record_batch'', JStr t)]))
      | JsonRows v \<Rightarrow> bindE (jsonRowsToWire h v insertIds) (\<lambda>ws. Inr (lit ''rows'', JArr ws)))"

text \<open>The key and the request, before the call.\<close>

definition append_request ::
    "heap \<Rightarrow> jsval \<Rightarrow> table_rows \<Rightarrow> table_append_options \<Rightarrow> jstr \<Rightarrow>
     thrown + jstr \<times> (jstr \<times> jsval) list" where
  "append_request h tableId rows options uuid =
     bindE (ingestIdempotencyKey uuid (wo_idempotencyKey options)) (\<lambda>key.
     bindE (tableResourceName tableId) (\<lambda>table.
     bindE (table_row_payload h rows (ta_insertIds options)) (\<lambda>payload.
       Inr (key, [(lit ''table'', JStr table), payload,
         (lit ''skip_invalid_rows'',
          if ta_skipInvalidRows options = JBool True then JBool True else JUndef)]))))"

definition table_row_error_of :: "jstr option \<Rightarrow> jsval \<Rightarrow> thrown + table_row_error" where
  "table_row_error_of requestId row_error =
     bindE (get_member row_error (lit ''index'')) (\<lambda>v.
     bindE (nonNegativeCount v requestId) (\<lambda>index.
     bindE (get_member row_error (lit ''error'')) (\<lambda>status.
       Inr \<lparr>te_index = index, te_code = or_undefined (chain_member status (lit ''code'')),
            te_message = or_undefined (chain_member status (lit ''message''))\<rparr>)))"

definition append_result :: "jstr \<Rightarrow> ingest_response \<Rightarrow> thrown + table_append_result" where
  "append_result key response =
     bindE (get_member (rp_body response) (lit ''accepted_rows'')) (\<lambda>v.
     bindE (nonNegativeCount v (rp_requestId response)) (\<lambda>accepted.
     bindE (get_member (rp_body response) (lit ''row_errors'')) (\<lambda>listed.
       (case coalesce listed (JArr []) of
          JArr errors \<Rightarrow>
            bindE (mapE (table_row_error_of (rp_requestId response)) errors) (\<lambda>rowErrors.
              Inr \<lparr>tr_requestId = rp_requestId response, tr_idempotencyKey = key,
                   tr_acceptedRows = accepted, tr_rowErrors = rowErrors\<rparr>)
        | _ \<Rightarrow> Inl type_error))))"

definition tables_append ::
    "'msg tables_client \<Rightarrow> heap \<Rightarrow> jsval \<Rightarrow> table_rows \<Rightarrow> table_append_options \<Rightarrow> jstr \<Rightarrow>
     request_script \<Rightarrow> (thrown + table_append_result) \<times> effect list" where
  "tables_append c h tableId rows options uuid script =
     (case append_request h tableId rows options uuid of
        Inl e \<Rightarrow> (Inl e, [])
      | Inr (key, req) \<Rightarrow>
          (case ingest_appendRows (tbc_ingest c) req
                  \<lparr>ro_signal = ro_signal options, ro_timeoutMs = ro_timeoutMs options,
                   wo_idempotencyKey = JStr key\<rparr> uuid script of
             (r, fx) \<Rightarrow> (bindE r (append_result key), fx)))"

section \<open>Declaring, reading and listing tables\<close>

record table_create_input =
  tci_tableId :: jsval
  tci_columns :: jsval
  tci_timeColumn :: jsval
  tci_sortColumns :: jsval

record table_update_input =
  tui_tableId :: jsval
  tui_columns :: jsval

record table_list_options =
  tlo_pageSize :: jsval
  tlo_pageToken :: "jstr option"

text \<open>\<open>tableFromWire(response.body.table, response.requestId)\<close>.\<close>

definition table_of :: "ingest_response \<Rightarrow> thrown + table" where
  "table_of response = tableFromWire (chain_member (rp_body response) (lit ''table'')) (rp_requestId response)"

definition create_request :: "table_create_input \<Rightarrow> thrown + (jstr \<times> jsval) list" where
  "create_request input =
     bindE (columnsToWire (tci_columns input)) (\<lambda>columns.
     bindE (if tci_sortColumns input = JUndef then Inr JUndef
            else bindE (js_spread (tci_sortColumns input)) (\<lambda>vs. Inr (JArr vs))) (\<lambda>sort_columns.
       Inr [(lit ''table_id'', tci_tableId input),
            (lit ''table'', JObj
              [(lit ''schema'', JObj [(lit ''columns'', columns)]),
               (lit ''time_column'', tci_timeColumn input), (lit ''sort_columns'', sort_columns)])]))"

definition tables_create ::
    "'msg tables_client \<Rightarrow> table_create_input \<Rightarrow> ingest_write_options \<Rightarrow> jstr \<Rightarrow> request_script \<Rightarrow>
     (thrown + table) \<times> effect list" where
  "tables_create c input options uuid script =
     (case create_request input of
        Inl e \<Rightarrow> (Inl e, [])
      | Inr req \<Rightarrow>
          (case ingest_createTable (tbc_ingest c) req options uuid script of
             (r, fx) \<Rightarrow> (bindE r table_of, fx)))"

definition update_request :: "table_update_input \<Rightarrow> thrown + (jstr \<times> jsval) list" where
  "update_request input =
     bindE (tableResourceName (tui_tableId input)) (\<lambda>name.
     bindE (columnsToWire (tui_columns input)) (\<lambda>columns.
       Inr [(lit ''table'', JObj
              [(lit ''name'', JStr name), (lit ''schema'', JObj [(lit ''columns'', columns)])])]))"

definition tables_update ::
    "'msg tables_client \<Rightarrow> table_update_input \<Rightarrow> ingest_write_options \<Rightarrow> jstr \<Rightarrow> request_script \<Rightarrow>
     (thrown + table) \<times> effect list" where
  "tables_update c input options uuid script =
     (case update_request input of
        Inl e \<Rightarrow> (Inl e, [])
      | Inr req \<Rightarrow>
          (case ingest_updateTable (tbc_ingest c) req options uuid script of
             (r, fx) \<Rightarrow> (bindE r table_of, fx)))"

definition tables_get ::
    "'msg tables_client \<Rightarrow> jsval \<Rightarrow> request_options \<Rightarrow> request_script \<Rightarrow> (thrown + table) \<times> effect list" where
  "tables_get c tableId options script =
     (case tableResourceName tableId of
        Inl e \<Rightarrow> (Inl e, [])
      | Inr name \<Rightarrow>
          (case ingest_getTable (tbc_ingest c) [(lit ''name'', JStr name)] options script of
             (r, fx) \<Rightarrow> (bindE r table_of, fx)))"

text \<open>\<open>next_page_token || undefined\<close>; the token was checked to be a text or absent.\<close>

definition next_token :: "jsval \<Rightarrow> jstr option" where
  "next_token body =
     (case chain_member body (lit ''next_page_token'') of
        JStr s \<Rightarrow> if s = [] then None else Some s
      | _ \<Rightarrow> None)"

definition table_page :: "ingest_response \<Rightarrow> thrown + table page" where
  "table_page response =
     (case coalesce (chain_member (rp_body response) (lit ''tables'')) (JArr []) of
        JArr listed \<Rightarrow>
          bindE (mapE (\<lambda>t. tableFromWire t (rp_requestId response)) listed) (\<lambda>tables.
            Inr \<lparr>pg_requestId = rp_requestId response, pg_events = tables,
                 pg_nextCursor = next_token (rp_body response)\<rparr>)
      | _ \<Rightarrow> Inl type_error)"

definition tables_list ::
    "'msg tables_client \<Rightarrow> table_list_options \<Rightarrow> request_options \<Rightarrow> request_script \<Rightarrow>
     (thrown + table page) \<times> effect list" where
  "tables_list c input options script =
     (case ingest_listTables (tbc_ingest c)
             [(lit ''page_size'', tlo_pageSize input), (lit ''page_token'', js_opt JStr (tlo_pageToken input))]
             options script of
        (r, fx) \<Rightarrow> (bindE r table_page, fx))"

definition tables_fetch ::
    "'msg tables_client \<Rightarrow> table_list_options \<Rightarrow> request_options \<Rightarrow> (nat \<Rightarrow> request_script) \<Rightarrow>
     table page_fetch" where
  "tables_fetch c input options scripts n cursor =
     tables_list c (input\<lparr>tlo_pageToken := cursor\<rparr>) options (scripts n)"

definition tables_iterate ::
    "'msg tables_client \<Rightarrow> table_list_options \<Rightarrow> request_options \<Rightarrow> (nat \<Rightarrow> request_script) \<Rightarrow>
     table list \<times> thrown option \<times> effect list" where
  "tables_iterate c input options scripts =
     iterate_pages (tables_fetch c input options scripts) (tlo_pageToken input)"

end
