(* ===== verification/Table_Query.thy ===== *)
theory Table_Query
  imports Tables_Client
begin

text \<open>
  Queries (src/src/tables.ts): \<open>TablesClient.query\<close> with its poll loop, and \<open>TableQueryResult\<close>,
  whose rows can be read once. Both loops are functions of what a poll or a page fetch answers;
  the poll loop ends after at most \<open>MAX_QUERY_POLLS\<close> polls, the page loop after at most 10000
  pages.
\<close>

section \<open>The poll loop\<close>

definition MAX_QUERY_POLLS :: nat where "MAX_QUERY_POLLS = 1000"

definition query_state :: "jsval \<Rightarrow> jsval" where
  "query_state body = coalesce (chain_member body (lit ''state'')) (JStr [])"

definition is_running :: "ingest_response \<Rightarrow> bool" where
  "is_running response \<longleftrightarrow> query_state (rp_body response) = JStr (lit ''RUNNING'')"

definition poll_limit :: "jstr option \<Rightarrow> thrown" where
  "poll_limit requestId = medErrR MEDALLION_QUERY_POLL_LIMIT requestId"

text \<open>\<open>poll n latest\<close> waits and asks for the \<open>n\<close>-th time.\<close>

function poll_loop :: "(nat \<Rightarrow> ingest_response \<Rightarrow> ingest_result) \<Rightarrow> nat \<Rightarrow> ingest_response \<Rightarrow> ingest_result" where
  "poll_loop poll polls latest =
     (if \<not> is_running latest then (Inr latest, [])
      else if polls + 1 > MAX_QUERY_POLLS then (Inl (poll_limit (rp_requestId latest)), [])
      else
        (case poll (polls + 1) latest of
           (Inl e, fx) \<Rightarrow> (Inl e, fx)
         | (Inr response, fx) \<Rightarrow>
             (case poll_loop poll (polls + 1) response of (out, fx') \<Rightarrow> (out, fx @ fx'))))"
  by pat_completeness auto
termination
  by (relation "measure (\<lambda>(poll, polls, latest). MAX_QUERY_POLLS - polls)") auto

declare poll_loop.simps [simp del]

record table_query_options = request_options +
  tqo_serverTimeoutMs :: jsval
  tqo_dryRun :: jsval
  tqo_pageSize :: jsval

definition plain_options :: "'a request_options_scheme \<Rightarrow> request_options" where
  "plain_options options = \<lparr>ro_signal = ro_signal options, ro_timeoutMs = ro_timeoutMs options\<rparr>"

text \<open>The environment of the \<open>n\<close>-th poll: the wait before it and its request.\<close>

definition query_poll ::
    "'msg ingest_client \<Rightarrow> table_query_options \<Rightarrow> (nat \<Rightarrow> wait_env) \<Rightarrow> (nat \<Rightarrow> request_script) \<Rightarrow>
     nat \<Rightarrow> ingest_response \<Rightarrow> ingest_result" where
  "query_poll gi options waits scripts n latest =
     (case waitBeforeQueryPoll gi n latest (waits n) of
        (Inl e, fx) \<Rightarrow> (Inl e, fx)
      | (Inr _, fx) \<Rightarrow>
          (case ingest_getQueryResults gi
                  [(lit ''name'', coalesce (chain_member (rp_body latest) (lit ''name'')) (JStr [])),
                   (lit ''page_size'', tqo_pageSize options)]
                  (plain_options options) (scripts n) of
             (r, fx') \<Rightarrow> (r, fx @ fx')))"

section \<open>The result\<close>

definition query_failed_text :: jstr where
  "query_failed_text = lit ''Medallion reported the query as failed.''"

definition requireSucceeded :: "jsval \<Rightarrow> jstr option \<Rightarrow> thrown + unit" where
  "requireSucceeded body requestId =
     (let state = query_state body in
      if state = JStr (lit ''SUCCEEDED'') then Inr ()
      else if state = JStr (lit ''FAILED'') then
        (let reported = chain_member (chain_member body (lit ''error'')) (lit ''message'') in
         bindE (if js_truthy reported then js_string reported else Inr query_failed_text) (\<lambda>message.
           Inl (Medallion \<lparr>err_code = MEDALLION_QUERY_FAILED, err_requestId = requestId,
             err_cause = None, err_text = Some message\<rparr>)))
      else Inl (invalidIngestResponse requestId))"

record table_query_result =
  qr_requestId :: "jstr option"
  qr_queryName :: jsval
  qr_columns :: "table_column list"
  qr_totalRows :: nat
  qr_dryRun :: bool
  qr_options :: request_options
  qr_pageSize :: jsval
  qr_firstPage :: "jsval option"

definition newTableQueryResult ::
    "jsval \<Rightarrow> jstr option \<Rightarrow> request_options \<Rightarrow> jsval \<Rightarrow> bool \<Rightarrow> thrown + table_query_result" where
  "newTableQueryResult body requestId options pageSize dryRun =
     bindE (columnsFromWire (chain_member (chain_member body (lit ''schema'')) (lit ''columns''))) (\<lambda>columns.
     bindE (nonNegativeCount (chain_member body (lit ''total_rows'')) requestId) (\<lambda>totalRows.
       Inr \<lparr>qr_requestId = requestId, qr_queryName = or_undefined (chain_member body (lit ''name'')),
            qr_columns = columns, qr_totalRows = totalRows, qr_dryRun = dryRun, qr_options = options,
            qr_pageSize = pageSize, qr_firstPage = Some body\<rparr>))"

definition query_request :: "jsval \<Rightarrow> table_query_options \<Rightarrow> (jstr \<times> jsval) list" where
  "query_request sql options =
     [(lit ''query'', sql), (lit ''timeout_ms'', tqo_serverTimeoutMs options),
      (lit ''dry_run'', if js_truthy (tqo_dryRun options) then JBool True else JUndef),
      (lit ''page_size'', tqo_pageSize options)]"

definition query_finish :: "table_query_options \<Rightarrow> ingest_response \<Rightarrow> thrown + table_query_result" where
  "query_finish options latest =
     thenE (requireSucceeded (rp_body latest) (rp_requestId latest))
       (newTableQueryResult (rp_body latest) (rp_requestId latest) (plain_options options)
          (tqo_pageSize options) (tqo_dryRun options = JBool True))"

text \<open>\<open>scripts 0\<close> is the environment of the first request.\<close>

definition tables_query ::
    "'msg tables_client \<Rightarrow> jsval \<Rightarrow> table_query_options \<Rightarrow> (nat \<Rightarrow> wait_env) \<Rightarrow>
     (nat \<Rightarrow> request_script) \<Rightarrow> (thrown + table_query_result) \<times> effect list" where
  "tables_query c sql options waits scripts =
     (case ingest_runQuery (tbc_ingest c) (query_request sql options) (plain_options options) (scripts 0) of
        (Inl e, fx) \<Rightarrow> (Inl e, fx)
      | (Inr first, fx) \<Rightarrow>
          (case poll_loop (query_poll (tbc_ingest c) options waits scripts) 0 first of
             (r, fx') \<Rightarrow> (bindE r (query_finish options), fx @ fx')))"

section \<open>Reading the pages\<close>

text \<open>A page of a result as the loop uses it; the rows and the token were checked.\<close>

definition result_page :: "jstr option \<Rightarrow> jsval \<Rightarrow> jsval page" where
  "result_page requestId body =
     \<lparr>pg_requestId = requestId,
      pg_events = (case chain_member body (lit ''rows'') of JArr rows \<Rightarrow> rows | _ \<Rightarrow> []),
      pg_nextCursor = next_token body\<rparr>"

text \<open>\<open>#pages\<close> with \<open>rows\<close>: \<open>named\<close> says that the query has a resource name.\<close>

function result_loop ::
    "jsval page_fetch \<Rightarrow> bool \<Rightarrow> jstr option \<Rightarrow> nat \<Rightarrow> jsval page \<Rightarrow> jstr list \<Rightarrow>
     jsval list \<times> thrown option \<times> effect list" where
  "result_loop fetch named requestId pages page seen =
     (case assertIteratorPageWithinLimit (pages + 1) of
        Inl e \<Rightarrow> ([], Some e, [])
      | Inr _ \<Rightarrow>
          if no_next page then (pg_events page, None, [])
          else if \<not> named then (pg_events page, Some (invalidIngestResponse requestId), [])
          else
            (let next = the (pg_nextCursor page) in
             if next \<in> set seen then (pg_events page, Some repeatedCursor, [])
             else
               (case fetch (pages + 2) (Some next) of
                  (Inl e, fx) \<Rightarrow> (pg_events page, Some e, fx)
                | (Inr page', fx) \<Rightarrow>
                    (case result_loop fetch named requestId (pages + 1) page' (seen @ [next]) of
                       (rows, out, fx') \<Rightarrow> (pg_events page @ rows, out, fx @ fx')))))"
  by pat_completeness auto
termination
  by (relation "measure (\<lambda>(fetch, named, requestId, pages, page, seen). MAX_INGESTION_ITERATOR_PAGES - pages)")
     (auto simp: assertIteratorPageWithinLimit_def failIf_def split: if_splits)

declare result_loop.simps [simp del]

definition result_fetch ::
    "'msg ingest_client \<Rightarrow> table_query_result \<Rightarrow> (nat \<Rightarrow> request_script) \<Rightarrow> jsval page_fetch" where
  "result_fetch gi result scripts n cursor =
     (case ingest_getQueryResults gi
             [(lit ''name'', qr_queryName result), (lit ''page_token'', js_opt JStr cursor),
              (lit ''page_size'', qr_pageSize result)]
             (qr_options result) (scripts n) of
        (r, fx) \<Rightarrow>
          (bindE r (\<lambda>response.
             thenE (requireSucceeded (rp_body response) (rp_requestId response))
               (Inr (result_page (rp_requestId response) (rp_body response)))), fx))"

text \<open>Reading all rows: what is yielded, the error that ends it, the effects, and the result
  afterwards.\<close>

definition result_rows ::
    "'msg ingest_client \<Rightarrow> table_query_result \<Rightarrow> (nat \<Rightarrow> request_script) \<Rightarrow>
     (jsval list \<times> thrown option \<times> effect list) \<times> table_query_result" where
  "result_rows gi result scripts =
     (case qr_firstPage result of
        None \<Rightarrow> (([], Some (medErr MEDALLION_RESULT_CONSUMED), []), result)
      | Some first \<Rightarrow>
          (result_loop (result_fetch gi result scripts) (qr_queryName result \<noteq> JUndef) (qr_requestId result)
             0 (result_page (qr_requestId result) first) [],
           result\<lparr>qr_firstPage := None\<rparr>))"

end
