(* ===== verification/Wire_Types.thy ===== *)
theory Wire_Types
  imports Client_Preflight Table_Query
begin

text \<open>
  The interfaces of src/src/types.ts that describe what is on the wire, as values of a datatype of
  types, and when a JSON value has one. TypeScript erases them, and the compiler trusts the casts
  of the sources; here it is proved that the requests that the clients build have the types that
  are declared for them, and that an answer of its declared type is read without a TypeError.
\<close>

section \<open>Types of JSON values\<close>

datatype wire_type =
    WText | WNumber | WBool | WUnknown
  | WLiterals "jstr list"
  | WUnion wire_type wire_type
  | WList wire_type
  | WDict wire_type
  | WObject "wire_field list"
and wire_field = Required jstr wire_type | Optional jstr wire_type

text \<open>\<open>{k: t}\<close> and \<open>{k?: t}\<close>.\<close>

abbreviation req :: "string \<Rightarrow> wire_type \<Rightarrow> wire_field" where
  "req k t \<equiv> Required (lit k) t"

abbreviation opt :: "string \<Rightarrow> wire_type \<Rightarrow> wire_field" where
  "opt k t \<equiv> Optional (lit k) t"

text \<open>Structural typing: an object may have further members.\<close>

fun has_type :: "wire_type \<Rightarrow> jsval \<Rightarrow> bool"
  and has_field :: "(jstr \<times> jsval) list \<Rightarrow> wire_field \<Rightarrow> bool" where
  "has_type WText v = (case v of JStr _ \<Rightarrow> True | _ \<Rightarrow> False)"
| "has_type WNumber v = (case v of JNum _ \<Rightarrow> True | _ \<Rightarrow> False)"
| "has_type WBool v = (case v of JBool _ \<Rightarrow> True | _ \<Rightarrow> False)"
| "has_type WUnknown v = True"
| "has_type (WLiterals ss) v = (case v of JStr s \<Rightarrow> s \<in> set ss | _ \<Rightarrow> False)"
| "has_type (WUnion a b) v = (has_type a v \<or> has_type b v)"
| "has_type (WList t) v = (case v of JArr vs \<Rightarrow> list_all (has_type t) vs | _ \<Rightarrow> False)"
| "has_type (WDict t) v = (case v of JObj ps \<Rightarrow> list_all (\<lambda>p. has_type t (snd p)) ps | _ \<Rightarrow> False)"
| "has_type (WObject fs) v = (case v of JObj ps \<Rightarrow> list_all (has_field ps) fs | _ \<Rightarrow> False)"
| "has_field ps (Required k t) = has_type t (own_prop ps k)"
| "has_field ps (Optional k t) = (own_prop ps k = JUndef \<or> has_type t (own_prop ps k))"

primrec field_name :: "wire_field \<Rightarrow> jstr" where
  "field_name (Required k t) = k"
| "field_name (Optional k t) = k"

text \<open>An object literal, and every literal inside of it, is checked for members that are not declared.\<close>

fun fits :: "wire_type \<Rightarrow> jsval \<Rightarrow> bool"
  and fits_field :: "(jstr \<times> jsval) list \<Rightarrow> wire_field \<Rightarrow> bool" where
  "fits WText v = (case v of JStr _ \<Rightarrow> True | _ \<Rightarrow> False)"
| "fits WNumber v = (case v of JNum _ \<Rightarrow> True | _ \<Rightarrow> False)"
| "fits WBool v = (case v of JBool _ \<Rightarrow> True | _ \<Rightarrow> False)"
| "fits WUnknown v = True"
| "fits (WLiterals ss) v = (case v of JStr s \<Rightarrow> s \<in> set ss | _ \<Rightarrow> False)"
| "fits (WUnion a b) v = (fits a v \<or> fits b v)"
| "fits (WList t) v = (case v of JArr vs \<Rightarrow> list_all (fits t) vs | _ \<Rightarrow> False)"
| "fits (WDict t) v = (case v of JObj ps \<Rightarrow> list_all (\<lambda>p. fits t (snd p)) ps | _ \<Rightarrow> False)"
| "fits (WObject fs) v =
     (case v of
        JObj ps \<Rightarrow> list_all (fits_field ps) fs \<and>
          list_all (\<lambda>p. snd p = JUndef \<or> fst p \<in> set (map field_name fs)) ps
      | _ \<Rightarrow> False)"
| "fits_field ps (Required k t) = fits t (own_prop ps k)"
| "fits_field ps (Optional k t) = (own_prop ps k = JUndef \<or> fits t (own_prop ps k))"

text \<open>\<open>JsonValue\<close>: what \<open>JSON.parse\<close> returns.\<close>

fun JsonValue :: "jsval \<Rightarrow> bool" where
  "JsonValue JUndef = False"
| "JsonValue (JBig i) = False"
| "JsonValue (JArr vs) = list_all JsonValue vs"
| "JsonValue (JObj ps) = list_all (\<lambda>p. JsonValue (snd p)) ps"
| "JsonValue v = True"

section \<open>The event families\<close>

definition cdc_event_members :: "wire_field list" where
  "cdc_event_members =
     [req ''stream_name'' WText, req ''entity_type'' WText, req ''entity_id'' WText, req ''operation'' WText,
      opt ''source_event_id'' WText, req ''idempotency_key'' WText, opt ''actor_principal'' WText,
      req ''payload_json'' WText, opt ''occurred_at'' WText, opt ''description'' WText]"

definition ConnectCdcEventInput :: wire_type where
  "ConnectCdcEventInput = WObject cdc_event_members"

definition ConnectCdcEvent :: wire_type where
  "ConnectCdcEvent = WObject (cdc_event_members @
     [opt ''id'' (WUnion WText WNumber), opt ''connector_id'' WText, opt ''observed_at'' WText,
      opt ''source_system'' WText, opt ''ingested_by_principal'' WText, opt ''workspace_id'' WText])"

definition ConnectPublishCdcEventsRequest :: wire_type where
  "ConnectPublishCdcEventsRequest = WObject [req ''connector_id'' WText, req ''events'' (WList ConnectCdcEventInput)]"

definition audit_event_members :: "wire_field list" where
  "audit_event_members =
     [req ''resource_type'' WText, req ''resource_id'' WText, req ''action'' WText,
      opt ''source_event_id'' WText, req ''idempotency_key'' WText, opt ''actor_principal'' WText,
      req ''payload_json'' WText, opt ''occurred_at'' WText, opt ''description'' WText, req ''outcome'' WText]"

definition ConnectAuditEventInput :: wire_type where
  "ConnectAuditEventInput = WObject audit_event_members"

definition ConnectAuditEvent :: wire_type where
  "ConnectAuditEvent = WObject (audit_event_members @
     [opt ''id'' (WUnion WText WNumber), opt ''connector_id'' WText, opt ''observed_at'' WText,
      opt ''source_system'' WText, opt ''ingested_by_principal'' WText, opt ''origin'' WText,
      opt ''workspace_id'' WText])"

definition ConnectPublishAuditEventsRequest :: wire_type where
  "ConnectPublishAuditEventsRequest =
     WObject [req ''connector_id'' WText, req ''events'' (WList ConnectAuditEventInput)]"

definition ConnectPublishedAuditEvent :: wire_type where
  "ConnectPublishedAuditEvent =
     WObject [opt ''idempotency_key'' WText, opt ''event_id'' (WUnion WText WNumber), opt ''duplicate'' WBool]"

definition ConnectPublishAuditEventsResponse :: wire_type where
  "ConnectPublishAuditEventsResponse =
     WObject [opt ''accepted_count'' WNumber, opt ''duplicate_count'' WNumber,
       opt ''events'' (WList ConnectPublishedAuditEvent)]"

definition ConnectListAuditEventsRequest :: wire_type where
  "ConnectListAuditEventsRequest = WObject
     [req ''workspace_id'' WText, opt ''connector_id'' WText, opt ''resource_type'' WText, opt ''resource_id'' WText,
      opt ''limit'' WNumber, opt ''actor_principal'' WText, opt ''action'' WText, opt ''occurred_at_from'' WText,
      opt ''occurred_at_to'' WText, opt ''source_system'' WText, opt ''page_cursor'' WText,
      opt ''ingested_by_principal'' WText, opt ''origin'' WText, opt ''outcome'' WText]"

definition ConnectListAuditEventsResponse :: wire_type where
  "ConnectListAuditEventsResponse = WObject [opt ''events'' (WList ConnectAuditEvent), opt ''next_page_cursor'' WText]"

definition ConnectListCdcEventsRequest :: wire_type where
  "ConnectListCdcEventsRequest = WObject
     [req ''workspace_id'' WText, opt ''connector_id'' WText, opt ''entity_type'' WText, opt ''entity_id'' WText,
      opt ''limit'' WNumber, opt ''actor_principal'' WText, opt ''ingested_by_principal'' WText,
      opt ''occurred_at_from'' WText, opt ''occurred_at_to'' WText, opt ''source_system'' WText,
      opt ''stream_name'' WText, opt ''page_cursor'' WText]"

definition ConnectListCdcEventsResponse :: wire_type where
  "ConnectListCdcEventsResponse = WObject [opt ''events'' (WList ConnectCdcEvent), opt ''next_page_cursor'' WText]"

section \<open>The ingest service\<close>

definition IngestRow :: wire_type where
  "IngestRow = WObject [opt ''insert_id'' WText, req ''json'' (WDict WUnknown)]"

definition IngestArrowRecordBatch :: wire_type where
  "IngestArrowRecordBatch = WObject [opt ''serialized_record_batch'' WText]"

definition IngestColumnSchema :: wire_type where
  "IngestColumnSchema = WObject [opt ''name'' WText, opt ''type'' WText, opt ''nullable'' WBool]"

definition IngestTableSchema :: wire_type where
  "IngestTableSchema = WObject [opt ''columns'' (WList IngestColumnSchema)]"

definition IngestTable :: wire_type where
  "IngestTable = WObject
     [opt ''name'' WText, opt ''schema'' IngestTableSchema, opt ''time_column'' WText,
      opt ''sort_columns'' (WList WText), opt ''create_time'' WText]"

definition IngestCreateTableRequest :: wire_type where
  "IngestCreateTableRequest = WObject [req ''table_id'' WText, req ''table'' IngestTable, opt ''request_id'' WText]"

definition IngestUpdateTableRequest :: wire_type where
  "IngestUpdateTableRequest = WObject [req ''table'' IngestTable, opt ''request_id'' WText]"

definition IngestGetTableRequest :: wire_type where
  "IngestGetTableRequest = WObject [req ''name'' WText]"

definition IngestTableResponse :: wire_type where
  "IngestTableResponse = WObject [opt ''table'' IngestTable]"

definition IngestListTablesRequest :: wire_type where
  "IngestListTablesRequest = WObject [opt ''page_size'' WNumber, opt ''page_token'' WText]"

definition IngestListTablesResponse :: wire_type where
  "IngestListTablesResponse = WObject [opt ''tables'' (WList IngestTable), opt ''next_page_token'' WText]"

definition IngestAppendRowsRequest :: wire_type where
  "IngestAppendRowsRequest = WObject
     [req ''table'' WText, opt ''rows'' (WList IngestRow), opt ''arrow_rows'' IngestArrowRecordBatch,
      opt ''request_id'' WText, opt ''skip_invalid_rows'' WBool]"

definition IngestRpcStatus :: wire_type where
  "IngestRpcStatus = WObject [opt ''code'' WNumber, opt ''message'' WText]"

definition IngestRowError :: wire_type where
  "IngestRowError = WObject [opt ''index'' (WUnion WText WNumber), opt ''error'' IngestRpcStatus]"

definition IngestAppendRowsResponse :: wire_type where
  "IngestAppendRowsResponse = WObject
     [opt ''accepted_rows'' (WUnion WText WNumber), opt ''row_errors'' (WList IngestRowError)]"

definition IngestRunQueryRequest :: wire_type where
  "IngestRunQueryRequest = WObject
     [req ''query'' WText, opt ''timeout_ms'' WNumber, opt ''dry_run'' WBool, opt ''page_size'' WNumber]"

definition IngestQueryState :: wire_type where
  "IngestQueryState = WLiterals [lit ''RUNNING'', lit ''SUCCEEDED'', lit ''FAILED'']"

definition IngestQueryResponse :: wire_type where
  "IngestQueryResponse = WObject
     [opt ''name'' WText, opt ''state'' WText, opt ''schema'' IngestTableSchema,
      opt ''rows'' (WList (WDict WUnknown)), opt ''next_page_token'' WText,
      opt ''total_rows'' (WUnion WText WNumber), opt ''error'' IngestRpcStatus]"

definition IngestGetQueryResultsRequest :: wire_type where
  "IngestGetQueryResultsRequest = WObject [req ''name'' WText, opt ''page_token'' WText, opt ''page_size'' WNumber]"

definition TableColumnType :: "jstr list" where
  "TableColumnType = map lit [''BOOL'', ''INT64'', ''FLOAT64'', ''STRING'', ''BYTES'', ''TIMESTAMP'', ''DATE'', ''JSON'']"

definition TableColumn :: wire_type where
  "TableColumn = WObject [req ''name'' WText, req ''type'' (WUnion (WLiterals TableColumnType) WText), opt ''nullable'' WBool]"

end
