(* ===== verification/Request_Facts.thy ===== *)
theory Request_Facts
  imports Request_Json
begin

text \<open>
  What every fetch of a JSON request carries, and what cannot be sent at all: the headers the
  SDK controls, the caller's headers that are refused, a body for another workspace.
\<close>

section \<open>Every fetch of a dispatch\<close>

lemma attempt_loop_fetch:
  "attempt_loop p c ca url deadline hasSpan hs env attempt s = (r, fx, s') \<Longrightarrow>
   f \<in> set (fetches fx) \<Longrightarrow>
   \<exists>ahs n now. f = FetchCall url (ca_method ca) ahs (ca_body ca) \<and>
     attemptHeaders hs n deadline now = Inr ahs"
proof (induction p c ca url deadline hasSpan hs env attempt s arbitrary: r fx s'
    rule: attempt_loop.induct)
  case (1 p c ca url deadline hasSpan hs env attempt s)
  show ?case
  proof (cases "attempt \<le> nr_maxAttempts (cl_retry c)")
    case False
    with "1.prems" show ?thesis by (subst (asm) attempt_loop.simps) simp
  next
    case True
    obtain out gfx s1
      where step: "attempt_step p c ca url deadline hasSpan hs attempt (env attempt) s = (out, gfx, s1)"
      by (metis prod_cases3)
    have here: "\<exists>ahs n now. f = FetchCall url (ca_method ca) ahs (ca_body ca) \<and>
        attemptHeaders hs n deadline now = Inr ahs" if "f \<in> set (fetches gfx)"
      using attempt_step_fetches [OF step] that by fastforce
    show ?thesis
    proof (cases "out = Continue")
      case False
      with "1.prems" True step here show ?thesis
        by (subst (asm) attempt_loop.simps) (auto split: outcome.splits)
    next
      case again: True
      obtain r2 fx2 s2
        where rest: "attempt_loop p c ca url deadline hasSpan hs env (attempt + 1) s1 = (r2, fx2, s2)"
        by (metis prod_cases3)
      with "1.prems"(1) True step again have "fx = gfx @ fx2"
        by (subst (asm) attempt_loop.simps) simp
      with "1.IH" [OF True step [symmetric] again refl rest] here "1.prems"(2)
      show ?thesis by auto
    qed
  qed
qed

lemma lower_connect_timeout:
  "toLowerCase (lit ''Connect-Timeout-Ms'') = lit ''connect-timeout-ms''"
  by code_simp

lemma attemptHeaders_get:
  "attemptHeaders hs n deadline now = Inr ahs \<Longrightarrow>
   toLowerCase name \<noteq> lit ''connect-timeout-ms'' \<Longrightarrow> header_get ahs name = header_get hs name"
  by (auto simp: attemptHeaders_def header_get_set lower_connect_timeout split: if_splits)

lemma dispatch_fetch:
  assumes "f \<in> set (fetches (snd (dispatch p c ca now injs env)))"
  shows "\<exists>url ahs. buildUrl p c (ca_path ca) = Some url \<and>
     f = FetchCall url (ca_method ca) ahs (ca_body ca) \<and>
     (\<forall>name. toLowerCase name \<in> set PROTECTED_REQUEST_HEADERS \<longrightarrow>
        toLowerCase name \<noteq> lit ''connect-timeout-ms'' \<longrightarrow>
        header_get ahs name = header_get (ca_headers ca) name)"
proof (cases "buildUrl p c (ca_path ca)")
  case None
  with assms show ?thesis by (simp add: dispatch_no_url)
next
  case (Some url)
  obtain r fx where d: "dispatch p c ca now injs env = (r, fx)"
    by (cases "dispatch p c ca now injs env")
  from d Some show ?thesis
  proof (cases rule: dispatch_cases)
    case (Ran hasSpan hs r0 gfx s')
    with assms d have "f \<in> set (fetches gfx)" by simp
    from attempt_loop_fetch [OF Ran(1) this] obtain ahs n t
      where f: "f = FetchCall url (ca_method ca) ahs (ca_body ca)"
        "attemptHeaders hs n (now + ca_timeoutMs ca) t = Inr ahs" by blast
    have "header_get ahs name = header_get (ca_headers ca) name"
      if "toLowerCase name \<in> set PROTECTED_REQUEST_HEADERS" "toLowerCase name \<noteq> lit ''connect-timeout-ms''"
      for name
      using attemptHeaders_get [OF f(2) that(2)] Ran(3) [OF protected_not_traced [OF that(1)]] by simp
    with Some f(1) show ?thesis by blast
  qed (use assms d in simp)
qed

section \<open>The headers the SDK sets\<close>

lemma lower_names:
  "toLowerCase (lit ''Authorization'') = lit ''authorization''"
  "toLowerCase (lit ''X-Medallion-API-Key'') = lit ''x-medallion-api-key''"
  "toLowerCase (lit ''X-Medallion-Workspace-Id'') = lit ''x-medallion-workspace-id''"
  "toLowerCase (lit ''Idempotency-Key'') = lit ''idempotency-key''"
  "toLowerCase (lit ''Connect-Protocol-Version'') = lit ''connect-protocol-version''"
  "toLowerCase (lit ''Accept'') = lit ''accept''"
  "toLowerCase (lit ''Content-Type'') = lit ''content-type''"
  by code_simp+

lemma lower_lower_names:
  "toLowerCase (lit ''authorization'') = lit ''authorization''"
  "toLowerCase (lit ''x-medallion-api-key'') = lit ''x-medallion-api-key''"
  "toLowerCase (lit ''x-medallion-workspace-id'') = lit ''x-medallion-workspace-id''"
  "toLowerCase (lit ''idempotency-key'') = lit ''idempotency-key''"
  "toLowerCase (lit ''connect-protocol-version'') = lit ''connect-protocol-version''"
  "toLowerCase (lit ''accept'') = lit ''accept''"
  "toLowerCase (lit ''content-type'') = lit ''content-type''"
  by code_simp+

lemmas header_names = lower_names lower_lower_names lower_connect_timeout

lemma normalize_value_id:
  "s \<noteq> [] \<Longrightarrow> \<not> http_space (hd s) \<Longrightarrow> \<not> http_space (last s) \<Longrightarrow> normalize_value s = s"
proof -
  assume s: "s \<noteq> []" "\<not> http_space (hd s)" "\<not> http_space (last s)"
  then have "dropWhile http_space s = s" by (cases s) auto
  moreover have "dropWhile http_space (rev s) = rev s"
    using s by (cases "rev s") (auto simp: hd_rev [symmetric])
  ultimately show ?thesis by (simp add: normalize_value_def)
qed

lemma visible_not_space: "(0x21 :: code_unit) \<le> u \<Longrightarrow> \<not> http_space u"
  by (auto simp: http_space_def word_le_nat_alt)

lemma credential_normal:
  assumes "credential_ok cred"
  shows "normalize_value (credential_value cred) = credential_value cred"
    and "normalize_value (lit ''Bearer '' @ credential_value cred) = lit ''Bearer '' @ credential_value cred"
proof -
  let ?v = "credential_value cred"
  have v: "?v \<noteq> []" "list_all (\<lambda>u. 0x21 \<le> u \<and> u \<le> 0x7E) ?v"
    using assms by (simp_all add: credential_ok_def)
  then have vis: "\<not> http_space u" if "u \<in> set ?v" for u
    using that visible_not_space by (auto simp: list_all_iff)
  from v(1) vis show "normalize_value ?v = ?v"
    by (intro normalize_value_id) (auto simp: hd_in_set last_in_set)
  have "\<not> http_space (hd (lit ''Bearer '' @ ?v))"
    by (simp add: lit_def http_space_def)
  with v(1) vis show "normalize_value (lit ''Bearer '' @ ?v) = lit ''Bearer '' @ ?v"
    by (intro normalize_value_id) (auto simp: last_in_set)
qed

lemma ulid_visible: "is_ulid_unit u \<Longrightarrow> 0x21 \<le> u"
  by (auto simp: is_ulid_unit_def is_digit_def unit_in_def word_le_nat_alt)

lemma workspace_normal: "workspace_pattern w \<Longrightarrow> normalize_value w = w"
proof (rule normalize_value_no_space)
  assume w: "workspace_pattern w"
  have "list_all (\<lambda>u. 0x21 \<le> u) (take 3 w)"
    using w by (simp add: workspace_pattern_def lit_def)
  moreover have "list_all (\<lambda>u. 0x21 \<le> u) (drop 3 w)"
    using w ulid_visible by (auto simp: workspace_pattern_def list_all_iff)
  ultimately have "list_all (\<lambda>u. 0x21 \<le> u) w" by (rule list_all_takeD)
  then show "list_all (\<lambda>u. \<not> http_space u) w" using visible_not_space by (auto simp: list_all_iff)
qed

text \<open>The headers that identify the client and the request.\<close>

definition identity_headers :: "request_client \<Rightarrow> json_request \<Rightarrow> headers \<Rightarrow> bool" where
  "identity_headers c options hs \<longleftrightarrow>
     header_get hs (lit ''authorization'') =
       (case cl_credential c of AccessToken v \<Rightarrow> Some (lit ''Bearer '' @ v) | ApiKey _ \<Rightarrow> None) \<and>
     header_get hs (lit ''x-medallion-api-key'') =
       (case cl_credential c of AccessToken _ \<Rightarrow> None | ApiKey v \<Rightarrow> Some v) \<and>
     header_get hs (lit ''x-medallion-workspace-id'') = Some (cl_workspaceId c) \<and>
     header_get hs (lit ''idempotency-key'') = map_option normalize_value (jr_idempotencyKey options)"

lemma defaultHeaders_identity:
  assumes "defaultHeaders c options t = Inr hs" "client_ok c"
  shows "identity_headers c options hs"
proof -
  obtain h0 where h0: "set_caller_headers [] (jr_headers options) = Inr h0"
    "rejectProtectedHeaders h0 = Inr ()"
    using assms(1) by (auto simp: defaultHeaders_def result_iff)
  have names: "header_names_ok h0" using set_caller_headers_names [OF h0(1)] by simp
  have absent: "header_get h0 (lit ''authorization'') = None"
    "header_get h0 (lit ''x-medallion-api-key'') = None"
    "header_get h0 (lit ''idempotency-key'') = None"
    using rejectProtected_get [OF h0(2) names]
    by (simp_all add: header_names PROTECTED_REQUEST_HEADERS_def)
  have cred: "credential_ok (cl_credential c)" and ws: "workspace_pattern (cl_workspaceId c)"
    using assms(2) by (simp_all add: client_ok_def)
  show ?thesis
    using assms(1) h0 absent credential_normal [OF cred] workspace_normal [OF ws]
    by (cases "cl_credential c"; cases "jr_idempotencyKey options"; cases "jr_connectProtocol options")
       (auto simp: defaultHeaders_def credentialHeader_def result_iff header_get_set header_names
          identity_headers_def)
qed

lemma prepareJson_identity:
  assumes "prepareJson c options = Inr ca" "client_ok c"
  shows "identity_headers c options (ca_headers ca)" "ca_method ca = lit ''POST''"
    "ca_path ca = jr_path options" "ca_retrySafe ca = jr_retrySafe options"
    "credential_value (cl_credential c) \<in> set (ca_redactions ca)"
    "ca_signal ca = jr_signal options" "timeout_ok (ca_timeoutMs ca)"
proof -
  obtain t h0 h1 where t: "normalizeTimeout (orElse (jr_timeoutMs options) (num (cl_timeoutMs c))) = Inr t"
    and h0: "defaultHeaders c options t = Inr h0"
    and h1: "header_set h0 (lit ''Accept'') (lit ''application/json'') = Inr h1"
    and ca: "ca_headers ca = h1 \<or>
      header_set h1 (lit ''Content-Type'') (lit ''application/json'') = Inr (ca_headers ca)"
      "ca_method ca = lit ''POST''" "ca_path ca = jr_path options"
      "ca_retrySafe ca = jr_retrySafe options"
      "credential_value (cl_credential c) \<in> set (ca_redactions ca)"
      "ca_signal ca = jr_signal options" "ca_timeoutMs ca = t"
    using assms(1) by (auto simp: prepareJson_def result_iff split: if_splits)
  have "identity_headers c options h0" by (rule defaultHeaders_identity [OF h0 assms(2)])
  with h1 ca(1) show "identity_headers c options (ca_headers ca)"
    by (auto simp: identity_headers_def header_get_set header_names)
  from ca normalizeTimeout_ok [OF t] show "ca_method ca = lit ''POST''" "ca_path ca = jr_path options"
    "ca_retrySafe ca = jr_retrySafe options"
    "credential_value (cl_credential c) \<in> set (ca_redactions ca)"
    "ca_signal ca = jr_signal options" "timeout_ok (ca_timeoutMs ca)" by simp_all
qed

lemma fetch_identity:
  assumes "client_ok c" "FetchCall url m hs b \<in> set (fetches (snd (requestJson p c options now injs env)))"
  shows "m = lit ''POST'' \<and> identity_headers c options hs"
proof -
  obtain ca where prep: "prepareJson c options = Inr ca"
    and f: "FetchCall url m hs b \<in> set (fetches (snd (dispatch p c ca now injs env)))"
    using assms(2) by (auto simp: requestJson_def split: sum.splits)
  from dispatch_fetch [OF f] prepareJson_identity [OF prep assms(1)]
  show ?thesis
    by (auto simp: identity_headers_def header_names PROTECTED_REQUEST_HEADERS_def)
qed

text \<open>
  C22. Every fetch of a JSON request, on the first attempt and on every retry, with tracing or
  without and whatever headers the caller gave, is a POST that carries exactly the client's one
  credential (a bearer token or an API key, never both), its workspace id, and the idempotency
  key of the request if it has one.
\<close>

theorem fetch_carries_identity:
  assumes "client_ok c" "FetchCall url m hs b \<in> set (fetches (snd (requestJson p c options now injs env)))"
  shows "m = lit ''POST'' \<and> identity_headers c options hs"
  using assms by (rule fetch_identity)

lemma set_caller_headers_keys:
  "set_caller_headers hs es = Inr hs' \<Longrightarrow>
   toLowerCase k \<in> fst ` set hs \<or> (\<exists>v. (k, Some v) \<in> set es) \<Longrightarrow> toLowerCase k \<in> fst ` set hs'"
proof (induction hs es rule: set_caller_headers.induct)
  case (3 hs key v es)
  then obtain h1 where h1: "setValidatedHeader hs key v = Inr h1" "set_caller_headers h1 es = Inr hs'"
    by (auto simp: result_iff)
  have "fst ` set h1 = insert (toLowerCase key) (fst ` set hs)"
    using h1(1) keys_set_prop [of hs "toLowerCase key" "normalize_value v"]
    by (simp add: setValidatedHeader_Inr_iff header_set_def split: if_splits)
  with "3.prems"(2) have "toLowerCase k \<in> fst ` set h1 \<or> (\<exists>v. (k, Some v) \<in> set es)" by auto
  with "3.IH" h1 show ?case by blast
qed auto

text \<open>
  C32. A caller cannot set a header of the SDK: when a caller header that has a value has one
  of the protected names, in any case, nothing is sent, and the request fails with the
  protected-header error if nothing else was wrong before (the workspace in the body, the
  timeout, a caller header that HTTP cannot carry).
\<close>

theorem protected_header_refused:
  assumes "(name, Some v) \<in> set (jr_headers options)"
    and "toLowerCase name \<in> set PROTECTED_REQUEST_HEADERS"
  shows "snd (requestJson p c options now injs env) = [] \<and>
     fst (requestJson p c options now injs env) \<in>
       Inl ` medErr ` {MEDALLION_PROTECTED_HEADER, MEDALLION_INVALID_HEADER_VALUE,
         MEDALLION_INVALID_TIMEOUT, MEDALLION_WORKSPACE_SELECTOR_CONFLICT}"
proof -
  have "defaultHeaders c options t \<in>
      Inl ` medErr ` {MEDALLION_PROTECTED_HEADER, MEDALLION_INVALID_HEADER_VALUE}" for t
  proof (cases "set_caller_headers [] (jr_headers options)")
    case (Inl e)
    then show ?thesis using set_caller_headers_error by (auto simp: defaultHeaders_def)
  next
    case (Inr h0)
    have "toLowerCase name \<in> fst ` set h0"
      using set_caller_headers_keys [OF Inr] assms(1) by blast
    then have "rejectProtectedHeaders h0 = Inl (medErr MEDALLION_PROTECTED_HEADER)"
      using assms(2) by (force simp: rejectProtectedHeaders_def failIf_Inl_iff list_ex_iff)
    with Inr show ?thesis by (simp add: defaultHeaders_def)
  qed
  then have headers: "\<exists>e. defaultHeaders c options t = Inl e \<and>
      e \<in> medErr ` {MEDALLION_PROTECTED_HEADER, MEDALLION_INVALID_HEADER_VALUE}" for t
    by blast
  have "\<exists>e. prepareJson c options = Inl e \<and>
      e \<in> medErr ` {MEDALLION_PROTECTED_HEADER, MEDALLION_INVALID_HEADER_VALUE,
         MEDALLION_INVALID_TIMEOUT, MEDALLION_WORKSPACE_SELECTOR_CONFLICT}"
  proof (cases "assertWorkspaceSelectorCompatible c (jr_body options)")
    case (Inl e)
    then have "e = medErr MEDALLION_WORKSPACE_SELECTOR_CONFLICT"
      by (auto simp: assertWorkspaceSelectorCompatible_def failIf_Inl_iff split: option.splits)
    with Inl show ?thesis by (simp add: prepareJson_def)
  next
    case ws: (Inr u)
    show ?thesis
    proof (cases "normalizeTimeout (orElse (jr_timeoutMs options) (num (cl_timeoutMs c)))")
      case (Inl e)
      with ws normalizeTimeout_error [OF Inl] show ?thesis by (simp add: prepareJson_def)
    next
      case (Inr t)
      obtain e where "defaultHeaders c options t = Inl e"
        "e \<in> medErr ` {MEDALLION_PROTECTED_HEADER, MEDALLION_INVALID_HEADER_VALUE}"
        using headers by blast
      with ws Inr show ?thesis by (auto simp: prepareJson_def)
    qed
  qed
  then show ?thesis by (auto simp: requestJson_def)
qed

theorem fetch_carries_identity_witness:
  "\<exists>m hs b. FetchCall (lit ''https://api.example.com/v1/x'') m hs b \<in>
      set (fetches (snd (requestJson sample_platform sample_client
        \<lparr>jr_path = lit ''/v1/x'', jr_body = JUndef, jr_headers = [],
         jr_signal = None, jr_timeoutMs = None, jr_connectProtocol = False, jr_retrySafe = True,
         jr_idempotencyKey = Some (lit ''k1'')\<rparr> 0 [] (\<lambda>n. sample_attempt (Inr (sample_response 204)))))) \<and>
     m = lit ''POST'' \<and> header_get hs (lit ''x-medallion-api-key'') = Some (lit ''hunter2'')"
proof -
  let ?o = "\<lparr>jr_path = lit ''/v1/x'', jr_body = JUndef, jr_headers = [],
         jr_signal = None, jr_timeoutMs = None, jr_connectProtocol = False, jr_retrySafe = True,
         jr_idempotencyKey = Some (lit ''k1'')\<rparr>"
  let ?fs = "fetches (snd (requestJson sample_platform sample_client ?o 0 []
      (\<lambda>n. sample_attempt (Inr (sample_response 204)))))"
  have "case ?fs of [] \<Rightarrow> False | f # _ \<Rightarrow>
      (case f of FetchCall u m hs b \<Rightarrow> u = lit ''https://api.example.com/v1/x'' | _ \<Rightarrow> False)"
    by code_simp
  then obtain f fs where fs: "?fs = f # fs"
    and "case f of FetchCall u m hs b \<Rightarrow> u = lit ''https://api.example.com/v1/x'' | _ \<Rightarrow> False"
    by (cases ?fs) simp_all
  then obtain m hs b where "f = FetchCall (lit ''https://api.example.com/v1/x'') m hs b"
    by (cases f) simp_all
  with fs have f: "FetchCall (lit ''https://api.example.com/v1/x'') m hs b \<in> set ?fs" by simp
  from fetch_carries_identity [OF sample_client_ok f] f show ?thesis
    by (auto simp: identity_headers_def sample_client_def)
qed

theorem protected_header_refused_witness:
  "snd (requestJson sample_platform sample_client
     \<lparr>jr_path = lit ''/v1/x'', jr_body = JObj [], jr_headers = [(lit ''AUTHORIZATION'', Some (lit ''x''))],
      jr_signal = None, jr_timeoutMs = None, jr_connectProtocol = True, jr_retrySafe = True,
      jr_idempotencyKey = None\<rparr> 0 []
     (\<lambda>n. sample_attempt (Inr (sample_response 204)))) = []"
proof -
  have "toLowerCase (lit ''AUTHORIZATION'') \<in> set PROTECTED_REQUEST_HEADERS" by code_simp
  then show ?thesis
    by (intro protected_header_refused [THEN conjunct1, of "lit ''AUTHORIZATION''" "lit ''x''"]) simp_all
qed

end
