(* ===== verification/Client_Witnesses.thy ===== *)
theory Client_Witnesses
  imports Client_Facts Request_Facts
begin

text \<open>
  Concrete clients and servers on which the theorems about the clients are instantiated: a
  descriptor with the four methods, the codec that keeps the JSON as it is, and a server that
  answers with a fixed body.
\<close>

definition sample_field :: "string \<Rightarrow> string \<Rightarrow> field_kind \<Rightarrow> desc_field" where
  "sample_field n j k = \<lparr>df_name = lit n, df_jsonName = lit j, df_kind = k\<rparr>"

definition sample_method :: "string \<Rightarrow> string \<Rightarrow> desc_method" where
  "sample_method n i = \<lparr>dm_name = lit n, dm_input = lit i, dm_output = lit ''Out'', dm_unary = True\<rparr>"

definition sample_descriptor :: descriptor where
  "sample_descriptor =
     \<lparr>ds_messages = (\<lambda>t.
        if t = lit ''Publish'' then
          [sample_field ''connector_id'' ''connectorId'' OtherField,
           sample_field ''events'' ''events'' (MessageList (lit ''Event''))]
        else if t = lit ''Event'' then
          [sample_field ''stream_name'' ''streamName'' OtherField,
           sample_field ''entity_type'' ''entityType'' OtherField,
           sample_field ''entity_id'' ''entityId'' OtherField,
           sample_field ''resource_type'' ''resourceType'' OtherField,
           sample_field ''resource_id'' ''resourceId'' OtherField,
           sample_field ''idempotency_key'' ''idempotencyKey'' OtherField,
           sample_field ''payload_json'' ''payloadJson'' OtherField]
        else if t = lit ''List'' then
          [sample_field ''workspace_id'' ''workspaceId'' OtherField]
        else []),
      ds_services = [(lit ''S'',
        [(lit ''PublishCdcEvents'', sample_method ''PublishCdcEvents'' ''Publish''),
         (lit ''PublishAuditEvents'', sample_method ''PublishAuditEvents'' ''Publish''),
         (lit ''ListCdcEvents'', sample_method ''ListCdcEvents'' ''List''),
         (lit ''ListAuditEvents'', sample_method ''ListAuditEvents'' ''List'')])]\<rparr>"

text \<open>The codec keeps a request as it is; a response decodes to \<open>answer\<close>.\<close>

definition sample_codec :: "jsval \<Rightarrow> jsval codec" where
  "sample_codec answer =
     \<lparr>cd_fromJson = (\<lambda>_ _ v. Some v),
      cd_toJson = (\<lambda>_ names v. Some (if names then answer else v))\<rparr>"

definition sample_connect :: "jsval \<Rightarrow> jsval connect_client" where
  "sample_connect answer =
     \<lparr>pc_platform = sample_platform, pc_requests = sample_client,
      pc_workspaceId = lit ''ws_00000000000000000000000000'',
      pc_runtime = \<lparr>rt_parsed = sample_descriptor, rt_codec = sample_codec answer, rt_pathPrefix = [],
        rt_serviceName = lit ''S'', rt_ignoreUnknown = True\<rparr>\<rparr>"

definition sample_script :: request_script where
  "sample_script =
     \<lparr>qs_now = 0, qs_injections = [],
      qs_env = (\<lambda>_. sample_attempt (Inr
        \<lparr>rs_status = 200, rs_redirected = False, rs_headers = [],
         rs_body = Some \<lparr>bs_chunks = [[0x7B, 0x7D]], bs_error = None\<rparr>\<rparr>))\<rparr>"

definition no_options :: request_options where
  "no_options = \<lparr>ro_signal = None, ro_timeoutMs = None\<rparr>"

section \<open>A request that is answered\<close>

lemma attempt_step_sends:
  "attempt_step p c ca url d b hs n ev s = (out, fx, s') \<Longrightarrow> (\<forall>e. out \<noteq> Throw e) \<Longrightarrow> fetches fx \<noteq> []"
  using attempt_step_fetches [of p c ca url d b hs n ev s out fx s'] by auto

lemma attempt_loop_sends:
  "attempt_loop p c ca url d b hs env n s = (Inr r, fx, s') \<Longrightarrow> fetches fx \<noteq> []"
  by (subst (asm) attempt_loop.simps)
     (auto split: if_splits prod.splits outcome.splits dest: attempt_step_sends)

lemma requestJson_answered:
  assumes "prepareJson c ro = Inr ca" "delivers (env 1) v" "jr_retrySafe ro" "jr_signal ro = None"
    and "client_ok c" "buildUrl p c (ca_path ca) = Some url" "\<not> nt_enabled (cl_tracing c)"
  shows "\<exists>r fx. requestJson p c ro now injs env = (Inr r, fx) \<and> re_body r = v \<and> fetches fx \<noteq> []"
proof -
  note ca = prepareJson_identity [OF assms(1,5)]
  let ?s = "createSignal (ca_signal ca)"
  have quiet: "\<not> signal_aborted ?s" using assms(4) ca(6) by (simp add: createSignal_def signal_aborted_def)
  have "1 \<le> nr_maxAttempts (cl_retry c)" using assms(5) by (simp add: client_ok_def retry_ok_def)
  then have "\<exists>fx rid ra. attempt_loop p c ca url (now + ca_timeoutMs ca) False (ca_headers ca) env 1 ?s =
      (Inr \<lparr>re_body = v, re_requestId = rid, re_retryAfterMs = ra\<rparr>, fx, ?s)"
    using assms(2,3) ca(4) quiet by (intro attempt_loop_succeeds [where k = 1]) simp_all
  then obtain fx rid ra where loop: "attempt_loop p c ca url (now + ca_timeoutMs ca) False (ca_headers ca) env 1 ?s =
      (Inr \<lparr>re_body = v, re_requestId = rid, re_retryAfterMs = ra\<rparr>, fx, ?s)" by blast
  with attempt_loop_sends [OF loop] assms(1,6,7) show ?thesis
    by (auto simp: requestJson_def dispatch_def traceRequest_def)
qed

text \<open>A call of the protocol layer, which sets no headers of its own, can always be prepared once
  its body is for the client's workspace and can be serialised.\<close>

lemma printable_header_set:
  "is_token name \<Longrightarrow> list_all (\<lambda>u. 0x20 \<le> u \<and> u \<le> 0x7E) v \<Longrightarrow> \<exists>hs'. header_set hs name v = Inr hs'"
  using printable_legal by (simp add: header_set_def)

lemma printable_validated_set:
  assumes "is_token name" "list_all (\<lambda>u. 0x20 \<le> u \<and> u \<le> 0x7E) v"
  shows "\<exists>hs'. setValidatedHeader hs name v = Inr hs'"
proof -
  obtain hs' where "header_set hs name v = Inr hs'" using printable_header_set [OF assms] by blast
  with assms(2) show ?thesis by (simp add: setValidatedHeader_def validatedHeaderValue_def)
qed

lemma visible_printable:
  "list_all (\<lambda>u. 0x21 \<le> u \<and> u \<le> 0x7E) v \<Longrightarrow> list_all (\<lambda>u :: code_unit. 0x20 \<le> u \<and> u \<le> 0x7E) v"
  by (auto simp: list_all_iff word_le_nat_alt)

lemma ulid_printable: "is_ulid_unit u \<Longrightarrow> 0x20 \<le> u \<and> u \<le> 0x7E"
  by (auto simp: is_ulid_unit_def is_digit_def unit_in_def word_le_nat_alt)

lemma workspace_printable:
  "workspace_pattern w \<Longrightarrow> list_all (\<lambda>u. 0x20 \<le> u \<and> u \<le> 0x7E) w"
proof -
  assume w: "workspace_pattern w"
  have "list_all (\<lambda>u. 0x20 \<le> u \<and> u \<le> 0x7E) (take 3 w)"
    using w by (simp add: workspace_pattern_def lit_def)
  moreover have "list_all (\<lambda>u. 0x20 \<le> u \<and> u \<le> 0x7E) (drop 3 w)"
    using w ulid_printable by (auto simp: workspace_pattern_def list_all_iff)
  ultimately show ?thesis by (rule list_all_takeD)
qed

lemma header_tokens:
  "is_token (lit ''Authorization'')" "is_token (lit ''X-Medallion-API-Key'')"
  "is_token (lit ''X-Medallion-Workspace-Id'')" "is_token (lit ''Connect-Protocol-Version'')"
  "is_token (lit ''Connect-Timeout-Ms'')" "is_token (lit ''Accept'')" "is_token (lit ''Content-Type'')"
  "is_token (lit ''Idempotency-Key'')"
  by code_simp+

lemma credential_set:
  assumes "credential_ok cred"
  shows "\<exists>hs'. credentialHeader cred hs = Inr hs'"
proof -
  have v: "list_all (\<lambda>u. 0x20 \<le> u \<and> u \<le> 0x7E) (credential_value cred)"
    using assms by (simp add: credential_ok_def visible_printable)
  moreover have "list_all (\<lambda>u :: code_unit. 0x20 \<le> u \<and> u \<le> 0x7E) (lit ''Bearer '')"
    by (simp add: lit_def)
  ultimately show ?thesis
    using header_tokens by (cases cred) (auto simp: credentialHeader_def intro!: printable_validated_set)
qed

lemma connect_call_prepares:
  assumes "client_ok c" "jr_headers ro = []" "jr_timeoutMs ro = None"
    and "list_all (\<lambda>u. 0x20 \<le> u \<and> u \<le> 0x7E) (orElse (jr_idempotencyKey ro) [])"
    and "assertWorkspaceSelectorCompatible c (jr_body ro) = Inr ()" "json_stringify (jr_body ro) = Inr t"
  shows "\<exists>ca. prepareJson c ro = Inr ca"
proof -
  have "isFinite (num (cl_timeoutMs c))" by (simp add: isFinite_def num_def)
  then have "\<exists>n. normalizeTimeout (num (cl_timeoutMs c)) = Inr n"
    using assms(1) by (simp add: client_ok_def timeout_ok_def normalizeTimeout_def)
  then obtain n where n: "normalizeTimeout (num (cl_timeoutMs c)) = Inr n" by blast
  obtain h1 where h1: "credentialHeader (cl_credential c) [] = Inr h1"
    using credential_set assms(1) by (auto simp: client_ok_def)
  obtain h2 where h2: "setValidatedHeader h1 (lit ''X-Medallion-Workspace-Id'') (cl_workspaceId c) = Inr h2"
    using printable_validated_set header_tokens(3) workspace_printable assms(1)
    unfolding client_ok_def by blast
  have digits: "list_all (\<lambda>u. 0x20 \<le> u \<and> u \<le> 0x7E) (dec_int n)"
  proof -
    have "0 \<le> n" using normalizeTimeout_ok [OF n] by (simp add: timeout_ok_def)
    then have "dec_int n = dec_nat (nat n)" by (simp add: dec_int_def)
    then show ?thesis
      using all_digits_dec_nat [of "nat n"] is_digit_printable by (simp add: all_digits_def list_all_iff)
  qed
  have texts: "list_all (\<lambda>u :: code_unit. 0x20 \<le> u \<and> u \<le> 0x7E) (lit ''1'')"
    "list_all (\<lambda>u :: code_unit. 0x20 \<le> u \<and> u \<le> 0x7E) (lit ''application/json'')"
    by (simp_all add: lit_def)
  have "\<exists>hk. (case jr_idempotencyKey ro of
      None \<Rightarrow> Inr h2 | Some k \<Rightarrow> setValidatedHeader h2 (lit ''Idempotency-Key'') k) = Inr hk"
    using assms(4) printable_validated_set [OF header_tokens(8)] by (cases "jr_idempotencyKey ro") auto
  then obtain hk where hk: "(case jr_idempotencyKey ro of
      None \<Rightarrow> Inr h2 | Some k \<Rightarrow> setValidatedHeader h2 (lit ''Idempotency-Key'') k) = Inr hk" ..
  obtain h3 where h3: "header_set hk (lit ''Connect-Protocol-Version'') (lit ''1'') = Inr h3"
    using printable_header_set [OF header_tokens(4) texts(1)] by blast
  obtain h4 where h4: "header_set h3 (lit ''Connect-Timeout-Ms'') (dec_int n) = Inr h4"
    using printable_header_set [OF header_tokens(5) digits] by blast
  have "\<exists>h. defaultHeaders c ro n = Inr h"
    using assms(2) h1 h2 hk h3 h4 by (simp add: defaultHeaders_def rejectProtectedHeaders_def)
  then obtain h where h: "defaultHeaders c ro n = Inr h" by blast
  obtain h5 where h5: "header_set h (lit ''Accept'') (lit ''application/json'') = Inr h5"
    using printable_header_set [OF header_tokens(6) texts(2)] by blast
  obtain h6 where h6: "header_set h5 (lit ''Content-Type'') (lit ''application/json'') = Inr h6"
    using printable_header_set [OF header_tokens(7) texts(2)] by blast
  show ?thesis
    using assms(3,5,6) n h h5 h6 by (simp add: prepareJson_def)
qed

lemma read_braces:
  "fst (readResponseBody \<lparr>rs_status = 200, rs_redirected = False, rs_headers = [],
     rs_body = Some \<lparr>bs_chunks = [[0x7B, 0x7D]], bs_error = None\<rparr>\<rparr>) = Inr (JObj [])"
proof -
  have run: "decoder_run (Dec 0 0 128 191) [0x7B, 0x7D] = (Dec 0 0 128 191, [Scalar 123, Scalar 125])"
    by (simp add: decoder_start_def start_byte_def)
  have u: "units_of [123, 125] = lit ''{}''"
    by (simp add: units_of_def units_of_scalar_def lit_def)
  have t: "units_of (drop_bom (map replaced_scalar (decode_chunks_from decoder_start [[0x7B, 0x7D]]))) = lit ''{}''"
    by (simp add: run decoder_start_def drop_bom_def u del: decoder_run.simps)
  have p: "json_parse (lit ''{}'') = Some (JObj [])" by code_simp
  show ?thesis
    by (simp add: readResponseBody_def readBoundedResponseText_def header_get_def
        read_loop_text MAX_RESPONSE_BODY_BYTES_def t p del: read_loop.simps decode_chunks_from.simps)
qed

lemma sample_delivers: "delivers (qs_env sample_script 1) (JObj [])"
  by (simp add: delivers_def quiet_def sample_script_def sample_attempt_def response_ok_def read_braces)

text \<open>The sample server answers every request of the SDK that can be serialised.\<close>

lemma sample_sends:
  assumes "jr_headers ro = []" "jr_timeoutMs ro = None" "jr_signal ro = None" "jr_retrySafe ro"
    and "list_all (\<lambda>u. 0x20 \<le> u \<and> u \<le> 0x7E) (orElse (jr_idempotencyKey ro) [])"
    and "assertWorkspaceSelectorCompatible sample_client (jr_body ro) = Inr ()"
    and "isOk (json_stringify (jr_body ro))"
  shows "\<exists>r fx. requestJson sample_platform sample_client ro (qs_now sample_script)
      (qs_injections sample_script) (qs_env sample_script) = (Inr r, fx) \<and> re_body r = JObj [] \<and> fetches fx \<noteq> []"
proof -
  obtain t where "json_stringify (jr_body ro) = Inr t" using assms(7) unfolding isOk_iff by blast
  then obtain ca where ca: "prepareJson sample_client ro = Inr ca"
    using connect_call_prepares [OF sample_client_ok assms(1,2,5,6)] by blast
  show ?thesis
    by (rule requestJson_answered [where ca = ca
          and url = "cl_baseUrl sample_client @ (if startsWith (ca_path ca) (lit ''/'')
                then ca_path ca else lit ''/'' @ ca_path ca)"])
       (rule ca sample_delivers sample_client_ok assms(3,4) |
        simp add: buildUrl_def sample_platform_def sample_client_def normalizeTracing_def)+
qed

text \<open>A call is answered when its request can be prepared and the decoded answer checks out.\<close>

lemma sample_rpc:
  assumes "rpc_prepare (sample_connect answer) name body = Inr (m, encoded)"
    and "assertWorkspaceSelectorCompatible sample_client encoded = Inr ()" "isOk (json_stringify encoded)"
    and "\<And>rid. validateProtocolResponse name encoded answer
      (lit ''ws_00000000000000000000000000'') rid = Inr ()"
  shows "\<exists>rid fx. protocol_rpc (sample_connect answer) name body no_options True sample_script =
    (Inr \<lparr>rp_body = answer, rp_requestId = rid\<rparr>, fx) \<and> fx \<noteq> []"
proof -
  let ?ro = "\<lparr>jr_path = runtime_path (pc_runtime (sample_connect answer)) m, jr_body = encoded, jr_headers = [],
       jr_signal = None, jr_timeoutMs = None, jr_connectProtocol = True, jr_retrySafe = True,
       jr_idempotencyKey = None\<rparr>"
  obtain r fx where r: "requestJson sample_platform sample_client ?ro (qs_now sample_script)
      (qs_injections sample_script) (qs_env sample_script) = (Inr r, fx)" "re_body r = JObj []" "fetches fx \<noteq> []"
    using sample_sends [of ?ro] assms(2,3) by auto
  then have "fx \<noteq> []" by auto
  have "rpc_finish (sample_connect answer) name m encoded r =
      Inr \<lparr>rp_body = answer, rp_requestId = re_requestId r\<rparr>"
    using assms(4) by (simp add: rpc_finish_def decodeOutput_def sample_connect_def sample_codec_def r(2))
  with assms(1) r(1) \<open>fx \<noteq> []\<close> show ?thesis
    by (auto simp: protocol_rpc_def no_options_def sample_connect_def)
qed

section \<open>Publishing\<close>

definition sample_ack :: jsval where
  "sample_ack = JObj
     [(lit ''events'', JArr [JObj [(lit ''idempotency_key'', JStr (lit ''k'')), (lit ''event_id'', JStr (lit ''7''))]]),
      (lit ''accepted_count'', JNum (num 1))]"

definition sample_facts :: event_facts where
  "sample_facts =
     \<lparr>ef_idempotencyKey = JStr (lit ''k''), ef_payload = HUndef, ef_payloadJson = None,
      ef_sourceEventId = JUndef, ef_actor = None, ef_occurredAt = None, ef_description = None,
      ef_otherKeys = []\<rparr>"

definition sample_cdc_batch :: cdc_batch_input where
  "sample_cdc_batch = \<lparr>cbi_connectorId = Some (lit ''c''), cbi_events =
     [event_facts.extend sample_facts
        \<lparr>ci_streamName = Some (lit ''s''), ci_entityType = Some (lit ''t''),
         ci_entityId = JStr (lit ''1''), ci_operation = Some (lit ''insert'')\<rparr>]\<rparr>"

definition sample_cdc :: "jsval \<Rightarrow> jsval cdc_client" where
  "sample_cdc answer = newCdcClient (sample_connect answer) (lit ''ws_00000000000000000000000000'') None"

definition sample_wire :: "(jstr \<times> jsval) list" where
  "sample_wire = cdc_wire (lit ''s'') (lit ''t'') (lit ''1'') (lit ''CDC_OPERATION_INSERT'') None (lit ''k'')
     None (lit ''{}'') None None"

lemma sample_cdc_wire: "mapE (cdc_modernEventToWire []) (cbi_events sample_cdc_batch) = Inr [sample_wire]"
  by code_simp

definition sample_publish_request :: jsval where
  "sample_publish_request = JObj
     [(lit ''connectorId'', JStr (lit ''c'')),
      (lit ''events'', JArr [JObj
        [(lit ''streamName'', JStr (lit ''s'')), (lit ''entityType'', JStr (lit ''t'')),
         (lit ''entityId'', JStr (lit ''1'')), (lit ''operation'', JStr (lit ''CDC_OPERATION_INSERT'')),
         (lit ''idempotencyKey'', JStr (lit ''k'')), (lit ''payloadJson'', JStr (lit ''{}''))]])]"

lemma sample_normalize:
  "normalizeProtoJson sample_descriptor (lit ''Publish'') (publish_body (lit ''c'') [sample_wire]) =
     sample_publish_request"
  "normalizeProtoJson sample_descriptor (lit ''Publish'') sample_publish_request = sample_publish_request"
  by (simp_all add: publish_body_def sample_wire_def cdc_wire_def compactRecord_def
      sample_descriptor_def sample_field_def find_field_def assign_all_def sample_publish_request_def)

lemma sample_publish_preflight:
  "preflightConnectRequest (lit ''PublishCdcEvents'') sample_publish_request = Inr ()"
  by code_simp

lemma sample_prepared:
  assumes "runtime_method (pc_runtime (sample_connect answer)) name = Inr m"
    and "normalizeProtoJson sample_descriptor (dm_input m) body = req"
    and "normalizeProtoJson sample_descriptor (dm_input m) req = req"
    and "preflightConnectRequest name req = Inr ()"
  shows "rpc_prepare (sample_connect answer) name body = Inr (m, req)"
proof -
  have rt: "rt_parsed (pc_runtime (sample_connect answer)) = sample_descriptor"
    "rt_codec (pc_runtime (sample_connect answer)) = sample_codec answer" by (simp_all add: sample_connect_def)
  show ?thesis
    using assms by (simp add: rpc_prepare_def normalizeInput_def rt encodeInput_def sample_codec_def)
qed

lemma sample_methods:
  "runtime_method (pc_runtime (sample_connect answer)) (lit ''PublishCdcEvents'') =
     Inr (sample_method ''PublishCdcEvents'' ''Publish'')"
  "runtime_method (pc_runtime (sample_connect answer)) (lit ''PublishAuditEvents'') =
     Inr (sample_method ''PublishAuditEvents'' ''Publish'')"
  "runtime_method (pc_runtime (sample_connect answer)) (lit ''ListCdcEvents'') =
     Inr (sample_method ''ListCdcEvents'' ''List'')"
  "dm_input (sample_method n i) = lit i"
  by (simp_all add: runtime_method_def sample_connect_def sample_descriptor_def sample_method_def)

lemma sample_published:
  "\<exists>rid fx. publishCdcEvents (sample_connect sample_ack) (publish_body (lit ''c'') [sample_wire])
     no_options sample_script = (Inr \<lparr>rp_body = sample_ack, rp_requestId = rid\<rparr>, fx) \<and> fx \<noteq> []"
  unfolding publishCdcEvents_def
proof (rule sample_rpc)
  show "rpc_prepare (sample_connect sample_ack) (lit ''PublishCdcEvents'') (publish_body (lit ''c'') [sample_wire]) =
      Inr (sample_method ''PublishCdcEvents'' ''Publish'', sample_publish_request)"
    by (rule sample_prepared) (simp_all add: sample_methods sample_normalize sample_publish_preflight)
  show "assertWorkspaceSelectorCompatible sample_client sample_publish_request = Inr ()"
    by (simp add: assertWorkspaceSelectorCompatible_def sample_publish_request_def)
  show "isOk (json_stringify sample_publish_request)" by (simp add: sample_publish_request_def)
  show "validateProtocolResponse (lit ''PublishCdcEvents'') sample_publish_request sample_ack
      (lit ''ws_00000000000000000000000000'') rid = Inr ()" for rid
    by (simp add: validateProtocolResponse_def submittedKeys_def sample_publish_request_def object_props_def
        get_member_def publish_view_def sample_ack_def receipt_view_def batchResponse_def batch_event_def
        losslessInteger_def positive_id_def all_digits_def parse_dec_def lit_def is_digit_def unit_in_def digit_value_def
        Let_def)
qed

lemma sample_batchResponse: "isOk (batchResponse (publish_view sample_ack) [lit ''k''] rid)"
  by (simp add: object_props_def publish_view_def sample_ack_def receipt_view_def batchResponse_def batch_event_def
      losslessInteger_def positive_id_def all_digits_def parse_dec_def lit_def is_digit_def unit_in_def
      digit_value_def Let_def)

lemma sample_id: "trim (lit ''c'') = lit ''c''" "utf8_length (lit ''c'') = 1"
  by code_simp+

lemma sample_wire_key: "wire_key sample_wire = lit ''k''"
  by (simp add: sample_wire_def cdc_wire_key)

theorem cdc_batch_acknowledged_witness:
  "\<exists>r. fst (cdc_publishBatch (sample_cdc sample_ack) [] sample_cdc_batch no_options sample_script) = Inr r \<and>
     acknowledges r [JStr (lit ''k'')]"
proof -
  obtain rid fx where sent: "publishCdcEvents (sample_connect sample_ack) (publish_body (lit ''c'') [sample_wire])
     no_options sample_script = (Inr \<lparr>rp_body = sample_ack, rp_requestId = rid\<rparr>, fx)"
    using sample_published by blast
  obtain r where r: "batchResponse (publish_view sample_ack) [lit ''k''] rid = Inr r"
    using sample_batchResponse [of rid] unfolding isOk_iff by blast
  have "validateBatchSize (cbi_events sample_cdc_batch) = Inr ()"
    "requiredConnectorId (orOption (cbi_connectorId sample_cdc_batch) (cc_defaultConnectorId (sample_cdc sample_ack))) =
      Inr (lit ''c'')"
    by (simp_all add: validateBatchSize_def MAX_INGESTION_BATCH_SIZE_def sample_cdc_batch_def
        requiredConnectorId_def boundedText_def exceeds_bytes_def MAX_CONNECTOR_ID_BYTES_def sample_id)
  then have "fst (cdc_publishBatch (sample_cdc sample_ack) [] sample_cdc_batch no_options sample_script) = Inr r"
    using sent r
    by (simp add: cdc_publishBatch_def cdc_publishWireEvents_def sample_cdc_wire sample_wire_key
        sample_cdc_def newCdcClient_def)
  with cdc_batch_acknowledged [OF this] show ?thesis
    by (auto simp: sample_cdc_batch_def sample_facts_def event_facts.defs)
qed

section \<open>Recording an audit event in the deprecated form\<close>

definition sample_audit :: "jsval \<Rightarrow> jsval audit_client" where
  "sample_audit answer = newAuditClient (sample_connect answer) (lit ''ws_00000000000000000000000000'') None"

definition sample_audit_input :: audit_record_input where
  "sample_audit_input =
     \<lparr>ari_connectorId = Some (lit ''c''), ari_event = AuditLegacy (event_facts.extend sample_facts
        \<lparr>la_action = Some (lit ''a''), la_outcome = Some (lit ''failed''),
         la_resource = \<lparr>rr_type = lit ''t'', rr_id = JNum (num 1)\<rparr>, la_before = HUndef,
         la_after = HBool True, la_metadata = HUndef, la_evidenceUrl = None\<rparr>)\<rparr>"

definition sample_audit_payload :: jstr where
  "sample_audit_payload =
     lit ''{\"actor\":null,\"after\":true,\"before\":null,\"evidenceUrl\":null,\"metadata\":null,\"resource\":{\"id\":\"1\",\"type\":\"t\"}}''"

definition sample_audit_wire :: "(jstr \<times> jsval) list" where
  "sample_audit_wire = audit_wire (lit ''t'') (lit ''1'') (lit ''a'') (lit ''AUDIT_EVENT_OUTCOME_FAILED'')
     (lit ''k'') None sample_audit_payload None None None"

lemma sample_audit_encoded: "audit_recordToWire [] (ari_event sample_audit_input) = Inr sample_audit_wire"
  by code_simp

lemma sample_payload_parses: "payload_ok (JStr sample_audit_payload)"
  by code_simp

definition sample_audit_request :: jsval where
  "sample_audit_request = JObj
     [(lit ''connectorId'', JStr (lit ''c'')),
      (lit ''events'', JArr [JObj
        [(lit ''resourceType'', JStr (lit ''t'')), (lit ''resourceId'', JStr (lit ''1'')),
         (lit ''action'', JStr (lit ''a'')), (lit ''outcome'', JStr (lit ''AUDIT_EVENT_OUTCOME_FAILED'')),
         (lit ''idempotencyKey'', JStr (lit ''k'')), (lit ''payloadJson'', JStr sample_audit_payload)]])]"

lemma sample_audit_normalize:
  "normalizeProtoJson sample_descriptor (lit ''Publish'') (publish_body (lit ''c'') [sample_audit_wire]) =
     sample_audit_request"
  "normalizeProtoJson sample_descriptor (lit ''Publish'') sample_audit_request = sample_audit_request"
  by (simp_all add: publish_body_def sample_audit_wire_def audit_wire_def compactRecord_def
      sample_descriptor_def sample_field_def find_field_def assign_all_def sample_audit_request_def)

lemma sample_texts:
  "text_ok 128 (JStr (lit ''c''))" "text_ok 256 (JStr (lit ''t''))" "text_ok 1024 (JStr (lit ''1''))"
  "text_ok 256 (JStr (lit ''a''))" "key_ok (JStr (lit ''k''))"
  by code_simp+

lemma sample_audit_preflight:
  "preflightConnectRequest (lit ''PublishAuditEvents'') sample_audit_request = Inr ()"
  by (simp add: preflightConnectRequest_def preflight_requiredRecord_def sample_audit_request_def
      preflightPublishAudit_ok publish_ok_def audit_event_ok_def event_ok_def
      sample_texts sample_payload_parses opt_text_ok_def time_ok_def enum_ok_def text_or_empty_def
      AUDIT_OUTCOMES_def audit_derived_fields_def cdc_derived_fields_def hasNonDefaultValue_def)

lemma sample_audit_key: "wire_key sample_audit_wire = lit ''k''"
  by (simp add: sample_audit_wire_def audit_wire_key)

lemma sample_audit_published:
  "\<exists>rid fx. publishAuditEvents (sample_connect sample_ack) (publish_body (lit ''c'') [sample_audit_wire])
     no_options sample_script = (Inr \<lparr>rp_body = sample_ack, rp_requestId = rid\<rparr>, fx) \<and> fx \<noteq> []"
  unfolding publishAuditEvents_def
proof (rule sample_rpc)
  show "rpc_prepare (sample_connect sample_ack) (lit ''PublishAuditEvents'')
      (publish_body (lit ''c'') [sample_audit_wire]) =
      Inr (sample_method ''PublishAuditEvents'' ''Publish'', sample_audit_request)"
    by (rule sample_prepared) (simp_all add: sample_methods sample_audit_normalize sample_audit_preflight)
  show "assertWorkspaceSelectorCompatible sample_client sample_audit_request = Inr ()"
    by (simp add: assertWorkspaceSelectorCompatible_def sample_audit_request_def)
  show "isOk (json_stringify sample_audit_request)" by (simp add: sample_audit_request_def)
  show "validateProtocolResponse (lit ''PublishAuditEvents'') sample_audit_request sample_ack
      (lit ''ws_00000000000000000000000000'') rid = Inr ()" for rid
  proof -
    have "submittedKeys sample_audit_request = Inr [lit ''k'']"
      by (simp add: submittedKeys_def sample_audit_request_def object_props_def get_member_def)
    then show ?thesis
      using sample_batchResponse [of rid] by (auto simp: validateProtocolResponse_def isOk_iff)
  qed
qed

theorem audit_record_acknowledged_witness:
  "\<exists>r. fst (audit_record (sample_audit sample_ack) [] sample_audit_input no_options sample_script) = Inr r \<and>
     er_idempotencyKey r = lit ''k'' \<and> er_acceptedCount r + er_duplicateCount r = 1"
proof -
  obtain rid fx where sent: "publishAuditEvents (sample_connect sample_ack)
     (publish_body (lit ''c'') [sample_audit_wire]) no_options sample_script =
     (Inr \<lparr>rp_body = sample_ack, rp_requestId = rid\<rparr>, fx)"
    using sample_audit_published by blast
  obtain b where b: "batchResponse (publish_view sample_ack) [lit ''k''] rid = Inr b"
    using sample_batchResponse [of rid] unfolding isOk_iff by blast
  have "eb_events b \<noteq> []" using batchResponse_events(1) [OF b] by auto
  then obtain r where r: "singleEventResponse b = Inr r" by (cases "eb_events b") (auto simp: singleEventResponse_def)
  have "requiredConnectorId (orOption (ari_connectorId sample_audit_input)
      (ac_defaultConnectorId (sample_audit sample_ack))) = Inr (lit ''c'')"
    by (simp add: sample_audit_input_def requiredConnectorId_def boundedText_def exceeds_bytes_def
        MAX_CONNECTOR_ID_BYTES_def sample_id)
  then have run: "fst (audit_record (sample_audit sample_ack) [] sample_audit_input no_options sample_script) = Inr r"
    using sent b r
    by (simp add: audit_record_def audit_publishWireEvents_def sample_audit_encoded sample_audit_key
        sample_audit_def newAuditClient_def)
  from audit_record_acknowledged [OF run] run show ?thesis
    by (auto simp: sample_audit_input_def audit_event_key_def sample_facts_def event_facts.defs)
qed

section \<open>The other theorems\<close>


definition sample_cdc_query :: cdc_list_input where
  "sample_cdc_query =
     \<lparr>cq_connectorId = None, cq_entityType = None, cq_entityId = JUndef, cq_streamName = None,
      cq_sourceSystem = None, cq_actor = None, cq_ingesterPrincipal = None, cq_occurredAtFrom = None,
      cq_occurredAtTo = None, cq_cursor = None, cq_limit = None\<rparr>"

theorem iterate_bounded_and_owned_witness:
  "length (fetches (snd (snd (cdc_iterate (sample_cdc (JObj [])) sample_cdc_query no_options
     (\<lambda>_. sample_script))))) \<le> 50000"
  using iterate_bounded_and_owned [of "sample_cdc (JObj [])" "sample_audit (JObj [])" sample_cdc_query
      no_options "\<lambda>_. sample_script"]
  by (simp add: sample_cdc_def sample_audit_def newCdcClient_def newAuditClient_def sample_connect_def
      sample_client_ok)

end
