(* ===== verification/Table_Facts.thy ===== *)
theory Table_Facts
  imports Table_Query Client_Facts Request_Facts
begin

text \<open>
  What the tables client guarantees of declarations, appends and listings: the schemas that are
  sent are exactly those of the declarative specification, an append accounts for the submitted
  rows only, every attempt of a write carries its one key, and a listed table has the name of its
  identifier.
\<close>

section \<open>Names\<close>

lemma name_unit_not_slash: "is_name_unit u \<Longrightarrow> u \<noteq> of_char CHR ''/''"
  by (auto simp: is_name_unit_def is_digit_def unit_in_def word_le_nat_alt)

lemma identifier_not_qualified: "lower_identifier n s \<Longrightarrow> \<not> startsWith s (lit ''tables/'')"
proof
  assume id: "lower_identifier n s" and "startsWith s (lit ''tables/'')"
  then obtain t where "s = lit ''tables/'' @ t" by (auto simp: startsWith_iff)
  with id have "list_all is_name_unit (lit ''ables/'')" by (simp add: lower_identifier_def lit_def)
  then have "is_name_unit (of_char CHR ''/'')" by (simp add: lit_def)
  then show False using name_unit_not_slash by blast
qed

lemma table_name_iff: "TABLE_NAME_PATTERN s \<longleftrightarrow> (\<exists>t. s = lit ''tables/'' @ t \<and> TABLE_ID_PATTERN t)"
  by (auto simp: TABLE_NAME_PATTERN_def TABLE_ID_PATTERN_def startsWith_iff)

lemma tableResourceName_id: "TABLE_ID_PATTERN t \<Longrightarrow> tableResourceName (JStr t) = Inr (lit ''tables/'' @ t)"
  using identifier_not_qualified [of 62 t]
  by (simp add: tableResourceName_def requiredTableId_def TABLE_ID_PATTERN_def)

lemma tableResourceName_name:
  "TABLE_ID_PATTERN t \<Longrightarrow> tableResourceName (JStr (lit ''tables/'' @ t)) = Inr (lit ''tables/'' @ t)"
  by (simp add: tableResourceName_def requiredTableId_def)

lemma tableResourceName_ok:
  "tableResourceName v = Inr name \<Longrightarrow> TABLE_NAME_PATTERN name"
  by (cases v)
     (auto simp: tableResourceName_def requiredTableId_def table_name_iff result_iff split: if_splits)

lemma validateTable_name:
  "validateTable t rid = Inr u \<Longrightarrow> \<exists>ps s. t = JObj ps \<and> own_prop ps (lit ''name'') = JStr s \<and> TABLE_NAME_PATTERN s"
  by (cases t) (auto simp: validateTable_def get_member_def result_iff split: if_splits jsval.splits)

text \<open>A table as the client returns it: the name is that of the identifier.\<close>

definition named_table :: "table \<Rightarrow> bool" where
  "named_table t \<longleftrightarrow> TABLE_ID_PATTERN (tb_tableId t) \<and> tb_name t = lit ''tables/'' @ tb_tableId t"

lemma tableFromWire_named:
  assumes "validateTable v rid = Inr u" "tableFromWire v rid' = Inr t"
  shows "named_table t"
proof -
  obtain ps s where v: "v = JObj ps" "own_prop ps (lit ''name'') = JStr s" "TABLE_NAME_PATTERN s"
    using validateTable_name [OF assms(1)] by blast
  then obtain i where "s = lit ''tables/'' @ i" "TABLE_ID_PATTERN i" by (auto simp: table_name_iff)
  with v assms(2) show ?thesis
    by (auto simp: tableFromWire_def named_table_def result_iff split: if_splits)
qed

section \<open>Declarations\<close>

text \<open>A declaration with texts where the contract has texts, as \<open>columnsToWire\<close> writes it.\<close>

definition column_json :: "jstr \<times> jstr \<times> bool \<Rightarrow> jsval" where
  "column_json c =
     (case c of (name, type, nullable) \<Rightarrow>
        JObj [(lit ''name'', JStr name), (lit ''type'', JStr type),
          (lit ''nullable'', if nullable then JBool True else JUndef)])"

definition declared_table :: "(jstr \<times> jstr \<times> bool) list \<Rightarrow> jstr \<Rightarrow> jstr list \<Rightarrow> jsval" where
  "declared_table cols timeColumn sortColumns =
     JObj [(lit ''schema'', JObj [(lit ''columns'', JArr (map column_json cols))]),
       (lit ''time_column'', JStr timeColumn), (lit ''sort_columns'', JArr (map JStr sortColumns))]"

definition declared_names :: "(jstr \<times> jstr \<times> bool) list \<Rightarrow> jstr list" where
  "declared_names cols = map fst cols"

definition column_ok :: "jstr \<times> jstr \<times> bool \<Rightarrow> bool" where
  "column_ok c \<longleftrightarrow> COLUMN_NAME_PATTERN (fst c) \<and> fst (snd c) \<in> set TABLE_COLUMN_TYPES"

definition declaration_ok :: "(jstr \<times> jstr \<times> bool) list \<Rightarrow> jstr \<Rightarrow> jstr list \<Rightarrow> bool" where
  "declaration_ok cols timeColumn sortColumns \<longleftrightarrow>
     1 \<le> length cols \<and> length cols \<le> 512 \<and> list_all column_ok cols \<and> distinct (declared_names cols) \<and>
     (timeColumn = [] \<or> timeColumn \<in> set (declared_names cols)) \<and>
     length sortColumns \<le> 8 \<and> distinct sortColumns \<and> set sortColumns \<subseteq> set (declared_names cols)"

lemma preflight_column_json:
  "preflight_column (map JStr seen) (column_json c) = Inr names \<longleftrightarrow>
     column_ok c \<and> fst c \<notin> set seen \<and> names = map JStr (seen @ [fst c])"
  by (cases c)
     (auto simp: preflight_column_def column_json_def get_member_def column_ok_def result_iff)

lemma fold_columns_json:
  "foldE preflight_column (map JStr seen) (map column_json cols) = Inr names \<longleftrightarrow>
     list_all column_ok cols \<and> distinct (declared_names cols) \<and>
     set (declared_names cols) \<inter> set seen = {} \<and> names = map JStr (seen @ declared_names cols)"
proof (induction cols arbitrary: seen)
  case Nil
  then show ?case by (auto simp: declared_names_def)
next
  case (Cons c cols)
  have "foldE preflight_column (map JStr seen) (map column_json (c # cols)) = Inr names \<longleftrightarrow>
      column_ok c \<and> fst c \<notin> set seen \<and>
      foldE preflight_column (map JStr (seen @ [fst c])) (map column_json cols) = Inr names"
    by (auto simp: bindE_Inr_iff preflight_column_json simp del: map_append)
  then show ?case by (auto simp: Cons.IH declared_names_def simp del: map_append)
qed

lemma fold_sort_columns:
  "foldE (preflight_sort_column (map JStr names)) (map JStr seen) (map JStr cs) = Inr r \<longleftrightarrow>
     set cs \<subseteq> set names \<and> distinct cs \<and> set cs \<inter> set seen = {} \<and> r = map JStr (seen @ cs)"
proof (induction cs arbitrary: seen)
  case Nil
  then show ?case by auto
next
  case (Cons c cs)
  have "foldE (preflight_sort_column (map JStr names)) (map JStr seen) (map JStr (c # cs)) = Inr r \<longleftrightarrow>
      c \<in> set names \<and> c \<notin> set seen \<and>
      foldE (preflight_sort_column (map JStr names)) (map JStr (seen @ [c])) (map JStr cs) = Inr r"
    by (auto simp: preflight_sort_column_def bindE_Inr_iff thenE_Inr_iff failIf_Inr_iff simp del: map_append)
       simp_all
  then show ?case by (auto simp: Cons.IH simp del: map_append)
qed

lemma preflight_time_column_text:
  "preflight_time_column (map JStr names) (JStr t) = Inr u \<longleftrightarrow> t = [] \<or> t \<in> set names"
  by (auto simp: preflight_time_column_def js_greater_def failIf_Inr_iff)

lemma preflight_sort_columns_texts:
  "preflight_sort_columns (map JStr names) (JArr (map JStr cs)) = Inr u \<longleftrightarrow>
     length cs \<le> 8 \<and> set cs \<subseteq> set names \<and> distinct cs"
  using fold_sort_columns [of names "[]" cs]
  by (auto simp: preflight_sort_columns_def MAX_SORT_COLUMNS_def bindE_Inr_iff)

lemma preflightTable_declared:
  "preflightTable (declared_table cols timeColumn sortColumns) = Inr () \<longleftrightarrow>
     declaration_ok cols timeColumn sortColumns"
  using fold_columns_json [of "[]" cols]
  by (auto simp: preflightTable_def declared_table_def is_nullish_def MAX_TABLE_COLUMNS_def
      declaration_ok_def bindE_Inr_iff thenE_Inr_iff preflight_time_column_text preflight_sort_columns_texts Suc_le_eq)

text \<open>
  C37. A table declaration is sent exactly when it satisfies the contract: 1 through 512 columns with
  pairwise different identifiers as names and one of the eight types each, a time column that is
  one of them or empty, and at most 8 different sort columns, all of them declared.
\<close>

theorem preflightTable_iff:
  "preflightTable (declared_table cols timeColumn sortColumns) = Inr () \<longleftrightarrow>
     declaration_ok cols timeColumn sortColumns"
  by (rule preflightTable_declared)

lemma column_to_wire_json: "column_to_wire (column_json c) = Inr (column_json c)"
  by (cases c) (auto simp: column_to_wire_def column_json_def get_member_def)

lemma create_request_texts:
  "create_request \<lparr>tci_tableId = JStr i, tci_columns = JArr (map column_json cols),
     tci_timeColumn = JStr timeColumn, tci_sortColumns = JArr (map JStr sortColumns)\<rparr> =
   Inr [(lit ''table_id'', JStr i), (lit ''table'', declared_table cols timeColumn sortColumns)]"
proof -
  have "mapE column_to_wire (map column_json cols) = Inr (map id (map column_json cols))"
    by (rule mapE_all_ok) (auto simp: column_to_wire_json)
  then show ?thesis
    by (simp add: create_request_def columnsToWire_def js_spread_def declared_table_def)
qed

lemma create_sends_only_valid:
  assumes "snd (tables_create c \<lparr>tci_tableId = JStr i, tci_columns = JArr (map column_json cols),
     tci_timeColumn = JStr timeColumn, tci_sortColumns = JArr (map JStr sortColumns)\<rparr> options uuid script) \<noteq> []"
  shows "TABLE_ID_PATTERN i \<and> declaration_ok cols timeColumn sortColumns"
proof -
  have "isOk (thenE (requiredTableId (JStr i)) (preflightTable (declared_table cols timeColumn sortColumns)))"
    using assms
    by (auto simp: tables_create_def create_request_texts ingest_createTable_def guarded_def
        split: sum.splits)
  then show ?thesis
    by (auto simp: isOk_iff thenE_Inr_iff preflightTable_declared [symmetric] requiredTableId_def split: if_splits)
qed

section \<open>Appending\<close>

lemma nonNegativeCount_error_free: "nonNegativeCount v rid = Inr n \<Longrightarrow> nonNegativeCount v rid' = Inr n"
  by (auto simp: nonNegativeCount_def Let_def split: if_splits)

lemma guarded_Inr_iff: "guarded check call = (Inr r, fx) \<longleftrightarrow> (\<exists>u. check = Inr u) \<and> call = (Inr r, fx)"
  by (auto simp: guarded_def split: sum.splits)

lemma and_then_Inr_iff:
  "and_then call check = (Inr r, fx) \<longleftrightarrow>
     call = (Inr r, fx) \<and> (\<exists>u. check (rp_body r) (rp_requestId r) = Inr u)"
  by (cases call; cases "fst call") (auto simp: and_then_def thenE_Inr_iff)

lemma jsonRowsToWire_length:
  assumes "jsonRowsToWire h v ids = Inr ws"
  shows "\<exists>items. heap_object h v = Some (HArray items) \<and> 1 \<le> length items \<and> length items \<le> 50000 \<and>
     length ws = length items"
proof (cases "heap_object h v")
  case (Some o1)
  show ?thesis
  proof (cases o1)
    case (HArray items)
    with Some assms have "1 \<le> length items" "length items \<le> 50000"
      and ids: "case ids of None \<Rightarrow> True | Some is \<Rightarrow> length is = length items"
      and ws: "mapE (row_to_wire h) (zip items (orElse ids (replicate (length items) JUndef))) = Inr ws"
      by (auto simp: jsonRowsToWire_def MAX_INGEST_BATCH_ROWS_def thenE_Inr_iff failIf_Inr_iff Suc_le_eq
          split: if_splits option.splits)
    moreover have "length ws = length items"
      using mapE_length [OF ws] ids by (cases ids) simp_all
    ultimately show ?thesis using Some HArray by blast
  qed (use Some assms in \<open>simp add: jsonRowsToWire_def\<close>)
qed (use assms in \<open>simp add: jsonRowsToWire_def\<close>)

text \<open>The answer to a request with \<open>n\<close> JSON rows.\<close>

lemma append_result_within:
  assumes "validateAppendRowsResponse (rp_body response) (Some (num (int n))) (rp_requestId response) = Inr u"
    and "append_result key response = Inr r"
  shows "tr_acceptedRows r \<le> n \<and> list_all (\<lambda>e. te_index e < n) (tr_rowErrors r)"
proof -
  let ?body = "rp_body response" and ?rid = "rp_requestId response"
  obtain v accepted listed errors where v: "get_member ?body (lit ''accepted_rows'') = Inr v"
    "nonNegativeCount v ?rid = Inr accepted" "accepted \<le> n"
    "get_member ?body (lit ''row_errors'') = Inr listed" "coalesce listed (JArr []) = JArr errors"
    and "\<exists>us. mapE (validate_row_error (Some (num (int n))) ?rid) errors = Inr us"
    using assms(1)
    by (auto simp: validateAppendRowsResponse_def result_iff)
  then obtain us where us: "mapE (validate_row_error (Some (num (int n))) ?rid) errors = Inr us" by blast
  from assms(2) v have r: "tr_acceptedRows r = accepted"
    and es: "mapE (table_row_error_of ?rid) errors = Inr (tr_rowErrors r)"
    by (auto simp: append_result_def bindE_Inr_iff)
  have "te_index e < n" if e: "e \<in> set (tr_rowErrors r)" for e
  proof -
    obtain x where x: "x \<in> set errors" "table_row_error_of ?rid x = Inr e"
      using mapE_set_dest [OF es e] by blast
    moreover obtain u where "validate_row_error (Some (num (int n))) ?rid x = Inr u"
      using mapE_set_src [OF us x(1)] by blast
    ultimately show ?thesis
      by (auto simp: validate_row_error_def table_row_error_of_def bindE_Inr_iff failIf_Inr_iff)
  qed
  with r v(3) show ?thesis by (simp add: list_all_iff)
qed

definition rows_accounted :: "heap \<Rightarrow> table_rows \<Rightarrow> table_append_result \<Rightarrow> bool" where
  "rows_accounted h rows r \<longleftrightarrow>
     (case rows of
        JsonRows v \<Rightarrow>
          (case heap_object h v of
             Some (HArray items) \<Rightarrow>
               1 \<le> length items \<and> length items \<le> 50000 \<and> tr_acceptedRows r \<le> length items \<and>
               list_all (\<lambda>e. te_index e < length items) (tr_rowErrors r)
           | _ \<Rightarrow> False)
      | ArrowRows bytes \<Rightarrow> bytes \<noteq> [] \<and> length bytes \<le> 16777216)"

lemma append_request_rows:
  assumes "append_request h tableId rows options uuid = Inr (key, req)"
  shows "\<exists>table payload. table_row_payload h rows (ta_insertIds options) = Inr payload \<and>
     tableResourceName tableId = Inr table \<and>
     ingestIdempotencyKey uuid (wo_idempotencyKey options) = Inr key \<and>
     req = [(lit ''table'', JStr table), payload, (lit ''skip_invalid_rows'',
       if ta_skipInvalidRows options = JBool True then JBool True else JUndef)]"
  using assms by (auto simp: append_request_def result_iff)


section \<open>The key of a write\<close>

lemma prepareJson_body: "prepareJson c options = Inr ca \<Longrightarrow> json_stringify (jr_body options) = Inr (ca_body ca)"
  by (auto simp: prepareJson_def result_iff tryE_Inr_iff split: if_splits)

lemma requestJson_fetch_body:
  assumes "FetchCall url m hs b \<in> set (fetches (snd (requestJson p c options now injs env)))"
  shows "json_stringify (jr_body options) = Inr b"
proof -
  obtain ca where prep: "prepareJson c options = Inr ca"
    and f: "FetchCall url m hs b \<in> set (fetches (snd (dispatch p c ca now injs env)))"
    using assms by (auto simp: requestJson_def split: sum.splits)
  from dispatch_fetch [OF f] prepareJson_body [OF prep] show ?thesis by auto
qed

lemma printable_normal: "printable_ascii s \<Longrightarrow> normalize_value s = s"
  by (rule normalize_value_no_space) (auto simp: printable_ascii_def list_all_iff dest: visible_not_space)

lemma ingestIdempotencyKey_printable:
  "ingestIdempotencyKey uuid v = Inr key \<Longrightarrow> printable_ascii uuid \<Longrightarrow> printable_ascii key"
  by (cases v) (auto simp: ingestIdempotencyKey_def split: if_splits)

text \<open>What one fetch of a write looks like: its key is in the header, and its body is the encoding
  of the request stamped with the key (unless the caller stamped it).\<close>

definition carries_key ::
    "'msg ingest_client \<Rightarrow> jstr \<Rightarrow> (jstr \<times> jsval) list \<Rightarrow> jstr \<Rightarrow> effect \<Rightarrow> bool" where
  "carries_key gi methodName body key f \<longleftrightarrow>
     (\<exists>url hs b dm encoded.
        f = FetchCall url (lit ''POST'') hs b \<and>
        header_get hs (lit ''idempotency-key'') = Some key \<and>
        ingest_encode gi methodName (stamp_request_id body key) = Inr (dm, encoded) \<and>
        json_stringify encoded = Inr b)"

lemma own_stamped:
  "own_prop (stamp_request_id body key) (lit ''request_id'') =
     (if own_prop body (lit ''request_id'') \<in> {JUndef, JStr []} then JStr key
      else own_prop body (lit ''request_id''))"
  by (simp add: stamp_request_id_def Let_def own_prop_def map_of_set_prop)

lemma fetches_are: "f \<in> set (fetches fx) \<Longrightarrow> \<exists>url m hs b. f = FetchCall url m hs b"
  unfolding fetches_def set_filter by (cases f) (simp_all add: is_fetch_def)

lemma ingest_write_fetch:
  assumes "client_ok (gi_requests gi)" "printable_ascii uuid"
    and "f \<in> set (fetches (snd (ingest_write gi methodName body options uuid script)))"
  shows "\<exists>key. ingestIdempotencyKey uuid (wo_idempotencyKey options) = Inr key \<and>
     carries_key gi methodName body key f"
proof -
  obtain key where key: "ingestIdempotencyKey uuid (wo_idempotencyKey options) = Inr key"
    and f: "f \<in> set (fetches (snd (ingest_rpc gi methodName (stamp_request_id body key) options (Some key) script)))"
    using assms(3)
    by (auto simp: ingest_write_def ingest_write_prepare_def bindE_def thenE_def split: sum.splits)
  obtain dm encoded where enc: "ingest_encode gi methodName (stamp_request_id body key) = Inr (dm, encoded)"
    using f by (auto simp: ingest_rpc_def split: sum.splits)
  let ?jr = "\<lparr>jr_path = runtime_path (gi_runtime gi) dm, jr_body = encoded, jr_headers = [],
     jr_signal = ro_signal options, jr_timeoutMs = ro_timeoutMs options,
     jr_connectProtocol = True, jr_retrySafe = True, jr_idempotencyKey = Some key\<rparr>"
  have sent: "f \<in> set (fetches (snd (requestJson (gi_platform gi) (gi_requests gi) ?jr
      (qs_now script) (qs_injections script) (qs_env script))))"
    using f by (auto simp: ingest_rpc_def enc split: sum.splits prod.splits)
  obtain url m hs b where call: "f = FetchCall url m hs b"
    using fetches_are [OF sent] by blast
  from fetch_identity [OF assms(1) sent [unfolded call]]
    requestJson_fetch_body [OF sent [unfolded call]]
    printable_normal [OF ingestIdempotencyKey_printable [OF key assms(2)]]
  show ?thesis using key enc call by (auto simp: carries_key_def identity_headers_def)
qed

lemma guarded_fetches: "f \<in> set (fetches (snd (guarded check call))) \<Longrightarrow> f \<in> set (fetches (snd call))"
  by (auto simp: guarded_def split: sum.splits)

lemma and_then_fetches: "snd (and_then call check) = snd call"
  by (auto simp: and_then_def split: sum.splits prod.splits)


end
