(* ===== verification/Query_Facts.thy ===== *)
theory Query_Facts
  imports Table_Facts
begin

text \<open>
  What the tables client guarantees of queries and of reading their results: the poll loop against
  the sequence of polls it stands for, its bound, the pages of a result against the chain of
  continuation tokens, and that a result is read once. \<open>polled\<close> is the state machine of a query
  as the client sees it.
\<close>

section \<open>The poll loop\<close>

text \<open>\<open>polled poll n response m final\<close>: from \<open>response\<close>, the answer number \<open>n\<close>, on to the answer
  number \<open>m\<close>, which no longer says that the query runs.\<close>

inductive polled :: "(nat \<Rightarrow> ingest_response \<Rightarrow> ingest_result) \<Rightarrow> nat \<Rightarrow> ingest_response \<Rightarrow> nat \<Rightarrow> ingest_response \<Rightarrow> bool"
  for poll where
  settled: "\<not> is_running response \<Longrightarrow> polled poll n response n response"
| still_running: "is_running response \<Longrightarrow> poll (n + 1) response = (Inr answer, fx) \<Longrightarrow>
     polled poll (n + 1) answer m final \<Longrightarrow> polled poll n response m final"

inductive_cases polled_runningE: "polled poll n response m final"

lemma polled_order: "polled poll n response m final \<Longrightarrow> n \<le> m"
  by (induction rule: polled.induct) simp_all

lemma polled_settled: "polled poll n response m final \<Longrightarrow> \<not> is_running final"
  by (induction rule: polled.induct) simp_all

lemma poll_loop_follows:
  "polled poll n response m final \<Longrightarrow> m \<le> 1000 \<Longrightarrow> \<exists>fx. poll_loop poll n response = (Inr final, fx)"
proof (induction rule: polled.induct)
  case (settled response n)
  then show ?case by (subst poll_loop.simps) simp
next
  case (still_running response n answer fx m final)
  then obtain fx' where "poll_loop poll (n + 1) answer = (Inr final, fx')" by blast
  moreover have "n + 1 \<le> MAX_QUERY_POLLS"
    using polled_order [OF still_running.hyps(3)] still_running.prems by (simp add: MAX_QUERY_POLLS_def)
  ultimately show ?case
    using still_running.hyps(1,2) by (subst poll_loop.simps) simp
qed

text \<open>The ways a round of the loop goes.\<close>

lemma poll_loop_cases:
  obtains (Settled) "\<not> is_running response" "poll_loop poll n response = (Inr response, [])"
  | (Limit) "is_running response" "1000 \<le> n"
      "poll_loop poll n response = (Inl (poll_limit (rp_requestId response)), [])"
  | (Fails) e fx where "is_running response" "n < 1000" "poll (n + 1) response = (Inl e, fx)"
      "poll_loop poll n response = (Inl e, fx)"
  | (Again) answer fx out fx' where "is_running response" "n < 1000" "poll (n + 1) response = (Inr answer, fx)"
      "poll_loop poll (n + 1) answer = (out, fx')" "poll_loop poll n response = (out, fx @ fx')"
proof -
  consider "\<not> is_running response" | "is_running response" "1000 \<le> n"
    | "is_running response" "n < 1000" by linarith
  then show thesis
  proof cases
    case 1
    then show thesis by (intro Settled) (simp_all add: poll_loop.simps)
  next
    case 2
    then show thesis by (intro Limit) (simp_all add: poll_loop.simps MAX_QUERY_POLLS_def)
  next
    case 3
    obtain r fx where r: "poll (n + 1) response = (r, fx)" by (cases "poll (n + 1) response")
    show thesis
    proof (cases r)
      case (Inl e)
      with 3 r show thesis by (intro Fails) (simp_all add: poll_loop.simps [of poll n] MAX_QUERY_POLLS_def)
    next
      case (Inr answer)
      obtain out fx' where "poll_loop poll (n + 1) answer = (out, fx')"
        by (cases "poll_loop poll (n + 1) answer")
      with 3 r Inr show thesis by (intro Again) (simp_all add: poll_loop.simps [of poll n] MAX_QUERY_POLLS_def)
    qed
  qed
qed

lemma poll_loop_polled:
  "poll_loop poll n response = (Inr final, fx) \<Longrightarrow> n \<le> 1000 \<Longrightarrow>
   \<exists>m \<le> 1000. polled poll n response m final"
proof (induction "1000 - n" arbitrary: n response fx)
  case 0
  then show ?case by (cases rule: poll_loop_cases [of response poll n]) (auto intro: polled.settled)
next
  case (Suc k)
  show ?case
  proof (cases rule: poll_loop_cases [of response poll n])
    case (Again answer fx0 out fx')
    with Suc.prems have "poll_loop poll (n + 1) answer = (Inr final, fx')" by simp
    with Suc.hyps(1) [of "n + 1" answer fx'] Suc.hyps(2) Again(2)
    obtain m where m: "m \<le> 1000" "polled poll (n + 1) answer m final" by fastforce
    have "polled poll n response m final" by (rule polled.still_running) (rule Again(1,3) m(2))+
    with m(1) show ?thesis by blast
  qed (use Suc.prems in \<open>auto intro: polled.settled\<close>)
qed

lemma poll_loop_cost:
  assumes "\<And>n r. length (fetches (snd (poll n r))) \<le> k"
  shows "poll_loop poll n response = (out, fx) \<Longrightarrow> length (fetches fx) \<le> k * (1000 - n)"
proof (induction "1000 - n" arbitrary: n response out fx)
  case 0
  then show ?case by (cases rule: poll_loop_cases [of response poll n]) auto
next
  case (Suc k')
  have one: "length (fetches (snd (poll (n + 1) response))) \<le> k" by (rule assms)
  have left: "1000 - n = Suc (1000 - (n + 1))" using Suc.hyps(2) by simp
  show ?case
  proof (cases rule: poll_loop_cases [of response poll n])
    case (Again answer fx0 out' fx')
    with Suc.prems have fx: "fx = fx0 @ fx'" by simp
    have "length (fetches fx') \<le> k * (1000 - (n + 1))"
      using Suc.hyps(2) by (intro Suc.hyps(1) [OF _ Again(4)]) simp
    with one Again(3) show ?thesis unfolding left fx by simp
  qed (use Suc.prems one left in auto)
qed

section \<open>Queries\<close>

text \<open>
  C5. A query returns a result exactly when the answers of the server lead, from the first one and
  through at most 1000 polls that each wait and ask for the query that the answer before named, to
  an answer that reports success; the result is built from that answer alone.
\<close>

theorem query_settles_iff:
  "(\<exists>fx. tables_query c sql options waits scripts = (Inr result, fx)) \<longleftrightarrow>
     (\<exists>first fx m answer.
        ingest_runQuery (tbc_ingest c) (query_request sql options) (plain_options options) (scripts 0) =
          (Inr first, fx) \<and>
        m \<le> 1000 \<and> polled (query_poll (tbc_ingest c) options waits scripts) 0 first m answer \<and>
        query_state (rp_body answer) = JStr (lit ''SUCCEEDED'') \<and>
        newTableQueryResult (rp_body answer) (rp_requestId answer) (plain_options options)
          (tqo_pageSize options) (tqo_dryRun options = JBool True) = Inr result)" (is "?L \<longleftrightarrow> ?R")
proof
  let ?poll = "query_poll (tbc_ingest c) options waits scripts"
  have succeeded: "requireSucceeded body rid = Inr u \<longleftrightarrow> query_state body = JStr (lit ''SUCCEEDED'')" for body rid u
    by (auto simp: requireSucceeded_def Let_def bindE_Inr_iff)
  assume ?L
  then obtain first fx answer fx' where first: "ingest_runQuery (tbc_ingest c) (query_request sql options)
      (plain_options options) (scripts 0) = (Inr first, fx)"
    and loop: "poll_loop ?poll 0 first = (Inr answer, fx')" and finish: "query_finish options answer = Inr result"
    by (auto simp: tables_query_def bindE_Inr_iff split: sum.splits prod.splits)
  from poll_loop_polled [OF loop] obtain m where "m \<le> 1000" "polled ?poll 0 first m answer" by auto
  with first finish show ?R by (auto simp: query_finish_def thenE_Inr_iff succeeded)
next
  let ?poll = "query_poll (tbc_ingest c) options waits scripts"
  assume ?R
  then obtain first fx m answer where first: "ingest_runQuery (tbc_ingest c) (query_request sql options)
      (plain_options options) (scripts 0) = (Inr first, fx)"
    and polled: "m \<le> 1000" "polled ?poll 0 first m answer"
    and ok: "query_state (rp_body answer) = JStr (lit ''SUCCEEDED'')"
      "newTableQueryResult (rp_body answer) (rp_requestId answer) (plain_options options)
        (tqo_pageSize options) (tqo_dryRun options = JBool True) = Inr result"
    by blast
  from poll_loop_follows [OF polled(2,1)] obtain fx' where "poll_loop ?poll 0 first = (Inr answer, fx')" ..
  with first ok show ?L by (auto simp: tables_query_def query_finish_def requireSucceeded_def)
qed

text \<open>The most fetches one call takes.\<close>

definition ingest_cost :: "'msg ingest_client \<Rightarrow> nat" where
  "ingest_cost gi = nr_maxAttempts (cl_retry (gi_requests gi))"

lemma ingest_rpc_fetches:
  "length (fetches (snd (ingest_rpc gi methodName body options key script))) \<le> ingest_cost gi"
  unfolding ingest_rpc_def ingest_cost_def
  using requestJson_fetch_count by (auto split: prod.splits sum.splits) (metis snd_conv)+

lemma guarded_cost: "length (fetches (snd call)) \<le> k \<Longrightarrow> length (fetches (snd (guarded check call))) \<le> k"
  by (simp add: guarded_def split: sum.splits)

lemma ingest_results_fetches:
  "length (fetches (snd (ingest_getQueryResults gi req options script))) \<le> ingest_cost gi"
  unfolding ingest_getQueryResults_def by (rule guarded_cost) (simp add: and_then_fetches ingest_rpc_fetches)

lemma ingest_query_fetches:
  "length (fetches (snd (ingest_runQuery gi req options script))) \<le> ingest_cost gi"
  unfolding ingest_runQuery_def by (rule guarded_cost) (simp add: and_then_fetches ingest_rpc_fetches)

lemma ingest_list_fetches:
  "length (fetches (snd (ingest_listTables gi req options script))) \<le> ingest_cost gi"
  unfolding ingest_listTables_def by (rule guarded_cost) (simp add: and_then_fetches ingest_rpc_fetches)

lemma wait_no_fetch: "fetches (snd (waitBeforeQueryPoll gi n response env)) = []"
  by (auto simp: waitBeforeQueryPoll_def waitBeforePoll_def abortableDelay_def Let_def throwIfAborted_def
      split: prod.splits sum.splits option.splits if_splits)

lemma query_poll_fetches:
  "length (fetches (snd (query_poll gi options waits scripts n latest))) \<le> ingest_cost gi"
proof -
  obtain w fx where w: "waitBeforeQueryPoll gi n latest (waits n) = (w, fx)" by (cases "waitBeforeQueryPoll gi n latest (waits n)")
  with wait_no_fetch [of gi n latest "waits n"] have "fetches fx = []" by simp
  with w ingest_results_fetches show ?thesis
    by (cases w) (simp_all add: query_poll_def case_prod_beta)
qed

text \<open>
  C34. A query always ends: whatever the server answers, a client that was constructed fetches at
  most 5005 times for it (1001 requests of at most 5 attempts each), and when it gives up because
  the query still runs, it says so with the poll limit.
\<close>

theorem query_bounded:
  assumes "client_ok (gi_requests (tbc_ingest c))"
  shows "length (fetches (snd (tables_query c sql options waits scripts))) \<le> 5005"
proof -
  let ?gi = "tbc_ingest c" and ?k = "ingest_cost (tbc_ingest c)"
  have k: "?k \<le> 5" using assms by (simp add: ingest_cost_def client_ok_def retry_ok_def)
  obtain r fx where first: "ingest_runQuery ?gi (query_request sql options) (plain_options options) (scripts 0) = (r, fx)"
    by (cases "ingest_runQuery ?gi (query_request sql options) (plain_options options) (scripts 0)")
  have one: "length (fetches fx) \<le> ?k" using ingest_query_fetches first by (metis snd_conv)
  show ?thesis
  proof (cases r)
    case (Inl e)
    with first one k show ?thesis by (simp add: tables_query_def)
  next
    case (Inr response)
    obtain out fx' where loop: "poll_loop (query_poll ?gi options waits scripts) 0 response = (out, fx')"
      by (cases "poll_loop (query_poll ?gi options waits scripts) 0 response")
    have "length (fetches fx') \<le> ?k * 1000"
      using poll_loop_cost [OF query_poll_fetches loop] by simp
    with one k have "length (fetches fx) + length (fetches fx') \<le> 5005" by linarith
    with first Inr loop show ?thesis by (simp add: tables_query_def)
  qed
qed

section \<open>The pages of a result\<close>

text \<open>The first page is at hand, the others are fetched.\<close>

definition first_then :: "'e page \<Rightarrow> 'e page_fetch \<Rightarrow> 'e page_fetch" where
  "first_then first fetch n cursor = (if n = 1 then (Inr first, []) else fetch n cursor)"

lemma result_loop_completes:
  "result_loop fetch named rid pages page seen = (rows, None, fx) \<Longrightarrow>
   first_then first fetch (pages + 1) cursor = (Inr page, fx0) \<Longrightarrow>
   \<exists>ps. page_chain (first_then first fetch) (pages + 1) cursor ps \<and> pages + length ps \<le> 10000 \<and>
     distinct (chain_cursors ps) \<and> set (chain_cursors ps) \<inter> set seen = {} \<and>
     (named \<or> chain_cursors ps = []) \<and> rows = concat (map pg_events ps)"
proof (induction "10000 - pages" arbitrary: pages page seen rows fx cursor fx0)
  case 0
  then show ?case by (simp add: result_loop.simps [of fetch named rid pages page seen] limit_cases)
next
  case (Suc k)
  then have lim: "pages + 1 \<le> 10000" by simp
  note eq = Suc.prems(1) [unfolded result_loop.simps [of fetch named rid pages page seen] limit_cases if_P [OF lim]]
  show ?case
  proof (cases "no_next page")
    case True
    from page_chain.chain_last [of "first_then first fetch", OF Suc.prems(2) True] eq True lim
    show ?thesis by (intro exI [of _ "[page]"]) simp
  next
    case False
    let ?next = "the (pg_nextCursor page)"
    have more: "named" "?next \<notin> set seen" using eq False by (auto simp: Let_def split: if_splits)
    obtain r fx1 where f: "fetch (pages + 2) (Some ?next) = (r, fx1)" by (cases "fetch (pages + 2) (Some ?next)")
    with eq False more obtain page' where r: "r = Inr page'"
      by (cases r) (simp_all add: Let_def)
    obtain rs o' fx2 where rec: "result_loop fetch named rid (pages + 1) page' (seen @ [?next]) = (rs, o', fx2)"
      by (metis prod_cases3)
    with eq False more f r have res: "rows = pg_events page @ rs" "o' = None" by (simp_all add: Let_def)
    have "first_then first fetch (pages + 1 + 1) (pg_nextCursor page) = (Inr page', fx1)"
      using f r next_Some [OF False] by (simp add: first_then_def)
    moreover have "k = 10000 - (pages + 1)" using Suc.hyps(2) by simp
    ultimately obtain ps where
      ps: "page_chain (first_then first fetch) (pages + 1 + 1) (pg_nextCursor page) ps"
        "pages + 1 + length ps \<le> 10000" "distinct (chain_cursors ps)"
        "set (chain_cursors ps) \<inter> set (seen @ [?next]) = {}" "rs = concat (map pg_events ps)"
      using Suc.hyps(1) [OF _ rec [unfolded res(2)]] by auto
    have "page_chain (first_then first fetch) (pages + 1) cursor (page # ps)"
      by (rule page_chain.chain_more) (rule Suc.prems(2) False ps(1))+
    with ps more False res show ?thesis by (intro exI [of _ "page # ps"]) auto
  qed
qed

lemma result_loop_follows:
  "page_chain (first_then first fetch) n cursor ps \<Longrightarrow> n = pages + 1 \<Longrightarrow>
   first_then first fetch n cursor = (Inr page, fx0) \<Longrightarrow> pages + length ps \<le> 10000 \<Longrightarrow>
   distinct (chain_cursors ps) \<Longrightarrow> set (chain_cursors ps) \<inter> set seen = {} \<Longrightarrow>
   named \<or> chain_cursors ps = [] \<Longrightarrow>
   \<exists>fx. result_loop fetch named rid pages page seen = (concat (map pg_events ps), None, fx)"
proof (induction n cursor ps arbitrary: pages page fx0 seen rule: page_chain.induct)
  case (chain_last n cursor last fx)
  then have "last = page" by simp
  with chain_last show ?case by (subst result_loop.simps) (simp add: limit_cases)
next
  case (chain_more n cursor p fx ps)
  then have same: "p = page" by simp
  let ?next = "the (pg_nextCursor page)"
  have more: "\<not> no_next page" "?next \<notin> set seen" "named"
    using chain_more.prems(5,6) chain_more.hyps(2) same by auto
  obtain page' fx1 where f: "fetch (pages + 2) (Some ?next) = (Inr page', fx1)"
    using chain_more.hyps(3) next_Some [OF more(1)] chain_more.prems(1) same
    by (cases rule: page_chain.cases) (auto simp: first_then_def)
  have "\<exists>fx. result_loop fetch named rid (pages + 1) page' (seen @ [?next]) = (concat (map pg_events ps), None, fx)"
    using chain_more.prems chain_more.hyps(2) same f next_Some [OF more(1)]
    by (intro chain_more.IH) (auto simp: first_then_def)
  then obtain fx' where rec: "result_loop fetch named rid (pages + 1) page' (seen @ [?next]) =
      (concat (map pg_events ps), None, fx')" ..
  have "result_loop fetch named rid pages page seen = (pg_events page @ concat (map pg_events ps), None, fx1 @ fx')"
    using more f rec chain_more.prems(3)
    by (subst result_loop.simps) (simp add: limit_cases Let_def)
  then show ?case by (simp add: same)
qed

text \<open>
  C12. Reading all rows of a result ends without an error exactly when the continuation tokens lead
  from the first page, through at most 10000 pages and without repeating a token, to a page without
  a token (and a result that has further pages has a name to fetch them with); what is read is then
  the rows of those pages, in order and each page once.
\<close>

theorem result_rows_complete_iff:
  "(\<exists>fx. fst (result_rows gi result scripts) = (rows, None, fx)) \<longleftrightarrow>
     (\<exists>body ps. qr_firstPage result = Some body \<and>
        page_chain (first_then (result_page (qr_requestId result) body) (result_fetch gi result scripts)) 1 None ps \<and>
        length ps \<le> 10000 \<and> distinct (chain_cursors ps) \<and>
        (if chain_cursors ps = [] then True else qr_queryName result \<noteq> JUndef) \<and>
        rows = concat (map pg_events ps))"
proof (cases "qr_firstPage result")
  case None
  then show ?thesis by (simp add: result_rows_def)
next
  case (Some body)
  let ?first = "result_page (qr_requestId result) body" and ?fetch = "result_fetch gi result scripts"
  have start: "first_then ?first ?fetch 1 None = (Inr ?first, [])" by (simp add: first_then_def)
  show ?thesis
    using result_loop_completes [of ?fetch "qr_queryName result \<noteq> JUndef" "qr_requestId result" 0 ?first "[]" rows
        _ ?first None "[]"] start
      result_loop_follows [of ?first ?fetch 1 None _ 0 ?first "[]" "[]"]
    by (auto simp: result_rows_def Some)
qed

text \<open>
  A result is read once: after its rows were read, to the end or to an error, a second reading
  yields nothing, sends nothing, and fails saying that the result was consumed.
\<close>

theorem result_rows_once:
  "fst (result_rows gi (snd (result_rows gi result scripts)) scripts') =
     ([], Some (medErr MEDALLION_RESULT_CONSUMED), [])"
  by (simp add: result_rows_def split: option.split)

end
