(* ===== verification/Table_Pages.thy ===== *)
theory Table_Pages
  imports Query_Facts
begin

text \<open>
  Listing tables page by page, the limits of what an append can carry, and how counts are read: the
  tables client as a source of pages, the largest Arrow stream, and the numbers of an answer.
\<close>

section \<open>Listing\<close>

lemma get_member_chain: "get_member v k = Inr w \<Longrightarrow> chain_member v k = w"
  by (cases v) (simp_all add: get_member_def chain_member_def)

lemma table_page_named:
  assumes "validateListTablesResponse (rp_body response) rid = Inr u" "table_page response = Inr page"
    and "t \<in> set (pg_events page)"
  shows "named_table t"
proof -
  obtain listed tables where listed: "get_member (rp_body response) (lit ''tables'') = Inr listed"
    "coalesce listed (JArr []) = JArr tables"
    and "\<exists>us. mapE (\<lambda>t. validateTable t rid) tables = Inr us"
    using assms(1) by (auto simp: validateListTablesResponse_def result_iff)
  then obtain us where valid: "mapE (\<lambda>t. validateTable t rid) tables = Inr us" by blast
  have "mapE (\<lambda>t. tableFromWire t (rp_requestId response)) tables = Inr (pg_events page)"
    using assms(2) get_member_chain [OF listed(1)] listed(2) by (auto simp: table_page_def result_iff)
  from mapE_set_dest [OF this assms(3)] obtain v where v: "v \<in> set tables"
    "tableFromWire v (rp_requestId response) = Inr t" by blast
  from mapE_set_src [OF valid v(1)] obtain u where "validateTable v rid = Inr u" by blast
  then show ?thesis using v(2) by (rule tableFromWire_named)
qed

lemma tables_list_named:
  assumes "tables_list c input options script = (Inr page, fx)" "t \<in> set (pg_events page)"
  shows "named_table t"
proof -
  obtain response where
    "ingest_listTables (tbc_ingest c)
       [(lit ''page_size'', tlo_pageSize input), (lit ''page_token'', js_opt JStr (tlo_pageToken input))]
       options script = (Inr response, fx)"
    and page: "table_page response = Inr page"
    using assms(1) by (auto simp: tables_list_def bindE_Inr_iff split: prod.splits)
  then obtain u where "validateListTablesResponse (rp_body response) (rp_requestId response) = Inr u"
    by (auto simp: ingest_listTables_def guarded_Inr_iff and_then_Inr_iff)
  then show ?thesis using page assms(2) by (rule table_page_named)
qed

interpretation table_pages: paged_source "tables_fetch c input options scripts" named_table
  "ingest_cost (tbc_ingest c)"
  for c :: "'msg tables_client" and input options scripts
proof
  show "named_table t"
    if "tables_fetch c input options scripts n cursor = (Inr page, fx)" "t \<in> set (pg_events page)"
    for n cursor page fx t
    using that unfolding tables_fetch_def by (rule tables_list_named)
  show "length (fetches (snd (tables_fetch c input options scripts n cursor))) \<le> ingest_cost (tbc_ingest c)"
    for n cursor
    unfolding tables_fetch_def tables_list_def using ingest_list_fetches [of "tbc_ingest c"]
    by (simp add: case_prod_beta)
qed

text \<open>
  C38. An iteration over the tables ends without an error exactly when the page tokens of the server
  lead through at most 10000 pages and without repetition to a last page, and then yields those
  pages; in every case it returns, and every table it yields is named \<open>tables/\<close> and its
  identifier, so that either of the two can be passed back to the client.
\<close>

theorem tables_iterate_named:
  "((\<exists>fx. tables_iterate c input options scripts = (tables, None, fx)) \<longleftrightarrow>
      (\<exists>ps. page_chain (tables_fetch c input options scripts) 1 (tlo_pageToken input) ps \<and>
         length ps \<le> 10000 \<and> distinct (initial_seen (tlo_pageToken input) @ chain_cursors ps) \<and>
         tables = concat (map pg_events ps))) \<and>
   list_all (\<lambda>t. tableResourceName (JStr (tb_tableId t)) = Inr (tb_name t) \<and>
       tableResourceName (JStr (tb_name t)) = Inr (tb_name t))
     (fst (tables_iterate c input options scripts))"
proof -
  obtain ts out fx where run: "tables_iterate c input options scripts = (ts, out, fx)" by (metis prod_cases3)
  have "list_all named_table ts"
    using table_pages.iterate_good run unfolding tables_iterate_def by blast
  then have "list_all (\<lambda>t. tableResourceName (JStr (tb_tableId t)) = Inr (tb_name t) \<and>
       tableResourceName (JStr (tb_name t)) = Inr (tb_name t)) ts"
    by (auto simp: list_all_iff named_table_def tableResourceName_id tableResourceName_name)
  with run iterate_pages_iff [of "tables_fetch c input options scripts" "tlo_pageToken input" tables]
  show ?thesis by (simp only: tables_iterate_def fst_conv simp_thms)
qed

section \<open>The largest Arrow stream\<close>

lemma base64_alphabet_unit: "d < 64 \<Longrightarrow> base64_alphabet (b64_unit d)"
  using unat_b64_unit [of d]
  by (simp add: base64_alphabet_def is_digit_def unit_in_def word_le_nat_alt word_unat_eq_iff split: if_splits) arith

lemma length_sextets: "length (sextets_of xs) = (4 * length xs + 2) div 3"
  by (induction xs rule: sextets_of.induct) simp_all

lemma length_base64: "length (base64_encode bs) = 4 * ((length bs + 2) div 3)"
proof -
  have "(4 * n + 2) div 3 + (3 - n mod 3) mod 3 = 4 * ((n + 2) div 3)" for n :: nat
  proof -
    have "n = 3 * (n div 3) + n mod 3" "n mod 3 < 3" by simp_all
    then consider k where "n = 3 * k" | k where "n = 3 * k + 1" | k where "n = 3 * k + 2"
      by (metis One_nat_def add.right_neutral less_2_cases numeral_3_eq_3 numeral_2_eq_2 less_Suc_eq)
    then show ?thesis
    proof cases
      case (1 k)
      moreover have "(12 * k + 2) div 3 = 4 * k" "(3 * k + 2) div 3 = k" by presburger+
      ultimately show ?thesis by simp
    next
      case (2 k)
      moreover have "(12 * k + 6) div 3 = 4 * k + 2" "(3 * k + 3) div 3 = k + 1" "(3 * k + 1) mod 3 = 1"
        by presburger+
      ultimately show ?thesis by simp
    next
      case (3 k)
      moreover have "(12 * k + 10) div 3 = 4 * k + 3" "(3 * k + 4) div 3 = k + 1" "(3 * k + 2) mod 3 = 2"
        by presburger+
      ultimately show ?thesis by simp
    qed
  qed
  then show ?thesis by (simp only: base64_encode_def length_sextets length_append length_map length_replicate)
qed

lemma byte_bound: "list_all (\<lambda>x. x < 256) (map unat (bs :: byte list))"
proof -
  have "unat w < 256" for w :: byte
    using unsigned_less [of w, where 'a = nat] by simp
  then show ?thesis by (simp add: list_all_iff)
qed

lemma base64_text: "BASE64_TEXT (base64_encode bs)"
proof -
  let ?n = "(3 - length bs mod 3) mod 3"
  have alphabet: "list_all base64_alphabet (map b64_unit (sextets_of (map unat bs)))"
    using sextets_bound [OF byte_bound] by (auto simp: list_all_iff intro: base64_alphabet_unit)
  have pad: "\<not> base64_alphabet b64_pad"
    by (simp add: base64_alphabet_def b64_pad_def unit_in_def is_digit_def word_le_nat_alt)
  have "dropWhile base64_alphabet (base64_encode bs) = replicate ?n b64_pad"
    unfolding base64_encode_def using alphabet pad
    by (subst dropWhile_append2) (auto simp: list_all_iff dropWhile_replicate)
  moreover have "?n \<le> 2" using mod_less_divisor [of 3 "3 - length bs mod 3"] by linarith
  ultimately show ?thesis by (simp add: BASE64_TEXT_def b64_pad_def list_all_iff)
qed

lemma arrow_stream_cases:
  assumes "bytes \<noteq> []" "length bytes \<le> 16777216"
  shows "arrowPayload bytes = Inr (base64_encode bytes) \<and>
     requireArrowPayloadText (JStr (base64_encode bytes)) =
       (if length bytes < 16777216 then Inr () else Inl (medErr MEDALLION_INVALID_BATCH_SIZE))"
proof -
  let ?t = "base64_encode bytes"
  have "arrowPayload bytes = Inr ?t" using assms by (simp add: arrowPayload_def MAX_ARROW_PAYLOAD_BYTES_def)
  moreover have "?t \<noteq> []" using assms(1) length_base64 [of bytes] by (cases ?t) (simp_all add: div_eq_0_iff)
  moreover have "length ?t mod 4 = 0" by (simp add: length_base64)
  moreover have "(length ?t div 4 * 3 > 16777216) = (length bytes = 16777216)"
  proof -
    have "(16777216 < q * 3) = (5592406 \<le> q)" for q :: nat by arith
    moreover have "(5592406 \<le> (length bytes + 2) div 3) = (5592406 * 3 \<le> length bytes + 2)"
      by (rule less_eq_div_iff_mult_less_eq) simp
    ultimately show ?thesis using assms(2) by (auto simp: length_base64)
  qed
  ultimately show ?thesis
    using assms(2) by (auto simp: requireArrowPayloadText_def base64_text
        MAX_ARROW_PAYLOAD_BYTES_def)
qed

text \<open>
  Of the Arrow streams that \<open>tables.append\<close> takes (1 through 16777216 bytes) the ingest layer
  below accepts all but the largest: it estimates the size from the padded base64 text, which is
  two bytes more than the limit for a stream of exactly the limit. The encoding of an accepted
  stream decodes to the stream.
\<close>

theorem arrow_stream_limits:
  assumes "bytes \<noteq> []" "length bytes \<le> 16777216"
  shows "\<exists>t. arrowPayload bytes = Inr t \<and> base64_decode t = bytes \<and>
     requireArrowPayloadText (JStr t) =
       (if length bytes < 16777216 then Inr () else Inl (medErr MEDALLION_INVALID_BATCH_SIZE))"
  using arrow_stream_cases [OF assms] base64_roundtrip [of bytes] by blast

end
