(* ===== verification/Medallion_Client.thy ===== *)
theory Medallion_Client
  imports Audit_Client Table_Query
begin

text \<open>
  \<open>MedallionClient\<close> (src/src/client.ts): one transport, shared by the protocol clients, and the
  service clients over them.
\<close>

record medallion_client_options = request_client_options +
  mco_defaultConnectorId :: "jstr option"

record ('m, 'n) medallion_client =
  mc_ingest :: "'m ingest_client"
  mc_tables :: "'m tables_client"
  mc_connect :: "'n connect_client"
  mc_audit :: "'n audit_client"
  mc_cdc :: "'n cdc_client"

text \<open>The descriptors and codecs of the two services are parameters; after the transport is
  constructed the workspace id is a text.\<close>

definition newMedallionClient ::
    "platform \<Rightarrow> (jstr \<Rightarrow> url option) \<Rightarrow> descriptor \<Rightarrow> 'm codec \<Rightarrow> descriptor \<Rightarrow> 'n codec \<Rightarrow>
     medallion_client_options \<Rightarrow> thrown + ('m, 'n) medallion_client" where
  "newMedallionClient p parse_url ingestDs ingestCodec connectDs connectCodec options =
     (let workspaceId = text_of (rco_workspaceId options); connectorId = mco_defaultConnectorId options in
      bindE (newRequestClient parse_url (request_client_options.truncate options)) (\<lambda>requests.
      bindE (newProtocolIngestClient p ingestDs ingestCodec requests) (\<lambda>ingest.
      bindE (newProtocolConnectClient p connectDs connectCodec requests workspaceId) (\<lambda>connect.
        Inr \<lparr>mc_ingest = ingest, mc_tables = newTablesClient ingest, mc_connect = connect,
             mc_audit = newAuditClient connect workspaceId connectorId,
             mc_cdc = newCdcClient connect workspaceId connectorId\<rparr>))))"

lemma requiredWorkspaceSelector_text: "requiredWorkspaceSelector v = Inr w \<Longrightarrow> v = JStr w"
  by (cases v) (auto simp: requiredWorkspaceSelector_def split: if_splits)

lemma ingest_client_requests:
  "newProtocolIngestClient p ds cd requests = Inr gi \<Longrightarrow> gi_requests gi = requests"
  by (auto simp: newProtocolIngestClient_def result_iff)

lemma connect_client_fields:
  "newProtocolConnectClient p ds cd requests w = Inr pc \<Longrightarrow>
   pc_requests pc = requests \<and> pc_workspaceId pc = w"
  by (auto simp: newProtocolConnectClient_def result_iff)

text \<open>
  C39. A client that was constructed is one client for one workspace: the tables, the ingest, the
  connect, the CDC and the audit client all send through the same transport, whose credential,
  limits and workspace are well formed, and the CDC and audit clients list and accept events of
  exactly the workspace that the transport names in every request.
\<close>

theorem facade_one_workspace:
  assumes "newMedallionClient p parse_url ids icd cds ccd options = Inr mc"
  shows "\<exists>requests. client_ok requests \<and> rco_workspaceId options = JStr (cl_workspaceId requests) \<and>
     gi_requests (mc_ingest mc) = requests \<and> tbc_ingest (mc_tables mc) = mc_ingest mc \<and>
     pc_requests (mc_connect mc) = requests \<and> cc_connect (mc_cdc mc) = mc_connect mc \<and>
     ac_connect (mc_audit mc) = mc_connect mc \<and>
     pc_workspaceId (mc_connect mc) = cl_workspaceId requests \<and>
     cc_workspaceId (mc_cdc mc) = cl_workspaceId requests \<and>
     ac_workspaceId (mc_audit mc) = cl_workspaceId requests"
proof -
  obtain requests where requests: "newRequestClient parse_url (request_client_options.truncate options) = Inr requests"
    and ingest: "newProtocolIngestClient p ids icd requests = Inr (mc_ingest mc)"
    and connect: "newProtocolConnectClient p cds ccd requests (text_of (rco_workspaceId options)) = Inr (mc_connect mc)"
    and rest: "mc_tables mc = newTablesClient (mc_ingest mc)"
      "mc_audit mc = newAuditClient (mc_connect mc) (text_of (rco_workspaceId options)) (mco_defaultConnectorId options)"
      "mc_cdc mc = newCdcClient (mc_connect mc) (text_of (rco_workspaceId options)) (mco_defaultConnectorId options)"
    using assms by (auto simp: newMedallionClient_def Let_def result_iff)
  have "requiredWorkspaceSelector (rco_workspaceId options) = Inr (cl_workspaceId requests)"
    using requests by (auto simp: newRequestClient_def result_iff request_client_options.truncate_def)
  then have ws: "rco_workspaceId options = JStr (cl_workspaceId requests)" by (rule requiredWorkspaceSelector_text)
  moreover have "client_ok requests" using requests by (rule newRequestClient_ok)
  moreover have "gi_requests (mc_ingest mc) = requests" using ingest by (rule ingest_client_requests)
  moreover have "pc_requests (mc_connect mc) = requests" "pc_workspaceId (mc_connect mc) = cl_workspaceId requests"
    using connect_client_fields [OF connect] by (simp_all add: ws text_of_def)
  ultimately show ?thesis
    using rest by (auto simp: newTablesClient_def newAuditClient_def newCdcClient_def text_of_def)
qed

end
