(* ===== verification/Table_Witnesses.thy ===== *)
theory Table_Witnesses
  imports Client_Witnesses Table_Pages Count_Facts Medallion_Client
begin

text \<open>
  Concrete tables clients, on which the theorems about appends, writes, queries and the facade are
  instantiated, and two requests on which the ingest layer disagrees with itself.
\<close>

section \<open>A client and a server\<close>

definition sample_ingest_descriptor :: "jstr \<Rightarrow> descriptor" where
  "sample_ingest_descriptor service =
     \<lparr>ds_messages = (\<lambda>_. []),
      ds_services = [(service,
        [(lit ''AppendRows'', sample_method ''AppendRows'' ''In''),
         (lit ''CreateTable'', sample_method ''CreateTable'' ''In''),
         (lit ''RunQuery'', sample_method ''RunQuery'' ''In'')])]\<rparr>"

definition sample_ingest :: "jsval \<Rightarrow> jsval ingest_client" where
  "sample_ingest answer =
     \<lparr>gi_platform = sample_platform, gi_requests = sample_client,
      gi_runtime = \<lparr>rt_parsed = sample_ingest_descriptor (lit ''S''), rt_codec = sample_codec answer,
        rt_pathPrefix = [], rt_serviceName = lit ''S'', rt_ignoreUnknown = True\<rparr>\<rparr>"

definition sample_write_options :: ingest_write_options where
  "sample_write_options = \<lparr>ro_signal = None, ro_timeoutMs = None, wo_idempotencyKey = JStr (lit ''k'')\<rparr>"

section \<open>A write\<close>

definition sample_create :: "(jstr \<times> jsval) list" where
  "sample_create =
     [(lit ''table_id'', JStr (lit ''t'')),
      (lit ''table'', declared_table [(lit ''c'', lit ''DATE'', False)] (lit ''c'') [])]"

lemma sample_create_accepted:
  "thenE (requiredTableId (own_prop sample_create (lit ''table_id'')))
     (preflightTable (own_prop sample_create (lit ''table''))) = Inr ()"
proof -
  have "declaration_ok [(lit ''c'', lit ''DATE'', False)] (lit ''c'') []"
    by (simp add: declaration_ok_def column_ok_def declared_names_def COLUMN_NAME_PATTERN_def
        TABLE_COLUMN_TYPES_def lower_identifier_def lit_def unit_in_def)
  moreover have "TABLE_ID_PATTERN (lit ''t'')"
    by (simp add: TABLE_ID_PATTERN_def lower_identifier_def lit_def unit_in_def)
  ultimately show ?thesis
    by (simp add: sample_create_def requiredTableId_def preflightTable_declared)
qed

lemma sample_ingest_rpc:
  assumes "ingest_encode (sample_ingest answer) name body = Inr (m, encoded)"
    and "ro_signal options = None" "ro_timeoutMs options = None"
    and "list_all (\<lambda>u. 0x20 \<le> u \<and> u \<le> 0x7E) (orElse key [])"
    and "assertWorkspaceSelectorCompatible sample_client encoded = Inr ()" "isOk (json_stringify encoded)"
  shows "\<exists>rid ra fx. ingest_rpc (sample_ingest answer) name body options key sample_script =
    (Inr \<lparr>rp_body = answer, rp_requestId = rid, rp_retryAfterMs = ra\<rparr>, fx) \<and> fetches fx \<noteq> []"
proof -
  let ?ro = "\<lparr>jr_path = runtime_path (gi_runtime (sample_ingest answer)) m, jr_body = encoded, jr_headers = [],
       jr_signal = None, jr_timeoutMs = None, jr_connectProtocol = True, jr_retrySafe = True,
       jr_idempotencyKey = key\<rparr>"
  obtain r fx where r: "requestJson sample_platform sample_client ?ro (qs_now sample_script)
      (qs_injections sample_script) (qs_env sample_script) = (Inr r, fx)" "re_body r = JObj []" "fetches fx \<noteq> []"
    using sample_sends [of ?ro] assms(4-6) by auto
  have "ingest_decode (sample_ingest answer) m r =
      Inr \<lparr>rp_body = answer, rp_requestId = re_requestId r, rp_retryAfterMs = re_retryAfterMs r\<rparr>"
    by (simp add: ingest_decode_def decodeOutput_def sample_ingest_def sample_codec_def r(2))
  with assms(1-3) r(1,3) show ?thesis
    by (auto simp: ingest_rpc_def sample_ingest_def)
qed

lemma sample_key:
  "ingestIdempotencyKey uuid (JStr (lit ''k'')) = Inr (lit ''k'')"
  "list_all (\<lambda>u. 0x20 \<le> u \<and> u \<le> 0x7E) (lit ''k'' :: jstr)"
proof -
  have "utf8_length (lit ''k'') = 1" by code_simp
  then show "ingestIdempotencyKey uuid (JStr (lit ''k'')) = Inr (lit ''k'')"
    by (simp add: ingestIdempotencyKey_def MAX_IDEMPOTENCY_KEY_BYTES_def printable_ascii_def) (simp add: lit_def)
  show "list_all (\<lambda>u. 0x20 \<le> u \<and> u \<le> 0x7E) (lit ''k'' :: jstr)" by (simp add: lit_def)
qed

lemma sample_ingest_method:
  "runtime_method (gi_runtime (sample_ingest answer)) (lit ''CreateTable'') = Inr (sample_method ''CreateTable'' ''In'')"
  "runtime_method (gi_runtime (sample_ingest answer)) (lit ''AppendRows'') = Inr (sample_method ''AppendRows'' ''In'')"
  "runtime_method (gi_runtime (sample_ingest answer)) (lit ''RunQuery'') = Inr (sample_method ''RunQuery'' ''In'')"
  by (simp_all add: runtime_method_def sample_ingest_def sample_ingest_descriptor_def sample_method_def)

lemma sample_ingest_encode:
  assumes "runtime_method (gi_runtime (sample_ingest answer)) name = Inr m"
    and "normalizeProtoJson (sample_ingest_descriptor (lit ''S'')) (dm_input m) (JObj body) = v"
    and "normalizeProtoJson (sample_ingest_descriptor (lit ''S'')) (dm_input m) v = v"
  shows "ingest_encode (sample_ingest answer) name body = Inr (m, v)"
proof -
  have rt: "rt_parsed (gi_runtime (sample_ingest answer)) = sample_ingest_descriptor (lit ''S'')"
    "rt_codec (gi_runtime (sample_ingest answer)) = sample_codec answer" by (simp_all add: sample_ingest_def)
  show ?thesis using assms 
    by (simp add: ingest_encode_def normalizeInput_def rt encodeInput_def sample_codec_def del: normalizeProtoJson.simps)
qed

lemma sample_create_sent:
  "\<exists>fx rid ra. ingest_write (sample_ingest answer) (lit ''CreateTable'') sample_create sample_write_options [] sample_script =
     (Inr \<lparr>rp_body = answer, rp_requestId = rid, rp_retryAfterMs = ra\<rparr>, fx) \<and> fetches fx \<noteq> []"
proof -
  let ?body = "stamp_request_id sample_create (lit ''k'')"
  have body: "?body = sample_create @ [(lit ''request_id'', JStr (lit ''k''))]"
    by (simp add: stamp_request_id_def sample_create_def)
  have "ingest_encode (sample_ingest answer) (lit ''CreateTable'') ?body =
      Inr (sample_method ''CreateTable'' ''In'', JObj ?body)"
    unfolding body
    by (rule sample_ingest_encode)
      (simp_all add: sample_ingest_method sample_create_def sample_ingest_descriptor_def find_field_def assign_all_def declared_table_def)
  moreover have "assertWorkspaceSelectorCompatible sample_client (JObj ?body) = Inr ()"
    unfolding body by (simp add: assertWorkspaceSelectorCompatible_def sample_create_def)
  moreover have "isOk (json_stringify (JObj ?body))"
    unfolding body by (simp add: sample_create_def declared_table_def column_json_def)
  ultimately show ?thesis
    using sample_ingest_rpc [of answer "lit ''CreateTable''" ?body _ "JObj ?body" sample_write_options "Some (lit ''k'')"]
    by (auto simp: ingest_write_def ingest_write_prepare_def sample_write_options_def sample_key
        ingest_optionalBoundedText_def body) (simp add: sample_create_def)
qed


section \<open>An append\<close>

definition sample_heap :: heap where
  "sample_heap = [HArray [Some (HRef 1)], HObject True False []]"

definition sample_append_options :: table_append_options where
  "sample_append_options = ingest_write_options.extend sample_write_options
     \<lparr>ta_insertIds = None, ta_skipInvalidRows = JUndef\<rparr>"

definition sample_append_ack :: jsval where
  "sample_append_ack = JObj [(lit ''accepted_rows'', JStr (lit ''1''))]"

definition sample_append_request :: "(jstr \<times> jsval) list" where
  "sample_append_request =
     [(lit ''table'', JStr (lit ''tables/t'')), (lit ''rows'', JArr [JObj [(lit ''json'', JObj [])]]),
      (lit ''skip_invalid_rows'', JUndef)]"

lemma sample_table_name: "TABLE_ID_PATTERN (lit ''t'')" "TABLE_NAME_PATTERN (lit ''tables/t'')"
  by (simp_all add: TABLE_ID_PATTERN_def TABLE_NAME_PATTERN_def lower_identifier_def)
     (simp_all add: lit_def unit_in_def)

lemma sample_rows: "jsonRowsToWire sample_heap (HRef 0) None = Inr [JObj [(lit ''json'', JObj [])]]"
proof -
  have "jsonString sample_heap (HRef 1) = Inr (lit ''{}'')" by code_simp
  moreover have "json_parse (lit ''{}'') = Some (JObj [])" by code_simp
  ultimately show ?thesis
    by (simp add: jsonRowsToWire_def row_to_wire_def heap_object_def sample_heap_def MAX_INGEST_BATCH_ROWS_def)
qed

lemma sample_append_built:
  "append_request sample_heap (JStr (lit ''t'')) (JsonRows (HRef 0)) sample_append_options uuid =
     Inr (lit ''k'', sample_append_request)"
  using tableResourceName_id [OF sample_table_name(1)]
  by (simp add: append_request_def sample_append_options_def ingest_write_options.defs sample_write_options_def
      sample_key table_row_payload_def sample_rows sample_append_request_def) (simp add: lit_def)

lemma sample_options_passed:
  "\<lparr>ro_signal = ro_signal sample_append_options, ro_timeoutMs = ro_timeoutMs sample_append_options,
    wo_idempotencyKey = JStr (lit ''k'')\<rparr> = sample_write_options"
  by (simp add: sample_append_options_def ingest_write_options.defs sample_write_options_def)

lemma sample_append_accepted: "preflightAppendRows sample_append_request = Inr ()"
  by (simp add: preflightAppendRows_def sample_append_request_def requiredTableName_def sample_table_name
      rows_length_def is_nullish_def js_greater_def preflight_row_def get_member_def requireJsonObject_def
      ingest_optionalBoundedText_def MAX_INGEST_BATCH_ROWS_def)

lemma sample_append_sent:
  "\<exists>fx rid ra. ingest_write (sample_ingest answer) (lit ''AppendRows'') sample_append_request sample_write_options uuid
     sample_script = (Inr \<lparr>rp_body = answer, rp_requestId = rid, rp_retryAfterMs = ra\<rparr>, fx)"
proof -
  let ?body = "stamp_request_id sample_append_request (lit ''k'')"
  let ?sent = "[(lit ''table'', JStr (lit ''tables/t'')), (lit ''rows'', JArr [JObj [(lit ''json'', JObj [])]]),
      (lit ''request_id'', JStr (lit ''k''))]"
  have body: "?body = sample_append_request @ [(lit ''request_id'', JStr (lit ''k''))]"
    by (simp add: stamp_request_id_def sample_append_request_def)
  have "ingest_encode (sample_ingest answer) (lit ''AppendRows'') ?body =
      Inr (sample_method ''AppendRows'' ''In'', JObj ?sent)"
    unfolding body
    by (rule sample_ingest_encode)
      (simp_all add: sample_ingest_method sample_append_request_def sample_ingest_descriptor_def
        find_field_def assign_all_def)
  moreover have "assertWorkspaceSelectorCompatible sample_client (JObj ?sent) = Inr ()"
    by (simp add: assertWorkspaceSelectorCompatible_def)
  moreover have "isOk (json_stringify (JObj ?sent))" by simp
  ultimately show ?thesis
    using sample_ingest_rpc [of answer "lit ''AppendRows''" ?body _ "JObj ?sent" sample_write_options "Some (lit ''k'')"]
    by (auto simp: ingest_write_def ingest_write_prepare_def sample_write_options_def sample_key
        ingest_optionalBoundedText_def) (simp add: sample_append_request_def)
qed

lemma sample_count: "nonNegativeCount (JStr (lit ''1'')) rid = Inr 1"
proof -
  have "dec_nat 1 = lit ''1''" by code_simp
  with count_exact [of 1 rid] show ?thesis by simp
qed

lemma sample_append_valid:
  "bindE (submitted_rows sample_append_request) (\<lambda>n. validateAppendRowsResponse sample_append_ack n rid) = Inr ()"
  by (simp add: submitted_rows_def sample_append_request_def rows_length_def is_nullish_def
      validateAppendRowsResponse_def sample_append_ack_def get_member_def sample_count)


lemma sample_options_accepted: "isOk (newRequestClient (\<lambda>_. Some sample_url) sample_options)"
  by code_simp

section \<open>The other theorems\<close>

theorem query_bounded_witness:
  "length (fetches (snd (tables_query (newTablesClient (sample_ingest (JObj []))) (JStr (lit ''SELECT 1''))
     (request_options.extend no_options \<lparr>tqo_serverTimeoutMs = JUndef, tqo_dryRun = JUndef, tqo_pageSize = JUndef\<rparr>)
     (\<lambda>_. \<lparr>we_random = 0, we_aborted = None, we_events = []\<rparr>) (\<lambda>_. sample_script)))) \<le> 5005"
  by (rule query_bounded) (simp add: newTablesClient_def sample_ingest_def sample_client_ok)

theorem arrow_stream_limits_witness:
  "\<exists>t. arrowPayload [1, 2, 3] = Inr t \<and> requireArrowPayloadText (JStr t) = Inr ()"
  using arrow_stream_limits [of "[1, 2, 3]"] by auto

theorem facade_one_workspace_witness:
  "\<exists>mc :: (jsval, jsval) medallion_client.
     newMedallionClient sample_platform (\<lambda>_. Some sample_url) (sample_ingest_descriptor INGEST_SERVICE_NAME)
       (sample_codec JUndef) (sample_ingest_descriptor CONNECT_SERVICE_NAME) (sample_codec JUndef)
       (request_client_options.extend sample_options \<lparr>mco_defaultConnectorId = None\<rparr>) = Inr mc \<and>
     JStr (cc_workspaceId (mc_cdc mc)) = rco_workspaceId sample_options \<and>
     cc_workspaceId (mc_cdc mc) = cl_workspaceId (gi_requests (mc_ingest mc))"
proof -
  let ?options = "request_client_options.extend sample_options \<lparr>mco_defaultConnectorId = None\<rparr>"
  let ?make = "newMedallionClient sample_platform (\<lambda>_. Some sample_url) (sample_ingest_descriptor INGEST_SERVICE_NAME)
       (sample_codec JUndef) (sample_ingest_descriptor CONNECT_SERVICE_NAME) (sample_codec JUndef) ?options
       :: thrown + (jsval, jsval) medallion_client"
  have same: "request_client_options.truncate ?options = sample_options"
    by (simp add: request_client_options.defs)
  obtain c where "newRequestClient (\<lambda>_. Some sample_url) sample_options = Inr c"
    using sample_options_accepted unfolding isOk_iff by blast
  then have "\<exists>mc. ?make = Inr mc"
    by (simp add: newMedallionClient_def Let_def same newProtocolIngestClient_def invariantIngestRuntime_def
        newProtocolConnectClient_def invariantConnectRuntime_def newProtocolRuntime_def sample_ingest_descriptor_def)
  then obtain mc where mc: "?make = Inr mc" ..
  from facade_one_workspace [OF mc] mc show ?thesis
    by (auto simp: request_client_options.defs)
qed

section \<open>Where the layers disagree\<close>

text \<open>
  A low-level append of an Arrow stream whose request also has an empty list of rows is sent,
  for the check before sending counts an empty list as no rows; but whatever positive count the
  server then acknowledges, the answer is refused, for the check afterwards takes the empty list
  as a batch of no rows. The rows are stored and the caller is told that the append failed.
\<close>

theorem empty_rows_refused:
  "let req = [(lit ''table'', JStr (lit ''tables/t'')), (lit ''rows'', JArr []),
        (lit ''arrow_rows'', JObj [(lit ''serialized_record_batch'', JStr (base64_encode [1, 2, 3]))])]
   in preflightAppendRows req = Inr () \<and>
      bindE (submitted_rows req) (\<lambda>submittedRows.
        validateAppendRowsResponse (JObj [(lit ''accepted_rows'', JStr (dec_nat (Suc n)))]) submittedRows requestId) =
      Inl (invalidIngestResponse requestId)"
proof -
  obtain t where "arrowPayload [1, 2, 3] = Inr t" "requireArrowPayloadText (JStr t) = Inr ()"
    using arrow_stream_cases [of "[1, 2, 3]"] by simp
  then have arrow: "requireArrowPayloadText (JStr (base64_encode [1, 2, 3])) = Inr ()"
    by (simp add: arrowPayload_def split: if_splits)
  show ?thesis
    using arrow
    by (simp add: Let_def preflightAppendRows_def requiredTableName_def sample_table_name rows_length_def
        is_nullish_def js_greater_def submitted_rows_def validateAppendRowsResponse_def get_member_def
        count_exact invalidIngestResponse_def)
qed

end
