(* ===== verification/Wire_Facts.thy ===== *)
theory Wire_Facts
  imports Wire_Types Table_Witnesses
begin

text \<open>
  The requests of the clients have the declared types, and answers that have theirs are read
  without a TypeError.
\<close>

section \<open>Helpers\<close>

lemma own_opt_str: "opt_str v = JUndef \<or> has_type WText (opt_str v)"
  by (cases v) simp_all

text \<open>The same when it is a member of an object.\<close>

lemma optional_text [simp]:
  "(opt_str v = JUndef \<or> (case opt_str v of JStr s \<Rightarrow> True | _ \<Rightarrow> False)) = True"
  by (cases v) simp_all

lemma fits_text [simp]: "fits WText = has_type WText"
  by (rule ext) simp

lemma fits_object:
  assumes "list_all (fits_field ps) fs" "set (map fst ps) \<subseteq> set (map field_name fs)"
  shows "fits (WObject fs) (JObj ps)"
  using assms by (auto simp: list_all_iff)

lemma fits_field_compact:
  "distinct (map fst ps) \<Longrightarrow> fits_field (compactRecord ps) f = fits_field ps f"
  by (cases f) (simp_all add: own_prop_compact)

lemma fits_compact:
  assumes "distinct (map fst ps)" "list_all (fits_field ps) fs" "set (map fst ps) \<subseteq> set (map field_name fs)"
  shows "fits (WObject fs) (JObj (compactRecord ps))"
proof (rule fits_object)
  show "list_all (fits_field (compactRecord ps)) fs" using assms(1,2) by (simp add: fits_field_compact list_all_iff)
  show "set (map fst (compactRecord ps)) \<subseteq> set (map field_name fs)"
    using compact_members [OF assms(1)] assms(3) by blast
qed

section \<open>Requests to the event service\<close>

lemma cdc_wire_typed: "fits ConnectCdcEventInput (JObj (cdc_wire a b c d e f g p q r))"
  unfolding ConnectCdcEventInput_def cdc_wire_def
  by (rule fits_compact) (simp_all add: cdc_event_members_def)

lemma audit_wire_typed: "fits ConnectAuditEventInput (JObj (audit_wire a b c d e f g p q r))"
  unfolding ConnectAuditEventInput_def audit_wire_def
  by (rule fits_compact) (simp_all add: audit_event_members_def)

lemma cdc_event_typed: "cdc_recordToWire h event = Inr ev \<Longrightarrow> fits ConnectCdcEventInput (JObj ev)"
  using cdc_wire_typed
  by (cases event) (auto simp: cdc_recordToWire_def cdc_modernEventToWire_def cdc_legacyEventToWire_def result_iff Let_def)

lemma audit_event_typed: "audit_recordToWire h event = Inr ev \<Longrightarrow> fits ConnectAuditEventInput (JObj ev)"
  using audit_wire_typed
  by (cases event) (auto simp: audit_recordToWire_def audit_modernEventToWire_def audit_legacyEventToWire_def result_iff Let_def)

lemma cdc_list_typed: "cdc_listRequest c input = Inr r \<Longrightarrow> fits ConnectListCdcEventsRequest r"
  unfolding ConnectListCdcEventsRequest_def
  by (auto simp: cdc_listRequest_def result_iff simp del: fits.simps(9) intro!: fits_compact)

lemma audit_list_typed: "audit_listRequest c input = Inr r \<Longrightarrow> fits ConnectListAuditEventsRequest r"
  unfolding ConnectListAuditEventsRequest_def
  by (auto simp: audit_listRequest_def result_iff simp del: fits.simps(9) intro!: fits_compact)

lemma publish_typed:
  assumes "list_all (\<lambda>ev. fits t (JObj ev)) events"
  shows "fits (WObject [req ''connector_id'' WText, req ''events'' (WList t)]) (publish_body c events)"
  using assms by (simp add: publish_body_def list_all_iff)

section \<open>Requests to the ingest service\<close>

text \<open>The arguments of the caller, which the compiler has checked.\<close>

definition has_optional :: "wire_type \<Rightarrow> jsval \<Rightarrow> bool" where
  "has_optional t v \<longleftrightarrow> v = JUndef \<or> has_type t v"

definition TableCreateInput :: "table_create_input \<Rightarrow> bool" where
  "TableCreateInput i \<longleftrightarrow> has_type WText (tci_tableId i) \<and> has_type (WList TableColumn) (tci_columns i) \<and>
     has_type WText (tci_timeColumn i) \<and> has_optional (WList WText) (tci_sortColumns i)"

definition TableUpdateInput :: "table_update_input \<Rightarrow> bool" where
  "TableUpdateInput i \<longleftrightarrow> has_type WText (tui_tableId i) \<and> has_type (WList TableColumn) (tui_columns i)"

definition TableQueryOptions :: "table_query_options \<Rightarrow> bool" where
  "TableQueryOptions o' \<longleftrightarrow> has_optional WNumber (tqo_serverTimeoutMs o') \<and> has_optional WBool (tqo_dryRun o') \<and>
     has_optional WNumber (tqo_pageSize o')"

lemma typed_object: "has_type (WObject fs) v \<Longrightarrow> \<exists>ps. v = JObj ps \<and> list_all (has_field ps) fs"
  by (cases v) simp_all

lemma column_typed:
  assumes "has_type TableColumn c"
  shows "\<exists>w. column_to_wire c = Inr w \<and> fits IngestColumnSchema w"
proof -
  from assms obtain ps where c: "c = JObj ps" and ps: "has_type WText (own_prop ps (lit ''name''))"
    "has_type WText (own_prop ps (lit ''type''))"
    by (auto simp: TableColumn_def dest!: typed_object split: jsval.splits)
  then show ?thesis
    by (simp add: c column_to_wire_def get_member_def IngestColumnSchema_def lit_eq_iff)
qed

lemma columns_typed:
  assumes "has_type (WList TableColumn) v"
  shows "\<exists>ws. columnsToWire v = Inr (JArr ws) \<and> list_all (fits IngestColumnSchema) ws"
proof -
  from assms obtain cs where v: "v = JArr cs" and cs: "list_all (has_type TableColumn) cs" by (cases v) simp_all
  from cs have "\<exists>ws. mapE column_to_wire cs = Inr ws \<and> list_all (fits IngestColumnSchema) ws"
  proof (induction cs)
    case (Cons c cs)
    then obtain w ws where "column_to_wire c = Inr w" "fits IngestColumnSchema w"
      "mapE column_to_wire cs = Inr ws" "list_all (fits IngestColumnSchema) ws"
      using column_typed by fastforce
    then show ?case by simp
  qed simp
  then show ?thesis by (auto simp: v columnsToWire_def)
qed

lemma create_typed:
  assumes "TableCreateInput i"
  shows "\<exists>r. create_request i = Inr r \<and> fits IngestCreateTableRequest (JObj r)"
proof -
  from assms have t: "has_type WText (tci_tableId i)" "has_type (WList TableColumn) (tci_columns i)"
    "has_type WText (tci_timeColumn i)" "has_optional (WList WText) (tci_sortColumns i)"
    by (simp_all add: TableCreateInput_def)
  from columns_typed [OF t(2)] obtain ws where ws: "columnsToWire (tci_columns i) = Inr (JArr ws)"
    "list_all (fits IngestColumnSchema) ws" by blast
  obtain sort where sort: "(if tci_sortColumns i = JUndef then Inr JUndef
      else bindE (js_spread (tci_sortColumns i)) (\<lambda>vs. Inr (JArr vs))) = Inr sort" "sort = JUndef \<or> fits (WList WText) sort"
    using t(4) by (cases "tci_sortColumns i") (auto simp: has_optional_def js_spread_def)
  show ?thesis
    using t(1,3) ws sort
    by (auto simp: create_request_def IngestCreateTableRequest_def IngestTable_def IngestTableSchema_def
        has_optional_def lit_eq_iff)
qed

lemma update_typed:
  assumes "TableUpdateInput i" "update_request i = Inr r"
  shows "fits IngestUpdateTableRequest (JObj r)"
proof -
  from assms(1) columns_typed obtain ws where ws: "columnsToWire (tui_columns i) = Inr (JArr ws)"
    "list_all (fits IngestColumnSchema) ws" by (auto simp: TableUpdateInput_def)
  with assms(2) show ?thesis
    by (auto simp: update_request_def result_iff IngestUpdateTableRequest_def IngestTable_def
        IngestTableSchema_def lit_eq_iff)
qed

lemma query_typed:
  assumes "has_type WText sql" "TableQueryOptions options"
  shows "fits IngestRunQueryRequest (JObj (query_request sql options))"
  using assms
  by (auto simp: query_request_def TableQueryOptions_def has_optional_def IngestRunQueryRequest_def lit_eq_iff)

lemma get_typed: "fits IngestGetTableRequest (JObj [(lit ''name'', JStr name)])"
  by (simp add: IngestGetTableRequest_def)

lemma tables_list_typed:
  assumes "has_optional WNumber (tlo_pageSize input)"
  shows "fits IngestListTablesRequest (JObj [(lit ''page_size'', tlo_pageSize input),
    (lit ''page_token'', js_opt JStr (tlo_pageToken input))])"
  using assms by (cases "tlo_pageToken input") (auto simp: IngestListTablesRequest_def has_optional_def lit_eq_iff)

text \<open>The request of a poll, which names the query of a typed answer.\<close>

lemma poll_typed:
  assumes "has_type IngestQueryResponse body" "TableQueryOptions options"
  shows "fits IngestGetQueryResultsRequest (JObj
    [(lit ''name'', coalesce (chain_member body (lit ''name'')) (JStr [])), (lit ''page_size'', tqo_pageSize options)])"
proof -
  from assms(1) obtain ps where ps: "body = JObj ps" "own_prop ps (lit ''name'') = JUndef \<or> has_type WText (own_prop ps (lit ''name''))"
    by (cases body) (simp_all add: IngestQueryResponse_def)
  then have "has_type WText (coalesce (own_prop ps (lit ''name'')) (JStr []))"
    by (cases "own_prop ps (lit ''name'')") (auto simp: coalesce_def is_nullish_def)
  with assms(2) show ?thesis
    by (auto simp: ps(1) IngestGetQueryResultsRequest_def TableQueryOptions_def has_optional_def lit_eq_iff)
qed

text \<open>A checked answer is in one of the three states.\<close>

lemma state_typed:
  assumes "validateQueryResponse (JObj ps) requestId = Inr ()"
  shows "has_type IngestQueryState (query_state (JObj ps))"
  using assms
  by (auto simp: validateQueryResponse_def validate_query_state_def text_field_def get_member_def result_iff Let_def
      query_state_def js_set_has_def QUERY_STATES_def IngestQueryState_def)

section \<open>Appended rows\<close>

text \<open>\<open>JsonValue\<close> describes what is printed and what is parsed.\<close>

lemma stands_for_JsonValue: "stands_for h v w \<Longrightarrow> JsonValue w"
proof (induction rule: stands_for.induct)
  case (array_value i items ws)
  then show ?case by (auto simp: list_all_iff list_all2_conv_all_nth in_set_conv_nth)
next
  case (object_value i props qs)
  then show ?case by (fastforce simp: list_all_iff list_all2_conv_all_nth in_set_conv_nth)
qed simp_all

definition TableRows :: "heap \<Rightarrow> table_rows \<Rightarrow> bool" where
  "TableRows h rows \<longleftrightarrow> list_all js_object h \<and>
     (case rows of
        JsonRows v \<Rightarrow> (case heap_object h v of Some (HArray items) \<Rightarrow> \<not> has_holes items | _ \<Rightarrow> True)
      | ArrowRows bytes \<Rightarrow> True)"

definition TableAppendOptions :: "table_append_options \<Rightarrow> bool" where
  "TableAppendOptions o' \<longleftrightarrow>
     (case ta_insertIds o' of None \<Rightarrow> True | Some ids \<Rightarrow> list_all (has_optional WText) ids) \<and>
     has_optional WBool (ta_skipInvalidRows o')"

lemma row_typed:
  assumes "row_to_wire h (Some row, insertId) = Inr w" "list_all js_object h" "has_optional WText insertId"
  shows "fits IngestRow w"
proof -
  from assms(1) obtain a b ps t v where row: "heap_object h row = Some (HObject a b ps)"
    and t: "jsonString h row = Inr t" "json_parse t = Some v"
    and w: "w = JObj ((lit ''json'', v) # (if insertId = JUndef then [] else [(lit ''insert_id'', insertId)]))"
    by (auto simp: row_to_wire_def result_iff split: option.splits hobj.splits)
  from row obtain i where i: "row = HRef i" "i < length h" "h ! i = HObject a b ps"
    by (auto simp: heap_object_def split: hval.splits if_splits)
  have "js_graph h row" using assms(2) by (simp add: js_graph_def i js_number_value_def)
  from printed_parses [OF t(1) this] t(2) i have "stands_for h (HRef i) v" by (auto simp: payload_value_def)
  with i(2,3) obtain qs where "v = JObj qs" by (auto elim: stands_for_refE)
  then show ?thesis using assms(3) by (auto simp: w IngestRow_def lit_eq_iff list_all_iff has_optional_def)
qed

lemma rows_typed:
  assumes "jsonRowsToWire h v ids = Inr ws" "TableRows h (JsonRows v)"
    "case ids of None \<Rightarrow> True | Some is \<Rightarrow> list_all (has_optional WText) is"
  shows "list_all (fits IngestRow) ws"
proof -
  from assms(1) obtain items where items: "heap_object h v = Some (HArray items)"
    and ws: "mapE (row_to_wire h) (zip items (orElse ids (replicate (length items) JUndef))) = Inr ws"
    by (auto simp: jsonRowsToWire_def result_iff split: option.splits hobj.splits if_splits)
  have solid: "item \<noteq> None" if "item \<in> set items" for item
    using assms(2) that by (cases item) (auto simp: TableRows_def items has_holes_def list_ex_iff)
  have ids: "has_optional WText x" if "x \<in> set (orElse ids (replicate (length items) JUndef))" for x
    using assms(3) that by (cases ids) (auto simp: has_optional_def list_all_iff)
  have heap: "list_all js_object h" using assms(2) by (simp add: TableRows_def)
  have "fits IngestRow w" if "e \<in> set (zip items (orElse ids (replicate (length items) JUndef)))"
    "row_to_wire h e = Inr w" for e w
  proof -
    obtain item x where e: "e = (item, x)" by (cases e)
    with that(1) have "item \<in> set items" "x \<in> set (orElse ids (replicate (length items) JUndef))"
      by (auto dest: set_zip_leftD set_zip_rightD)
    with solid have "item \<noteq> None" by blast
    then obtain row where "item = Some row" by blast
    with row_typed [of h row x w] that(2) heap ids \<open>x \<in> _\<close> e show ?thesis by simp
  qed
  note typed = this
  show ?thesis unfolding list_all_length
  proof (intro allI impI)
    fix n
    let ?es = "zip items (orElse ids (replicate (length items) JUndef))"
    assume n: "n < length ws"
    from list_all2_lengthD [OF ws [unfolded mapE_Inr_iff]] n have n': "n < length ?es" by simp
    from list_all2_nthD2 [OF ws [unfolded mapE_Inr_iff] n] have "row_to_wire h (?es ! n) = Inr (ws ! n)" .
    from typed [OF nth_mem [OF n'] this] show "fits IngestRow (ws ! n)" .
  qed
qed

text \<open>What \<open>AppendRows\<close> is called with: the request with its key.\<close>

lemma append_typed:
  assumes "append_request h tableId rows options uuid = Inr (key, r)" "TableRows h rows" "TableAppendOptions options"
  shows "fits IngestAppendRowsRequest (JObj (stamp_request_id r key))"
proof -
  from assms(1) obtain table payload where payload: "table_row_payload h rows (ta_insertIds options) = Inr payload"
    and r: "r = [(lit ''table'', JStr table), payload, (lit ''skip_invalid_rows'',
      if ta_skipInvalidRows options = JBool True then JBool True else JUndef)]"
    by (auto simp: append_request_def result_iff)
  show ?thesis
  proof (cases rows)
    case (JsonRows v)
    with payload obtain ws where ws: "jsonRowsToWire h v (ta_insertIds options) = Inr ws"
      and "payload = (lit ''rows'', JArr ws)" by (auto simp: table_row_payload_def result_iff)
    moreover have "list_all (fits IngestRow) ws"
      using rows_typed [OF ws] assms(2,3) by (simp add: JsonRows TableAppendOptions_def)
    ultimately show ?thesis
      by (simp add: r stamp_request_id_def IngestAppendRowsRequest_def lit_eq_iff)
  next
    case (ArrowRows bytes)
    with payload obtain t where "payload = (lit ''arrow_rows'', JObj [(lit ''serialized_record_batch'', JStr t)])"
      by (auto simp: table_row_payload_def result_iff)
    then show ?thesis
      by (simp add: r stamp_request_id_def IngestAppendRowsRequest_def IngestArrowRecordBatch_def lit_eq_iff)
  qed
qed

section \<open>Answers\<close>

lemma columns_read:
  assumes "has_type (WList IngestColumnSchema) v \<or> v = JUndef"
  shows "\<exists>cs. columnsFromWire v = Inr cs"
proof (cases v)
  case (JArr vs)
  with assms have vs: "list_all (has_type IngestColumnSchema) vs" by simp
  have "\<exists>c. column_from_wire x = Inr c" if "x \<in> set vs" for x
  proof -
    from vs that have "has_type IngestColumnSchema x" by (simp add: list_all_iff)
    then obtain ps where "x = JObj ps" unfolding IngestColumnSchema_def using typed_object by blast
    then show ?thesis by (simp add: column_from_wire_def get_member_def)
  qed
  then have "\<exists>cs. mapE column_from_wire vs = Inr cs" by (rule mapE_succeeds)
  then show ?thesis by (simp add: JArr columnsFromWire_def coalesce_def)
qed (use assms in \<open>simp_all add: columnsFromWire_def coalesce_def is_nullish_def\<close>)

lemma schema_read:
  assumes "has_type IngestTableSchema s \<or> s = JUndef"
  shows "\<exists>cs. columnsFromWire (chain_member s (lit ''columns'')) = Inr cs"
proof (rule columns_read)
  show "has_type (WList IngestColumnSchema) (chain_member s (lit ''columns'')) \<or> chain_member s (lit ''columns'') = JUndef"
    using assms by (cases s) (auto simp: IngestTableSchema_def chain_member_def)
qed

lemma table_read:
  assumes "has_type IngestTable t" "validateTable t requestId = Inr ()"
  shows "\<exists>tb. tableFromWire t requestId = Inr tb"
proof -
  from assms(1) obtain ps where t: "t = JObj ps" "list_all (has_field ps)
    [opt ''name'' WText, opt ''schema'' IngestTableSchema, opt ''time_column'' WText,
      opt ''sort_columns'' (WList WText), opt ''create_time'' WText]"
    unfolding IngestTable_def using typed_object by blast
  from assms(2) obtain name where name: "own_prop ps (lit ''name'') = JStr name" "TABLE_NAME_PATTERN name"
    by (auto simp: t(1) validateTable_def get_member_def result_iff split: jsval.splits)
  then have "name \<noteq> []" by (auto simp: TABLE_NAME_PATTERN_def lower_identifier_def split: list.splits)
  moreover have "\<exists>cs. columnsFromWire (chain_member (chain_member t (lit ''schema'')) (lit ''columns'')) = Inr cs"
    using t(2) by (intro schema_read) (auto simp: t(1) chain_member_def)
  moreover have "\<exists>vs. js_spread (coalesce (own_prop ps (lit ''sort_columns'')) (JArr [])) = Inr vs"
    using t(2) by (cases "own_prop ps (lit ''sort_columns'')") (auto simp: js_spread_def coalesce_def is_nullish_def)
  ultimately show ?thesis
    using name(1) by (auto simp: t(1) tableFromWire_def chain_member_def coalesce_def is_nullish_def)
qed

lemma tables_read:
  assumes "has_type IngestListTablesResponse (rp_body response)"
    "validateListTablesResponse (rp_body response) (rp_requestId response) = Inr ()"
  shows "\<exists>p. table_page response = Inr p"
proof -
  from assms(1) obtain ps where ps: "rp_body response = JObj ps" "list_all (has_field ps)
    [opt ''tables'' (WList IngestTable), opt ''next_page_token'' WText]"
    unfolding IngestListTablesResponse_def using typed_object by blast
  then obtain ts where ts: "coalesce (own_prop ps (lit ''tables'')) (JArr []) = JArr ts" "list_all (has_type IngestTable) ts"
    by (cases "own_prop ps (lit ''tables'')") (auto simp: coalesce_def is_nullish_def)
  from assms(2) obtain us where "mapE (\<lambda>t. validateTable t (rp_requestId response)) ts = Inr us"
    by (auto simp: validateListTablesResponse_def get_member_def ps(1) ts(1) result_iff)
  then have "validateTable t (rp_requestId response) = Inr ()" if "t \<in> set ts" for t
    using that unfolding mapE_Inr_iff by (auto dest: list_all2_in)
  with ts(2) table_read have "\<exists>tb. tableFromWire t (rp_requestId response) = Inr tb" if "t \<in> set ts" for t
    using that by (simp add: list_all_iff)
  then have "\<exists>tbs. mapE (\<lambda>t. tableFromWire t (rp_requestId response)) ts = Inr tbs" by (rule mapE_succeeds)
  then show ?thesis by (auto simp: table_page_def ps(1) ts(1))
qed

lemma append_read:
  assumes "has_type IngestAppendRowsResponse (rp_body response)"
    "validateAppendRowsResponse (rp_body response) submitted (rp_requestId response) = Inr ()"
  shows "\<exists>r. append_result key response = Inr r"
proof -
  from assms(1) obtain ps where ps: "rp_body response = JObj ps" "list_all (has_field ps)
    [opt ''accepted_rows'' (WUnion WText WNumber), opt ''row_errors'' (WList IngestRowError)]"
    unfolding IngestAppendRowsResponse_def using typed_object by blast
  from assms(2) obtain n errors us where
    n: "nonNegativeCount (own_prop ps (lit ''accepted_rows'')) (rp_requestId response) = Inr n" and
    errors: "coalesce (own_prop ps (lit ''row_errors'')) (JArr []) = JArr errors" and
    us: "mapE (validate_row_error submitted (rp_requestId response)) errors = Inr us"
    by (auto simp: validateAppendRowsResponse_def get_member_def ps(1) result_iff split: jsval.splits)
  have "\<exists>e. table_row_error_of (rp_requestId response) x = Inr e" if x: "x \<in> set errors" for x
  proof -
    from us x obtain u where "validate_row_error submitted (rp_requestId response) x = Inr u"
      unfolding mapE_Inr_iff by (auto dest: list_all2_in)
    then show ?thesis by (auto simp: validate_row_error_def table_row_error_of_def result_iff get_member_def split: jsval.splits)
  qed
  then have "\<exists>es. mapE (table_row_error_of (rp_requestId response)) errors = Inr es" by (rule mapE_succeeds)
  then show ?thesis by (auto simp: append_result_def get_member_def ps(1) n errors)
qed

lemma query_read:
  assumes "has_type IngestQueryResponse (rp_body response)"
    "validateQueryResponse (rp_body response) (rp_requestId response) = Inr ()"
    "query_state (rp_body response) = JStr (lit ''SUCCEEDED'')"
  shows "\<exists>r. query_finish options response = Inr r"
proof -
  from assms(1) obtain ps where ps: "rp_body response = JObj ps" "list_all (has_field ps)
    [opt ''name'' WText, opt ''state'' WText, opt ''schema'' IngestTableSchema,
      opt ''rows'' (WList (WDict WUnknown)), opt ''next_page_token'' WText,
      opt ''total_rows'' (WUnion WText WNumber), opt ''error'' IngestRpcStatus]"
    unfolding IngestQueryResponse_def using typed_object by blast
  from assms(2) obtain n where n: "nonNegativeCount (own_prop ps (lit ''total_rows'')) (rp_requestId response) = Inr n"
    by (auto simp: validateQueryResponse_def get_member_def ps(1) result_iff Let_def)
  have "\<exists>cs. columnsFromWire (chain_member (own_prop ps (lit ''schema'')) (lit ''columns'')) = Inr cs"
    using ps(2) by (intro schema_read) auto
  then show ?thesis
    using assms(3) n by (auto simp: query_finish_def requireSucceeded_def newTableQueryResult_def ps(1))
qed

section \<open>The properties\<close>

lemma cdc_publish_typed:
  assumes "mapE (cdc_recordToWire h) events = Inr evs"
  shows "fits ConnectPublishCdcEventsRequest (publish_body c evs)"
  unfolding ConnectPublishCdcEventsRequest_def
proof (rule publish_typed)
  have "fits ConnectCdcEventInput (JObj ev)" if "ev \<in> set evs" for ev
    using assms that unfolding mapE_Inr_iff by (auto simp: list_all2_conv_all_nth in_set_conv_nth intro: cdc_event_typed)
  then show "list_all (\<lambda>ev. fits ConnectCdcEventInput (JObj ev)) evs" by (simp add: list_all_iff)
qed

lemma audit_publish_typed:
  assumes "mapE (audit_recordToWire h) events = Inr evs"
  shows "fits ConnectPublishAuditEventsRequest (publish_body c evs)"
  unfolding ConnectPublishAuditEventsRequest_def
proof (rule publish_typed)
  have "fits ConnectAuditEventInput (JObj ev)" if "ev \<in> set evs" for ev
    using assms that unfolding mapE_Inr_iff by (auto simp: list_all2_conv_all_nth in_set_conv_nth intro: audit_event_typed)
  then show "list_all (\<lambda>ev. fits ConnectAuditEventInput (JObj ev)) evs" by (simp add: list_all_iff)
qed

text \<open>The arguments of a call on tables, as the compiler has checked them.\<close>

definition table_arguments ::
    "table_create_input \<Rightarrow> table_update_input \<Rightarrow> jsval \<Rightarrow> table_query_options \<Rightarrow> heap \<Rightarrow> table_rows \<Rightarrow>
     table_append_options \<Rightarrow> bool" where
  "table_arguments create update sql query h rows ao \<longleftrightarrow>
     TableCreateInput create \<and> TableUpdateInput update \<and> has_type WText sql \<and> TableQueryOptions query \<and>
     TableRows h rows \<and> TableAppendOptions ao"


definition sample_table_create :: table_create_input where
  "sample_table_create =
     \<lparr>tci_tableId = JStr (lit ''t''), tci_columns = JArr [column_json (lit ''a'', lit ''TIMESTAMP'', False)],
      tci_timeColumn = JStr (lit ''a''), tci_sortColumns = JUndef\<rparr>"

definition sample_table_update :: table_update_input where
  "sample_table_update = \<lparr>tui_tableId = JStr (lit ''t''), tui_columns = JArr [column_json (lit ''a'', lit ''TIMESTAMP'', False)]\<rparr>"

definition sample_query_options :: table_query_options where
  "sample_query_options = request_options.extend \<lparr>ro_signal = None, ro_timeoutMs = None\<rparr>
     \<lparr>tqo_serverTimeoutMs = JUndef, tqo_dryRun = JBool True, tqo_pageSize = JUndef\<rparr>"

lemma sample_arguments:
  "table_arguments sample_table_create sample_table_update (JStr (lit ''q'')) sample_query_options sample_heap
     (JsonRows (HRef 0)) sample_append_options"
  by (simp add: table_arguments_def TableCreateInput_def TableUpdateInput_def TableQueryOptions_def TableRows_def
      TableAppendOptions_def sample_table_create_def sample_table_update_def sample_query_options_def
      sample_append_options_def sample_heap_def sample_write_options_def has_optional_def TableColumn_def
      column_json_def request_options.defs ingest_write_options.defs heap_object_def has_holes_def map_filter_id
      js_number_value_def lit_eq_iff)


lemma table_answer_read:
  assumes "has_type IngestTableResponse (rp_body response)"
    "validateTableResponse (rp_body response) (rp_requestId response) = Inr ()"
  shows "\<exists>t. table_of response = Inr t"
proof -
  from assms(1) obtain ps where ps: "rp_body response = JObj ps" "list_all (has_field ps) [opt ''table'' IngestTable]"
    unfolding IngestTableResponse_def using typed_object by blast
  from assms(2) have v: "validateTable (own_prop ps (lit ''table'')) (rp_requestId response) = Inr ()"
    by (simp add: validateTableResponse_def get_member_def ps(1))
  then have "own_prop ps (lit ''table'') \<noteq> JUndef" by (auto simp: validateTable_def)
  with ps(2) table_read [OF _ v] show ?thesis by (simp add: table_of_def ps(1))
qed

text \<open>C11. An answer of the ingest service that has its declared type and passed the check of the protocol
  client is turned into the result of the call without a further error: a table, a page of tables,
  the account of an append, and the result of a query that succeeded. So the client's casts to the
  declared types never cause a TypeError.\<close>

theorem answers_read:
  "(has_type IngestTableResponse (rp_body response) \<and>
      validateTableResponse (rp_body response) (rp_requestId response) = Inr () \<longrightarrow>
      isOk (table_of response)) \<and>
   (has_type IngestListTablesResponse (rp_body response) \<and>
      validateListTablesResponse (rp_body response) (rp_requestId response) = Inr () \<longrightarrow>
      isOk (table_page response)) \<and>
   (has_type IngestAppendRowsResponse (rp_body response) \<and>
      validateAppendRowsResponse (rp_body response) submitted (rp_requestId response) = Inr () \<longrightarrow>
      isOk (append_result key response)) \<and>
   (has_type IngestQueryResponse (rp_body response) \<and>
      validateQueryResponse (rp_body response) (rp_requestId response) = Inr () \<and>
      query_state (rp_body response) = JStr (lit ''SUCCEEDED'') \<longrightarrow> isOk (query_finish options response))"
proof -
  have ok: "\<exists>y. m = Inr y \<Longrightarrow> isOk m" for m :: "thrown + 'z" by (auto simp: isOk_def)
  show ?thesis
    by (intro conjI impI; elim conjE; rule ok; erule (1) table_answer_read tables_read append_read query_read)
       (assumption | rule exI refl)+
qed

definition sample_table_answer :: ingest_response where
  "sample_table_answer =
     \<lparr>rp_body = JObj [(lit ''table'', JObj [(lit ''name'', JStr (lit ''tables/t''))])],
      rp_requestId = None, rp_retryAfterMs = None\<rparr>"

definition sample_query_answer :: ingest_response where
  "sample_query_answer =
     \<lparr>rp_body = JObj [(lit ''state'', JStr (lit ''SUCCEEDED'')), (lit ''rows'', JArr [JObj []])],
      rp_requestId = None, rp_retryAfterMs = None\<rparr>"

theorem answers_read_witness:
  "isOk (table_of sample_table_answer) \<and> isOk (query_finish sample_query_options sample_query_answer)"
proof
  have "has_type IngestTableResponse (rp_body sample_table_answer)" by code_simp
  moreover have "validateTableResponse (rp_body sample_table_answer) (rp_requestId sample_table_answer) = Inr ()"
    by code_simp
  ultimately show "isOk (table_of sample_table_answer)" using answers_read [of sample_table_answer] by blast
  have "has_type IngestQueryResponse (rp_body sample_query_answer)" by code_simp
  moreover have "validateQueryResponse (rp_body sample_query_answer) (rp_requestId sample_query_answer) = Inr ()"
    by code_simp
  moreover have "query_state (rp_body sample_query_answer) = JStr (lit ''SUCCEEDED'')" by code_simp
  ultimately show "isOk (query_finish sample_query_options sample_query_answer)"
    using answers_read [of sample_query_answer] by blast
qed

end
