(* ===== verification/Contract_Json.thy ===== *)
theory Contract_Json
  imports Js_Convert Protocol "HOL-Library.Multiset"
begin

text \<open>
  The JSON layer of the contract gate, src/scripts/sync_external_ingestion_contract.mjs: the
  normal form and the pretty printing of a document, by which the gate compares documents,
  and the checks on keys, artifact paths and checksum files. The collation of
  \<open>localeCompare\<close>, SHA-256 and the compiler of regular expressions are parameters, gathered
  in a record. The sentence of a failure is not part of the model: every \<open>fail(...)\<close> throws
  the same error.
\<close>

section \<open>The platform\<close>

record contract_platform =
  cp_localeCompare :: "jstr \<Rightarrow> jstr \<Rightarrow> int"
  cp_sha256 :: "byte list \<Rightarrow> jstr"
  cp_regexp :: "jstr \<Rightarrow> (jstr \<Rightarrow> bool) option"

definition contract_fail :: thrown where
  "contract_fail = Foreign \<lparr>fe_is_error = True, fe_is_dom = False, fe_name = lit ''Error'',
     fe_message = lit ''external ingestion contract: ''\<rparr>"

text \<open>\<open>buffer.toString("utf8")\<close>, which keeps a byte order mark, \<open>toString("ascii")\<close>, which
  clears the high bit, \<open>toString("latin1")\<close>, and \<open>Buffer.from(text)\<close>.\<close>

definition buffer_utf8 :: "byte list \<Rightarrow> jstr" where
  "buffer_utf8 bs = units_of (map replaced_scalar (decode_all bs))"

definition buffer_ascii :: "byte list \<Rightarrow> jstr" where
  "buffer_ascii bs = map (\<lambda>b. of_nat (unat b mod 128)) bs"

definition buffer_latin1 :: "byte list \<Rightarrow> jstr" where
  "buffer_latin1 bs = map (\<lambda>b. of_nat (unat b)) bs"

definition buffer_from :: "jstr \<Rightarrow> byte list" where
  "buffer_from s = utf8_encode s"

section \<open>Property order and sorting\<close>

text \<open>A stable sort by a comparison function.\<close>

fun insert_by :: "('a \<Rightarrow> 'a \<Rightarrow> int) \<Rightarrow> 'a \<Rightarrow> 'a list \<Rightarrow> 'a list" where
  "insert_by cmp x [] = [x]"
| "insert_by cmp x (y # ys) = (if cmp x y \<le> 0 then x # y # ys else y # insert_by cmp x ys)"

definition sort_by :: "('a \<Rightarrow> 'a \<Rightarrow> int) \<Rightarrow> 'a list \<Rightarrow> 'a list" where
  "sort_by cmp xs = foldr (insert_by cmp) xs []"

lemma set_insert_by [simp]: "set (insert_by cmp x xs) = insert x (set xs)"
  by (induction xs) auto

lemma set_sort_by [simp]: "set (sort_by cmp xs) = set xs"
  by (induction xs) (simp_all add: sort_by_def)

lemma mset_insert_by: "mset (insert_by cmp x xs) = add_mset x (mset xs)"
  by (induction xs) auto

lemma mset_sort_by [simp]: "mset (sort_by cmp xs) = mset xs"
  by (induction xs) (simp_all add: sort_by_def mset_insert_by)

lemma length_sort_by [simp]: "length (sort_by cmp xs) = length xs"
  by (metis mset_sort_by size_mset)

lemma distinct_map_sort_by [simp]: "distinct (map f (sort_by cmp xs)) = distinct (map f xs)"
  by (metis mset_eq_imp_distinct_iff mset_map mset_sort_by)

text \<open>The order in which the own properties of an object are listed: array indexes first.\<close>

definition is_index_key :: "jstr \<Rightarrow> bool" where
  "is_index_key k \<longleftrightarrow>
     all_digits k \<and> (k = lit ''0'' \<or> hd k \<noteq> of_char CHR ''0'') \<and> parse_dec k < 4294967295"

definition object_order :: "(jstr \<times> 'a) list \<Rightarrow> (jstr \<times> 'a) list" where
  "object_order ps =
     sort_key (\<lambda>p. parse_dec (fst p)) (filter (\<lambda>p. is_index_key (fst p)) ps) @
     filter (\<lambda>p. \<not> is_index_key (fst p)) ps"

lemma set_object_order [simp]: "set (object_order ps) = set ps"
  by (auto simp: object_order_def)

lemma mset_object_order [simp]: "mset (object_order ps) = mset ps"
  by (simp add: object_order_def)

lemma distinct_map_object_order [simp]: "distinct (map f (object_order ps)) = distinct (map f ps)"
  by (metis mset_eq_imp_distinct_iff mset_map mset_object_order)

lemma object_order_named: "list_all (\<lambda>p. \<not> is_index_key (fst p)) ps \<Longrightarrow> object_order ps = ps"
  by (simp add: object_order_def list_all_iff)

definition hasKey :: "(jstr \<times> 'a) list \<Rightarrow> jstr \<Rightarrow> bool" where
  "hasKey ps k \<longleftrightarrow> k \<in> fst ` set ps"

section \<open>The normal form\<close>

function (sequential) normalizeJson :: "(jstr \<Rightarrow> jstr \<Rightarrow> int) \<Rightarrow> jsval \<Rightarrow> jsval" where
  "normalizeJson cmp (JBig i) = JStr (dec_int i)"
| "normalizeJson cmp (JArr vs) = JArr (map (normalizeJson cmp) vs)"
| "normalizeJson cmp (JObj ps) =
     JObj (object_order (map (\<lambda>p. (fst p, normalizeJson cmp (snd p)))
       (sort_by (\<lambda>l r. cmp (fst l) (fst r)) (filter (\<lambda>p. snd p \<noteq> JUndef) (object_order ps)))))"
| "normalizeJson cmp v = v"
  by pat_completeness auto
termination
proof (relation "measure (\<lambda>(cmp, v). size v)", goal_cases)
  case (2 cmp vs v)
  then show ?case by (simp add: size_list_estimation' less_Suc_eq_le)
next
  case (3 cmp ps p)
  then have "(fst p, snd p) \<in> set ps" by simp
  then show ?case using size_member [of "fst p" "snd p" ps] by simp
qed simp

section \<open>Printing\<close>

text \<open>\<open>JSON.stringify(v, null, 2)\<close> of a normal form, which holds no bigint; \<open>ind\<close> is the
  indentation of the line. \<open>undefined\<close> in an array is printed as null.\<close>

definition json_block :: "jstr \<Rightarrow> string \<Rightarrow> string \<Rightarrow> jstr list \<Rightarrow> jstr" where
  "json_block ind opening closing ts =
     (if ts = [] then lit opening @ lit closing
      else lit opening @ [10] @ ind @ lit ''  '' @ join (lit '','' @ [10] @ ind @ lit ''  '') ts @
           [10] @ ind @ lit closing)"

function (sequential) pretty_json :: "jstr \<Rightarrow> jsval \<Rightarrow> jstr" where
  "pretty_json ind (JBool b) = (if b then lit ''true'' else lit ''false'')"
| "pretty_json ind (JNum n) = (if isFinite n then num_text n else lit ''null'')"
| "pretty_json ind (JStr s) = json_quote s"
| "pretty_json ind (JArr vs) =
     json_block ind ''['' '']'' (map (pretty_json (ind @ lit ''  '')) vs)"
| "pretty_json ind (JObj ps) =
     json_block ind ''{'' ''}''
       (map (\<lambda>p. json_quote (fst p) @ lit '': '' @ pretty_json (ind @ lit ''  '') (snd p)) ps)"
| "pretty_json ind v = lit ''null''"
  by pat_completeness auto
termination
proof (relation "measure (\<lambda>(ind, v). size v)", goal_cases)
  case (2 ind vs v)
  then show ?case by (simp add: size_list_estimation' less_Suc_eq_le)
next
  case (3 ind ps p)
  then have "(fst p, snd p) \<in> set ps" by simp
  then show ?case using size_member [of "fst p" "snd p" ps] by simp
qed simp

definition renderJson :: "(jstr \<Rightarrow> jstr \<Rightarrow> int) \<Rightarrow> jsval \<Rightarrow> jstr" where
  "renderJson cmp v =
     (case normalizeJson cmp v of
        JUndef \<Rightarrow> lit ''undefined''
      | w \<Rightarrow> pretty_json [] w) @ [10]"

text \<open>\<open>renderJson(a) === renderJson(b)\<close>, and the same on lists of texts.\<close>

definition same_json :: "(jstr \<Rightarrow> jstr \<Rightarrow> int) \<Rightarrow> jsval \<Rightarrow> jsval \<Rightarrow> bool" where
  "same_json cmp a b \<longleftrightarrow> renderJson cmp a = renderJson cmp b"

definition texts :: "jstr list \<Rightarrow> jsval" where
  "texts ss = JArr (map JStr ss)"

definition parseJson :: "byte list \<Rightarrow> thrown + jsval" where
  "parseJson payload =
     (case json_parse (buffer_utf8 payload) of None \<Rightarrow> Inl contract_fail | Some v \<Rightarrow> Inr v)"

section \<open>Checks\<close>

definition is_array :: "jsval \<Rightarrow> bool" where
  "is_array v = (case v of JArr _ \<Rightarrow> True | _ \<Rightarrow> False)"

definition assertObject :: "jsval \<Rightarrow> thrown + unit" where
  "assertObject v = (case v of JObj _ \<Rightarrow> Inr () | _ \<Rightarrow> Inl contract_fail)"

definition assertExactKeys ::
    "(jstr \<Rightarrow> jstr \<Rightarrow> int) \<Rightarrow> jsval \<Rightarrow> jstr list \<Rightarrow> thrown + unit" where
  "assertExactKeys cmp v expected =
     thenE (assertObject v)
       (failIf (\<not> same_json cmp (texts (sort (map fst (orElse (record_of v) [])))) (texts (sort expected)))
          contract_fail)"

text \<open>\<open>path.posix.normalize\<close>: \<open>normal_segments\<close> resolves the segments, those kept so far in
  reverse.\<close>

fun normal_segments :: "bool \<Rightarrow> jstr list \<Rightarrow> jstr list \<Rightarrow> jstr list" where
  "normal_segments up kept [] = rev kept"
| "normal_segments up kept (s # ss) =
     (if s = [] \<or> s = lit ''.'' then normal_segments up kept ss
      else if s = lit ''..'' then
        (case kept of
           k # ks \<Rightarrow> if k = lit ''..'' then normal_segments up (lit ''..'' # kept) ss
                    else normal_segments up ks ss
         | [] \<Rightarrow> normal_segments up (if up then [lit ''..''] else []) ss)
      else normal_segments up (s # kept) ss)"

definition posix_isAbsolute :: "jstr \<Rightarrow> bool" where
  "posix_isAbsolute p = startsWith p (lit ''/'')"

definition posix_normalize :: "jstr \<Rightarrow> jstr" where
  "posix_normalize p =
     (if p = [] then lit ''.''
      else
        (let absolute = posix_isAbsolute p; trailing = endsWith p (lit ''/'');
             q = join (lit ''/'') (normal_segments (\<not> absolute) [] (split_on (lit ''/'') p))
         in if q = [] then (if absolute then lit ''/'' else if trailing then lit ''./'' else lit ''.'')
            else (if absolute then lit ''/'' else []) @ q @ (if trailing then lit ''/'' else [])))"

definition safeArtifactPath :: "jsval \<Rightarrow> thrown + unit" where
  "safeArtifactPath v =
     (case v of
        JStr p \<Rightarrow>
          failIf (p = [] \<or> occurs [backslash] p \<or> posix_isAbsolute p \<or> posix_normalize p \<noteq> p \<or>
                  p = lit ''..'' \<or> startsWith p (lit ''../'')) contract_fail
      | _ \<Rightarrow> Inl contract_fail)"

definition is_lower_hex :: "code_unit \<Rightarrow> bool" where
  "is_lower_hex u \<longleftrightarrow> is_digit u \<or> unit_in CHR ''a'' CHR ''f'' u"

definition SHA256_PATTERN :: "jstr \<Rightarrow> bool" where
  "SHA256_PATTERN s \<longleftrightarrow> length s = 64 \<and> list_all is_lower_hex s"

text \<open>One line: 64 hexadecimal digits, two spaces, a name, a line feed.\<close>

definition parseSingleChecksum :: "byte list \<Rightarrow> jstr \<Rightarrow> thrown + jstr" where
  "parseSingleChecksum payload expectedName =
     (let s = buffer_ascii payload; digest = take 64 s; line = drop 66 s; name = butlast line in
      if SHA256_PATTERN digest \<and> take 2 (drop 64 s) = lit ''  '' \<and> line \<noteq> [] \<and> last line = 10 \<and>
         name \<noteq> [] \<and> 10 \<notin> set name \<and> name = expectedName
      then Inr digest else Inl contract_fail)"

end
