(* ===== verification/Contract_Descriptor.thy ===== *)
theory Contract_Descriptor
  imports Contract_Json
begin

text \<open>
  The descriptor of the contract bundle, as src/scripts/sync_external_ingestion_contract.mjs
  validates it: the index of its symbols, and the closure of the messages that the four
  methods reach, computed by a worklist. The decoder of a \<open>FileDescriptorSet\<close> is a parameter;
  what it gives are the records below.
\<close>

section \<open>Descriptors\<close>

record field_desc =
  fd_name :: jstr
  fd_jsonName :: jstr
  fd_number :: int
  fd_label :: int
  fd_type :: int
  fd_typeName :: jstr
  fd_extendee :: jstr
  fd_oneofIndex :: "nat option"

record enum_desc =
  ed_name :: jstr
  ed_values :: "(jstr \<times> int) list"

datatype message_desc =
  Message_Desc (md_name: jstr) (md_fields: "field_desc list") (md_nested: "message_desc list")
    (md_enums: "enum_desc list") (md_reservedRanges: "(int \<times> int) list")
    (md_reservedNames: "jstr list") (md_oneofs: "jstr list")

record unary_desc =
  mt_name :: jstr
  mt_inputType :: jstr
  mt_outputType :: jstr
  mt_clientStreaming :: bool
  mt_serverStreaming :: bool

record service_desc =
  sv_name :: jstr
  sv_methods :: "unary_desc list"

record file_desc =
  fl_name :: jstr
  fl_package :: jstr
  fl_dependencies :: "jstr list"
  fl_messages :: "message_desc list"
  fl_enums :: "enum_desc list"
  fl_services :: "service_desc list"
  fl_extensions :: "field_desc list"
  fl_goPackage :: "jstr option"
  fl_hasSourceInfo :: bool

record descriptor_platform = contract_platform +
  cp_fromBinary :: "byte list \<Rightarrow> file_desc list option"

section \<open>Constants\<close>

definition CONNECT_PACKAGE :: jstr where
  "CONNECT_PACKAGE = lit ''medallion.connect.v1''"

definition CONNECT_SERVICE :: jstr where
  "CONNECT_SERVICE = lit ''medallion.connect.v1.MedallionConnectService''"

definition PROFILE_ID :: jstr where
  "PROFILE_ID = lit ''external_ingestion_sdk_v1''"

definition EXPECTED_PROFILE_METHODS :: "jstr list" where
  "EXPECTED_PROFILE_METHODS = map lit [''PublishCdcEvents'', ''PublishAuditEvents'', ''ListCdcEvents'',
     ''ListAuditEvents'']"

definition RETIRED_SCOPE_FIELD :: jstr where
  "RETIRED_SCOPE_FIELD = join (lit ''_'') [lit ''organization'', lit ''id'']"

section \<open>The index\<close>

record descriptor_index =
  di_files :: "(jstr \<times> file_desc) list"
  di_services :: "(jstr \<times> service_desc) list"
  di_messages :: "(jstr \<times> message_desc) list"
  di_enums :: "(jstr \<times> enum_desc) list"

definition empty_index :: descriptor_index where
  "empty_index = \<lparr>di_files = [], di_services = [], di_messages = [], di_enums = []\<rparr>"

definition normalizeTypeName :: "jstr \<Rightarrow> jstr" where
  "normalizeTypeName name = (if startsWith name (lit ''.'') then drop 1 name else name)"

definition qualify :: "jstr \<Rightarrow> jstr \<Rightarrow> jstr" where
  "qualify prefix name = prefix @ lit ''.'' @ name"

definition in_package :: "jstr \<Rightarrow> bool" where
  "in_package name = startsWith name (CONNECT_PACKAGE @ lit ''.'')"

definition addUnique :: "(jstr \<times> 'a) list \<Rightarrow> jstr \<Rightarrow> 'a \<Rightarrow> thrown + (jstr \<times> 'a) list" where
  "addUnique index name v = (if hasKey index name then Inl contract_fail else Inr (index @ [(name, v)]))"

definition addEnum :: "jstr \<Rightarrow> descriptor_index \<Rightarrow> enum_desc \<Rightarrow> thrown + descriptor_index" where
  "addEnum prefix idx e =
     bindE (addUnique (di_enums idx) (qualify prefix (ed_name e)) e)
       (\<lambda>enums. Inr (idx\<lparr>di_enums := enums\<rparr>))"

fun addMessage :: "jstr \<Rightarrow> descriptor_index \<Rightarrow> message_desc \<Rightarrow> thrown + descriptor_index"
  and addMessages :: "jstr \<Rightarrow> descriptor_index \<Rightarrow> message_desc list \<Rightarrow> thrown + descriptor_index" where
  "addMessage prefix idx (Message_Desc n fs nested enums ranges reserved oneofs) =
     (let name = qualify prefix n in
      bindE (addUnique (di_messages idx) name (Message_Desc n fs nested enums ranges reserved oneofs))
        (\<lambda>messages.
      bindE (foldE (addEnum name) (idx\<lparr>di_messages := messages\<rparr>) enums) (\<lambda>idx'.
        addMessages name idx' nested)))"
| "addMessages prefix idx [] = Inr idx"
| "addMessages prefix idx (m # ms) = bindE (addMessage prefix idx m) (\<lambda>idx'. addMessages prefix idx' ms)"

definition addService :: "jstr \<Rightarrow> descriptor_index \<Rightarrow> service_desc \<Rightarrow> thrown + descriptor_index" where
  "addService prefix idx s =
     bindE (addUnique (di_services idx) (qualify prefix (sv_name s)) s)
       (\<lambda>services. Inr (idx\<lparr>di_services := services\<rparr>))"

definition index_file :: "file_desc list \<Rightarrow> descriptor_index \<Rightarrow> file_desc \<Rightarrow> thrown + descriptor_index" where
  "index_file all_files idx f =
     bindE (addUnique (di_files idx) (fl_name f) f) (\<lambda>files.
     thenE (failIf (fl_hasSourceInfo f) contract_fail)
     (thenE (failIf (\<not> set (fl_dependencies f) \<subseteq> fl_name ` set all_files) contract_fail)
     (bindE (foldE (addEnum (fl_package f)) (idx\<lparr>di_files := files\<rparr>) (fl_enums f)) (\<lambda>idx1.
      bindE (addMessages (fl_package f) idx1 (fl_messages f)) (\<lambda>idx2.
        foldE (addService (fl_package f)) idx2 (fl_services f))))))"

definition indexDescriptor ::
    "'a descriptor_platform_scheme \<Rightarrow> byte list \<Rightarrow> thrown + file_desc list \<times> descriptor_index" where
  "indexDescriptor p payload =
     (case cp_fromBinary p payload of
        None \<Rightarrow> Inl contract_fail
      | Some files \<Rightarrow> bindE (foldE (index_file files) empty_index files) (\<lambda>idx. Inr (files, idx)))"

section \<open>The closure of the methods\<close>

definition legacy_field :: "field_desc \<Rightarrow> bool" where
  "legacy_field f \<longleftrightarrow>
     fd_name f \<in> {lit ''organization_id'', lit ''tenant_id''} \<or>
     fd_jsonName f \<in> {lit ''organizationId'', lit ''tenantId''}"

text \<open>The loop over the fields of a reached message; the stack has its top first.\<close>

definition visit_field ::
    "descriptor_index \<Rightarrow> jstr list \<times> jstr list \<Rightarrow> field_desc \<Rightarrow> thrown + jstr list \<times> jstr list" where
  "visit_field idx st f =
     (let typeName = normalizeTypeName (fd_typeName f);
          pending = (if hasKey (di_messages idx) typeName then typeName # fst st else fst st);
          enums = (if hasKey (di_enums idx) typeName then List.insert typeName (snd st) else snd st)
      in thenE (failIf (legacy_field f) contract_fail) (Inr (pending, enums)))"

function wire_closure ::
    "descriptor_index \<Rightarrow> jstr list \<Rightarrow> jstr list \<Rightarrow> jstr list \<Rightarrow> thrown + jstr list \<times> jstr list" where
  "wire_closure idx pending messages enums =
     (case pending of
        [] \<Rightarrow> Inr (messages, enums)
      | name # rest \<Rightarrow>
          if name \<in> set messages \<or> \<not> in_package name then wire_closure idx rest messages enums
          else
            (case map_of (di_messages idx) name of
               None \<Rightarrow> Inl contract_fail
             | Some m \<Rightarrow>
                 (case foldE (visit_field idx) (rest, enums) (md_fields m) of
                    Inl e \<Rightarrow> Inl e
                  | Inr (pending', enums') \<Rightarrow> wire_closure idx pending' (name # messages) enums')))"
  by pat_completeness auto
termination
proof (relation "measures [\<lambda>(idx, pending, messages, enums). card (fst ` set (di_messages idx) - set messages),
      \<lambda>(idx, pending, messages, enums). length pending]", goal_cases)
  case (3 idx pending messages enums name rest m y pending' enums')
  then have "name \<in> fst ` set (di_messages idx) - set messages"
    by (auto dest!: map_of_SomeD intro: rev_image_eqI)
  then have "card (fst ` set (di_messages idx) - set (name # messages)) < card (fst ` set (di_messages idx) - set messages)"
    by (intro psubset_card_mono) auto
  then show ?case by simp
qed simp_all

declare wire_closure.simps [simp del]

definition method_roots :: "unary_desc list \<Rightarrow> jstr list" where
  "method_roots ms =
     concat (map (\<lambda>m. [normalizeTypeName (mt_inputType m), normalizeTypeName (mt_outputType m)]) ms)"

definition local_names :: "(jstr \<times> 'a) list \<Rightarrow> jstr list" where
  "local_names index = sort (filter in_package (map fst index))"

definition methodProjection :: "jstr \<Rightarrow> unary_desc \<Rightarrow> jsval" where
  "methodProjection service m = JObj
     [(lit ''client_streaming'', JBool (mt_clientStreaming m)),
      (lit ''name'', JStr (mt_name m)),
      (lit ''path'', JStr (lit ''/'' @ service @ lit ''/'' @ mt_name m)),
      (lit ''request_type'', JStr (normalizeTypeName (mt_inputType m))),
      (lit ''response_type'', JStr (normalizeTypeName (mt_outputType m))),
      (lit ''server_streaming'', JBool (mt_serverStreaming m))]"

text \<open>Messages that keep their workspace field and reserve the retired one: the number of the
  field, and the number that must lie in a reserved range.\<close>

definition expectedWorkspaceFields :: "(jstr \<times> int \<times> int) list" where
  "expectedWorkspaceFields =
     [(qualify CONNECT_PACKAGE (lit ''CdcEvent''), 17, 2),
      (qualify CONNECT_PACKAGE (lit ''AuditEvent''), 18, 2),
      (qualify CONNECT_PACKAGE (lit ''ListCdcEventsRequest''), 13, 1),
      (qualify CONNECT_PACKAGE (lit ''ListAuditEventsRequest''), 15, 1)]"

definition workspace_contract :: "descriptor_index \<Rightarrow> jstr \<times> int \<times> int \<Rightarrow> bool" where
  "workspace_contract idx entry =
     (case entry of (name, fieldNumber, reservedNumber) \<Rightarrow>
        (case map_of (di_messages idx) name of
           None \<Rightarrow> False
         | Some m \<Rightarrow>
             (case find (\<lambda>f. fd_name f = lit ''workspace_id'') (md_fields m) of
                None \<Rightarrow> False
              | Some f \<Rightarrow> fd_number f = fieldNumber) \<and>
             RETIRED_SCOPE_FIELD \<in> set (md_reservedNames m) \<and>
             list_ex (\<lambda>(start, end_number). start \<le> reservedNumber \<and> reservedNumber < end_number)
               (md_reservedRanges m)))"

record descriptor_state =
  ds_enumCount :: nat
  ds_files :: "file_desc list"
  ds_index :: descriptor_index
  ds_messageCount :: nat
  ds_methods :: "unary_desc list"
  ds_wireClosureSha256 :: jstr

definition same_texts :: "'a contract_platform_scheme \<Rightarrow> jstr list \<Rightarrow> jstr list \<Rightarrow> bool" where
  "same_texts p xs ys = same_json (cp_localeCompare p) (texts xs) (texts ys)"

definition closure_document :: "unary_desc list \<Rightarrow> jstr list \<Rightarrow> jstr list \<Rightarrow> jsval" where
  "closure_document ms messages enums = JObj
     [(lit ''enums'', texts (sort enums)), (lit ''messages'', texts (sort messages)),
      (lit ''methods'', JArr (map (methodProjection CONNECT_SERVICE) ms)),
      (lit ''service'', JStr CONNECT_SERVICE)]"

definition validateDescriptor ::
    "'a descriptor_platform_scheme \<Rightarrow> byte list \<Rightarrow> thrown + descriptor_state" where
  "validateDescriptor p payload =
     bindE (indexDescriptor p payload) (\<lambda>(files, idx).
     thenE (failIf (\<not> same_texts p (map fst (di_services idx)) [CONNECT_SERVICE]) contract_fail)
     (case map_of (di_services idx) CONNECT_SERVICE of
        None \<Rightarrow> Inl type_error
      | Some service \<Rightarrow>
          (let ms = sv_methods service in
           thenE (failIf (\<not> same_texts p (sort (map mt_name ms)) (sort EXPECTED_PROFILE_METHODS) \<or>
                          list_ex (\<lambda>m. mt_clientStreaming m \<or> mt_serverStreaming m) ms) contract_fail)
           (bindE (wire_closure idx (rev (method_roots ms)) [] []) (\<lambda>(messages, enums).
            thenE (failIf (\<not> same_texts p (local_names (di_messages idx)) (sort messages) \<or>
                           \<not> same_texts p (local_names (di_enums idx)) (sort enums)) contract_fail)
            (thenE (failIf (length messages \<noteq> 12 \<or> length enums \<noteq> 3) contract_fail)
            (thenE (failIf (\<not> list_all (workspace_contract idx) expectedWorkspaceFields) contract_fail)
              (Inr \<lparr>ds_enumCount = length enums, ds_files = files, ds_index = idx,
                    ds_messageCount = length messages, ds_methods = ms,
                    ds_wireClosureSha256 =
                      cp_sha256 p (buffer_from (renderJson (cp_localeCompare p)
                        (closure_document ms messages enums)))\<rparr>))))))))"

end
