(* ===== verification/Contract_Policies.thy ===== *)
theory Contract_Policies
  imports Contract_Descriptor
begin

text \<open>
  The documents of the contract bundle beside its descriptor, as
  src/scripts/sync_external_ingestion_contract.mjs validates them: the consumer manifest, the
  idempotency policy, the registry of error reasons, the conformance fixtures, the schemas and
  the release attestation. A parsed document is a \<open>jsval\<close>; the protobuf JSON codec over the
  registry of a descriptor is a parameter.
\<close>

section \<open>The state of a bundle\<close>

record bundle_state =
  bs_artifacts :: "(jstr \<times> byte list) list"
  bs_bundle :: jsval
  bs_bundleHash :: jstr
  bs_bundlePayload :: "byte list"
  bs_checksumPayload :: "byte list"

text \<open>\<open>toJson(schema, fromJson(schema, value))\<close> for the message of that name in the registry;
  \<open>None\<close> when the message is missing or the codec throws.\<close>

record gate_platform = descriptor_platform +
  cp_protoJson :: "file_desc list \<Rightarrow> jstr \<Rightarrow> jsval \<Rightarrow> jsval option"

definition artifact :: "bundle_state \<Rightarrow> jstr \<Rightarrow> thrown + byte list" where
  "artifact st name =
     (case map_of (bs_artifacts st) name of None \<Rightarrow> Inl contract_fail | Some payload \<Rightarrow> Inr payload)"

definition MANIFEST_NAME :: jstr where
  "MANIFEST_NAME = lit ''external_ingestion_sdk_v1.json''"

definition ERROR_INFO_DOMAIN :: jstr where
  "ERROR_INFO_DOMAIN = lit ''medallion.jimtech.io''"

section \<open>Access\<close>

text \<open>Property access on a value that may be null, and a chain \<open>v?.a?.b\<close>.\<close>

definition present :: "jsval \<Rightarrow> thrown + unit" where
  "present v = failIf (is_nullish v) type_error"

definition field_of :: "jsval \<Rightarrow> string \<Rightarrow> jsval" where
  "field_of v k = chain_member v (lit k)"

definition chain :: "jsval \<Rightarrow> string list \<Rightarrow> jsval" where
  "chain v ks = foldl field_of v ks"

definition text_is :: "jsval \<Rightarrow> string \<Rightarrow> bool" where
  "text_is v s \<longleftrightarrow> v = JStr (lit s)"

definition one_is :: "jsval \<Rightarrow> bool" where
  "one_is v \<longleftrightarrow> v = JNum (num 1)"

definition nonempty_text :: "jsval \<Rightarrow> bool" where
  "nonempty_text v = (case v of JStr s \<Rightarrow> s \<noteq> [] | _ \<Rightarrow> False)"

definition exact_keys :: "'a contract_platform_scheme \<Rightarrow> jsval \<Rightarrow> string list \<Rightarrow> thrown + unit" where
  "exact_keys p v keys = assertExactKeys (cp_localeCompare p) v (map lit keys)"

definition items_of :: "jsval \<Rightarrow> jsval list" where
  "items_of v = (case v of JArr vs \<Rightarrow> vs | _ \<Rightarrow> [])"

section \<open>The manifest\<close>

text \<open>\<open>new Map(methods.map(m => [m.name, m])).get(name)\<close>: the last of that name.\<close>

definition method_named :: "unary_desc list \<Rightarrow> jstr \<Rightarrow> unary_desc option" where
  "method_named ms name = map_of (rev (map (\<lambda>m. (mt_name m, m)) ms)) name"

definition expected_projection :: "unary_desc list \<Rightarrow> jstr \<Rightarrow> thrown + jsval" where
  "expected_projection ms name =
     (case method_named ms name of
        None \<Rightarrow> Inl contract_fail
      | Some m \<Rightarrow> Inr (methodProjection CONNECT_SERVICE m))"

definition validateManifest ::
    "'a descriptor_platform_scheme \<Rightarrow> byte list \<Rightarrow> byte list \<Rightarrow> descriptor_state \<Rightarrow> thrown + jsval" where
  "validateManifest p payload descriptorPayload ds =
     bindE (parseJson payload) (\<lambda>manifest.
     thenE (exact_keys p manifest [''$schema'', ''descriptor'', ''descriptor_sha256'', ''methods'',
       ''package'', ''profile'', ''schema_version'', ''service''])
     (thenE (failIf (\<not> text_is (field_of manifest ''$schema'') ''schemas/external-ingestion-sdk-v1.schema.json'' \<or>
                     \<not> one_is (field_of manifest ''schema_version'') \<or>
                     field_of manifest ''profile'' \<noteq> JStr PROFILE_ID \<or>
                     field_of manifest ''package'' \<noteq> JStr CONNECT_PACKAGE \<or>
                     field_of manifest ''service'' \<noteq> JStr CONNECT_SERVICE \<or>
                     \<not> text_is (field_of manifest ''descriptor'') ''descriptor.binpb'' \<or>
                     field_of manifest ''descriptor_sha256'' \<noteq> JStr (cp_sha256 p descriptorPayload) \<or>
                     \<not> is_array (field_of manifest ''methods'')) contract_fail)
     (bindE (mapE (expected_projection (ds_methods ds)) EXPECTED_PROFILE_METHODS) (\<lambda>expected.
      thenE (failIf (\<not> same_json (cp_localeCompare p) (field_of manifest ''methods'') (JArr expected)) contract_fail)
        (Inr manifest)))))"

section \<open>The idempotency policy\<close>

definition expected_classifications :: "(string \<times> jstr list) list" where
  "expected_classifications =
     [(''record_idempotent_batch'', map lit [''PublishCdcEvents'', ''PublishAuditEvents'']),
      (''read_only'', map lit [''ListCdcEvents'', ''ListAuditEvents''])]"

definition check_classification ::
    "'a contract_platform_scheme \<Rightarrow> jsval \<Rightarrow> string \<times> jstr list \<Rightarrow> thrown + unit" where
  "check_classification p classifications expected =
     (let entry = field_of classifications (fst expected) in
      thenE (exact_keys p entry [''methods'', ''rationale''])
        (failIf (\<not> nonempty_text (field_of entry ''rationale'') \<or>
                 \<not> same_json (cp_localeCompare p) (field_of entry ''methods'') (texts (snd expected)))
           contract_fail))"

definition validateIdempotencyPolicy :: "'a contract_platform_scheme \<Rightarrow> byte list \<Rightarrow> thrown + jsval" where
  "validateIdempotencyPolicy p payload =
     bindE (parseJson payload) (\<lambda>policy.
     (let classifications = field_of policy ''classifications'' in
      thenE (exact_keys p policy [''classifications'', ''schema_version'', ''service''])
      (thenE (failIf (\<not> one_is (field_of policy ''schema_version'') \<or>
                      field_of policy ''service'' \<noteq> JStr CONNECT_SERVICE \<or>
                      \<not> js_truthy classifications \<or> is_array classifications) contract_fail)
      (thenE (exact_keys p classifications [''read_only'', ''record_idempotent_batch''])
      (thenE (mapE (check_classification p classifications) expected_classifications)
        (Inr policy))))))"

section \<open>The registry of error reasons\<close>

definition EXPECTED_ERROR_REASONS :: "jstr list" where
  "EXPECTED_ERROR_REASONS = map lit [''AUTHORIZATION_DEPENDENCY_UNAVAILABLE'', ''BACKPRESSURE'',
     ''CAPABILITY_UNAVAILABLE'', ''FEATURE_NOT_ENTITLED'', ''IDEMPOTENCY_MISMATCH'',
     ''INTEGRATION_UNAVAILABLE'', ''WORKSPACE_SELECTOR_CONFLICT'']"

text \<open>\<open>/^[A-Z][A-Z0-9_]*$/\<close>.\<close>

definition REASON_PATTERN :: "jstr \<Rightarrow> bool" where
  "REASON_PATTERN s =
     (case s of
        [] \<Rightarrow> False
      | u # us \<Rightarrow> unit_in CHR ''A'' CHR ''Z'' u \<and>
          list_all (\<lambda>v. unit_in CHR ''A'' CHR ''Z'' v \<or> is_digit v \<or> v = of_char CHR ''_'') us)"

text \<open>\<open>pattern.test(value)\<close> converts the value to a text.\<close>

definition reason_matches :: "jsval \<Rightarrow> thrown + unit" where
  "reason_matches v = bindE (js_string v) (\<lambda>t. failIf (\<not> REASON_PATTERN t) contract_fail)"

definition is_boolean :: "jsval \<Rightarrow> bool" where
  "is_boolean v = (case v of JBool _ \<Rightarrow> True | _ \<Rightarrow> False)"

definition check_reason ::
    "'a contract_platform_scheme \<Rightarrow> jsval list \<Rightarrow> jsval \<Rightarrow> thrown + jsval list" where
  "check_reason p seen entry =
     (let reason = field_of entry ''reason''; retry = field_of entry ''retry_policy'' in
      thenE (js_string (coalesce reason (JStr (lit ''<missing>''))))
      (thenE (exact_keys p entry [''consumer_category'', ''grpc_code'', ''reason'', ''retry_policy''])
      (thenE (js_string reason)
      (thenE (exact_keys p retry [''classification'', ''reuse_idempotency_key''])
      (thenE (failIf (js_set_has seen reason) contract_fail)
      (thenE (reason_matches reason)
      (thenE (reason_matches (field_of entry ''grpc_code''))
      (thenE (failIf (\<not> nonempty_text (field_of entry ''consumer_category'') \<or>
                      \<not> nonempty_text (field_of retry ''classification'') \<or>
                      \<not> is_boolean (field_of retry ''reuse_idempotency_key'')) contract_fail)
        (Inr (seen @ [reason]))))))))))"

text \<open>\<open>[...seen].toSorted()\<close> orders by the texts of the members, which the loop converted.\<close>

definition js_text :: "jsval \<Rightarrow> jstr" where
  "js_text v = (case js_string v of Inl _ \<Rightarrow> [] | Inr t \<Rightarrow> t)"

definition validateErrorReasonPolicy :: "'a contract_platform_scheme \<Rightarrow> jsval \<Rightarrow> thrown + jsval" where
  "validateErrorReasonPolicy p policy =
     thenE (exact_keys p policy [''$schema'', ''domain'', ''reasons'', ''schema_version'', ''unknown_reason_policy''])
     (thenE (failIf (\<not> text_is (field_of policy ''$schema'') ''schemas/error-reasons.schema.json'' \<or>
                     \<not> one_is (field_of policy ''schema_version'') \<or>
                     field_of policy ''domain'' \<noteq> JStr ERROR_INFO_DOMAIN \<or>
                     \<not> text_is (field_of policy ''unknown_reason_policy'') ''preserve'' \<or>
                     \<not> is_array (field_of policy ''reasons'')) contract_fail)
     (bindE (foldE (check_reason p) [] (items_of (field_of policy ''reasons''))) (\<lambda>seen.
      thenE (failIf (\<not> same_json (cp_localeCompare p) (JArr (sort_key js_text seen))
                      (texts (sort EXPECTED_ERROR_REASONS))) contract_fail)
        (Inr policy))))"

section \<open>The conformance fixtures\<close>

definition roundTripJson ::
    "'a gate_platform_scheme \<Rightarrow> file_desc list \<Rightarrow> jstr \<Rightarrow> jsval \<Rightarrow> thrown + unit" where
  "roundTripJson p files typeName v =
     (case cp_protoJson p files typeName v of
        None \<Rightarrow> Inl contract_fail
      | Some encoded \<Rightarrow> failIf (\<not> same_json (cp_localeCompare p) encoded v) contract_fail)"

definition fixture_path :: "jstr \<Rightarrow> jstr" where
  "fixture_path methodName = lit ''/'' @ CONNECT_SERVICE @ lit ''/'' @ methodName"

text \<open>\<open>dispositions?.join(",")\<close>; anything but an array has no such method.\<close>

definition dispositions_text :: "jsval \<Rightarrow> thrown + jstr option" where
  "dispositions_text v =
     (if is_nullish v then Inr None
      else if is_array v then bindE (js_string v) (\<lambda>t. Inr (Some t)) else Inl type_error)"

definition has_text_id :: "jsval \<Rightarrow> bool" where
  "has_text_id receipt = (case field_of receipt ''eventId'' of JStr _ \<Rightarrow> True | _ \<Rightarrow> False)"

definition check_evidence :: "jsval \<Rightarrow> thrown + unit" where
  "check_evidence fixture =
     (let receipts = chain fixture [''expected'', ''body'', ''events''] in
      bindE (dispositions_text (chain fixture [''expected'', ''receiptDispositions''])) (\<lambda>joined.
      thenE (failIf (joined \<noteq> Some (lit ''accepted,duplicate'') \<or>
                     chain fixture [''input'', ''headers'', ''x-medallion-workspace-id''] = JUndef) contract_fail)
        (case receipts of
           JArr [first, second] \<Rightarrow>
             thenE (present first)
             (thenE (failIf (field_of first ''duplicate'' \<noteq> JUndef) contract_fail)
             (thenE (present second)
               (failIf (field_of second ''duplicate'' \<noteq> JBool True \<or>
                        \<not> has_text_id first \<or> \<not> has_text_id second) contract_fail)))
         | _ \<Rightarrow> Inl contract_fail)))"

definition check_fixture ::
    "'a gate_platform_scheme \<Rightarrow> descriptor_state \<Rightarrow> jsval \<times> jstr \<Rightarrow> thrown + unit" where
  "check_fixture p ds item =
     (case item of (fixture, methodName) \<Rightarrow>
        thenE (present fixture)
        (thenE (failIf (chain fixture [''protocol'', ''service''] \<noteq> JStr CONNECT_SERVICE \<or>
                        chain fixture [''protocol'', ''method''] \<noteq> JStr methodName \<or>
                        chain fixture [''protocol'', ''path''] \<noteq> JStr (fixture_path methodName) \<or>
                        \<not> text_is (field_of fixture ''kind'') ''transport_exchange'') contract_fail)
        (case method_named (ds_methods ds) methodName of
           None \<Rightarrow> Inl type_error
         | Some m \<Rightarrow>
             thenE (js_string (field_of fixture ''id''))
             (thenE (roundTripJson p (ds_files ds) (normalizeTypeName (mt_inputType m))
                       (chain fixture [''input'', ''body'']))
             (thenE (roundTripJson p (ds_files ds) (normalizeTypeName (mt_outputType m))
                       (chain fixture [''expected'', ''body'']))
               (check_evidence fixture))))))"

definition expectedFixtureMethods :: "jstr list" where
  "expectedFixtureMethods = map lit [''PublishCdcEvents'', ''PublishAuditEvents'']"

definition validateConformance ::
    "'a gate_platform_scheme \<Rightarrow> byte list \<Rightarrow> descriptor_state \<Rightarrow> thrown + nat" where
  "validateConformance p payload ds =
     bindE (parseJson payload) (\<lambda>document.
     thenE (present document)
     (let fixtures = items_of (field_of document ''fixtures'') in
      thenE (failIf (\<not> text_is (field_of document ''$schema'') ''schemas/fixture-document.schema.json'' \<or>
                     \<not> one_is (field_of document ''schemaVersion'') \<or>
                     \<not> text_is (field_of document ''category'') ''external_sdk_ingestion'' \<or>
                     \<not> is_array (field_of document ''fixtures'') \<or> length fixtures \<noteq> 2) contract_fail)
      (thenE (mapE (check_fixture p ds) (zip fixtures expectedFixtureMethods))
        (Inr (length fixtures)))))"

section \<open>The schemas\<close>

record contract_schemas =
  cs_errorSchema :: jsval
  cs_fixtureSchema :: jsval
  cs_manifestSchema :: jsval

definition FIXTURE_PATH_PATTERN :: string where
  "FIXTURE_PATH_PATTERN =
     ''^/medallion'' @ [CHR 0x5C] @ ''.connect'' @ [CHR 0x5C] @ ''.v1'' @ [CHR 0x5C] @
     ''.MedallionConnectService/(PublishCdcEvents|PublishAuditEvents|ListCdcEvents|ListAuditEvents)$''"

definition parsed_artifact :: "bundle_state \<Rightarrow> jstr \<Rightarrow> thrown + jsval" where
  "parsed_artifact st name = bindE (artifact st name) parseJson"

definition validateSchemas :: "'a contract_platform_scheme \<Rightarrow> bundle_state \<Rightarrow> thrown + contract_schemas" where
  "validateSchemas p st =
     bindE (parsed_artifact st (lit ''conformance/schemas/fixture-document.schema.json'')) (\<lambda>fixtureSchema.
     thenE (present fixtureSchema)
     (let protocol = chain fixtureSchema [''$defs'', ''fixture'', ''properties'', ''protocol''];
          same = same_json (cp_localeCompare p)
      in
      thenE (failIf (\<not> text_is (chain fixtureSchema [''properties'', ''category'', ''const'']) ''external_sdk_ingestion'' \<or>
                     \<not> same (chain protocol [''properties'', ''service'', ''enum'']) (texts [CONNECT_SERVICE]) \<or>
                     \<not> text_is (chain protocol [''properties'', ''path'', ''pattern'']) FIXTURE_PATH_PATTERN \<or>
                     \<not> same (chain protocol [''properties'', ''method'', ''enum'']) (texts EXPECTED_PROFILE_METHODS))
              contract_fail)
      (bindE (parsed_artifact st (lit ''schemas/external-ingestion-sdk-v1.schema.json'')) (\<lambda>manifestSchema.
       thenE (present manifestSchema)
       (thenE (failIf (chain manifestSchema [''properties'', ''profile'', ''const''] \<noteq> JStr PROFILE_ID \<or>
                       chain manifestSchema [''properties'', ''service'', ''const''] \<noteq> JStr CONNECT_SERVICE) contract_fail)
       (bindE (parsed_artifact st (lit ''schemas/error-reasons.schema.json'')) (\<lambda>errorSchema.
        thenE (present errorSchema)
        (thenE (failIf (chain errorSchema [''properties'', ''domain'', ''const''] \<noteq> JStr ERROR_INFO_DOMAIN) contract_fail)
          (Inr \<lparr>cs_errorSchema = errorSchema, cs_fixtureSchema = fixtureSchema,
                cs_manifestSchema = manifestSchema\<rparr>)))))))))"

section \<open>The attestation\<close>

definition path_text :: "jsval \<Rightarrow> jstr" where
  "path_text entry = (case field_of entry ''path'' of JStr s \<Rightarrow> s | _ \<Rightarrow> [])"

definition attestedArtifacts :: "'a contract_platform_scheme \<Rightarrow> bundle_state \<Rightarrow> jsval list" where
  "attestedArtifacts p st =
     sort_by (\<lambda>l r. cp_localeCompare p (path_text l) (path_text r))
       (map (\<lambda>entry. JObj [(lit ''path'', field_of entry ''path''), (lit ''sha256'', field_of entry ''sha256'')])
         (filter (\<lambda>entry. \<not> text_is (field_of entry ''path'') ''release-attestation.json'')
           (items_of (field_of (bs_bundle st) ''artifacts''))))"

text \<open>\<open>/^sdkc_[0-9a-z]{26}$/\<close> and \<open>/^sdkrel_[0-9a-z]{26}$/\<close>.\<close>

definition release_pattern :: "string \<Rightarrow> jstr \<Rightarrow> bool" where
  "release_pattern prefix s \<longleftrightarrow>
     startsWith s (lit prefix) \<and> length s = length prefix + 26 \<and>
     list_all (\<lambda>u. is_digit u \<or> unit_in CHR ''a'' CHR ''z'' u) (drop (length prefix) s)"

definition release_evidence :: "bundle_state \<Rightarrow> jsval \<Rightarrow> bool" where
  "release_evidence st attestation \<longleftrightarrow>
     text_is (field_of (bs_bundle st) ''release_status'') ''released'' \<and>
     text_is (field_of attestation ''attestation'') ''immutable_release'' \<and>
     field_of attestation ''immutable'' = JBool True \<and> field_of attestation ''released'' = JBool True \<and>
     (case field_of attestation ''release_id'' of JStr s \<Rightarrow> release_pattern ''sdkrel_'' s | _ \<Rightarrow> False)"

definition candidate_evidence :: "bundle_state \<Rightarrow> jsval \<Rightarrow> bool" where
  "candidate_evidence st attestation \<longleftrightarrow>
     text_is (field_of (bs_bundle st) ''release_status'') ''unreleased_candidate'' \<and>
     text_is (field_of attestation ''attestation'') ''unreleased_candidate'' \<and>
     field_of attestation ''immutable'' = JBool False \<and> field_of attestation ''released'' = JBool False \<and>
     field_of attestation ''release_id'' = JNull"

text \<open>\<open>a === b\<close> on parsed values: arrays and objects read from two documents are never the
  same.\<close>

definition strict_equal :: "jsval \<Rightarrow> jsval \<Rightarrow> bool" where
  "strict_equal a b \<longleftrightarrow> a = b \<and> \<not> is_object a \<and> a \<noteq> JNum NaN"

definition validateReleaseAttestation ::
    "'a contract_platform_scheme \<Rightarrow> bundle_state \<Rightarrow> thrown + jsval" where
  "validateReleaseAttestation p st =
     bindE (parsed_artifact st (lit ''release-attestation.json'')) (\<lambda>attestation.
     thenE (exact_keys p attestation [''artifact_set_sha256'', ''artifacts'', ''attestation'',
       ''contract_version'', ''immutable'', ''release_id'', ''released'', ''schema_version''])
     (let expected = JArr (attestedArtifacts p st) in
      thenE (failIf (\<not> one_is (field_of attestation ''schema_version'') \<or>
                     \<not> strict_equal (field_of attestation ''contract_version'') (field_of (bs_bundle st) ''contract_version'') \<or>
                     \<not> same_json (cp_localeCompare p) (field_of attestation ''artifacts'') expected \<or>
                     field_of attestation ''artifact_set_sha256'' \<noteq>
                       JStr (cp_sha256 p (buffer_from (renderJson (cp_localeCompare p) expected)))) contract_fail)
      (thenE (failIf (\<not> release_evidence st attestation \<and> \<not> candidate_evidence st attestation) contract_fail)
        (Inr attestation))))"

end
