(* ===== verification/Contract_Render.thy ===== *)
theory Contract_Render
  imports Contract_Policies
begin

text \<open>
  The files that src/scripts/sync_external_ingestion_contract.mjs derives from a validated
  bundle: the error policy as modules of three languages, the proto source of the messages and
  the projection of the validation rules. The formatters \<open>gofmt\<close> and \<open>buf\<close>, and the
  reflection of the protobuf library (the options of a field, the schema of a message), are
  parameters.
\<close>

section \<open>Text\<close>

definition lines :: "jstr list \<Rightarrow> jstr" where
  "lines ts = join [10] ts"

definition tab :: jstr where
  "tab = [9]"

definition spaces :: "nat \<Rightarrow> jstr" where
  "spaces n = replicate n 32"

definition quoted :: "string \<Rightarrow> jstr" where
  "quoted s = json_quote (lit s)"

text \<open>\<open>JSON.stringify(v)\<close> of parsed JSON, and \<open>String(v)\<close> where it has one.\<close>

function (sequential) compact_json :: "jsval \<Rightarrow> jstr" where
  "compact_json (JBool b) = (if b then lit ''true'' else lit ''false'')"
| "compact_json (JNum n) = (if isFinite n then num_text n else lit ''null'')"
| "compact_json (JStr s) = json_quote s"
| "compact_json (JArr vs) = lit ''['' @ join (lit '','') (map compact_json vs) @ lit '']''"
| "compact_json (JObj ps) =
     lit ''{'' @ join (lit '','') (map (\<lambda>p. json_quote (fst p) @ lit '':'' @ compact_json (snd p)) ps) @ lit ''}''"
| "compact_json v = lit ''null''"
  by pat_completeness auto
termination
proof (relation "measure size", goal_cases)
  case (2 vs v)
  then show ?case by (simp add: size_list_estimation' less_Suc_eq_le)
next
  case (3 ps p)
  then have "(fst p, snd p) \<in> set ps" by simp
  then show ?case using size_member [of "fst p" "snd p" ps] by simp
qed simp

section \<open>The error policy\<close>

definition retry_field :: "jsval \<Rightarrow> string \<Rightarrow> jsval" where
  "retry_field entry k = field_of (field_of entry ''retry_policy'') k"

definition reason_text :: "jsval \<Rightarrow> jstr" where
  "reason_text entry = js_text (field_of entry ''reason'')"

definition sorted_reasons :: "'a contract_platform_scheme \<Rightarrow> jsval \<Rightarrow> jsval list" where
  "sorted_reasons p policy =
     sort_by (\<lambda>l r. cp_localeCompare p (reason_text l) (reason_text r)) (items_of (field_of policy ''reasons''))"

definition ts_entry :: "jsval \<Rightarrow> jstr" where
  "ts_entry entry = lines
     [lit ''  '' @ reason_text entry @ lit '': {'',
      lit ''    consumerCategory: '' @ compact_json (field_of entry ''consumer_category'') @ lit '','',
      lit ''    grpcCode: '' @ compact_json (field_of entry ''grpc_code'') @ lit '','',
      lit ''    retryClassification: '' @ compact_json (retry_field entry ''classification'') @ lit '','',
      lit ''    reuseIdempotencyKey: '' @ js_text (retry_field entry ''reuse_idempotency_key'') @ lit '','',
      lit ''  },'']"

definition generated_note :: jstr where
  "generated_note = lit ''Code generated by scripts/sync_external_ingestion_contract.mjs. DO NOT EDIT.''"

definition renderTypeScriptErrorPolicyModule :: "'a contract_platform_scheme \<Rightarrow> jsval \<Rightarrow> byte list" where
  "renderTypeScriptErrorPolicyModule p policy = buffer_from (lines
     [lit ''// '' @ generated_note,
      lit ''// Source: sealed external-ingestion error registry.'',
      [],
      lit ''export const MEDALLION_ERROR_INFO_DOMAIN = '' @ compact_json (field_of policy ''domain'') @ lit '' as const;'',
      [],
      lit ''export const MEDALLION_ERROR_REASON_POLICY = {'',
      lines (map ts_entry (sorted_reasons p policy)),
      lit ''} as const;'',
      [],
      lit ''export type MedallionKnownErrorReason ='',
      lit ''  keyof typeof MEDALLION_ERROR_REASON_POLICY;'',
      []])"

text \<open>\<open>part[0]\<close> of an empty part is undefined, whose text is spelled out.\<close>

definition capitalized :: "jstr \<Rightarrow> jstr" where
  "capitalized part = (case part of [] \<Rightarrow> lit ''undefined'' | u # us \<Rightarrow> u # toLowerCase us)"

definition reasonIdentifier :: "jstr \<Rightarrow> jstr" where
  "reasonIdentifier reason = concat (map capitalized (split_on (lit ''_'') reason))"

definition go_constant :: "jsval \<Rightarrow> jstr" where
  "go_constant entry =
     tab @ lit ''ErrorReason'' @ reasonIdentifier (reason_text entry) @ lit '' KnownErrorReason = '' @
     compact_json (field_of entry ''reason'')"

definition go_entry :: "jsval \<Rightarrow> jstr" where
  "go_entry entry = lines
     [tab @ lit ''ErrorReason'' @ reasonIdentifier (reason_text entry) @ lit '': {'',
      tab @ tab @ lit ''ConsumerCategory:       '' @ compact_json (field_of entry ''consumer_category'') @ lit '','',
      tab @ tab @ lit ''GRPCCode:               '' @ compact_json (field_of entry ''grpc_code'') @ lit '','',
      tab @ tab @ lit ''RetryClassification:    '' @ compact_json (retry_field entry ''classification'') @ lit '','',
      tab @ tab @ lit ''ReuseIdempotencyKey:    '' @ js_text (retry_field entry ''reuse_idempotency_key'') @ lit '','',
      tab @ lit ''},'']"

record render_platform = gate_platform +
  cp_gofmt :: "jstr \<Rightarrow> jstr option"
  cp_bufFormat :: "jstr \<Rightarrow> jstr option"

definition format_with :: "(jstr \<Rightarrow> jstr option) \<Rightarrow> jstr \<Rightarrow> thrown + byte list" where
  "format_with formatter source =
     (case formatter source of None \<Rightarrow> Inl contract_fail | Some out \<Rightarrow> Inr (buffer_from out))"

definition renderGoErrorPolicyModule :: "'a render_platform_scheme \<Rightarrow> jsval \<Rightarrow> thrown + byte list" where
  "renderGoErrorPolicyModule p policy =
     (let reasons = sorted_reasons p policy in
      format_with (cp_gofmt p) (lines
        [lit ''// '' @ generated_note,
         [],
         lit ''package medallion'',
         [],
         lit ''// KnownErrorReason is a stable ErrorInfo reason from the external-ingestion contract.'',
         lit ''type KnownErrorReason string'',
         [],
         lit ''const ('',
         tab @ lit ''// ErrorInfoDomain is the canonical google.rpc.ErrorInfo domain.'',
         tab @ lit ''ErrorInfoDomain = '' @ compact_json (field_of policy ''domain''),
         [],
         lines (map go_constant reasons),
         lit '')'',
         [],
         lit ''type generatedErrorReasonPolicy struct {'',
         tab @ lit ''ConsumerCategory       string'',
         tab @ lit ''GRPCCode               string'',
         tab @ lit ''RetryClassification    string'',
         tab @ lit ''ReuseIdempotencyKey    bool'',
         lit ''}'',
         [],
         lit ''var generatedErrorReasonPolicies = map[KnownErrorReason]generatedErrorReasonPolicy{'',
         lines (map go_entry reasons),
         lit ''}'',
         []]))"

definition python_constant :: "jsval \<Rightarrow> jstr" where
  "python_constant entry =
     lit ''    '' @ reason_text entry @ lit '' = '' @ compact_json (field_of entry ''reason'')"

definition python_entry :: "jsval \<Rightarrow> jstr" where
  "python_entry entry = lines
     [lit ''    KnownErrorReason.'' @ reason_text entry @ lit '': ErrorReasonPolicy('',
      lit ''        consumer_category='' @ compact_json (field_of entry ''consumer_category'') @ lit '','',
      lit ''        grpc_code='' @ compact_json (field_of entry ''grpc_code'') @ lit '','',
      lit ''        retry_classification='' @ compact_json (retry_field entry ''classification'') @ lit '','',
      lit ''        reuse_idempotency_key='' @
        (if js_truthy (retry_field entry ''reuse_idempotency_key'') then lit ''True'' else lit ''False'') @ lit '','',
      lit ''    ),'']"

definition renderPythonErrorPolicyModule :: "'a contract_platform_scheme \<Rightarrow> jsval \<Rightarrow> byte list" where
  "renderPythonErrorPolicyModule p policy =
     (let reasons = sorted_reasons p policy in
      buffer_from (lines
        [lit ''# '' @ generated_note,
         [],
         lit ''from enum import StrEnum'',
         lit ''from typing import Final, NamedTuple'',
         [],
         [],
         lit ''class KnownErrorReason(StrEnum):'',
         lines (map python_constant reasons),
         [],
         [],
         lit ''class ErrorReasonPolicy(NamedTuple):'',
         lit ''    consumer_category: str'',
         lit ''    grpc_code: str'',
         lit ''    retry_classification: str'',
         lit ''    reuse_idempotency_key: bool'',
         [],
         [],
         lit ''KNOWN_ERROR_DOMAIN: Final = '' @ compact_json (field_of policy ''domain''),
         [],
         lit ''REASON_POLICIES: Final[dict[KnownErrorReason, ErrorReasonPolicy]] = {'',
         lines (map python_entry reasons),
         lit ''}'',
         []]))"

section \<open>Fields of a proto source\<close>

definition PROTO_SCALAR_TYPES :: "(int \<times> jstr) list" where
  "PROTO_SCALAR_TYPES = map (\<lambda>(n, s). (n, lit s))
     [(1, ''double''), (2, ''float''), (3, ''int64''), (4, ''uint64''), (5, ''int32''), (6, ''fixed64''),
      (7, ''fixed32''), (8, ''bool''), (9, ''string''), (12, ''bytes''), (13, ''uint32''), (15, ''sfixed32''),
      (16, ''sfixed64''), (17, ''sint32''), (18, ''sint64'')]"

definition protoType :: "field_desc \<Rightarrow> jstr \<Rightarrow> thrown + jstr" where
  "protoType f packageName =
     (if fd_type f = 11 \<or> fd_type f = 14 then
        (let typeName = normalizeTypeName (fd_typeName f) in
         Inr (if startsWith typeName (packageName @ lit ''.'') then drop (length packageName + 1) typeName
              else typeName))
      else (case map_of PROTO_SCALAR_TYPES (fd_type f) of
              None \<Rightarrow> Inl contract_fail
            | Some scalar \<Rightarrow> Inr scalar))"

definition field_label :: "int \<Rightarrow> jstr option" where
  "field_label n = map_of [(1, lit ''optional''), (2, lit ''required''), (3, lit ''repeated'')] n"

definition protoFieldLine :: "field_desc \<Rightarrow> jstr \<Rightarrow> nat \<Rightarrow> bool \<Rightarrow> thrown + jstr" where
  "protoFieldLine f packageName indentation includeLabel =
     thenE (failIf (includeLabel \<and> field_label (fd_label f) = None) contract_fail)
     (bindE (protoType f packageName) (\<lambda>type.
        Inr (spaces indentation @
          (if includeLabel then orElse (field_label (fd_label f)) [] @ lit '' '' else []) @
          type @ lit '' '' @ fd_name f @ lit '' = '' @ dec_int (fd_number f) @ lit '';'')))"

definition renderReserved :: "message_desc \<Rightarrow> jstr list" where
  "renderReserved m =
     map (\<lambda>(start, next_number).
            lit ''  reserved '' @
            (if start = next_number - 1 then dec_int start
             else dec_int start @ lit '' to '' @ dec_int (next_number - 1)) @ lit '';'')
         (md_reservedRanges m) @
     (if md_reservedNames m = [] then []
      else [lit ''  reserved '' @ join (lit '', '') (map json_quote (md_reservedNames m)) @ lit '';''])"

section \<open>The projection of the validation rules\<close>

record projection_unit =
  pu_fields :: "field_desc list"
  pu_number :: int
  pu_oneof :: "jstr option"

definition number_order :: "field_desc \<Rightarrow> field_desc \<Rightarrow> int" where
  "number_order l r = fd_number l - fd_number r"

definition least_number :: "field_desc list \<Rightarrow> int" where
  "least_number fs = foldr (\<lambda>f n. min (fd_number f) n) (tl fs) (fd_number (hd fs))"

definition oneof_units :: "field_desc list \<Rightarrow> jstr list \<Rightarrow> projection_unit list" where
  "oneof_units selected oneofs =
     List.map_filter
       (\<lambda>(index, name).
          (let fs = filter (\<lambda>f. fd_oneofIndex f = Some index) selected in
           if fs = [] then None
           else Some \<lparr>pu_fields = fs, pu_number = least_number fs, pu_oneof = Some name\<rparr>))
       (List.enumerate 0 oneofs)"

definition projection_units :: "message_desc \<Rightarrow> field_desc list \<Rightarrow> projection_unit list" where
  "projection_units m selected =
     sort_by (\<lambda>l r. pu_number l - pu_number r)
       (map (\<lambda>f. \<lparr>pu_fields = [f], pu_number = fd_number f, pu_oneof = None\<rparr>)
          (filter (\<lambda>f. fd_oneofIndex f = None) selected) @
        oneof_units selected (md_oneofs m))"

definition render_unit :: "jstr \<Rightarrow> projection_unit \<Rightarrow> thrown + jstr list" where
  "render_unit packageName u =
     (case pu_oneof u of
        None \<Rightarrow> bindE (protoFieldLine (hd (pu_fields u)) packageName 2 True) (\<lambda>line. Inr [line])
      | Some name \<Rightarrow>
          bindE (mapE (\<lambda>f. protoFieldLine f packageName 4 False) (sort_by number_order (pu_fields u)))
            (\<lambda>body. Inr ([lit ''  oneof '' @ name @ lit '' {''] @ body @ [lit ''  }''])))"

text \<open>\<open>selected\<close> names the fields to keep, by either of their names.\<close>

definition renderProjectedValidationMessage ::
    "message_desc \<Rightarrow> jstr list \<Rightarrow> jstr \<Rightarrow> thrown + jstr list" where
  "renderProjectedValidationMessage m selectedFields packageName =
     (let selected = filter (\<lambda>f. fd_name f \<in> set selectedFields \<or> fd_jsonName f \<in> set selectedFields) (md_fields m) in
      thenE (failIf (length selected \<noteq> length selectedFields) contract_fail)
      (bindE (mapE (render_unit packageName) (projection_units m selected)) (\<lambda>body.
         Inr ([lit ''message '' @ md_name m @ lit '' {''] @ renderReserved m @ concat body @ [lit ''}'', []]))))"

end
