(* ===== verification/Contract_Proto.thy ===== *)
theory Contract_Proto
  imports Contract_Render
begin

text \<open>
  The proto sources that src/scripts/sync_external_ingestion_contract.mjs writes: the messages
  of the profile with their validation options, and the part of the validation rules those
  options use. The reflection of the protobuf library is a parameter: the fields of a message
  with the JSON of their rules, and the schema of the rules.
\<close>

section \<open>Reflection\<close>

text \<open>The schema of an option message. A list keeps the scalar type of its elements, which an
  enum has none of; \<open>Kind_Other\<close> is a map.\<close>

datatype option_schema =
    Option_Schema (os_typeName: jstr) (os_fields: "option_field list")
and option_field =
    Option_Field (of_name: jstr) (of_jsonName: jstr) (of_kind: option_kind)
and option_kind =
    Kind_Message option_schema
  | Kind_List "int option"
  | Kind_Scalar int
  | Kind_Enum
  | Kind_Other

record proto_platform = render_platform +
  cp_messageFields :: "file_desc list \<Rightarrow> jstr \<Rightarrow> (int \<times> jsval option) list option"
  cp_fieldRules :: "file_desc list \<Rightarrow> option_schema option"

section \<open>Option literals\<close>

definition protoScalarLiteral :: "option_kind \<Rightarrow> jsval \<Rightarrow> thrown + jstr" where
  "protoScalarLiteral kind v =
     (if kind \<in> {Kind_Scalar 9, Kind_Scalar 12, Kind_List (Some 9), Kind_List (Some 12)}
      then Inr (compact_json v) else js_string v)"

text \<open>\<open>Object.entries(v)\<close>. The indexes of a text or an array are no names of a field.\<close>

definition literal_entries :: "jsval \<Rightarrow> thrown + (jstr \<times> jsval) list" where
  "literal_entries v =
     (case v of
        JObj ps \<Rightarrow> Inr (object_order ps)
      | JUndef \<Rightarrow> Inl type_error
      | JNull \<Rightarrow> Inl type_error
      | JStr s \<Rightarrow> if s = [] then Inr [] else Inl contract_fail
      | JArr vs \<Rightarrow> if vs = [] then Inr [] else Inl contract_fail
      | _ \<Rightarrow> Inr [])"

lemma literal_entries_size:
  "literal_entries v = Inr es \<Longrightarrow> e \<in> set es \<Longrightarrow> size (snd e) < size v"
proof -
  assume "literal_entries v = Inr es" "e \<in> set es"
  then obtain ps where "v = JObj ps" "(fst e, snd e) \<in> set ps"
    by (auto simp: literal_entries_def split: jsval.splits if_splits)
  then show ?thesis using size_member [of "fst e" "snd e" ps] by simp
qed

definition option_field_named :: "option_schema \<Rightarrow> jstr \<Rightarrow> option_field option" where
  "option_field_named schema name =
     find (\<lambda>f. of_jsonName f = name \<or> of_name f = name) (os_fields schema)"

definition literal_line :: "nat \<Rightarrow> option_field \<Rightarrow> jsval \<Rightarrow> thrown + jstr" where
  "literal_line indentation f v =
     bindE (protoScalarLiteral (of_kind f) v)
       (\<lambda>t. Inr (spaces indentation @ of_name f @ lit '': '' @ t))"

function renderMessageLiteral :: "option_schema \<Rightarrow> jsval \<Rightarrow> nat \<Rightarrow> thrown + jstr" where
  "renderMessageLiteral schema v indentation =
     bindE (literal_entries v) (\<lambda>entries.
     bindE (mapE (\<lambda>e.
        case option_field_named schema (fst e) of
          None \<Rightarrow> Inl contract_fail
        | Some f \<Rightarrow>
            (case of_kind f of
               Kind_Message sub \<Rightarrow>
                 bindE (renderMessageLiteral sub (snd e) (indentation + 2)) (\<lambda>body.
                   Inr [spaces indentation @ of_name f @ lit '': {'', body, spaces indentation @ lit ''}''])
             | Kind_List scalar \<Rightarrow>
                 bindE (js_spread (snd e)) (\<lambda>items. mapE (literal_line indentation f) items)
             | _ \<Rightarrow> bindE (literal_line indentation f (snd e)) (\<lambda>line. Inr [line]))) entries)
       (\<lambda>parts. Inr (lines (concat parts))))"
  by pat_completeness auto
termination
  by (relation "measure (\<lambda>(schema, v, indentation). size v)") (auto dest: literal_entries_size)

declare renderMessageLiteral.simps [simp del]

definition renderValidationOption :: "option_schema \<Rightarrow> jsval option \<Rightarrow> thrown + jstr" where
  "renderValidationOption schema rules =
     (case rules of
        None \<Rightarrow> Inr []
      | Some v \<Rightarrow>
          if record_of v = Some [] then Inr []
          else bindE (renderMessageLiteral schema v 4) (\<lambda>literal.
            Inr (lit '' [(buf.validate.field) = {'' @ [10] @ literal @ [10] @ lit ''  }]'')))"

section \<open>The rules in use\<close>

definition CONNECT_PROTO :: jstr where
  "CONNECT_PROTO = lit ''medallion/connect/v1/connect.proto''"

definition VALIDATE_PROTO :: jstr where
  "VALIDATE_PROTO = lit ''buf/validate/validate.proto''"

definition FIELD_RULES :: jstr where
  "FIELD_RULES = lit ''FieldRules''"

type_synonym selection = "(jstr \<times> jstr list) list"

definition selected_of :: "selection \<Rightarrow> jstr \<Rightarrow> jstr list" where
  "selected_of sel name = orElse (map_of sel name) []"

definition add_names :: "jstr list \<Rightarrow> jstr list \<Rightarrow> jstr list" where
  "add_names names new = names @ filter (\<lambda>n. n \<notin> set names) (remdups new)"

definition rule_message :: "file_desc \<Rightarrow> jstr \<Rightarrow> thrown + jstr" where
  "rule_message validationFile fieldName =
     (let rules = find (\<lambda>m. md_name m = FIELD_RULES) (fl_messages validationFile);
          f = Option.bind rules (\<lambda>m. find (\<lambda>f. fd_name f = fieldName \<or> fd_jsonName f = fieldName) (md_fields m));
          typeName = normalizeTypeName (case f of None \<Rightarrow> [] | Some f \<Rightarrow> fd_typeName f)
      in if startsWith typeName (lit ''buf.validate.'') then Inr (drop 13 typeName) else Inl contract_fail)"

text \<open>One entry of the rules of a field: its name, and the names below it.\<close>

definition collect_rule :: "file_desc \<Rightarrow> selection \<Rightarrow> jstr \<times> jsval \<Rightarrow> thrown + selection" where
  "collect_rule validationFile sel entry =
     (let sel1 = set_prop sel FIELD_RULES (add_names (selected_of sel FIELD_RULES) [fst entry]) in
      case snd entry of
        JObj nested \<Rightarrow>
          bindE (rule_message validationFile (fst entry)) (\<lambda>name.
            Inr (set_prop sel1 name (add_names (selected_of sel1 name) (map fst (object_order nested)))))
      | _ \<Rightarrow> Inr sel1)"

definition collect_field :: "file_desc \<Rightarrow> selection \<Rightarrow> int \<times> jsval option \<Rightarrow> thrown + selection" where
  "collect_field validationFile sel f =
     (case snd f of
        None \<Rightarrow> Inr sel
      | Some v \<Rightarrow> bindE (literal_entries v) (\<lambda>entries. foldE (collect_rule validationFile) sel entries))"

definition collect_message ::
    "'a proto_platform_scheme \<Rightarrow> file_desc list \<Rightarrow> file_desc \<Rightarrow> selection \<Rightarrow> message_desc \<Rightarrow> thrown + selection" where
  "collect_message p files validationFile sel m =
     (case cp_messageFields p files (qualify CONNECT_PACKAGE (md_name m)) of
        None \<Rightarrow> Inl type_error
      | Some fs \<Rightarrow> foldE (collect_field validationFile) sel fs)"

definition collectValidationProjection ::
    "'a proto_platform_scheme \<Rightarrow> descriptor_state \<Rightarrow> thrown + selection \<times> file_desc" where
  "collectValidationProjection p ds =
     (case map_of (di_files (ds_index ds)) VALIDATE_PROTO of
        None \<Rightarrow> Inl contract_fail
      | Some validationFile \<Rightarrow>
          thenE (failIf (cp_fieldRules p (ds_files ds) = None) contract_fail)
          (case map_of (di_files (ds_index ds)) CONNECT_PROTO of
             None \<Rightarrow> Inl type_error
           | Some connectFile \<Rightarrow>
               bindE (foldE (collect_message p (ds_files ds) validationFile) [(FIELD_RULES, [])]
                        (fl_messages connectFile))
                 (\<lambda>sel. Inr (sel, validationFile))))"

definition renderValidationProtoSource ::
    "'a proto_platform_scheme \<Rightarrow> descriptor_state \<Rightarrow> thrown + byte list" where
  "renderValidationProtoSource p ds =
     bindE (collectValidationProjection p ds) (\<lambda>(sel, validationFile).
       (case find (\<lambda>f. fd_name f = lit ''field'') (fl_extensions validationFile) of
          None \<Rightarrow> Inl contract_fail
        | Some ext \<Rightarrow>
            thenE (failIf (fd_extendee ext \<noteq> lit ''.google.protobuf.FieldOptions'' \<or>
                           normalizeTypeName (fd_typeName ext) \<noteq> lit ''buf.validate.FieldRules'') contract_fail)
            (bindE (mapE (\<lambda>m. case map_of sel (md_name m) of
                         None \<Rightarrow> Inr []
                       | Some names \<Rightarrow> renderProjectedValidationMessage m names (fl_package validationFile))
                      (fl_messages validationFile)) (\<lambda>messages.
             thenE (failIf (\<not> fst ` set sel \<subseteq> md_name ` set (fl_messages validationFile)) contract_fail)
             (bindE (protoFieldLine ext (fl_package validationFile) 2 True) (\<lambda>extensionLine.
                format_with (cp_bufFormat p) (lines (
                  [lit ''// '' @ generated_note,
                   lit ''// This is the exact validation-rule projection used by the ingestion messages.'',
                   lit ''syntax = '' @ quoted ''proto2'' @ lit '';'',
                   [],
                   lit ''package '' @ fl_package validationFile @ lit '';'',
                   [],
                   lit ''import '' @ quoted ''google/protobuf/descriptor.proto'' @ lit '';'',
                   [],
                   lit ''option go_package = '' @
                     (case fl_goPackage validationFile of None \<Rightarrow> lit ''undefined'' | Some s \<Rightarrow> json_quote s) @ lit '';'',
                   []] @
                  concat messages @
                  [lit ''extend google.protobuf.FieldOptions {'', extensionLine, lit ''}'', [], []]))))))))"

section \<open>The messages\<close>

definition SDK_GO_PACKAGE :: string where
  "SDK_GO_PACKAGE = ''github.com/jim-technologies/medallion-sdk/go/gen/medallion/connect/v1;connectv1''"

text \<open>\<open>s.replace(old, "")\<close>: the first occurrence.\<close>

definition remove_first :: "jstr \<Rightarrow> jstr \<Rightarrow> jstr" where
  "remove_first s old =
     (case split_on old s of p # q # ps \<Rightarrow> p @ join old (q # ps) | _ \<Rightarrow> s)"

definition enum_lines :: "enum_desc \<Rightarrow> jstr list" where
  "enum_lines e =
     [lit ''enum '' @ ed_name e @ lit '' {''] @
     map (\<lambda>(name, n). lit ''  '' @ name @ lit '' = '' @ dec_int n @ lit '';'') (ed_values e) @
     [lit ''}'', []]"

definition message_field_line ::
    "option_schema \<Rightarrow> jstr \<Rightarrow> (int \<times> jsval option) list \<Rightarrow> field_desc \<Rightarrow> thrown + jstr" where
  "message_field_line schema packageName reflected f =
     (case find (\<lambda>r. fst r = fd_number f) reflected of
        None \<Rightarrow> Inl type_error
      | Some r \<Rightarrow>
          bindE (renderValidationOption schema (snd r)) (\<lambda>option_text.
          bindE (protoType f packageName) (\<lambda>type.
            Inr (lit ''  '' @ (if fd_label f = 3 then lit ''repeated '' else []) @ type @ lit '' '' @ fd_name f @
              lit '' = '' @ dec_int (fd_number f) @ option_text @ lit '';''))))"

definition message_lines ::
    "'a proto_platform_scheme \<Rightarrow> file_desc list \<Rightarrow> option_schema \<Rightarrow> jstr \<Rightarrow> message_desc \<Rightarrow> thrown + jstr list" where
  "message_lines p files schema packageName m =
     (case cp_messageFields p files (qualify packageName (md_name m)) of
        None \<Rightarrow> Inl contract_fail
      | Some reflected \<Rightarrow>
          bindE (mapE (message_field_line schema packageName reflected) (sort_by number_order (md_fields m)))
            (\<lambda>body. Inr ([lit ''message '' @ md_name m @ lit '' {''] @ renderReserved m @ body @ [lit ''}'', []])))"

definition service_lines :: "jstr \<Rightarrow> service_desc \<Rightarrow> jstr list" where
  "service_lines packageName s =
     [lit ''service '' @ sv_name s @ lit '' {''] @
     map (\<lambda>m. lit ''  rpc '' @ mt_name m @ lit ''('' @
            remove_first (normalizeTypeName (mt_inputType m)) (packageName @ lit ''.'') @ lit '') returns ('' @
            remove_first (normalizeTypeName (mt_outputType m)) (packageName @ lit ''.'') @ lit '');'')
         (sv_methods s) @
     [lit ''}'', []]"

definition renderProtoSource :: "'a proto_platform_scheme \<Rightarrow> descriptor_state \<Rightarrow> thrown + byte list" where
  "renderProtoSource p ds =
     (case map_of (di_files (ds_index ds)) CONNECT_PROTO of
        None \<Rightarrow> Inl contract_fail
      | Some f \<Rightarrow>
          (case cp_fieldRules p (ds_files ds) of
             None \<Rightarrow> Inl contract_fail
           | Some schema \<Rightarrow>
               bindE (mapE (message_lines p (ds_files ds) schema (fl_package f)) (fl_messages f)) (\<lambda>messages.
                 format_with (cp_bufFormat p) (lines (
                   [lit ''// '' @ generated_note,
                    lit ''syntax = '' @ quoted ''proto3'' @ lit '';'',
                    [],
                    lit ''package '' @ fl_package f @ lit '';'',
                    []] @
                   map (\<lambda>d. lit ''import '' @ [dquote] @ d @ [dquote] @ lit '';'') (fl_dependencies f) @
                   [[], lit ''option go_package = '' @ quoted SDK_GO_PACKAGE @ lit '';'', []] @
                   concat (map enum_lines (fl_enums f)) @ concat messages @
                   concat (map (service_lines (fl_package f)) (fl_services f)) @ [[]])))))"

end
