(* ===== verification/Contract_Bundle.thy ===== *)
theory Contract_Bundle
  imports Contract_Policies
begin

text \<open>
  Reading a contract bundle from a directory (\<open>readBundle\<close> of
  src/scripts/sync_external_ingestion_contract.mjs): the directory as a tree, the inventory of
  its regular files, the scan for names that must not leave the implementation, and the
  checks of every artifact against the evidence in bundle.json.
\<close>

section \<open>Directories\<close>

text \<open>A link is what a read through it gives, if anything; links to directories are outside the
  model.\<close>

datatype node =
    File_Node "byte list"
  | Link_Node "byte list option"
  | Dir_Node "(jstr \<times> node) list"

fun find_node :: "node \<Rightarrow> jstr list \<Rightarrow> node option" where
  "find_node n [] = Some n"
| "find_node (Dir_Node entries) (s # ss) =
     (case map_of entries s of None \<Rightarrow> None | Some n \<Rightarrow> find_node n ss)"
| "find_node n (s # ss) = None"

definition io_error :: thrown where
  "io_error = Foreign \<lparr>fe_is_error = True, fe_is_dom = False, fe_name = lit ''Error'', fe_message = []\<rparr>"

definition node_exists :: "node option \<Rightarrow> bool" where
  "node_exists n = (case n of None \<Rightarrow> False | Some (Link_Node None) \<Rightarrow> False | Some _ \<Rightarrow> True)"

definition node_bytes :: "node option \<Rightarrow> thrown + byte list" where
  "node_bytes n =
     (case n of
        Some (File_Node bs) \<Rightarrow> Inr bs
      | Some (Link_Node (Some bs)) \<Rightarrow> Inr bs
      | _ \<Rightarrow> Inl io_error)"

text \<open>\<open>path.join(directory, ...p.split("/"))\<close> as the segments below the directory.\<close>

definition join_segments :: "jstr \<Rightarrow> jstr list" where
  "join_segments p = normal_segments True [] (split_on (lit ''/'') p)"

definition existsSync :: "node \<Rightarrow> jstr \<Rightarrow> bool" where
  "existsSync dir p = node_exists (find_node dir (join_segments p))"

definition readFileSync :: "node \<Rightarrow> jstr \<Rightarrow> thrown + byte list" where
  "readFileSync dir p = node_bytes (find_node dir (join_segments p))"

definition prefixed :: "jstr \<Rightarrow> jstr \<Rightarrow> jstr" where
  "prefixed prefix name = (if prefix = [] then name else prefix @ lit ''/'' @ name)"

text \<open>The regular files below a directory; a link is none.\<close>

fun recursiveFileInventory :: "jstr \<Rightarrow> node \<Rightarrow> jstr list"
  and inventory_entries :: "jstr \<Rightarrow> (jstr \<times> node) list \<Rightarrow> jstr list" where
  "recursiveFileInventory prefix (Dir_Node entries) = sort (inventory_entries prefix entries)"
| "recursiveFileInventory prefix n = []"
| "inventory_entries prefix [] = []"
| "inventory_entries prefix ((name, File_Node bs) # entries) =
     prefixed prefix name # inventory_entries prefix entries"
| "inventory_entries prefix ((name, Dir_Node es) # entries) =
     recursiveFileInventory (prefixed prefix name) (Dir_Node es) @ inventory_entries prefix entries"
| "inventory_entries prefix ((name, Link_Node l) # entries) = inventory_entries prefix entries"

section \<open>The boundary scan\<close>

definition TEXT_FORBIDDEN_PARTS :: "jstr list list" where
  "TEXT_FORBIDDEN_PARTS = map (map lit)
     [[''Medallion'', ''Ontology'', ''Service''],
      [''medallion'', ''ontology'', ''v1''],
      [''ontology'', ''idempotency'', ''policy''],
      [''terminal'', ''compass''],
      [''MEDALLION'', ''ONTOLOGY'', ''ROOT''],
      [''medallion'', ''ontology'']]"

definition RETIRED_IMPLEMENTATION_MARKER :: jstr where
  "RETIRED_IMPLEMENTATION_MARKER = join (lit ''-'') [lit ''medallion'', lit ''connect'']"

definition FORBIDDEN_EXPORT_MARKERS :: "jstr list" where
  "FORBIDDEN_EXPORT_MARKERS =
     [join (lit ''_'') [lit ''source'', lit ''repository''],
      join (lit ''-'') [lit ''consumer'', lit ''profiles''] @ lit ''.json'',
      join (lit ''/'') [lit ''contracts'', lit ''public'', lit ''v1''],
      join (lit ''/'') [lit ''..'', lit ''medallion'', lit ''ontology'']]"

definition forbidden_candidates :: "jstr list \<Rightarrow> jstr list" where
  "forbidden_candidates parts =
     map toLowerCase [concat parts, join (lit ''.'') parts, join (lit ''-'') parts, join (lit ''_'') parts]"

definition scan_text :: "byte list \<Rightarrow> jstr" where
  "scan_text payload = toLowerCase (buffer_latin1 payload)"

definition scanBoundary :: "byte list \<Rightarrow> thrown + unit" where
  "scanBoundary payload =
     (let source = scan_text payload in
      thenE (failIf (occurs RETIRED_IMPLEMENTATION_MARKER source) contract_fail)
      (thenE (failIf (list_ex (\<lambda>marker. occurs marker source) FORBIDDEN_EXPORT_MARKERS) contract_fail)
        (failIf (list_ex (\<lambda>parts. list_ex (\<lambda>c. occurs c source) (forbidden_candidates parts))
                   TEXT_FORBIDDEN_PARTS) contract_fail)))"

section \<open>Reading a bundle\<close>

definition ARTIFACT_ROLES :: "(jstr \<times> jstr) list" where
  "ARTIFACT_ROLES = map (\<lambda>(path, role). (lit path, lit role))
     [(''conformance/external-sdk-ingestion.json'', ''conformance_fixture''),
      (''conformance/schemas/fixture-document.schema.json'', ''schema''),
      (''connect-idempotency-policy.json'', ''idempotency_policy''),
      (''descriptor.binpb'', ''descriptor''),
      (''error-reasons.json'', ''error_registry''),
      (''external_ingestion_sdk_v1.json'', ''consumer_manifest''),
      (''release-attestation.json'', ''release_attestation''),
      (''schemas/error-reasons.schema.json'', ''schema''),
      (''schemas/external-ingestion-sdk-v1.schema.json'', ''schema'')]"

definition expectedPaths :: "jstr list" where
  "expectedPaths = sort (map fst ARTIFACT_ROLES)"

definition byte_count :: "jsval \<Rightarrow> bool" where
  "byte_count v = (case v of JNum n \<Rightarrow> isSafeInteger n \<and> \<not> num_less n (num 0) | _ \<Rightarrow> False)"

definition artifact_role :: "jsval \<Rightarrow> jsval" where
  "artifact_role path = (case path of JStr s \<Rightarrow> js_opt JStr (map_of ARTIFACT_ROLES s) | _ \<Rightarrow> JUndef)"

text \<open>The checks of an entry of bundle.json on its own.\<close>

definition check_entry :: "'a contract_platform_scheme \<Rightarrow> jsval \<Rightarrow> thrown + jstr" where
  "check_entry p entry =
     thenE (exact_keys p entry [''bytes'', ''path'', ''role'', ''sha256''])
     (thenE (safeArtifactPath (field_of entry ''path''))
     (thenE (failIf (\<not> byte_count (field_of entry ''bytes'')) contract_fail)
     (bindE (js_string (field_of entry ''sha256'')) (\<lambda>digest.
      thenE (failIf (\<not> SHA256_PATTERN digest \<or>
                     field_of entry ''role'' \<noteq> artifact_role (field_of entry ''path'')) contract_fail)
        (Inr (path_text entry))))))"

text \<open>One round of the loop: the artifact is there, is what the entry says, and names nothing
  internal.\<close>

definition read_artifact ::
    "'a contract_platform_scheme \<Rightarrow> node \<Rightarrow> jsval \<Rightarrow> thrown + jstr \<times> byte list" where
  "read_artifact p dir entry =
     bindE (check_entry p entry) (\<lambda>path.
     thenE (failIf (\<not> existsSync dir path) contract_fail)
     (bindE (readFileSync dir path) (\<lambda>payload.
      thenE (failIf (field_of entry ''bytes'' \<noteq> JNum (num (int (length payload))) \<or>
                     field_of entry ''sha256'' \<noteq> JStr (cp_sha256 p payload)) contract_fail)
      (thenE (scanBoundary payload)
        (Inr (path, payload))))))"

definition release_metadata :: "jsval \<Rightarrow> thrown + unit" where
  "release_metadata bundle =
     thenE (failIf (\<not> one_is (field_of bundle ''schema_version'') \<or>
                    field_of bundle ''bundle_id'' \<noteq> JStr PROFILE_ID \<or>
                    field_of bundle ''release_status'' \<notin> {JStr (lit ''released''), JStr (lit ''unreleased_candidate'')})
              contract_fail)
     (bindE (js_string (field_of bundle ''contract_version'')) (\<lambda>version.
        failIf (\<not> release_pattern ''sdkc_'' version \<or> \<not> is_array (field_of bundle ''artifacts'')) contract_fail))"

definition bundle_name :: jstr where
  "bundle_name = lit ''bundle.json''"

definition checksum_name :: jstr where
  "checksum_name = lit ''bundle.sha256''"

definition expected_files :: "jstr list" where
  "expected_files = sort (bundle_name # checksum_name # expectedPaths)"

definition set_artifact :: "(jstr \<times> byte list) list \<Rightarrow> jstr \<times> byte list \<Rightarrow> (jstr \<times> byte list) list" where
  "set_artifact artifacts item = set_prop artifacts (fst item) (snd item)"

definition readBundle :: "'a contract_platform_scheme \<Rightarrow> node \<Rightarrow> thrown + bundle_state" where
  "readBundle p dir =
     thenE (failIf (\<not> existsSync dir bundle_name \<or> \<not> existsSync dir checksum_name) contract_fail)
     (bindE (readFileSync dir bundle_name) (\<lambda>bundlePayload.
      bindE (readFileSync dir checksum_name) (\<lambda>checksumPayload.
      bindE (parseSingleChecksum checksumPayload bundle_name) (\<lambda>pinnedHash.
      thenE (failIf (cp_sha256 p bundlePayload \<noteq> pinnedHash) contract_fail)
      (bindE (parseJson bundlePayload) (\<lambda>bundle.
       thenE (exact_keys p bundle [''artifacts'', ''bundle_id'', ''contract_version'', ''release_status'', ''schema_version''])
       (thenE (release_metadata bundle)
       (bindE (mapE (read_artifact p dir) (items_of (field_of bundle ''artifacts''))) (\<lambda>entries.
        thenE (failIf (\<not> same_texts p (map fst entries) expectedPaths) contract_fail)
        (thenE (failIf (\<not> same_texts p (recursiveFileInventory [] dir) expected_files) contract_fail)
        (thenE (scanBoundary bundlePayload)
          (Inr \<lparr>bs_artifacts = foldl set_artifact [] entries, bs_bundle = bundle, bs_bundleHash = pinnedHash,
                bs_bundlePayload = bundlePayload, bs_checksumPayload = checksumPayload\<rparr>))))))))))))"

end
