(* ===== verification/Contract_Schema.thy ===== *)
theory Contract_Schema
  imports Contract_Json
begin

text \<open>
  The JSON Schema subset by which src/scripts/sync_external_ingestion_contract.mjs checks the
  documents of the bundle. The validator recurses along \<open>$ref\<close> as well as into the value, so
  a schema whose references form a cycle would not end; the depth that the call stack permits
  is an argument, and exhausting it is the \<open>RangeError\<close> of the engine.
\<close>

section \<open>References\<close>

definition range_error :: thrown where
  "range_error = Foreign \<lparr>fe_is_error = True, fe_is_dom = False, fe_name = lit ''RangeError'',
     fe_message = []\<rparr>"

text \<open>\<open>s.replaceAll(from, to)\<close> for a \<open>from\<close> that is not empty.\<close>

definition replaceAll :: "jstr \<Rightarrow> jstr \<Rightarrow> jstr \<Rightarrow> jstr" where
  "replaceAll s old new = join new (split_on old s)"

definition pointer_key :: "jstr \<Rightarrow> jstr" where
  "pointer_key encoded = replaceAll (replaceAll encoded (lit ''~1'') (lit ''/'')) (lit ''~0'') (lit ''~'')"

definition follow_pointer :: "jsval \<Rightarrow> jstr \<Rightarrow> thrown + jsval" where
  "follow_pointer current encoded =
     (case current of
        JObj ps \<Rightarrow>
          if hasOwn ps (pointer_key encoded) then Inr (own_prop ps (pointer_key encoded))
          else Inl contract_fail
      | _ \<Rightarrow> Inl contract_fail)"

definition resolveSchemaReference :: "jsval \<Rightarrow> jsval \<Rightarrow> thrown + jsval" where
  "resolveSchemaReference rootSchema reference =
     (case reference of
        JStr s \<Rightarrow>
          if startsWith s (lit ''#/'')
          then foldE follow_pointer rootSchema (split_on (lit ''/'') (drop 2 s))
          else Inl contract_fail
      | _ \<Rightarrow> Inl contract_fail)"

section \<open>Types\<close>

definition js_typeof :: "jsval \<Rightarrow> jstr" where
  "js_typeof v =
     (case v of
        JUndef \<Rightarrow> lit ''undefined'' | JNull \<Rightarrow> lit ''object'' | JBool _ \<Rightarrow> lit ''boolean''
      | JNum _ \<Rightarrow> lit ''number'' | JBig _ \<Rightarrow> lit ''bigint'' | JStr _ \<Rightarrow> lit ''string''
      | JArr _ \<Rightarrow> lit ''object'' | JObj _ \<Rightarrow> lit ''object'')"

definition jsonSchemaTypeMatches :: "jsval \<Rightarrow> jstr \<Rightarrow> bool" where
  "jsonSchemaTypeMatches v type =
     (if type = lit ''array'' then is_array v
      else if type = lit ''object'' then record_of v \<noteq> None
      else if type = lit ''integer'' then (case v of JNum n \<Rightarrow> isInteger n | _ \<Rightarrow> False)
      else if type = lit ''number'' then (case v of JNum n \<Rightarrow> isFinite n | _ \<Rightarrow> False)
      else if type = lit ''null'' then v = JNull
      else js_typeof v = type)"

section \<open>The checks of one schema on one value\<close>

text \<open>The keyword is absent, or the check succeeds.\<close>

definition on_keyword :: "(jstr \<times> jsval) list \<Rightarrow> string \<Rightarrow> (jsval \<Rightarrow> bool) \<Rightarrow> bool" where
  "on_keyword schema k P \<longleftrightarrow> own_prop schema (lit k) = JUndef \<or> P (own_prop schema (lit k))"

definition on_integer :: "(jstr \<times> jsval) list \<Rightarrow> string \<Rightarrow> (jsnum \<Rightarrow> bool) \<Rightarrow> bool" where
  "on_integer schema k P =
     (case own_prop schema (lit k) of JNum n \<Rightarrow> (isInteger n \<longrightarrow> P n) | _ \<Rightarrow> True)"

definition size_number :: "'a list \<Rightarrow> jsnum" where
  "size_number xs = num (int (length xs))"

definition type_ok :: "(jstr \<times> jsval) list \<Rightarrow> jsval \<Rightarrow> bool" where
  "type_ok schema v =
     on_keyword schema ''type'' (\<lambda>type. case type of JStr t \<Rightarrow> jsonSchemaTypeMatches v t | _ \<Rightarrow> False)"

definition const_ok :: "contract_platform \<Rightarrow> (jstr \<times> jsval) list \<Rightarrow> jsval \<Rightarrow> bool" where
  "const_ok p schema v = on_keyword schema ''const'' (\<lambda>c. same_json (cp_localeCompare p) v c)"

definition enum_ok :: "contract_platform \<Rightarrow> (jstr \<times> jsval) list \<Rightarrow> jsval \<Rightarrow> bool" where
  "enum_ok p schema v =
     on_keyword schema ''enum''
       (\<lambda>e. case e of JArr items \<Rightarrow> list_ex (\<lambda>item. same_json (cp_localeCompare p) item v) items
                    | _ \<Rightarrow> False)"

text \<open>\<open>new RegExp(pattern, "u")\<close> takes the text of whatever the keyword holds.\<close>

definition pattern_ok :: "contract_platform \<Rightarrow> (jstr \<times> jsval) list \<Rightarrow> jstr \<Rightarrow> bool" where
  "pattern_ok p schema s =
     on_keyword schema ''pattern''
       (\<lambda>source. case js_string source of
          Inl _ \<Rightarrow> False
        | Inr t \<Rightarrow> (case cp_regexp p t of None \<Rightarrow> False | Some matches \<Rightarrow> matches s))"

definition string_ok :: "contract_platform \<Rightarrow> (jstr \<times> jsval) list \<Rightarrow> jsval \<Rightarrow> bool" where
  "string_ok p schema v =
     (case v of
        JStr s \<Rightarrow>
          on_integer schema ''minLength'' (\<lambda>n. \<not> num_less (size_number (text_points s)) n) \<and>
          pattern_ok p schema s
      | _ \<Rightarrow> True)"

definition array_ok :: "contract_platform \<Rightarrow> (jstr \<times> jsval) list \<Rightarrow> jsval \<Rightarrow> bool" where
  "array_ok p schema v =
     (case v of
        JArr vs \<Rightarrow>
          on_integer schema ''minItems'' (\<lambda>n. \<not> num_less (size_number vs) n) \<and>
          on_integer schema ''maxItems'' (\<lambda>n. \<not> num_less n (size_number vs)) \<and>
          (own_prop schema (lit ''uniqueItems'') = JBool True \<longrightarrow>
             distinct (map (renderJson (cp_localeCompare p)) vs))
      | _ \<Rightarrow> True)"

definition schema_properties :: "(jstr \<times> jsval) list \<Rightarrow> jsval" where
  "schema_properties schema = coalesce (own_prop schema (lit ''properties'')) (JObj [])"

definition declared_properties :: "(jstr \<times> jsval) list \<Rightarrow> (jstr \<times> jsval) list" where
  "declared_properties schema = object_order (orElse (record_of (schema_properties schema)) [])"

definition required_ok :: "(jstr \<times> jsval) list \<Rightarrow> (jstr \<times> jsval) list \<Rightarrow> bool" where
  "required_ok schema ps =
     on_keyword schema ''required''
       (\<lambda>r. case r of
          JArr keys \<Rightarrow> list_all (\<lambda>k. case k of JStr name \<Rightarrow> hasOwn ps name | _ \<Rightarrow> False) keys
        | _ \<Rightarrow> False)"

definition object_ok :: "(jstr \<times> jsval) list \<Rightarrow> jsval \<Rightarrow> bool" where
  "object_ok schema v =
     (case v of
        JObj ps \<Rightarrow>
          record_of (schema_properties schema) \<noteq> None \<and>
          required_ok schema ps \<and>
          (own_prop schema (lit ''additionalProperties'') = JBool False \<longrightarrow>
             list_all (\<lambda>(k, _). hasOwn (declared_properties schema) k) ps)
      | _ \<Rightarrow> True)"

definition local_checks :: "contract_platform \<Rightarrow> (jstr \<times> jsval) list \<Rightarrow> jsval \<Rightarrow> bool" where
  "local_checks p schema v \<longleftrightarrow>
     type_ok schema v \<and> const_ok p schema v \<and> enum_ok p schema v \<and> string_ok p schema v \<and>
     array_ok p schema v \<and> object_ok schema v"

section \<open>The values and schemas below\<close>

text \<open>The recursive calls of one call, in their order: the items of an array, the declared
  properties that an object has.\<close>

definition item_schemas :: "(jstr \<times> jsval) list \<Rightarrow> jsval \<Rightarrow> (jsval \<times> jsval) list" where
  "item_schemas schema v =
     (case v of
        JArr vs \<Rightarrow>
          if own_prop schema (lit ''items'') = JUndef then []
          else map (\<lambda>item. (item, own_prop schema (lit ''items''))) vs
      | _ \<Rightarrow> [])"

definition property_schemas :: "(jstr \<times> jsval) list \<Rightarrow> jsval \<Rightarrow> (jsval \<times> jsval) list" where
  "property_schemas schema v =
     (case v of
        JObj ps \<Rightarrow>
          map (\<lambda>(k, propertySchema). (own_prop ps k, propertySchema))
            (filter (\<lambda>(k, _). hasOwn ps k) (declared_properties schema))
      | _ \<Rightarrow> [])"

definition below :: "(jstr \<times> jsval) list \<Rightarrow> jsval \<Rightarrow> (jsval \<times> jsval) list" where
  "below schema v = item_schemas schema v @ property_schemas schema v"

text \<open>An array has no properties to visit and an object no items, so all checks of a call come
  before its recursive calls. \<open>depth\<close> is what is left of the stack.\<close>

fun validateJsonSchema ::
    "contract_platform \<Rightarrow> jsval \<Rightarrow> nat \<Rightarrow> jsval \<Rightarrow> jsval \<Rightarrow> thrown + unit" where
  "validateJsonSchema p base 0 v schema = Inl range_error"
| "validateJsonSchema p base (Suc depth) v schema =
     (case schema of
        JObj kws \<Rightarrow>
          if own_prop kws (lit ''$ref'') \<noteq> JUndef then
            bindE (resolveSchemaReference base (own_prop kws (lit ''$ref'')))
              (\<lambda>target. validateJsonSchema p base depth v target)
          else
            thenE (failIf (\<not> local_checks p kws v) contract_fail)
              (bindE (mapE (\<lambda>(w, s). validateJsonSchema p base depth w s) (below kws v))
                 (\<lambda>_. Inr ()))
      | _ \<Rightarrow> Inl contract_fail)"

section \<open>The relation the validator decides\<close>

inductive conforms :: "contract_platform \<Rightarrow> jsval \<Rightarrow> jsval \<Rightarrow> jsval \<Rightarrow> bool"
  for p :: contract_platform and base :: jsval where
  conforms_ref: "own_prop kws (lit ''$ref'') \<noteq> JUndef \<Longrightarrow>
     resolveSchemaReference base (own_prop kws (lit ''$ref'')) = Inr target \<Longrightarrow>
     conforms p base v target \<Longrightarrow> conforms p base v (JObj kws)"
| conforms_here: "own_prop kws (lit ''$ref'') = JUndef \<Longrightarrow> local_checks p kws v \<Longrightarrow>
     (\<forall>(w, s) \<in> set (below kws v). conforms p base w s) \<Longrightarrow> conforms p base v (JObj kws)"

inductive_cases conforms_objE: "conforms p base v (JObj kws)"

lemma conforms_schema_object: "conforms p base v schema \<Longrightarrow> \<exists>kws. schema = JObj kws"
  by (auto elim: conforms.cases)

lemma mapE_unit_iff: "(\<exists>us. mapE f xs = Inr us) \<longleftrightarrow> (\<forall>x \<in> set xs. isOk (f x))"
  by (induction xs) (auto simp: result_iff isOk_iff)

lemma validate_sound: "validateJsonSchema p base depth v schema = Inr () \<Longrightarrow> conforms p base v schema"
proof (induction p base depth v schema rule: validateJsonSchema.induct)
  case (2 p base depth v schema)
  from "2.prems" obtain kws where schema: "schema = JObj kws" by (auto split: jsval.splits)
  show ?case
  proof (cases "own_prop kws (lit ''$ref'') = JUndef")
    case False
    with "2.prems" "2.IH"(1) [OF schema False] schema show ?thesis
      by (auto simp: result_iff intro: conforms_ref)
  next
    case True
    with "2.prems" schema have checks: "local_checks p kws v"
      and "\<forall>x \<in> set (below kws v). isOk (case x of (w, s) \<Rightarrow> validateJsonSchema p base depth w s)"
      by (auto simp: result_iff mapE_unit_iff [symmetric])
    with "2.IH"(2) [OF schema] True show ?thesis
      unfolding schema by (intro conforms_here) (auto simp: isOk_iff)
  qed
qed simp

lemma mapE_stable:
  "(\<And>x. x \<in> set xs \<Longrightarrow> f x \<noteq> Inl e \<Longrightarrow> g x = f x) \<Longrightarrow> mapE f xs \<noteq> Inl e \<Longrightarrow> mapE g xs = mapE f xs"
proof (induction xs)
  case (Cons x xs)
  then have "f x \<noteq> Inl e" by auto
  with Cons.prems(1) have g: "g x = f x" by simp
  show ?case
  proof (cases "f x")
    case (Inr b)
    with Cons.prems(2) have "mapE f xs \<noteq> Inl e" by auto
    with Cons.IH Cons.prems(1) g show ?thesis by simp
  qed (use g in simp)
qed simp

text \<open>A call that the stack does not stop gives the same on a deeper stack.\<close>

lemma validate_stable:
  "validateJsonSchema p base depth v schema \<noteq> Inl range_error \<Longrightarrow> depth \<le> depth' \<Longrightarrow>
   validateJsonSchema p base depth' v schema = validateJsonSchema p base depth v schema"
proof (induction p base depth v schema arbitrary: depth' rule: validateJsonSchema.induct)
  case (2 p base depth v schema)
  from "2.prems"(2) obtain d where d: "depth' = Suc d" "depth \<le> d" by (cases depth') auto
  show ?case
  proof (cases schema)
    case schema: (JObj kws)
    show ?thesis
    proof (cases "own_prop kws (lit ''$ref'') = JUndef")
      case False
      show ?thesis
      proof (cases "resolveSchemaReference base (own_prop kws (lit ''$ref''))")
        case (Inr target)
        with "2.IH"(1) [OF schema False Inr, of d] "2.prems" d False schema show ?thesis by simp
      qed (use False schema d in simp)
    next
      case True
      show ?thesis
      proof (cases "local_checks p kws v")
        case checks: True
        let ?f = "\<lambda>d (w, s). validateJsonSchema p base d w s"
        have "mapE (?f d) (below kws v) = mapE (?f depth) (below kws v)"
        proof (rule mapE_stable [where e = range_error])
          fix x assume x: "x \<in> set (below kws v)" "?f depth x \<noteq> Inl range_error"
          obtain w s where w: "x = (w, s)" by (cases x)
          have "local_checks p kws v \<Longrightarrow> validateJsonSchema p base d w s = validateJsonSchema p base depth w s"
            using "2.IH"(2) [OF schema _ _ x(1) w [symmetric], of "()" d] True x(2) d(2) by (simp add: w)
          then show "?f d x = ?f depth x" using checks by (simp add: w)
        next
          show "mapE (?f depth) (below kws v) \<noteq> Inl range_error"
            using "2.prems"(1) True schema checks by auto
        qed
        with True schema checks d show ?thesis by simp
      qed (use True schema d in simp)
    qed
  qed (use d in simp_all)
qed simp

lemma validate_complete: "conforms p base v schema \<Longrightarrow> \<exists>depth. validateJsonSchema p base depth v schema = Inr ()"
proof (induction rule: conforms.induct)
  case (conforms_ref kws target v)
  then obtain depth where "validateJsonSchema p base depth v target = Inr ()" by blast
  with conforms_ref show ?case by (intro exI [of _ "Suc depth"]) simp
next
  case (conforms_here kws v)
  then have "\<forall>x \<in> set (below kws v). \<exists>depth. validateJsonSchema p base depth (fst x) (snd x) = Inr ()"
    by fastforce
  then obtain depth where depth:
      "\<forall>x \<in> set (below kws v). validateJsonSchema p base (depth x) (fst x) (snd x) = Inr ()"
    by metis
  define d where "d = Max (insert 0 (depth ` set (below kws v)))"
  have "validateJsonSchema p base d (fst x) (snd x) = Inr ()" if "x \<in> set (below kws v)" for x
    using depth that validate_stable [of p base "depth x" "fst x" "snd x" d] by (simp add: d_def)
  then have "\<exists>us. mapE (\<lambda>(w, s). validateJsonSchema p base d w s) (below kws v) = Inr us"
    by (auto simp: mapE_unit_iff isOk_iff)
  with conforms_here(1,2) show ?case by (intro exI [of _ "Suc d"]) (auto simp: failIf_def)
qed

text \<open>A value that conforms is accepted as soon as the stack is deep enough, and never refused
  for its content.\<close>

lemma validate_error:
  assumes "validateJsonSchema p base depth v schema = Inl e" "e \<noteq> range_error"
  shows "\<not> conforms p base v schema"
proof
  assume "conforms p base v schema"
  then obtain d where ok: "validateJsonSchema p base d v schema = Inr ()" using validate_complete by blast
  have "validateJsonSchema p base (max depth d) v schema = Inl e"
    using assms validate_stable [of p base depth v schema "max depth d"] by simp
  moreover have "validateJsonSchema p base (max depth d) v schema = Inr ()"
    using ok validate_stable [of p base d v schema "max depth d"] by simp
  ultimately show False by simp
qed


text \<open>A schema that refers to itself is accepted by no stack.\<close>

theorem self_reference_overflows:
  "validateJsonSchema p (JObj [(lit ''a'', JObj [(lit ''$ref'', JStr (lit ''#/a''))])]) depth v
     (JObj [(lit ''$ref'', JStr (lit ''#/a''))]) = Inl range_error"
proof (induction depth)
  case (Suc depth)
  have "resolveSchemaReference (JObj [(lit ''a'', JObj [(lit ''$ref'', JStr (lit ''#/a''))])]) (JStr (lit ''#/a'')) =
      Inr (JObj [(lit ''$ref'', JStr (lit ''#/a''))])"
    by code_simp
  with Suc show ?case by simp
qed simp

end
