(* ===== verification/Contract_Sync.thy ===== *)
theory Contract_Sync
  imports Contract_Proto Contract_Bundle Contract_Schema
begin

text \<open>
  The commands of src/scripts/sync_external_ingestion_contract.mjs: the validation of a whole
  bundle, the replacement of the vendored copy, the synchronisation of the derived files and
  the check that none has drifted, and the reading of the command line. The replacement of the
  vendored directory is a sequence of calls of the file system each of which may fail.
\<close>

section \<open>Validation of a bundle\<close>

record validated_bundle =
  vb_attestation :: jsval
  vb_descriptorState :: descriptor_state
  vb_errorPolicy :: jsval
  vb_fixtureCount :: nat
  vb_idempotencyPolicy :: jsval
  vb_manifest :: jsval
  vb_state :: bundle_state

text \<open>\<open>depth\<close> is what the schema validator may use of the call stack.\<close>

definition check_schema ::
    "'a contract_platform_scheme \<Rightarrow> nat \<Rightarrow> jsval \<Rightarrow> jsval \<Rightarrow> thrown + unit" where
  "check_schema p depth v schema = validateJsonSchema (contract_platform.truncate p) schema depth v schema"

definition validateBundleState ::
    "'a gate_platform_scheme \<Rightarrow> nat \<Rightarrow> bundle_state \<Rightarrow> thrown + validated_bundle" where
  "validateBundleState p depth st =
     bindE (artifact st (lit ''descriptor.binpb'')) (\<lambda>descriptorPayload.
     bindE (validateDescriptor p descriptorPayload) (\<lambda>ds.
     bindE (validateSchemas p st) (\<lambda>schemas.
     bindE (artifact st MANIFEST_NAME) (\<lambda>manifestPayload.
     bindE (parseJson manifestPayload) (\<lambda>manifestDocument.
     thenE (check_schema p depth manifestDocument (cs_manifestSchema schemas))
     (bindE (validateManifest p manifestPayload descriptorPayload ds) (\<lambda>manifest.
      bindE (artifact st (lit ''connect-idempotency-policy.json'')) (\<lambda>idempotencyPayload.
      bindE (validateIdempotencyPolicy p idempotencyPayload) (\<lambda>idempotencyPolicy.
      bindE (parsed_artifact st (lit ''error-reasons.json'')) (\<lambda>errorPolicyDocument.
      thenE (check_schema p depth errorPolicyDocument (cs_errorSchema schemas))
      (bindE (validateErrorReasonPolicy p errorPolicyDocument) (\<lambda>errorPolicy.
       bindE (artifact st (lit ''conformance/external-sdk-ingestion.json'')) (\<lambda>conformancePayload.
       bindE (parseJson conformancePayload) (\<lambda>conformance.
       thenE (check_schema p depth conformance (cs_fixtureSchema schemas))
       (bindE (validateConformance p conformancePayload ds) (\<lambda>fixtureCount.
        bindE (validateReleaseAttestation p st) (\<lambda>attestation.
          Inr \<lparr>vb_attestation = attestation, vb_descriptorState = ds, vb_errorPolicy = errorPolicy,
               vb_fixtureCount = fixtureCount, vb_idempotencyPolicy = idempotencyPolicy,
               vb_manifest = manifest, vb_state = st\<rparr>)))))))))))))))))"

section \<open>The derived files\<close>

definition LOCAL_DESCRIPTOR_RELATIVE :: jstr where
  "LOCAL_DESCRIPTOR_RELATIVE = lit ''proto/external-ingestion-v1.descriptor.binpb''"

definition LOCAL_PROTO_RELATIVE :: jstr where
  "LOCAL_PROTO_RELATIVE = lit ''proto/medallion/connect/v1/connect.proto''"

definition VALIDATION_PROTO_RELATIVE :: jstr where
  "VALIDATION_PROTO_RELATIVE = lit ''proto/buf/validate/validate.proto''"

definition ALLOWLIST_RELATIVE :: jstr where
  "ALLOWLIST_RELATIVE = lit ''proto/external-ingestion-v1.json''"

definition SUPPORTED_ROUTES_RELATIVE :: jstr where
  "SUPPORTED_ROUTES_RELATIVE = lit ''proto/client-facing-routes.json''"

definition TYPESCRIPT_ERROR_POLICY_RELATIVE :: jstr where
  "TYPESCRIPT_ERROR_POLICY_RELATIVE = lit ''src/error-policy.ts''"

definition GO_ERROR_POLICY_RELATIVE :: jstr where
  "GO_ERROR_POLICY_RELATIVE = lit ''go/error_policy_generated.go''"

definition PYTHON_ERROR_POLICY_RELATIVE :: jstr where
  "PYTHON_ERROR_POLICY_RELATIVE = lit ''python/src/medallion/error_policy_generated.py''"

definition VENDOR_RELATIVE :: jstr where
  "VENDOR_RELATIVE = lit ''proto/external-ingestion-contract/v1''"

definition allowlist_document :: "jsval \<Rightarrow> jsval" where
  "allowlist_document manifest = JObj
     [(lit ''methods'', field_of manifest ''methods''), (lit ''profile'', JStr PROFILE_ID),
      (lit ''schema_version'', JNum (num 1)), (lit ''service'', JStr CONNECT_SERVICE)]"

definition routes_document :: jsval where
  "routes_document = JObj [(lit ''connect'', JObj
     [(lit ''methods'', texts EXPECTED_PROFILE_METHODS), (lit ''service'', JStr CONNECT_SERVICE)])]"

text \<open>The derived files with their paths, in the order in which they are written and checked.\<close>

definition deriveArtifacts ::
    "'a proto_platform_scheme \<Rightarrow> validated_bundle \<Rightarrow> thrown + (jstr \<times> byte list) list" where
  "deriveArtifacts p v =
     bindE (artifact (vb_state v) (lit ''descriptor.binpb'')) (\<lambda>descriptor.
     bindE (renderGoErrorPolicyModule p (vb_errorPolicy v)) (\<lambda>go_module.
     bindE (renderProtoSource p (vb_descriptorState v)) (\<lambda>proto.
     bindE (renderValidationProtoSource p (vb_descriptorState v)) (\<lambda>validationProto.
       Inr [(LOCAL_DESCRIPTOR_RELATIVE, descriptor), (LOCAL_PROTO_RELATIVE, proto),
            (VALIDATION_PROTO_RELATIVE, validationProto),
            (ALLOWLIST_RELATIVE,
              buffer_from (renderJson (cp_localeCompare p) (allowlist_document (vb_manifest v)))),
            (SUPPORTED_ROUTES_RELATIVE, buffer_from (renderJson (cp_localeCompare p) routes_document)),
            (TYPESCRIPT_ERROR_POLICY_RELATIVE, renderTypeScriptErrorPolicyModule p (vb_errorPolicy v)),
            (GO_ERROR_POLICY_RELATIVE, go_module),
            (PYTHON_ERROR_POLICY_RELATIVE, renderPythonErrorPolicyModule p (vb_errorPolicy v))]))))"

section \<open>Writing into a tree\<close>

text \<open>Create the missing directories and put a node in place; \<open>None\<close> when a file is in the way.\<close>

fun put_node :: "node \<Rightarrow> jstr list \<Rightarrow> node \<Rightarrow> node option" where
  "put_node n [] new = Some new"
| "put_node (Dir_Node entries) (s # ss) new =
     map_option (\<lambda>m. Dir_Node (set_prop entries s m))
       (put_node (orElse (map_of entries s) (Dir_Node [])) ss new)"
| "put_node n (s # ss) new = None"

definition atomicWrite :: "node \<Rightarrow> jstr \<times> byte list \<Rightarrow> thrown + node" where
  "atomicWrite tree item =
     (case find_node tree (join_segments (fst item)) of
        Some (Dir_Node _) \<Rightarrow> Inl io_error
      | _ \<Rightarrow>
          (case put_node tree (join_segments (fst item)) (File_Node (snd item)) of
             None \<Rightarrow> Inl io_error
           | Some tree' \<Rightarrow> Inr tree'))"

section \<open>Replacing the vendored directory\<close>

text \<open>The export as a directory: the two files of the bundle, then its artifacts.\<close>

definition put_file :: "node option \<Rightarrow> jstr \<times> byte list \<Rightarrow> node option" where
  "put_file tree item = Option.bind tree (\<lambda>t. put_node t (join_segments (fst item)) (File_Node (snd item)))"

definition export_items :: "bundle_state \<Rightarrow> (jstr \<times> byte list) list" where
  "export_items st =
     (bundle_name, bs_bundlePayload st) # (checksum_name, bs_checksumPayload st) #
     map (\<lambda>entry. (path_text entry, orElse (map_of (bs_artifacts st) (path_text entry)) []))
       (items_of (field_of (bs_bundle st) ''artifacts''))"

definition export_tree :: "bundle_state \<Rightarrow> node option" where
  "export_tree st = foldl put_file (Some (Dir_Node [])) (export_items st)"

text \<open>The three directories of the replacement, and its calls that may fail.\<close>

datatype vendor_step =
  Make_Staging | Write_Staging | Move_Aside | Move_In | Drop_Previous | Restore | Clean_Staging | Clean_Previous

record vendor_dirs =
  vd_destination :: "node option"
  vd_previous :: "node option"
  vd_staging :: "node option"

type_synonym vendor_result = "(thrown + unit) \<times> vendor_dirs"

definition step_if :: "bool \<Rightarrow> vendor_dirs \<Rightarrow> vendor_dirs \<Rightarrow> vendor_result" where
  "step_if failed before after = (if failed then (Inl io_error, before) else (Inr (), after))"

definition and_next :: "vendor_result \<Rightarrow> (vendor_dirs \<Rightarrow> vendor_result) \<Rightarrow> vendor_result" where
  "and_next r k = (case r of (Inl e, d) \<Rightarrow> (Inl e, d) | (Inr _, d) \<Rightarrow> k d)"

definition vendor_try :: "(vendor_step \<Rightarrow> bool) \<Rightarrow> node option \<Rightarrow> vendor_dirs \<Rightarrow> vendor_result" where
  "vendor_try fails new d =
     and_next (step_if (fails Write_Staging \<or> new = None) d (d\<lparr>vd_staging := new\<rparr>)) (\<lambda>d1.
     and_next (if vd_destination d1 \<noteq> None
               then step_if (fails Move_Aside) d1
                      (d1\<lparr>vd_previous := vd_destination d1, vd_destination := None\<rparr>)
               else (Inr (), d1)) (\<lambda>d2.
     and_next (step_if (fails Move_In) d2 (d2\<lparr>vd_destination := vd_staging d2, vd_staging := None\<rparr>)) (\<lambda>d3.
       step_if (fails Drop_Previous) d3 (d3\<lparr>vd_previous := None\<rparr>))))"

text \<open>The \<open>catch\<close> clause, which rethrows.\<close>

definition vendor_catch :: "(vendor_step \<Rightarrow> bool) \<Rightarrow> vendor_result \<Rightarrow> vendor_result" where
  "vendor_catch fails r =
     (case r of
        (Inr u, d) \<Rightarrow> (Inr u, d)
      | (Inl e, d) \<Rightarrow>
          if vd_destination d = None \<and> vd_previous d \<noteq> None then
            (if fails Restore then (Inl io_error, d)
             else (Inl e, d\<lparr>vd_destination := vd_previous d, vd_previous := None\<rparr>))
          else (Inl e, d))"

text \<open>The \<open>finally\<close> clause: an exception in it replaces the outcome.\<close>

definition vendor_finally :: "(vendor_step \<Rightarrow> bool) \<Rightarrow> vendor_result \<Rightarrow> vendor_result" where
  "vendor_finally fails r =
     (case r of (out, d) \<Rightarrow>
        if fails Clean_Staging then (Inl io_error, d)
        else if fails Clean_Previous then (Inl io_error, d\<lparr>vd_staging := None\<rparr>)
        else (out, d\<lparr>vd_staging := None, vd_previous := None\<rparr>))"

definition writeVendoredExport :: "(vendor_step \<Rightarrow> bool) \<Rightarrow> bundle_state \<Rightarrow> vendor_dirs \<Rightarrow> vendor_result" where
  "writeVendoredExport fails st d =
     (if fails Make_Staging then (Inl io_error, d)
      else vendor_finally fails (vendor_catch fails
             (vendor_try fails (export_tree st) (d\<lparr>vd_staging := Some (Dir_Node [])\<rparr>))))"

section \<open>Checking and synchronising\<close>

record contract_result =
  cr_attestationSha256 :: jstr
  cr_bundleSha256 :: jstr
  cr_connectPolicySha256 :: jstr
  cr_contractVersion :: jsval
  cr_descriptorSha256 :: jstr
  cr_enumCount :: nat
  cr_errorReasonPolicySha256 :: jstr
  cr_fixtureCount :: nat
  cr_fixtureSha256 :: jstr
  cr_manifestSha256 :: jstr
  cr_messageCount :: nat
  cr_methods :: "jstr list"
  cr_profile :: jstr
  cr_releaseStatus :: jsval
  cr_service :: jstr
  cr_wireClosureSha256 :: jstr

definition artifact_sha256 :: "'a contract_platform_scheme \<Rightarrow> bundle_state \<Rightarrow> jstr \<Rightarrow> thrown + jstr" where
  "artifact_sha256 p st name = bindE (artifact st name) (\<lambda>payload. Inr (cp_sha256 p payload))"

definition resultFrom :: "'a contract_platform_scheme \<Rightarrow> validated_bundle \<Rightarrow> thrown + contract_result" where
  "resultFrom p v =
     (let st = vb_state v; ds = vb_descriptorState v in
      bindE (artifact_sha256 p st (lit ''release-attestation.json'')) (\<lambda>attestation.
      bindE (artifact_sha256 p st (lit ''connect-idempotency-policy.json'')) (\<lambda>policy.
      bindE (artifact_sha256 p st (lit ''descriptor.binpb'')) (\<lambda>descriptor.
      bindE (artifact_sha256 p st (lit ''error-reasons.json'')) (\<lambda>reasons.
      bindE (artifact_sha256 p st (lit ''conformance/external-sdk-ingestion.json'')) (\<lambda>fixture.
      bindE (artifact_sha256 p st MANIFEST_NAME) (\<lambda>manifest.
        Inr \<lparr>cr_attestationSha256 = attestation, cr_bundleSha256 = bs_bundleHash st,
             cr_connectPolicySha256 = policy, cr_contractVersion = field_of (bs_bundle st) ''contract_version'',
             cr_descriptorSha256 = descriptor, cr_enumCount = ds_enumCount ds,
             cr_errorReasonPolicySha256 = reasons, cr_fixtureCount = vb_fixtureCount v,
             cr_fixtureSha256 = fixture, cr_manifestSha256 = manifest,
             cr_messageCount = ds_messageCount ds, cr_methods = EXPECTED_PROFILE_METHODS,
             cr_profile = PROFILE_ID, cr_releaseStatus = field_of (bs_bundle st) ''release_status'',
             cr_service = CONNECT_SERVICE, cr_wireClosureSha256 = ds_wireClosureSha256 ds\<rparr>)))))))"

definition check_derived :: "node \<Rightarrow> jstr \<times> byte list \<Rightarrow> thrown + unit" where
  "check_derived tree item =
     thenE (failIf (\<not> existsSync tree (fst item)) contract_fail)
     (bindE (readFileSync tree (fst item)) (\<lambda>actual.
        failIf (actual \<noteq> snd item) contract_fail))"

text \<open>\<open>/\b(?:OrganizationId|...)\b/\<close>: a name between two borders of a word.\<close>

definition word_unit :: "code_unit \<Rightarrow> bool" where
  "word_unit u \<longleftrightarrow>
     is_digit u \<or> unit_in CHR ''a'' CHR ''z'' u \<or> unit_in CHR ''A'' CHR ''Z'' u \<or> u = of_char CHR ''_''"

fun word_occurs :: "bool \<Rightarrow> jstr \<Rightarrow> jstr \<Rightarrow> bool" where
  "word_occurs inside w [] = False"
| "word_occurs inside w (u # us) =
     ((\<not> inside \<and> startsWith (u # us) w \<and>
       (case drop (length w) (u # us) of [] \<Rightarrow> True | v # _ \<Rightarrow> \<not> word_unit v)) \<or>
      word_occurs (word_unit u) w us)"

definition retired_names :: "jstr list" where
  "retired_names = map lit [''OrganizationId'', ''GetOrganizationId'', ''TenantId'', ''GetTenantId'']"

definition generated_surfaces :: "jstr list" where
  "generated_surfaces = map lit
     [''go/gen/medallion/connect/v1/connect.pb.go'', ''python/src/medallion/connect/v1/connect_pb2.py'']"

definition check_surface :: "node \<Rightarrow> jstr \<Rightarrow> thrown + unit" where
  "check_surface tree relative =
     (if \<not> existsSync tree relative then Inr ()
      else bindE (readFileSync tree relative) (\<lambda>payload.
        (let source = buffer_utf8 payload in
         thenE (failIf (list_ex (\<lambda>w. word_occurs False w source) retired_names) contract_fail)
           (scanBoundary (buffer_from source)))))"

definition validateGeneratedScopeSurfaces :: "node \<Rightarrow> thrown + unit" where
  "validateGeneratedScopeSurfaces tree =
     bindE (mapE (check_surface tree) generated_surfaces) (\<lambda>_. Inr ())"

definition vendor_dir :: "node \<Rightarrow> node" where
  "vendor_dir tree = orElse (find_node tree (join_segments VENDOR_RELATIVE)) (Dir_Node [])"

definition checkContract :: "'a proto_platform_scheme \<Rightarrow> nat \<Rightarrow> node \<Rightarrow> thrown + contract_result" where
  "checkContract p depth tree =
     bindE (readBundle p (vendor_dir tree)) (\<lambda>st.
     bindE (validateBundleState p depth st) (\<lambda>v.
     bindE (deriveArtifacts p v) (\<lambda>derived.
     thenE (mapE (check_derived tree) derived)
     (thenE (validateGeneratedScopeSurfaces tree)
       (resultFrom p v)))))"

definition checkReleaseContract :: "'a proto_platform_scheme \<Rightarrow> nat \<Rightarrow> node \<Rightarrow> thrown + contract_result" where
  "checkReleaseContract p depth tree =
     bindE (checkContract p depth tree) (\<lambda>r.
     thenE (failIf (cr_releaseStatus r \<noteq> JStr (lit ''released'')) contract_fail) (Inr r))"

text \<open>The replacement inside the tree: the directories beside the destination are gone when it
  returns, so only the destination is put back.\<close>

definition vendor_replace ::
    "(vendor_step \<Rightarrow> bool) \<Rightarrow> bundle_state \<Rightarrow> node \<Rightarrow> thrown + node" where
  "vendor_replace fails st tree =
     (case writeVendoredExport fails st
             \<lparr>vd_destination = find_node tree (join_segments VENDOR_RELATIVE), vd_previous = None, vd_staging = None\<rparr> of
        (Inl e, _) \<Rightarrow> Inl e
      | (Inr _, d) \<Rightarrow>
          (case vd_destination d of
             None \<Rightarrow> Inl io_error
           | Some new \<Rightarrow>
               (case put_node tree (join_segments VENDOR_RELATIVE) new of
                  None \<Rightarrow> Inl io_error
                | Some tree' \<Rightarrow> Inr tree')))"

text \<open>\<open>source\<close> is the directory of the export, \<open>tree\<close> the checkout; the tree is returned with
  the result of the check.\<close>

definition syncContract ::
    "'a proto_platform_scheme \<Rightarrow> nat \<Rightarrow> (vendor_step \<Rightarrow> bool) \<Rightarrow> node \<Rightarrow> node \<Rightarrow> thrown + contract_result \<times> node" where
  "syncContract p depth fails source tree =
     bindE (readBundle p source) (\<lambda>st.
     bindE (validateBundleState p depth st) (\<lambda>v.
     bindE (deriveArtifacts p v) (\<lambda>derived.
     bindE (vendor_replace fails st tree) (\<lambda>tree1.
     bindE (foldE atomicWrite tree1 derived) (\<lambda>tree2.
     bindE (checkContract p depth tree2) (\<lambda>r. Inr (r, tree2)))))))"

section \<open>The command line\<close>

record command_line =
  cl_mode :: "jstr option"
  cl_contractRoot :: "jstr option"

definition mode_flags :: "jstr list" where
  "mode_flags = map lit [''--check'', ''--check-release'', ''--sync'']"

fun argument_loop :: "command_line \<Rightarrow> jstr list \<Rightarrow> thrown + command_line" where
  "argument_loop c [] = Inr c"
| "argument_loop c (a # as) =
     (if a \<in> set mode_flags then
        (if cl_mode c \<noteq> None then Inl contract_fail
         else argument_loop (c\<lparr>cl_mode := Some (drop 2 a)\<rparr>) as)
      else if a = lit ''--contract-root'' then
        (case as of
           [] \<Rightarrow> Inl contract_fail
         | r # rest \<Rightarrow>
             if r = [] then Inl contract_fail else argument_loop (c\<lparr>cl_contractRoot := Some r\<rparr>) rest)
      else Inl contract_fail)"

definition parseArguments :: "jstr list \<Rightarrow> thrown + command_line" where
  "parseArguments argv =
     bindE (argument_loop \<lparr>cl_mode = None, cl_contractRoot = None\<rparr> argv) (\<lambda>c.
     thenE (failIf (cl_mode c = None) contract_fail)
     (thenE (failIf (cl_mode c \<noteq> Some (lit ''sync'') \<and> cl_contractRoot c \<noteq> None) contract_fail)
       (Inr c)))"

section \<open>The command\<close>

definition printResult :: "string \<Rightarrow> contract_result \<Rightarrow> thrown + jstr" where
  "printResult action r =
     bindE (js_string (cr_contractVersion r)) (\<lambda>version.
     bindE (js_string (cr_releaseStatus r)) (\<lambda>status.
       Inr (lines
         [lit ''External ingestion contract '' @ lit action @ lit '': '' @ dec_nat (length (cr_methods r)) @
            lit '' RPCs ('' @ cr_profile r @ lit '')'',
          lit ''contract_version='' @ version,
          lit ''bundle='' @ cr_bundleSha256 r @ lit '' ('' @ status @ lit '')'',
          lit ''descriptor='' @ cr_descriptorSha256 r,
          lit ''manifest='' @ cr_manifestSha256 r,
          lit ''connect_policy='' @ cr_connectPolicySha256 r,
          lit ''error_registry='' @ cr_errorReasonPolicySha256 r,
          lit ''conformance_fixture='' @ cr_fixtureSha256 r @ lit '' ('' @ dec_nat (cr_fixtureCount r) @ lit '' cases)'',
          lit ''release_attestation='' @ cr_attestationSha256 r,
          lit ''wire_closure='' @ cr_wireClosureSha256 r @ lit '' ('' @ dec_nat (cr_messageCount r) @
            lit '' messages, '' @ dec_nat (cr_enumCount r) @ lit '' enums)'',
          lit ''public_rpcs='' @ cr_service r @ lit ''=4'',
          []])))"

text \<open>\<open>main\<close>: the output, and the tree when it was written. \<open>directory_at\<close> gives the directory at
  a path of the machine, \<open>configured\<close> is MEDALLION_SDK_CONTRACT_ROOT.\<close>

definition contract_main ::
    "'a proto_platform_scheme \<Rightarrow> nat \<Rightarrow> (vendor_step \<Rightarrow> bool) \<Rightarrow> (jstr \<Rightarrow> node) \<Rightarrow> jstr option \<Rightarrow> node \<Rightarrow>
     jstr list \<Rightarrow> thrown + jstr \<times> node" where
  "contract_main p depth fails directory_at configured tree argv =
     bindE (parseArguments argv) (\<lambda>c.
       if cl_mode c = Some (lit ''check'') then
         bindE (checkContract p depth tree) (\<lambda>r.
         bindE (printResult ''is current'' r) (\<lambda>out. Inr (out, tree)))
       else if cl_mode c = Some (lit ''check-release'') then
         bindE (checkReleaseContract p depth tree) (\<lambda>r.
         bindE (printResult ''is release-ready'' r) (\<lambda>out. Inr (out, tree)))
       else
         (let source = (case orOption (cl_contractRoot c) configured of
                          Some path \<Rightarrow> directory_at path | None \<Rightarrow> vendor_dir tree)
          in bindE (syncContract p depth fails source tree) (\<lambda>(r, tree').
             bindE (printResult ''synchronized'' r) (\<lambda>out. Inr (out, tree')))))"

end
