(* ===== verification/Contract_Json_Facts.thy ===== *)
theory Contract_Json_Facts
  imports Contract_Json Json_Reads
begin

text \<open>
  What \<open>renderJson\<close> of src/scripts/sync_external_ingestion_contract.mjs prints parses back to
  the normal form of the value, so two documents render alike exactly when their normal forms
  are the same; on lists of texts, exactly when the lists are.
\<close>

section \<open>Documents read back\<close>

text \<open>The normal forms without \<open>undefined\<close>, with doubles for numbers: what the documents of a bundle
  hold.\<close>

fun printable :: "jsval \<Rightarrow> bool" where
  "printable JNull = True"
| "printable (JBool b) = True"
| "printable (JNum n) = is_double n"
| "printable (JStr s) = True"
| "printable (JArr vs) = list_all printable vs"
| "printable (JObj ps) = (distinct (map fst ps) \<and> list_all (\<lambda>p. printable (snd p)) ps)"
| "printable v = False"

lemma indented:
  assumes "blank ind"
  shows "blank ([10] @ ind @ lit ''  '')" "blank ([10] @ ind)" "delimited ([10] @ ind)" "blank (lit '' '')"
  using assms by (simp_all add: blank_def json_space_def lit_def)

lemma reads_array:
  assumes "list_all2 reads ts vs" "blank ind"
  shows "reads (json_block ind ''['' '']'' ts) (JArr vs)"
proof (cases "ts = []")
  case True
  with assms(1) empty_reads show ?thesis by (simp add: json_block_def lit_def)
next
  case False
  from array_reads [OF assms(1) False indented(1,2,3) [OF assms(2)]]
  show ?thesis using False by (simp add: json_block_def lit_def)
qed

lemma reads_object:
  assumes "list_all2 (\<lambda>e p. fst e = fst p \<and> reads (snd e) (snd p)) es ps" "distinct (map fst ps)" "blank ind"
  shows "reads (json_block ind ''{'' ''}'' (map (\<lambda>e. member_text (lit '' '') (fst e) (snd e)) es)) (JObj ps)"
proof (cases "es = []")
  case True
  with assms(1) empty_reads show ?thesis by (simp add: json_block_def lit_def)
next
  case False
  from object_reads [OF assms(1) False assms(2) indented [OF assms(3)]]
  show ?thesis using False by (simp add: json_block_def lit_def)
qed

lemma pretty_reads: "printable v \<Longrightarrow> blank ind \<Longrightarrow> reads (pretty_json ind v) v"
proof (induction ind v rule: pretty_json.induct)
  case (2 ind n)
  then have "isFinite n" by (simp add: double_finite)
  with 2 show ?case by (simp add: reads_number)
next
  case (4 ind vs)
  then have "list_all2 reads (map (pretty_json (ind @ lit ''  '')) vs) vs"
    by (simp add: list_all2_conv_all_nth list_all_length)
  with 4 show ?case by (simp add: reads_array)
next
  case (5 ind ps)
  let ?es = "map (\<lambda>p. (fst p, pretty_json (ind @ lit ''  '') (snd p))) ps"
  have "list_all2 (\<lambda>e p. fst e = fst p \<and> reads (snd e) (snd p)) ?es ps"
    using 5 by (simp add: list_all2_conv_all_nth list_all_length)
  from reads_object [OF this] 5 show ?case by (simp add: member_text_def comp_def lit_def)
qed (simp_all add: reads_scalars reads_string)

text \<open>The precondition: the documents compared are JSON, whose numbers are doubles.\<close>

fun json_document :: "jsval \<Rightarrow> bool" where
  "json_document JUndef = False"
| "json_document (JNum n) = is_double n"
| "json_document (JArr vs) = list_all json_document vs"
| "json_document (JObj ps) = (distinct (map fst ps) \<and> list_all (\<lambda>p. snd p = JUndef \<or> json_document (snd p)) ps)"
| "json_document v = True"

lemma normalize_printable: "json_document v \<Longrightarrow> printable (normalizeJson cmp v)"
proof (induction cmp v rule: normalizeJson.induct)
  case (3 cmp ps)
  let ?qs = "sort_by (\<lambda>l r. cmp (fst l) (fst r)) (filter (\<lambda>p. snd p \<noteq> JUndef) (object_order ps))"
  have "distinct (map fst ?qs)" using "3.prems" by (simp add: distinct_map_filter)
  moreover have "printable (normalizeJson cmp (snd p))" if "p \<in> set ?qs" for p
  proof -
    have "json_document (snd p)" using "3.prems" that by (auto simp: list_all_iff)
    then show ?thesis by (rule "3.IH" [OF that])
  qed
  ultimately show ?case by (simp add: list_all_iff comp_def)
qed (auto simp: list_all_iff)

lemma renderJson_parses:
  assumes "json_document v"
  shows "json_parse (renderJson cmp v) = Some (normalizeJson cmp v)"
proof -
  let ?w = "normalizeJson cmp v"
  have p: "printable ?w" by (rule normalize_printable [OF assms])
  then have t: "renderJson cmp v = pretty_json [] ?w @ [10]"
    by (cases ?w) (simp_all add: renderJson_def)
  have "json_value (Suc (2 * length (pretty_json [] ?w @ [10]))) (pretty_json [] ?w @ [10]) = Some (?w, [10])"
    by (rule readsD [OF pretty_reads [OF p]]) simp_all
  then show ?thesis by (simp add: json_parse_def t) (simp add: skip_ws_def json_space_def)
qed

text \<open>So the gate's comparison of two documents is equality of their normal forms.\<close>

lemma same_json_iff:
  assumes "json_document v" "json_document w"
  shows "same_json cmp v w \<longleftrightarrow> normalizeJson cmp v = normalizeJson cmp w"
proof
  assume "same_json cmp v w"
  then have "json_parse (renderJson cmp v) = json_parse (renderJson cmp w)" by (simp add: same_json_def)
  with assms show "normalizeJson cmp v = normalizeJson cmp w" by (simp add: renderJson_parses)
qed (simp add: same_json_def renderJson_def)

lemma same_texts: "same_json cmp (texts xs) (texts ys) \<longleftrightarrow> xs = ys"
proof -
  have "json_document (texts xs)" for xs by (simp add: texts_def list_all_iff)
  moreover have "normalizeJson cmp (texts xs) = texts xs" for xs by (simp add: texts_def)
  moreover have "texts xs = texts ys \<longleftrightarrow> xs = ys" by (simp add: texts_def inj_map_eq_map inj_def)
  ultimately show ?thesis by (simp add: same_json_iff)
qed


definition sample_document :: jsval where
  "sample_document = JObj
     [(lit ''released'', JBool True), (lit ''artifacts'', JArr [JNum (num 3), JNull, JStr (lit ''a/b'')]),
      (lit ''bytes'', JBig 12)]"


end
