(* ===== verification/Contract_Facts.thy ===== *)
theory Contract_Facts
  imports Contract_Bundle Contract_Schema Contract_Json_Facts
begin

text \<open>
  What an accepted contract bundle satisfies: the descriptor holds exactly the messages that
  the four methods reach, the artifacts are the files that bundle.json vouches for, and the
  registry lists exactly the known reasons.
\<close>

section \<open>The wire closure\<close>

inductive wire_reachable :: "descriptor_index \<Rightarrow> jstr set \<Rightarrow> jstr \<Rightarrow> bool"
  for idx :: descriptor_index and roots :: "jstr set" where
  reach_method: "t \<in> roots \<Longrightarrow> in_package t \<Longrightarrow> wire_reachable idx roots t"
| reach_field: "wire_reachable idx roots n \<Longrightarrow> map_of (di_messages idx) n = Some m \<Longrightarrow>
     f \<in> set (md_fields m) \<Longrightarrow> hasKey (di_messages idx) (normalizeTypeName (fd_typeName f)) \<Longrightarrow>
     in_package (normalizeTypeName (fd_typeName f)) \<Longrightarrow>
     wire_reachable idx roots (normalizeTypeName (fd_typeName f))"

lemma reachable_in_package: "wire_reachable idx roots n \<Longrightarrow> in_package n"
  by (induction rule: wire_reachable.induct)

definition field_types :: "descriptor_index \<Rightarrow> field_desc list \<Rightarrow> jstr set" where
  "field_types idx fs =
     {t. \<exists>f \<in> set fs. t = normalizeTypeName (fd_typeName f) \<and> hasKey (di_messages idx) t}"

definition field_enums :: "descriptor_index \<Rightarrow> field_desc list \<Rightarrow> jstr set" where
  "field_enums idx fs =
     {t. \<exists>f \<in> set fs. t = normalizeTypeName (fd_typeName f) \<and> hasKey (di_enums idx) t}"

lemma visit_fields:
  "foldE (visit_field idx) (pending, enums) fs = Inr (pending', enums') \<Longrightarrow>
   set pending' = set pending \<union> field_types idx fs \<and> set enums' = set enums \<union> field_enums idx fs \<and>
   (distinct enums \<longrightarrow> distinct enums') \<and> list_all (\<lambda>f. \<not> legacy_field f) fs"
proof (induction fs arbitrary: pending enums)
  case Nil
  then show ?case by (simp add: field_types_def field_enums_def)
next
  case (Cons f fs)
  let ?t = "normalizeTypeName (fd_typeName f)"
  define p where "p = (if hasKey (di_messages idx) ?t then ?t # pending else pending)"
  define e where "e = (if hasKey (di_enums idx) ?t then List.insert ?t enums else enums)"
  have "visit_field idx (pending, enums) f = (if legacy_field f then Inl contract_fail else Inr (p, e))"
    by (simp add: visit_field_def p_def e_def Let_def)
  with Cons.prems have "\<not> legacy_field f"
    and rest: "foldE (visit_field idx) (p, e) fs = Inr (pending', enums')"
    by (auto split: if_splits)
  with Cons.IH [OF rest] show ?case
    by (auto simp: p_def e_def field_types_def field_enums_def)
qed

text \<open>The two invariants of the worklist: what was reached is reachable, and what a reached
  message refers to is reached or waits.\<close>

lemma wire_closure_skip:
  "name \<in> set ms \<or> \<not> in_package name \<Longrightarrow> wire_closure idx (name # rest) ms es = wire_closure idx rest ms es"
  by (subst wire_closure.simps) simp

lemma wire_closure_visit:
  assumes "wire_closure idx (name # rest) ms es = Inr r" "\<not> (name \<in> set ms \<or> \<not> in_package name)"
  obtains m pending' es' where "map_of (di_messages idx) name = Some m"
    "foldE (visit_field idx) (rest, es) (md_fields m) = Inr (pending', es')"
    "wire_closure idx pending' (name # ms) es' = Inr r"
  using assms by (subst (asm) wire_closure.simps) (auto split: option.splits sum.splits)

lemma wire_closure_sound:
  assumes "wire_closure idx pending ms es = Inr (ms', es')"
    "\<forall>n \<in> set ms. wire_reachable idx roots n" "\<forall>n \<in> set pending. in_package n \<longrightarrow> wire_reachable idx roots n"
  shows "\<forall>n \<in> set ms'. wire_reachable idx roots n"
  using assms
proof (induction idx pending ms es rule: wire_closure.induct)
  case (1 idx pending ms es)
  show ?case
  proof (cases pending)
    case Nil
    with "1.prems" show ?thesis by (simp add: wire_closure.simps)
  next
    case pending: (Cons name rest)
    show ?thesis
    proof (cases "name \<in> set ms \<or> \<not> in_package name")
      case True
      with "1.IH"(1) [OF pending True] "1.prems" show ?thesis
        by (simp add: wire_closure_skip [OF True] pending)
    next
      case False
      from wire_closure_visit [OF "1.prems"(1) [unfolded pending] this]
      obtain m pending' es1 where m: "map_of (di_messages idx) name = Some m"
        and fs: "foldE (visit_field idx) (rest, es) (md_fields m) = Inr (pending', es1)"
        and cont: "wire_closure idx pending' (name # ms) es1 = Inr (ms', es')" .
      have name: "wire_reachable idx roots name" using "1.prems"(3) False pending by simp
      have "\<forall>n \<in> set pending'. in_package n \<longrightarrow> wire_reachable idx roots n"
        using visit_fields [OF fs] "1.prems"(3) pending reach_field [OF name m]
        by (auto simp: field_types_def)
      with "1.IH"(2) [OF pending False m fs refl cont] "1.prems"(2) name show ?thesis by simp
    qed
  qed
qed

definition closed_up_to :: "descriptor_index \<Rightarrow> jstr set \<Rightarrow> jstr set \<Rightarrow> bool" where
  "closed_up_to idx waiting ms \<longleftrightarrow>
     (\<forall>n \<in> ms. \<exists>m. map_of (di_messages idx) n = Some m \<and> list_all (\<lambda>f. \<not> legacy_field f) (md_fields m) \<and>
        (\<forall>t \<in> field_types idx (md_fields m). in_package t \<longrightarrow> t \<in> ms \<union> waiting))"

lemma wire_closure_closed:
  assumes "wire_closure idx pending ms es = Inr (ms', es')"
    "closed_up_to idx (set pending) (set ms)" "distinct ms" "distinct es"
  shows "closed_up_to idx {} (set ms') \<and> distinct ms' \<and> distinct es' \<and> set ms \<subseteq> set ms' \<and>
    {n \<in> set pending. in_package n} \<subseteq> set ms'"
  using assms
proof (induction idx pending ms es rule: wire_closure.induct)
  case (1 idx pending ms es)
  show ?case
  proof (cases pending)
    case Nil
    with "1.prems" show ?thesis by (simp add: wire_closure.simps)
  next
    case pending: (Cons name rest)
    show ?thesis
    proof (cases "name \<in> set ms \<or> \<not> in_package name")
      case True
      then have "closed_up_to idx (set rest) (set ms)"
        using "1.prems"(2) by (auto simp: closed_up_to_def pending) blast+
      with "1.IH"(1) [OF pending True] "1.prems" True show ?thesis
        by (auto simp: wire_closure_skip [OF True] pending)
    next
      case False
      from wire_closure_visit [OF "1.prems"(1) [unfolded pending] this]
      obtain m pending' es1 where m: "map_of (di_messages idx) name = Some m"
        and fs: "foldE (visit_field idx) (rest, es) (md_fields m) = Inr (pending', es1)"
        and cont: "wire_closure idx pending' (name # ms) es1 = Inr (ms', es')" .
      note v = visit_fields [OF fs]
      have "closed_up_to idx (set pending') (set (name # ms))"
        using "1.prems"(2) v m unfolding closed_up_to_def pending by (auto 0 3)
      with "1.IH"(2) [OF pending False m fs refl cont] "1.prems"(3,4) False v
      show ?thesis by (auto simp: pending)
    qed
  qed
qed

lemma closed_contains:
  assumes "closed_up_to idx {} ms" "{t \<in> roots. in_package t} \<subseteq> ms" "wire_reachable idx roots n"
  shows "n \<in> ms"
  using assms(3)
proof (induction rule: wire_reachable.induct)
  case (reach_field n m f)
  with assms(1) have "\<forall>t \<in> field_types idx (md_fields m). in_package t \<longrightarrow> t \<in> ms"
    by (auto simp: closed_up_to_def)
  with reach_field show ?case by (auto simp: field_types_def)
qed (use assms(2) in blast)

lemma wire_closure_exact:
  assumes "wire_closure idx (rev roots) [] [] = Inr (ms, es)"
  shows "set ms = {n. wire_reachable idx (set roots) n}" and "distinct ms" and "distinct es"
    and "closed_up_to idx {} (set ms)"
proof -
  note c = wire_closure_closed [OF assms]
  show "distinct ms" "distinct es" and closed: "closed_up_to idx {} (set ms)"
    using c by (simp_all add: closed_up_to_def)
  have "\<forall>n \<in> set ms. wire_reachable idx (set roots) n"
    by (rule wire_closure_sound [OF assms]) (simp_all add: reach_method)
  moreover have "n \<in> set ms" if "wire_reachable idx (set roots) n" for n
    using c by (intro closed_contains [OF closed _ that]) (simp add: closed_up_to_def)
  ultimately show "set ms = {n. wire_reachable idx (set roots) n}" by blast
qed

text \<open>A message that stops the worklist: it is missing, or has a field of the retired scope.\<close>

definition broken_message :: "descriptor_index \<Rightarrow> jstr \<Rightarrow> bool" where
  "broken_message idx n =
     (case map_of (di_messages idx) n of None \<Rightarrow> True | Some m \<Rightarrow> list_ex legacy_field (md_fields m))"

lemma visit_fields_fail:
  "foldE (visit_field idx) st fs = Inl e \<Longrightarrow> e = contract_fail \<and> list_ex legacy_field fs"
  by (drule foldE_Inl_dest) (auto simp: visit_field_def Let_def error_iff list_ex_iff)

lemma wire_closure_fails:
  assumes "wire_closure idx pending ms es = Inl e"
    "\<forall>n \<in> set pending. in_package n \<longrightarrow> wire_reachable idx roots n"
  shows "e = contract_fail \<and> (\<exists>n. wire_reachable idx roots n \<and> broken_message idx n)"
  using assms
proof (induction idx pending ms es rule: wire_closure.induct)
  case (1 idx pending ms es)
  show ?case
  proof (cases pending)
    case Nil
    with "1.prems" show ?thesis by (simp add: wire_closure.simps)
  next
    case pending: (Cons name rest)
    show ?thesis
    proof (cases "name \<in> set ms \<or> \<not> in_package name")
      case True
      with "1.IH"(1) [OF pending True] "1.prems" show ?thesis
        by (simp add: wire_closure_skip [OF True] pending)
    next
      case False
      then have name: "wire_reachable idx roots name" using "1.prems"(2) pending by simp
      have step: "wire_closure idx (name # rest) ms es =
          (case map_of (di_messages idx) name of
             None \<Rightarrow> Inl contract_fail
           | Some m \<Rightarrow>
               (case foldE (visit_field idx) (rest, es) (md_fields m) of
                  Inl e \<Rightarrow> Inl e
                | Inr (pending', es') \<Rightarrow> wire_closure idx pending' (name # ms) es'))"
        using False by (subst wire_closure.simps) simp
      show ?thesis
      proof (cases "map_of (di_messages idx) name")
        case None
        with "1.prems"(1) name pending step show ?thesis by (auto simp: broken_message_def)
      next
        case m: (Some m)
        show ?thesis
        proof (cases "foldE (visit_field idx) (rest, es) (md_fields m)")
          case (Inl e')
          with "1.prems"(1) m pending step have "e = e'" by simp
          with visit_fields_fail [OF Inl] name m show ?thesis by (auto simp: broken_message_def)
        next
          case fs: (Inr r)
          obtain pending' es1 where r: "r = (pending', es1)" by (cases r)
          have "\<forall>n \<in> set pending'. in_package n \<longrightarrow> wire_reachable idx roots n"
            using visit_fields [OF fs [unfolded r]] "1.prems"(2) pending reach_field [OF name m]
            by (auto simp: field_types_def)
          with "1.IH"(2) [OF pending False m fs r [symmetric]] "1.prems"(1) step show ?thesis
            by (simp add: pending m fs r)
        qed
      qed
    qed
  qed
qed


lemma validateDescriptor_closure:
  assumes "validateDescriptor p payload = Inr ds"
  defines "idx \<equiv> ds_index ds" and "roots \<equiv> set (method_roots (ds_methods ds))"
  shows "\<forall>n. in_package n \<longrightarrow> (hasKey (di_messages idx) n \<longleftrightarrow> wire_reachable idx roots n)"
    and "\<forall>n m f. wire_reachable idx roots n \<longrightarrow> map_of (di_messages idx) n = Some m \<longrightarrow>
      f \<in> set (md_fields m) \<longrightarrow> \<not> legacy_field f"
    and "card {n. wire_reachable idx roots n} = 12"
    and "mset (map mt_name (ds_methods ds)) = mset EXPECTED_PROFILE_METHODS"
    and "list_all (\<lambda>m. \<not> mt_clientStreaming m \<and> \<not> mt_serverStreaming m) (ds_methods ds)"
proof -
  from assms(1) obtain messages enums where
      c: "wire_closure idx (rev (method_roots (ds_methods ds))) [] [] = Inr (messages, enums)"
    and names: "local_names (di_messages idx) = sort messages" and size: "length messages = 12"
    and methods: "sort (map mt_name (ds_methods ds)) = sort EXPECTED_PROFILE_METHODS"
    and unary: "\<not> list_ex (\<lambda>m. mt_clientStreaming m \<or> mt_serverStreaming m) (ds_methods ds)"
    unfolding idx_def
    by (auto simp: validateDescriptor_def same_texts_def same_texts Let_def result_iff split: option.splits)
  note exact = wire_closure_exact [OF c, folded roots_def]
  show "\<forall>n. in_package n \<longrightarrow> (hasKey (di_messages idx) n \<longleftrightarrow> wire_reachable idx roots n)"
  proof (intro allI impI)
    fix n assume "in_package n"
    then have "hasKey (di_messages idx) n \<longleftrightarrow> n \<in> set (local_names (di_messages idx))"
      by (auto simp: hasKey_def local_names_def)
    also have "\<dots> \<longleftrightarrow> wire_reachable idx roots n" using exact(1) by (simp add: names)
    finally show "hasKey (di_messages idx) n \<longleftrightarrow> wire_reachable idx roots n" .
  qed
  show "\<forall>n m f. wire_reachable idx roots n \<longrightarrow> map_of (di_messages idx) n = Some m \<longrightarrow>
      f \<in> set (md_fields m) \<longrightarrow> \<not> legacy_field f"
    using exact(1,4) by (fastforce simp: closed_up_to_def list_all_iff)
  show "card {n. wire_reachable idx roots n} = 12"
    using exact(1,2) size by (metis distinct_card)
  show "mset (map mt_name (ds_methods ds)) = mset EXPECTED_PROFILE_METHODS"
    using methods by (metis mset_sort)
  show "list_all (\<lambda>m. \<not> mt_clientStreaming m \<and> \<not> mt_serverStreaming m) (ds_methods ds)"
    using unary by (auto simp: list_ex_iff list_all_iff)
qed

section \<open>Paths stay inside the directory\<close>

definition proper_segment :: "jstr \<Rightarrow> bool" where
  "proper_segment s \<longleftrightarrow> s \<noteq> [] \<and> s \<noteq> lit ''.'' \<and> s \<noteq> lit ''..''"

lemma normal_segments_shape:
  "\<exists>k names. normal_segments True (rev ns @ replicate j (lit ''..'')) ss = replicate k (lit ''..'') @ names \<and>
     list_all proper_segment names"
  if "list_all proper_segment ns"
  using that
proof (induction ss arbitrary: ns j)
  case Nil
  then show ?case by (metis normal_segments.simps(1) rev_append rev_replicate rev_rev_ident)
next
  case (Cons s ss)
  show ?case
  proof (cases "s = [] \<or> s = lit ''.''")
    case True
    then show ?thesis using Cons.IH [OF Cons.prems, of j] by simp
  next
    case False
    show ?thesis
    proof (cases "s = lit ''..''")
      case up: True
      show ?thesis
      proof (cases ns rule: rev_cases)
        case Nil
        have "lit ''..'' # replicate j (lit ''..'') = replicate (Suc j) (lit ''..'')" by simp
        then show ?thesis using Cons.IH [of "[]" "Suc j"] False up by (cases j) (simp_all add: Nil)
      next
        case (snoc ms m)
        then show ?thesis using Cons.IH [of ms j] Cons.prems False up by (simp add: proper_segment_def)
      qed
    next
      case name: False
      then show ?thesis using Cons.IH [of "ns @ [s]" j] Cons.prems False by (simp add: proper_segment_def)
    qed
  qed
qed

lemma safe_path_descends:
  assumes "safeArtifactPath v = Inr ()"
  shows "\<exists>p. v = JStr p \<and> list_all proper_segment (join_segments p)"
proof -
  from assms obtain p where v: "v = JStr p" and p: "p \<noteq> []" "\<not> posix_isAbsolute p" "posix_normalize p = p"
    "p \<noteq> lit ''..''" "\<not> startsWith p (lit ''../'')"
    by (cases v) (auto simp: safeArtifactPath_def result_iff)
  obtain k names where shape: "join_segments p = replicate k (lit ''..'') @ names" "list_all proper_segment names"
    using normal_segments_shape [of "[]" 0 "split_on (lit ''/'') p"] by (auto simp: join_segments_def)
  have "k = 0"
  proof (rule ccontr)
    assume "k \<noteq> 0"
    then obtain rest where segs: "join_segments p = lit ''..'' # rest"
      using shape(1) by (cases k) auto
    have q: "\<exists>t. join (lit ''/'') (join_segments p) = lit ''..'' @ t \<and> (t = [] \<or> (\<exists>u. t = lit ''/'' @ u))"
      unfolding segs by (cases rest) (auto intro: exI [of _ "[]"])
    then have "join (lit ''/'') (join_segments p) \<noteq> []" by (auto simp: lit_def)
    with p(1-3) have "join (lit ''/'') (join_segments p) @ (if endsWith p (lit ''/'') then lit ''/'' else []) = p"
      by (simp add: posix_normalize_def join_segments_def)
    then have "\<exists>w. p = join (lit ''/'') (join_segments p) @ w \<and> (w = [] \<or> w = lit ''/'')" by metis
    with q obtain t w where "p = (lit ''..'' @ t) @ w" "t = [] \<or> (\<exists>u. t = lit ''/'' @ u)" "w = [] \<or> w = lit ''/''"
      by metis
    with p(4,5) show False by (auto simp: startsWith_iff lit_def)
  qed
  with shape v show ?thesis by simp
qed

section \<open>The bundle vouches for its files\<close>

lemma check_entry_path:
  assumes "check_entry p entry = Inr path"
  shows "field_of entry ''path'' = JStr path" "list_all proper_segment (join_segments path)"
proof -
  from assms have safe: "safeArtifactPath (field_of entry ''path'') = Inr ()" and path: "path = path_text entry"
    by (auto simp: check_entry_def result_iff)
  from safe_path_descends [OF safe] path show "field_of entry ''path'' = JStr path"
    and "list_all proper_segment (join_segments path)"
    by (auto simp: path_text_def)
qed

definition vouched :: "'a contract_platform_scheme \<Rightarrow> node \<Rightarrow> jsval \<Rightarrow> jstr \<times> byte list \<Rightarrow> bool" where
  "vouched p dir entry item \<longleftrightarrow>
     field_of entry ''path'' = JStr (fst item) \<and> readFileSync dir (fst item) = Inr (snd item) \<and>
     field_of entry ''bytes'' = JNum (num (int (length (snd item)))) \<and>
     field_of entry ''sha256'' = JStr (cp_sha256 p (snd item)) \<and> scanBoundary (snd item) = Inr ()"

lemma read_artifact_vouched:
  "read_artifact p dir entry = Inr item \<Longrightarrow> vouched p dir entry item"
  by (cases item) (auto simp: read_artifact_def vouched_def result_iff dest: check_entry_path)

lemma set_artifacts_fresh:
  "distinct (map fst (acc @ items)) \<Longrightarrow> foldl set_artifact acc items = acc @ items"
proof (induction items arbitrary: acc)
  case (Cons item items)
  then have "set_artifact acc item = acc @ [item]"
    by (auto simp: set_artifact_def set_prop_fresh)
  with Cons show ?case by simp
qed simp

lemma roles_distinct: "distinct (map fst ARTIFACT_ROLES)"
  by (simp add: ARTIFACT_ROLES_def lit_eq_iff)

lemma expectedPaths_distinct: "distinct expectedPaths"
  by (simp only: expectedPaths_def distinct_sort roles_distinct)

lemma readBundle_vouched:
  assumes "readBundle p dir = Inr st"
  shows "map fst (bs_artifacts st) = expectedPaths"
    and "list_all2 (vouched p dir) (items_of (field_of (bs_bundle st) ''artifacts'')) (bs_artifacts st)"
    and "readFileSync dir bundle_name = Inr (bs_bundlePayload st)"
    and "cp_sha256 p (bs_bundlePayload st) = bs_bundleHash st"
    and "recursiveFileInventory [] dir = expected_files"
proof -
  from assms obtain entries where
      entries: "mapE (read_artifact p dir) (items_of (field_of (bs_bundle st) ''artifacts'')) = Inr entries"
    and names: "map fst entries = expectedPaths" and arts: "bs_artifacts st = foldl set_artifact [] entries"
    and "readFileSync dir bundle_name = Inr (bs_bundlePayload st)"
      "cp_sha256 p (bs_bundlePayload st) = bs_bundleHash st" "recursiveFileInventory [] dir = expected_files"
    by (auto simp: readBundle_def same_texts_def same_texts result_iff)
  then show "readFileSync dir bundle_name = Inr (bs_bundlePayload st)"
    "cp_sha256 p (bs_bundlePayload st) = bs_bundleHash st" "recursiveFileInventory [] dir = expected_files"
    by simp_all
  have same: "bs_artifacts st = entries"
    using set_artifacts_fresh [of "[]" entries] names expectedPaths_distinct by (simp add: arts)
  with names show "map fst (bs_artifacts st) = expectedPaths" by simp
  from entries show "list_all2 (vouched p dir) (items_of (field_of (bs_bundle st) ''artifacts'')) (bs_artifacts st)"
    unfolding same mapE_Inr_iff by (rule list_all2_mono) (rule read_artifact_vouched)
qed

section \<open>The registry lists the known reasons\<close>

lemma check_reason_seen:
  "check_reason p seen entry = Inr seen' \<Longrightarrow>
   seen' = seen @ [field_of entry ''reason''] \<and>
   reason_matches (field_of entry ''reason'') = Inr () \<and> reason_matches (field_of entry ''grpc_code'') = Inr ()"
  by (auto simp: check_reason_def Let_def result_iff)

lemma check_reasons_seen:
  "foldE (check_reason p) seen entries = Inr seen' \<Longrightarrow>
   seen' = seen @ map (\<lambda>e. field_of e ''reason'') entries \<and>
   list_all (\<lambda>e. reason_matches (field_of e ''reason'') = Inr () \<and> reason_matches (field_of e ''grpc_code'') = Inr ())
     entries"
  by (induction entries arbitrary: seen) (fastforce simp: result_iff dest!: check_reason_seen)+

lemma normalize_text: "normalizeJson cmp v = JStr s \<Longrightarrow> v = JStr s \<or> (\<exists>i. v = JBig i)"
  by (cases v) simp_all

lemma normalize_texts:
  assumes "normalizeJson cmp (JArr vs) = texts ss" "\<forall>v \<in> set vs. \<forall>i. v \<noteq> JBig i"
  shows "vs = map JStr ss"
proof -
  from assms(1) have m: "map (normalizeJson cmp) vs = map JStr ss" by (simp add: texts_def)
  then have len: "length vs = length ss" by (metis length_map)
  have "vs ! i = map JStr ss ! i" if "i < length vs" for i
  proof -
    have "normalizeJson cmp (vs ! i) = JStr (ss ! i)" using m that len by (metis nth_map)
    with assms(2) that len show ?thesis by (auto dest!: normalize_text)
  qed
  with len show ?thesis by (simp add: list_eq_iff_nth_eq)
qed

lemma reason_not_big: "reason_matches v = Inr () \<Longrightarrow> v \<noteq> JBig i"
proof
  assume r: "reason_matches v = Inr ()" and v: "v = JBig i"
  have "is_digit (hd (dec_nat n)) \<and> dec_nat n \<noteq> []" for n
    using all_digits_dec_nat [of n] by (cases "dec_nat n") (auto simp: all_digits_def)
  then obtain c cs where "dec_int i = c # cs" "is_digit c \<or> c = of_char CHR ''-''"
    by (cases "i < 0"; cases "dec_nat (nat i)") (auto simp: dec_int_def lit_def, metis list.sel(1))
  with r show False
    by (auto simp: v reason_matches_def result_iff REASON_PATTERN_def is_digit_def unit_in_def word_le_nat_alt)
qed

lemma json_document_field: "json_document v \<Longrightarrow> field_of v k \<noteq> JUndef \<Longrightarrow> json_document (field_of v k)"
proof (cases v)
  case (JObj ps)
  assume "json_document v" "field_of v k \<noteq> JUndef"
  with JObj obtain w where "map_of ps (lit k) = Some w" "w \<noteq> JUndef" "field_of v k = w"
    by (auto simp: field_of_def own_prop_def split: option.splits)
  with \<open>json_document v\<close> JObj show ?thesis by (fastforce simp: list_all_iff dest: map_of_SomeD)
qed (simp_all add: field_of_def chain_member_def)

lemma json_document_item: "json_document v \<Longrightarrow> e \<in> set (items_of v) \<Longrightarrow> json_document e"
  by (cases v) (simp_all add: items_of_def list_all_iff)

lemma validateErrorReasonPolicy_reasons:
  assumes "validateErrorReasonPolicy p policy = Inr r" "json_document policy"
  shows "mset (map (\<lambda>e. field_of e ''reason'') (items_of (field_of policy ''reasons''))) =
      mset (map JStr EXPECTED_ERROR_REASONS)"
    and "r = policy"
proof -
  let ?entries = "items_of (field_of policy ''reasons'')"
  let ?seen = "map (\<lambda>e. field_of e ''reason'') ?entries"
  from assms(1) obtain seen where "r = policy" and fold: "foldE (check_reason p) [] ?entries = Inr seen"
    and keys: "exact_keys p policy [''$schema'', ''domain'', ''reasons'', ''schema_version'', ''unknown_reason_policy''] = Inr ()"
    and same: "same_json (cp_localeCompare p) (JArr (sort_key js_text seen)) (texts (sort EXPECTED_ERROR_REASONS))"
    by (auto simp: validateErrorReasonPolicy_def result_iff)
  then show "r = policy" by simp
  from check_reasons_seen [OF fold] have seen: "seen = ?seen"
    and ok: "\<forall>v \<in> set seen. reason_matches v = Inr ()"
    by (auto simp: list_all_iff)
  have "json_document v" if "v \<in> set seen" for v
  proof -
    from that obtain e where e: "e \<in> set ?entries" "v = field_of e ''reason''" by (auto simp: seen)
    from bspec [OF ok that] have "v \<noteq> JUndef"
      by (auto simp: reason_matches_def result_iff REASON_PATTERN_def lit_def unit_in_def)
    moreover from e(1) have "field_of policy ''reasons'' \<noteq> JUndef" by (auto simp: items_of_def)
    ultimately show ?thesis using e assms(2) by (metis json_document_field json_document_item)
  qed
  then have docs: "json_document (JArr (sort_key js_text seen))" by (simp add: list_all_iff)
  have "json_document (texts xs)" "normalizeJson cmp (texts xs) = texts xs" for cmp xs
    by (simp_all add: texts_def list_all_iff)
  with same docs have "normalizeJson (cp_localeCompare p) (JArr (sort_key js_text seen)) = texts (sort EXPECTED_ERROR_REASONS)"
    by (simp add: same_json_iff del: normalizeJson.simps)
  then have "sort_key js_text seen = map JStr (sort EXPECTED_ERROR_REASONS)"
    by (rule normalize_texts) (use ok reason_not_big in auto)
  then have "mset seen = mset (map JStr EXPECTED_ERROR_REASONS)" by (metis mset_map mset_sort)
  then show "mset ?seen = mset (map JStr EXPECTED_ERROR_REASONS)" by (simp only: seen)
qed

section \<open>Properties\<close>


definition sample_contract_platform :: contract_platform where
  "sample_contract_platform = \<lparr>cp_localeCompare = (\<lambda>a b. int (length a) - int (length b)),
     cp_sha256 = (\<lambda>_. replicate 64 (of_char CHR ''a'')), cp_regexp = (\<lambda>_. None)\<rparr>"

definition sample_artifact_entry :: jsval where
  "sample_artifact_entry = JObj
     [(lit ''bytes'', JNum (num 2)), (lit ''path'', JStr (lit ''error-reasons.json'')),
      (lit ''role'', JStr (lit ''error_registry'')), (lit ''sha256'', JStr (replicate 64 (of_char CHR ''a'')))]"

definition sample_directory :: node where
  "sample_directory = Dir_Node [(lit ''error-reasons.json'', File_Node [0x7B, 0x7D])]"

lemma occurs_short: "length s < length p \<Longrightarrow> \<not> occurs p s"
  by (induction s) auto

lemma sample_scan: "scanBoundary [0x7B, 0x7D] = Inr ()"
proof -
  have "length (scan_text [0x7B, 0x7D]) = 2" by code_simp
  then have none: "\<not> occurs p (scan_text [0x7B, 0x7D])" if "2 < length p" for p
    using that by (intro occurs_short) simp
  have "2 < length RETIRED_IMPLEMENTATION_MARKER" "list_all (\<lambda>marker. 2 < length marker) FORBIDDEN_EXPORT_MARKERS"
    "list_all (\<lambda>parts. list_all (\<lambda>c. 2 < length c) (forbidden_candidates parts)) TEXT_FORBIDDEN_PARTS"
    by (simp_all add: RETIRED_IMPLEMENTATION_MARKER_def FORBIDDEN_EXPORT_MARKERS_def forbidden_candidates_def
        TEXT_FORBIDDEN_PARTS_def toLowerCase_def)
  with none show ?thesis by (simp add: scanBoundary_def Let_def list_all_iff list_ex_iff result_iff)
qed

lemma sample_artifact_read:
  "read_artifact sample_contract_platform sample_directory sample_artifact_entry =
     Inr (lit ''error-reasons.json'', [0x7B, 0x7D])"
proof -
  have segs: "join_segments (lit ''error-reasons.json'') = [lit ''error-reasons.json'']" by code_simp
  have safe: "safeArtifactPath (JStr (lit ''error-reasons.json'')) = Inr ()" by code_simp
  have hex: "SHA256_PATTERN (replicate 64 97)" by code_simp
  have keys: "exact_keys sample_contract_platform sample_artifact_entry [''bytes'', ''path'', ''role'', ''sha256''] = Inr ()"
    by (simp add: exact_keys_def assertExactKeys_def assertObject_def sample_artifact_entry_def same_texts)
  have role: "artifact_role (JStr (lit ''error-reasons.json'')) = JStr (lit ''error_registry'')"
    by (simp add: artifact_role_def ARTIFACT_ROLES_def lit_eq_iff)
  have two: "(2::int) \<le> MAX_SAFE" by (simp add: MAX_SAFE_def)
  have fields: "field_of sample_artifact_entry ''bytes'' = JNum (num 2)"
    "field_of sample_artifact_entry ''path'' = JStr (lit ''error-reasons.json'')"
    "field_of sample_artifact_entry ''role'' = JStr (lit ''error_registry'')"
    "field_of sample_artifact_entry ''sha256'' = JStr (replicate 64 (of_char CHR ''a''))"
    by (simp_all add: field_of_def sample_artifact_entry_def lit_eq_iff)
  show ?thesis
    by (simp add: read_artifact_def check_entry_def keys fields safe hex role byte_count_def isSafeInteger_iff two path_text_def
        existsSync_def readFileSync_def segs sample_directory_def node_exists_def node_bytes_def sample_scan)
       (simp add: sample_contract_platform_def)
qed


text \<open>An accepted registry of error reasons lists exactly the reasons that the SDK knows, each
  once; the check returns the document unchanged.\<close>

theorem registry_lists_known_reasons:
  assumes "validateErrorReasonPolicy p policy = Inr r" "json_document policy"
  shows "mset (map (\<lambda>e. field_of e ''reason'') (items_of (field_of policy ''reasons''))) =
      mset (map JStr EXPECTED_ERROR_REASONS) \<and> r = policy"
  using validateErrorReasonPolicy_reasons [OF assms] by simp

definition sample_reason :: "jsval \<Rightarrow> jstr \<Rightarrow> jsval" where
  "sample_reason grpc_code reason = JObj
     [(lit ''consumer_category'', JStr (lit ''category'')), (lit ''grpc_code'', grpc_code),
      (lit ''reason'', JStr reason),
      (lit ''retry_policy'', JObj [(lit ''classification'', JStr (lit ''terminal'')),
         (lit ''reuse_idempotency_key'', JBool False)])]"

lemma sample_reason_checked:
  assumes "REASON_PATTERN reason" "JStr reason \<notin> set seen" "reason_matches grpc_code = Inr ()"
  shows "check_reason p seen (sample_reason grpc_code reason) = Inr (seen @ [JStr reason])"
proof -
  have fields: "field_of (sample_reason grpc_code reason) ''reason'' = JStr reason"
    "field_of (sample_reason grpc_code reason) ''grpc_code'' = grpc_code"
    "field_of (sample_reason grpc_code reason) ''consumer_category'' = JStr (lit ''category'')"
    "field_of (sample_reason grpc_code reason) ''retry_policy'' = JObj [(lit ''classification'', JStr (lit ''terminal'')),
       (lit ''reuse_idempotency_key'', JBool False)]"
    by (simp_all add: sample_reason_def field_of_def lit_eq_iff)
  have keys: "exact_keys p (sample_reason grpc_code reason)
      [''consumer_category'', ''grpc_code'', ''reason'', ''retry_policy''] = Inr ()"
    "exact_keys p (JObj [(lit ''classification'', JStr (lit ''terminal'')), (lit ''reuse_idempotency_key'', JBool False)])
      [''classification'', ''reuse_idempotency_key''] = Inr ()"
    by (simp_all add: exact_keys_def assertExactKeys_def assertObject_def sample_reason_def same_texts)
  have "js_set_has seen (JStr reason) = False" using assms(2) by (simp add: js_set_has_def)
  then show ?thesis
    using assms(1,3)
    by (simp add: check_reason_def Let_def keys fields reason_matches_def [of "JStr reason"] field_of_def [of "JObj _"]
        lit_eq_iff nonempty_text_def is_boolean_def)
qed

definition sample_registry :: jsval where
  "sample_registry = JObj
     [(lit ''$schema'', JStr (lit ''schemas/error-reasons.schema.json'')), (lit ''domain'', JStr ERROR_INFO_DOMAIN),
      (lit ''reasons'', JArr (map (sample_reason (JStr (lit ''UNAVAILABLE''))) EXPECTED_ERROR_REASONS)),
      (lit ''schema_version'', JNum (num 1)), (lit ''unknown_reason_policy'', JStr (lit ''preserve''))]"

lemma sample_reasons_fold:
  "list_all REASON_PATTERN rs \<Longrightarrow> distinct rs \<Longrightarrow> set seen \<inter> JStr ` set rs = {} \<Longrightarrow>
   reason_matches grpc_code = Inr () \<Longrightarrow>
   foldE (check_reason p) seen (map (sample_reason grpc_code) rs) = Inr (seen @ map JStr rs)"
proof (induction rs arbitrary: seen)
  case (Cons r rs)
  then have "foldE (check_reason p) (seen @ [JStr r]) (map (sample_reason grpc_code) rs) =
      Inr ((seen @ [JStr r]) @ map JStr rs)"
    by (intro Cons.IH) auto
  with Cons.prems show ?case by (simp add: sample_reason_checked)
qed simp

lemma sample_registry_accepted: "validateErrorReasonPolicy sample_contract_platform sample_registry = Inr sample_registry"
proof -
  have keys: "exact_keys sample_contract_platform sample_registry
      [''$schema'', ''domain'', ''reasons'', ''schema_version'', ''unknown_reason_policy''] = Inr ()"
    by (simp add: exact_keys_def assertExactKeys_def assertObject_def sample_registry_def same_texts)
  have fields: "field_of sample_registry ''$schema'' = JStr (lit ''schemas/error-reasons.schema.json'')"
    "field_of sample_registry ''domain'' = JStr ERROR_INFO_DOMAIN"
    "field_of sample_registry ''reasons'' = JArr (map (sample_reason (JStr (lit ''UNAVAILABLE''))) EXPECTED_ERROR_REASONS)"
    "field_of sample_registry ''schema_version'' = JNum (num 1)"
    "field_of sample_registry ''unknown_reason_policy'' = JStr (lit ''preserve'')"
    by (simp_all add: sample_registry_def field_of_def lit_eq_iff)
  have patterns: "list_all REASON_PATTERN EXPECTED_ERROR_REASONS" "distinct EXPECTED_ERROR_REASONS"
    "sorted EXPECTED_ERROR_REASONS" "reason_matches (JStr (lit ''UNAVAILABLE'')) = Inr ()"
    by code_simp+
  have "map js_text (map JStr EXPECTED_ERROR_REASONS) = EXPECTED_ERROR_REASONS"
    by (simp add: js_text_def comp_def)
  with patterns(3) have "sort_key js_text (map JStr EXPECTED_ERROR_REASONS) = map JStr EXPECTED_ERROR_REASONS"
    by (intro sort_key_id_if_sorted) simp
  with sample_reasons_fold [OF patterns(1,2) _ patterns(4), of "[]" sample_contract_platform] patterns(3)
  show ?thesis
    by (simp add: validateErrorReasonPolicy_def keys fields text_is_def one_is_def is_array_def items_of_def
        sorted_sort_id same_json_def texts_def)
qed

lemma sample_registry_document: "json_document sample_registry"
proof -
  have "json_document (sample_reason (JStr g) r)" for g r
    by (simp add: sample_reason_def lit_eq_iff)
  moreover have "(1::int) \<le> MAX_SAFE" by (simp add: MAX_SAFE_def)
  ultimately show ?thesis
    by (simp add: sample_registry_def lit_eq_iff is_double_num list_all_iff)
qed

theorem registry_lists_known_reasons_witness:
  "mset (map (\<lambda>e. field_of e ''reason'') (items_of (field_of sample_registry ''reasons''))) =
     mset (map JStr EXPECTED_ERROR_REASONS)"
  using registry_lists_known_reasons [OF sample_registry_accepted sample_registry_document] by simp

text \<open>The pattern test converts its operand to a text, so an array that holds one code passes for
  a code.\<close>

theorem grpc_code_array_accepted:
  "check_reason p [] (sample_reason (JArr [JStr (lit ''UNAVAILABLE'')]) (lit ''BACKPRESSURE'')) =
     Inr [JStr (lit ''BACKPRESSURE'')]"
proof -
  have "REASON_PATTERN (lit ''BACKPRESSURE'')" "reason_matches (JArr [JStr (lit ''UNAVAILABLE'')]) = Inr ()"
    by code_simp+
  from sample_reason_checked [OF this(1) _ this(2), of "[]" p] show ?thesis by simp
qed

end
