(* ===== verification/Contract_Sync_Facts.thy ===== *)
theory Contract_Sync_Facts
  imports Contract_Sync Contract_Facts
begin

text \<open>
  What the commands on the contract guarantee: the replacement of the vendored directory leaves
  the old or the new one, a synchronisation writes a tree in which the following check finds no
  drift, and a command line selects exactly one mode.
\<close>

section \<open>Trees\<close>

text \<open>Two paths of which neither leads through the other.\<close>

fun diverge :: "'a list \<Rightarrow> 'a list \<Rightarrow> bool" where
  "diverge (a # as) (b # bs) = (a \<noteq> b \<or> diverge as bs)"
| "diverge _ _ = False"

lemma find_put_same: "put_node n ss new = Some n' \<Longrightarrow> find_node n' ss = Some new"
  by (induction n ss new arbitrary: n' rule: put_node.induct) (auto simp: map_of_set_prop)

lemma find_put_other: "put_node n ss new = Some n' \<Longrightarrow> diverge ss ts \<Longrightarrow> find_node n' ts = find_node n ts"
proof (induction n ss new arbitrary: n' ts rule: put_node.induct)
  case (2 entries s ss new)
  then obtain m where m: "put_node (orElse (map_of entries s) (Dir_Node [])) ss new = Some m"
    and n': "n' = Dir_Node (set_prop entries s m)" by auto
  obtain t ts' where ts: "ts = t # ts'" using "2.prems"(2) by (cases ts) auto
  show ?case
  proof (cases "t = s")
    case True
    then have d: "diverge ss ts'" using "2.prems"(2) ts by simp
    then have "ts' \<noteq> []" by (cases ss) auto
    then have "find_node (Dir_Node []) ts' = None" by (cases ts') auto
    with "2.IH" [OF m d] True show ?thesis
      by (cases "map_of entries s") (auto simp: n' ts map_of_set_prop)
  qed (simp add: n' ts map_of_set_prop)
qed auto

section \<open>The replacement is atomic\<close>

lemma vendor_export_cases:
  assumes "writeVendoredExport fails st \<lparr>vd_destination = old, vd_previous = None, vd_staging = None\<rparr> = (out, d)"
  shows "out = Inr () \<Longrightarrow> d = \<lparr>vd_destination = export_tree st, vd_previous = None, vd_staging = None\<rparr> \<and> export_tree st \<noteq> None"
    and "vd_destination d = old \<or> vd_destination d = export_tree st \<or> fails Restore \<and> vd_destination d = None"
  using assms
  by (auto simp: writeVendoredExport_def vendor_finally_def vendor_catch_def vendor_try_def and_next_def
      step_if_def split: if_splits)

section \<open>The export reads back\<close>

lemma roles_sorted: "sorted (map fst ARTIFACT_ROLES)"
  by code_simp

lemma expectedPaths_eq: "expectedPaths = map fst ARTIFACT_ROLES"
  by (simp only: expectedPaths_def sorted_sort_id [OF roles_sorted])

lemma bundle_segments:
  "map join_segments (bundle_name # checksum_name # map fst ARTIFACT_ROLES) = map (map lit)
     [[''bundle.json''], [''bundle.sha256''],
      [''conformance'', ''external-sdk-ingestion.json''],
      [''conformance'', ''schemas'', ''fixture-document.schema.json''],
      [''connect-idempotency-policy.json''], [''descriptor.binpb''], [''error-reasons.json''],
      [''external_ingestion_sdk_v1.json''], [''release-attestation.json''],
      [''schemas'', ''error-reasons.schema.json''],
      [''schemas'', ''external-ingestion-sdk-v1.schema.json'']]"
  by code_simp

lemma derived_segments:
  "map join_segments [VENDOR_RELATIVE, LOCAL_DESCRIPTOR_RELATIVE, LOCAL_PROTO_RELATIVE, VALIDATION_PROTO_RELATIVE,
     ALLOWLIST_RELATIVE, SUPPORTED_ROUTES_RELATIVE, TYPESCRIPT_ERROR_POLICY_RELATIVE, GO_ERROR_POLICY_RELATIVE,
     PYTHON_ERROR_POLICY_RELATIVE] = map (map lit)
     [[''proto'', ''external-ingestion-contract'', ''v1''], [''proto'', ''external-ingestion-v1.descriptor.binpb''],
      [''proto'', ''medallion'', ''connect'', ''v1'', ''connect.proto''],
      [''proto'', ''buf'', ''validate'', ''validate.proto''], [''proto'', ''external-ingestion-v1.json''],
      [''proto'', ''client-facing-routes.json''], [''src'', ''error-policy.ts''],
      [''go'', ''error_policy_generated.go''],
      [''python'', ''src'', ''medallion'', ''error_policy_generated.py'']]"
  by code_simp

definition export_names :: "jstr list" where
  "export_names = bundle_name # checksum_name # map fst ARTIFACT_ROLES"

lemmas export_segments =
  bundle_segments [unfolded bundle_name_def checksum_name_def ARTIFACT_ROLES_def, simplified]

text \<open>The tree of the eleven files of an export.\<close>

definition export_shape :: "byte list list \<Rightarrow> node" where
  "export_shape bs = Dir_Node
     [(lit ''bundle.json'', File_Node (bs ! 0)), (lit ''bundle.sha256'', File_Node (bs ! 1)),
      (lit ''conformance'', Dir_Node
        [(lit ''external-sdk-ingestion.json'', File_Node (bs ! 2)),
         (lit ''schemas'', Dir_Node [(lit ''fixture-document.schema.json'', File_Node (bs ! 3))])]),
      (lit ''connect-idempotency-policy.json'', File_Node (bs ! 4)),
      (lit ''descriptor.binpb'', File_Node (bs ! 5)),
      (lit ''error-reasons.json'', File_Node (bs ! 6)),
      (lit ''external_ingestion_sdk_v1.json'', File_Node (bs ! 7)),
      (lit ''release-attestation.json'', File_Node (bs ! 8)),
      (lit ''schemas'', Dir_Node
        [(lit ''error-reasons.schema.json'', File_Node (bs ! 9)),
         (lit ''external-ingestion-sdk-v1.schema.json'', File_Node (bs ! 10))])]"

lemma length_11:
  "length bs = 11 \<Longrightarrow>
   bs = [bs ! 0, bs ! 1, bs ! 2, bs ! 3, bs ! 4, bs ! 5, bs ! 6, bs ! 7, bs ! 8, bs ! 9, bs ! 10]"
  by (simp add: list_eq_iff_nth_eq nth_Cons numeral_eq_Suc less_Suc_eq split: nat.splits)

lemma export_names_eq: "export_names = map lit
    [''bundle.json'', ''bundle.sha256'', ''conformance/external-sdk-ingestion.json'',
     ''conformance/schemas/fixture-document.schema.json'', ''connect-idempotency-policy.json'',
     ''descriptor.binpb'', ''error-reasons.json'', ''external_ingestion_sdk_v1.json'',
     ''release-attestation.json'', ''schemas/error-reasons.schema.json'',
     ''schemas/external-ingestion-sdk-v1.schema.json'']"
  by (simp add: export_names_def bundle_name_def checksum_name_def ARTIFACT_ROLES_def)

lemma export_tree_shape:
  assumes "length bs = 11"
  shows "foldl put_file (Some (Dir_Node [])) (zip export_names bs) = Some (export_shape bs)"
  by (subst length_11 [OF assms])
     (simp add: export_names_eq put_file_def export_segments lit_eq_iff export_shape_def)

lemma export_shape_reads:
  assumes "length bs = 11"
  shows "map (readFileSync (export_shape bs)) export_names = map Inr bs"
    and "list_all (existsSync (export_shape bs)) export_names"
proof -
  show "map (readFileSync (export_shape bs)) export_names = map Inr bs"
    by (subst (2) length_11 [OF assms])
       (simp add: export_names_eq readFileSync_def export_segments lit_eq_iff export_shape_def node_bytes_def)
  show "list_all (existsSync (export_shape bs)) export_names"
    by (simp add: export_names_eq existsSync_def export_segments lit_eq_iff export_shape_def node_exists_def)
qed

lemma export_shape_inventory: "recursiveFileInventory [] (export_shape bs) = expected_files"
proof -
  have names: "expected_files = sort export_names"
    by (simp add: expected_files_def expectedPaths_eq export_names_def)
  let ?found = "inventory_entries [] (case export_shape bs of Dir_Node es \<Rightarrow> es)"
  have "mset ?found = mset export_names"
    by (simp add: export_shape_def export_names_eq prefixed_def lit_def)
  then have "sort ?found = sort export_names" by (intro properties_for_sort) simp_all
  then show ?thesis by (simp add: names export_shape_def)
qed

lemma read_exists: "readFileSync dir path = Inr bs \<Longrightarrow> existsSync dir path"
  by (auto simp: readFileSync_def existsSync_def node_bytes_def node_exists_def split: option.splits node.splits)

lemma check_entry_text: "check_entry p entry = Inr path \<Longrightarrow> path = path_text entry"
  by (auto simp: check_entry_def result_iff)

lemma read_artifact_cong:
  assumes "readFileSync dir (path_text entry) = Inr bs" "readFileSync dir' (path_text entry) = Inr bs"
  shows "read_artifact p dir' entry = read_artifact p dir entry"
  using assms read_exists [OF assms(1)] read_exists [OF assms(2)]
  by (cases "check_entry p entry") (auto simp: read_artifact_def dest!: check_entry_text)

definition export_bytes :: "bundle_state \<Rightarrow> byte list list" where
  "export_bytes st = bs_bundlePayload st # bs_checksumPayload st # map snd (bs_artifacts st)"

lemma vouched_path: "vouched p dir entry item \<Longrightarrow> path_text entry = fst item"
  by (simp add: vouched_def path_text_def)

lemma vouched_items:
  assumes "list_all2 (vouched p dir) entries items" "distinct (map fst items)"
  shows "map (\<lambda>entry. (path_text entry, orElse (map_of items (path_text entry)) [])) entries = items"
proof (rule nth_equalityI)
  show "length (map (\<lambda>entry. (path_text entry, orElse (map_of items (path_text entry)) [])) entries) = length items"
    using assms(1) by (simp add: list_all2_lengthD)
next
  fix i assume "i < length (map (\<lambda>entry. (path_text entry, orElse (map_of items (path_text entry)) [])) entries)"
  then have i: "i < length entries" "i < length items" using assms(1) by (simp_all add: list_all2_lengthD)
  have "path_text (entries ! i) = fst (items ! i)"
    using list_all2_nthD [OF assms(1) i(1)] by (rule vouched_path)
  moreover have "map_of items (fst (items ! i)) = Some (snd (items ! i))"
    using assms(2) i(2) by (simp add: map_of_eq_Some_iff)
  ultimately show "map (\<lambda>entry. (path_text entry, orElse (map_of items (path_text entry)) [])) entries ! i = items ! i"
    using i by simp
qed

lemma readBundle_facts:
  assumes "readBundle p dir = Inr st"
  shows "existsSync dir bundle_name" "existsSync dir checksum_name"
    "readFileSync dir checksum_name = Inr (bs_checksumPayload st)"
    "parseSingleChecksum (bs_checksumPayload st) bundle_name = Inr (bs_bundleHash st)"
    "parseJson (bs_bundlePayload st) = Inr (bs_bundle st)"
    "exact_keys p (bs_bundle st) [''artifacts'', ''bundle_id'', ''contract_version'', ''release_status'', ''schema_version''] = Inr ()"
    "release_metadata (bs_bundle st) = Inr ()"
    "mapE (read_artifact p dir) (items_of (field_of (bs_bundle st) ''artifacts'')) = Inr (bs_artifacts st)"
    "scanBoundary (bs_bundlePayload st) = Inr ()"
proof -
  have names: "map fst (bs_artifacts st) = expectedPaths" by (rule readBundle_vouched [OF assms])
  from assms obtain entries where
      entries: "mapE (read_artifact p dir) (items_of (field_of (bs_bundle st) ''artifacts'')) = Inr entries"
    and arts: "bs_artifacts st = foldl set_artifact [] entries" and "map fst entries = expectedPaths"
    by (auto simp: readBundle_def same_texts_def same_texts result_iff)
  with set_artifacts_fresh [of "[]" entries] expectedPaths_distinct
  show "mapE (read_artifact p dir) (items_of (field_of (bs_bundle st) ''artifacts'')) = Inr (bs_artifacts st)"
    by simp
qed (use assms in \<open>auto simp: readBundle_def result_iff\<close>)

lemma export_tree_of:
  assumes "readBundle p dir = Inr st"
  shows "export_tree st = Some (export_shape (export_bytes st))" "length (export_bytes st) = 11"
    "zip export_names (export_bytes st) = (bundle_name, bs_bundlePayload st) # (checksum_name, bs_checksumPayload st) # bs_artifacts st"
proof -
  note v = readBundle_vouched [OF assms]
  have names: "map fst (bs_artifacts st) = map fst ARTIFACT_ROLES" using v(1) by (simp add: expectedPaths_eq)
  have "length ARTIFACT_ROLES = 9" by (simp add: ARTIFACT_ROLES_def)
  with arg_cong [OF names, of length] have "length (bs_artifacts st) = 9" by simp
  then show len: "length (export_bytes st) = 11" by (simp add: export_bytes_def)
  have "zip (map fst (bs_artifacts st)) (map snd (bs_artifacts st)) = bs_artifacts st" by (rule zip_map_fst_snd)
  then show z: "zip export_names (export_bytes st) = (bundle_name, bs_bundlePayload st) # (checksum_name, bs_checksumPayload st) # bs_artifacts st"
    by (simp add: export_names_def export_bytes_def names)
  have "export_items st = zip export_names (export_bytes st)"
    using vouched_items [OF v(2)] v(1) expectedPaths_distinct by (simp add: export_items_def z)
  then show "export_tree st = Some (export_shape (export_bytes st))"
    using export_tree_shape [OF len] by (simp add: export_tree_def)
qed

lemma map_eq_zip: "map f xs = map g ys \<Longrightarrow> \<forall>item \<in> set (zip xs ys). f (fst item) = g (snd item)"
proof (induction xs arbitrary: ys)
  case (Cons x xs)
  then show ?case by (cases ys) simp_all
qed simp

lemma export_reads_back:
  assumes "readBundle p dir = Inr st"
  shows "readBundle p (export_shape (export_bytes st)) = Inr st"
proof -
  let ?new = "export_shape (export_bytes st)"
  note v = readBundle_vouched [OF assms] and f = readBundle_facts [OF assms] and e = export_tree_of [OF assms]
  have reads: "\<forall>item \<in> set (zip export_names (export_bytes st)). readFileSync ?new (fst item) = Inr (snd item)"
    by (rule map_eq_zip [OF export_shape_reads(1) [OF e(2)]])
  then have two: "readFileSync ?new bundle_name = Inr (bs_bundlePayload st)"
    "readFileSync ?new checksum_name = Inr (bs_checksumPayload st)"
    and arts: "\<forall>item \<in> set (bs_artifacts st). readFileSync ?new (fst item) = Inr (snd item)"
    unfolding e(3) by simp_all
  have "mapE (read_artifact p ?new) (items_of (field_of (bs_bundle st) ''artifacts'')) =
      mapE (read_artifact p dir) (items_of (field_of (bs_bundle st) ''artifacts''))"
  proof (rule mapE_cong [OF refl])
    fix entry assume "entry \<in> set (items_of (field_of (bs_bundle st) ''artifacts''))"
    from list_all2_in [OF v(2) this] obtain item where
      "item \<in> set (bs_artifacts st)" "vouched p dir entry item" by blast
    then show "read_artifact p ?new entry = read_artifact p dir entry"
      using arts vouched_path [of p dir entry item] by (intro read_artifact_cong) (auto simp: vouched_def)
  qed
  with f v two read_exists [OF two(1)] read_exists [OF two(2)] show ?thesis
    using set_artifacts_fresh [of "[]" "bs_artifacts st"] expectedPaths_distinct
    by (simp add: readBundle_def same_texts_def same_texts export_shape_inventory)
qed

section \<open>A synchronisation leaves no drift\<close>

definition derived_paths :: "jstr list" where
  "derived_paths = [LOCAL_DESCRIPTOR_RELATIVE, LOCAL_PROTO_RELATIVE, VALIDATION_PROTO_RELATIVE,
     ALLOWLIST_RELATIVE, SUPPORTED_ROUTES_RELATIVE, TYPESCRIPT_ERROR_POLICY_RELATIVE,
     GO_ERROR_POLICY_RELATIVE, PYTHON_ERROR_POLICY_RELATIVE]"

lemma derive_paths: "deriveArtifacts p v = Inr derived \<Longrightarrow> map fst derived = derived_paths"
  by (auto simp: deriveArtifacts_def derived_paths_def result_iff)

text \<open>No two of the written places overlap.\<close>

lemma places_diverge:
  "list_all (\<lambda>q. diverge (join_segments q) (join_segments VENDOR_RELATIVE)) derived_paths"
  "sorted_wrt (\<lambda>a b. diverge (join_segments b) (join_segments a)) derived_paths"
proof -
  note segs = derived_segments [unfolded list.map list.inject]
  show "list_all (\<lambda>q. diverge (join_segments q) (join_segments VENDOR_RELATIVE)) derived_paths"
    by (simp add: derived_paths_def segs lit_eq_iff)
  show "sorted_wrt (\<lambda>a b. diverge (join_segments b) (join_segments a)) derived_paths"
    by (simp add: derived_paths_def segs lit_eq_iff)
qed

lemma atomicWrite_put:
  "atomicWrite tree item = Inr tree' \<Longrightarrow>
   put_node tree (join_segments (fst item)) (File_Node (snd item)) = Some tree'"
  by (auto simp: atomicWrite_def split: option.splits node.splits)

lemma writes_keep:
  "foldE atomicWrite tree items = Inr tree' \<Longrightarrow>
   \<forall>item \<in> set items. diverge (join_segments (fst item)) segs \<Longrightarrow> find_node tree' segs = find_node tree segs"
  by (induction items arbitrary: tree)
     (auto simp: result_iff dest!: atomicWrite_put find_put_other [where ts = segs])

lemma writes_found:
  "foldE atomicWrite tree items = Inr tree' \<Longrightarrow>
   sorted_wrt (\<lambda>a b. diverge (join_segments b) (join_segments a)) (map fst items) \<Longrightarrow>
   \<forall>item \<in> set items. find_node tree' (join_segments (fst item)) = Some (File_Node (snd item))"
proof (induction items arbitrary: tree)
  case (Cons item items)
  then obtain tree1 where w: "atomicWrite tree item = Inr tree1" and r: "foldE atomicWrite tree1 items = Inr tree'"
    by (auto simp: result_iff)
  have "find_node tree' (join_segments (fst item)) = find_node tree1 (join_segments (fst item))"
    using Cons.prems(2) by (intro writes_keep [OF r]) auto
  also have "\<dots> = Some (File_Node (snd item))" by (rule find_put_same [OF atomicWrite_put [OF w]])
  finally show ?case using Cons.IH [OF r] Cons.prems(2) by simp
qed simp

lemma found_not_drifted:
  "find_node tree (join_segments (fst item)) = Some (File_Node (snd item)) \<Longrightarrow> check_derived tree item = Inr ()"
  by (simp add: check_derived_def existsSync_def readFileSync_def node_exists_def node_bytes_def)

lemma vendor_replace_find:
  assumes "vendor_replace fails st tree = Inr tree'"
  shows "find_node tree' (join_segments VENDOR_RELATIVE) = export_tree st \<and> export_tree st \<noteq> None"
proof -
  obtain out d where w: "writeVendoredExport fails st
      \<lparr>vd_destination = find_node tree (join_segments VENDOR_RELATIVE), vd_previous = None, vd_staging = None\<rparr> = (out, d)"
    by fastforce
  with assms have "out = Inr ()" and p: "\<exists>new. vd_destination d = Some new \<and> put_node tree (join_segments VENDOR_RELATIVE) new = Some tree'"
    by (auto simp: vendor_replace_def split: sum.splits option.splits)
  with vendor_export_cases(1) [OF w] show ?thesis by (auto dest: find_put_same)
qed

text \<open>The check at the end of a synchronisation: the bundle reads back, validates again and
  agrees with every derived file, so that only the generated surfaces can fail it.\<close>

lemma check_after_sync:
  assumes "readBundle p source = Inr st" "validateBundleState p depth st = Inr v" "deriveArtifacts p v = Inr derived"
    "vendor_replace fails st tree = Inr tree1" "foldE atomicWrite tree1 derived = Inr tree2"
  shows "checkContract p depth tree2 = thenE (validateGeneratedScopeSurfaces tree2) (resultFrom p v)"
proof -
  note paths = derive_paths [OF assms(3)]
  have "find_node tree2 (join_segments VENDOR_RELATIVE) = find_node tree1 (join_segments VENDOR_RELATIVE)"
  proof (rule writes_keep [OF assms(5)])
    show "\<forall>item \<in> set derived. diverge (join_segments (fst item)) (join_segments VENDOR_RELATIVE)"
      using places_diverge(1) by (simp add: paths [symmetric] list_all_iff)
  qed
  also have "\<dots> = Some (export_shape (export_bytes st))"
    using vendor_replace_find [OF assms(4)] export_tree_of(1) [OF assms(1)] by simp
  finally have again: "readBundle p (vendor_dir tree2) = Inr st"
    using export_reads_back [OF assms(1)] by (simp add: vendor_dir_def)
  have "\<forall>item \<in> set derived. check_derived tree2 item = Inr ()"
    using writes_found [OF assms(5)] places_diverge(2) by (auto simp: paths intro: found_not_drifted)
  then have "mapE (check_derived tree2) derived = Inr (map (\<lambda>_. ()) derived)" by (intro mapE_all_ok) simp
  with again assms(2,3) show ?thesis by (simp add: checkContract_def)
qed

text \<open>C17. A synchronisation never ends in drift: once the bundle was read, validated and written,
  the check that \<open>syncContract\<close> runs at its end reads the same bundle back from the vendored
  directory and finds every derived file as it was written, so it can fail only for the generated
  surfaces.\<close>

theorem sync_leaves_no_drift:
  "syncContract p depth fails source tree =
     bindE (readBundle p source) (\<lambda>st.
     bindE (validateBundleState p depth st) (\<lambda>v.
     bindE (deriveArtifacts p v) (\<lambda>derived.
     bindE (vendor_replace fails st tree) (\<lambda>tree1.
     bindE (foldE atomicWrite tree1 derived) (\<lambda>tree2.
     thenE (validateGeneratedScopeSurfaces tree2)
       (bindE (resultFrom p v) (\<lambda>r. Inr (r, tree2))))))))"
proof -
  have reassoc: "bindE (thenE a b) f = thenE a (bindE b f)" for a b f
    by (cases a) simp_all
  show ?thesis
    unfolding syncContract_def
    by (intro bindE_cong refl) (simp add: check_after_sync reassoc)
qed

text \<open>C15. The replacement of the vendored directory is atomic: whichever of its file system calls
  fail, the directory is afterwards the one before or the complete export, and it is the export
  with nothing left beside it when the call returns. Only a failure to move the old directory back
  leaves neither.\<close>

theorem vendor_export_atomic:
  "case writeVendoredExport fails st \<lparr>vd_destination = old, vd_previous = None, vd_staging = None\<rparr> of
     (Inr _, d) \<Rightarrow> d = \<lparr>vd_destination = export_tree st, vd_previous = None, vd_staging = None\<rparr> \<and> export_tree st \<noteq> None
   | (Inl _, d) \<Rightarrow> vd_destination d = old \<or> vd_destination d = export_tree st \<or>
       fails Restore \<and> vd_destination d = None"
proof -
  obtain out d where w: "writeVendoredExport fails st
      \<lparr>vd_destination = old, vd_previous = None, vd_staging = None\<rparr> = (out, d)" by fastforce
  from vendor_export_cases [OF w] show ?thesis unfolding w by (cases out) auto
qed

text \<open>When the old directory cannot be moved back, the clean-up deletes it all the same: neither
  the old export nor the new one is left.\<close>

theorem failed_restore_deletes_previous:
  "writeVendoredExport (\<lambda>s. s = Move_In \<or> s = Restore) st
     \<lparr>vd_destination = Some old, vd_previous = None, vd_staging = None\<rparr> =
   (Inl io_error, \<lparr>vd_destination = None, vd_previous = None, vd_staging = None\<rparr>) \<or> export_tree st = None"
  by (simp add: writeVendoredExport_def vendor_finally_def vendor_catch_def vendor_try_def and_next_def step_if_def)

end
