(* ===== verification/License_Paths.thy ===== *)
theory License_Paths
  imports Contract_Sync
begin

text \<open>
  The paths and files that src/scripts/generate_third_party_licenses.mjs works with: absolute
  POSIX paths as lists of names from the root, what \<open>resolve\<close> and \<open>relative\<close> of node:path give
  on them, \<open>isWithin\<close>, and reading a package.json from a tree of files.
\<close>

type_synonym abs_path = "jstr list"

section \<open>Paths\<close>

text \<open>\<open>resolve(base, p)\<close> for an absolute base.\<close>

definition resolve_path :: "abs_path \<Rightarrow> jstr \<Rightarrow> abs_path" where
  "resolve_path base p =
     normal_segments False (if posix_isAbsolute p then [] else rev base) (split_on (lit ''/'') p)"

definition path_string :: "abs_path \<Rightarrow> jstr" where
  "path_string p = lit ''/'' @ join (lit ''/'') p"

text \<open>\<open>relative(from, to)\<close>: up to the last common directory, then down.\<close>

fun relative_segments :: "abs_path \<Rightarrow> abs_path \<Rightarrow> jstr list" where
  "relative_segments (a # as) (b # bs) =
     (if a = b then relative_segments as bs
      else replicate (length (a # as)) (lit ''..'') @ b # bs)"
| "relative_segments as bs = replicate (length as) (lit ''..'') @ bs"

definition relative_path :: "abs_path \<Rightarrow> abs_path \<Rightarrow> jstr" where
  "relative_path source target = join (lit ''/'') (relative_segments source target)"

definition isWithin :: "abs_path \<Rightarrow> abs_path \<Rightarrow> bool" where
  "isWithin parent child =
     (let path = relative_path parent child in
      path \<noteq> [] \<and> path \<noteq> lit ''..'' \<and> \<not> startsWith path (lit ''../'') \<and> \<not> posix_isAbsolute path)"

section \<open>Texts\<close>

text \<open>\<open>text.replace(/\r\n?/g, "\n")\<close>.\<close>

function normalizedText :: "jstr \<Rightarrow> jstr" where
  "normalizedText [] = []"
| "normalizedText (u # us) =
     (if u = 13 then 10 # normalizedText (if us \<noteq> [] \<and> hd us = 10 then tl us else us)
      else u # normalizedText us)"
  by pat_completeness auto
termination by (relation "measure length") auto

definition trimEnd :: "jstr \<Rightarrow> jstr" where
  "trimEnd s = rev (dropWhile is_js_space (rev s))"

section \<open>Files\<close>

definition license_fail :: thrown where
  "license_fail = Foreign \<lparr>fe_is_error = True, fe_is_dom = False, fe_name = lit ''Error'', fe_message = []\<rparr>"

text \<open>\<open>existsSync(p) && statSync(p).isFile()\<close>, \<open>statSync(p).isDirectory()\<close> and \<open>readdirSync(p)\<close>.\<close>

definition is_regular :: "node option \<Rightarrow> bool" where
  "is_regular n = (case n of Some (File_Node _) \<Rightarrow> True | Some (Link_Node (Some _)) \<Rightarrow> True | _ \<Rightarrow> False)"

definition stat_directory :: "node option \<Rightarrow> thrown + bool" where
  "stat_directory n = (if node_exists n then Inr (\<not> is_regular n) else Inl io_error)"

definition dir_entries :: "node option \<Rightarrow> thrown + (jstr \<times> node) list" where
  "dir_entries n = (case n of Some (Dir_Node entries) \<Rightarrow> Inr entries | _ \<Rightarrow> Inl io_error)"

definition isObject :: "jsval \<Rightarrow> bool" where
  "isObject v = (case v of JObj _ \<Rightarrow> True | _ \<Rightarrow> False)"

definition parseJsonFile :: "node \<Rightarrow> abs_path \<Rightarrow> thrown + jsval" where
  "parseJsonFile tree p = tryE (bindE (node_bytes (find_node tree p)) parseJson) (\<lambda>_. Inl license_fail)"

definition package_json :: "abs_path \<Rightarrow> abs_path" where
  "package_json dir = dir @ [lit ''package.json'']"

text \<open>Whether a directory holds the package.json of a package: one that names its version and
  its license.\<close>

definition is_text :: "jsval \<Rightarrow> bool" where
  "is_text v = (case v of JStr _ \<Rightarrow> True | _ \<Rightarrow> False)"

definition declares_package :: "node \<Rightarrow> abs_path \<Rightarrow> thrown + bool" where
  "declares_package tree dir =
     (if \<not> is_regular (find_node tree (package_json dir)) then Inr False
      else bindE (parseJsonFile tree (package_json dir)) (\<lambda>metadata.
             thenE (present metadata)
               (Inr (is_text (field_of metadata ''name'') \<and> is_text (field_of metadata ''version'') \<and>
                     is_text (field_of metadata ''license'')))))"

function package_root_from :: "node \<Rightarrow> abs_path \<Rightarrow> abs_path \<Rightarrow> thrown + abs_path" where
  "package_root_from tree nodeModulesRoot cursor =
     (if \<not> isWithin nodeModulesRoot cursor then Inl license_fail
      else bindE (declares_package tree cursor) (\<lambda>found.
             if found then Inr cursor
             else if butlast cursor = cursor then Inl license_fail
             else package_root_from tree nodeModulesRoot (butlast cursor)))"
  by pat_completeness auto
termination
proof (relation "measure (\<lambda>(tree, nodeModulesRoot, cursor). length cursor)", goal_cases)
  case (2 tree nodeModulesRoot cursor found)
  then show ?case by (cases cursor rule: rev_cases) auto
qed simp

declare package_root_from.simps [simp del]

definition findPackageRoot :: "node \<Rightarrow> abs_path \<Rightarrow> abs_path \<Rightarrow> thrown + abs_path" where
  "findPackageRoot tree nodeModulesRoot input =
     bindE (stat_directory (find_node tree input)) (\<lambda>directory.
       package_root_from tree nodeModulesRoot (if directory then input else butlast input))"

section \<open>What \<open>isWithin\<close> decides\<close>

definition path_name :: "jstr \<Rightarrow> bool" where
  "path_name s \<longleftrightarrow> s \<noteq> [] \<and> s \<noteq> lit ''.'' \<and> s \<noteq> lit ''..'' \<and> of_char CHR ''/'' \<notin> set s"

definition proper_path :: "abs_path \<Rightarrow> bool" where
  "proper_path p \<longleftrightarrow> list_all path_name p"

lemma proper_path_simps [simp]:
  "proper_path []" "proper_path (s # p) \<longleftrightarrow> path_name s \<and> proper_path p"
  "proper_path (p @ q) \<longleftrightarrow> proper_path p \<and> proper_path q"
  by (simp_all add: proper_path_def)

lemma proper_path_butlast: "proper_path p \<Longrightarrow> proper_path (butlast p)"
  by (cases p rule: rev_cases) simp_all

lemma normal_segments_proper:
  "list_all (\<lambda>s. of_char CHR ''/'' \<notin> set s) ss \<Longrightarrow> proper_path kept \<Longrightarrow>
   proper_path (normal_segments False kept ss)"
proof (induction ss arbitrary: kept)
  case Nil
  then show ?case by (simp add: proper_path_def)
next
  case (Cons s ss)
  then show ?case by (auto simp: path_name_def split: list.splits)
qed

lemma resolve_path_proper: "proper_path base \<Longrightarrow> proper_path (resolve_path base p)"
proof -
  assume base: "proper_path base"
  have "of_char CHR ''/'' \<notin> set s" if "s \<in> set (split_on (lit ''/'') p)" for s
  proof
    assume "of_char CHR ''/'' \<in> set s"
    then have "occurs (lit ''/'') s" by (auto simp: occurs_iff lit_def dest: split_list)
    with split_on_pieces [OF _ that] show False by (simp add: lit_def)
  qed
  then show ?thesis
    unfolding resolve_path_def using base
    by (intro normal_segments_proper) (auto simp: list_all_iff proper_path_def)
qed

lemma relative_append [simp]: "relative_segments p (p @ s) = s"
  by (induction p) (cases s, simp_all)

lemma relative_cases:
  "(\<exists>s. q = p @ s \<and> relative_segments p q = s) \<or>
   (\<exists>n r. relative_segments p q = replicate (Suc n) (lit ''..'') @ r \<and> (\<nexists>s. q = p @ s))"
proof (induction p arbitrary: q)
  case Nil
  then show ?case by simp
next
  case (Cons a as)
  show ?case
  proof (cases q)
    case Nil
    then show ?thesis by (intro disjI2 exI [of _ "length as"] exI [of _ "[]"]) simp
  next
    case (Cons b bs)
    show ?thesis
    proof (cases "a = b")
      case True
      then show ?thesis using Cons.IH [of bs] by (simp add: \<open>q = b # bs\<close>)
    next
      case False
      then show ?thesis
        by (intro disjI2 exI [of _ "length as"] exI [of _ "b # bs"]) (simp add: \<open>q = b # bs\<close>)
    qed
  qed
qed

lemma join_starts: "\<exists>t. join sep (s # ss) = s @ t \<and> (t = [] \<or> (\<exists>u. t = sep @ u))"
  by (cases ss) auto

lemma isWithin_iff:
  assumes "proper_path child"
  shows "isWithin parent child \<longleftrightarrow> (\<exists>s. s \<noteq> [] \<and> child = parent @ s)"
proof (cases "\<exists>s. child = parent @ s")
  case True
  then obtain s where c: "child = parent @ s" by blast
  then have rel: "relative_path parent child = join (lit ''/'') s" by (simp add: relative_path_def)
  show ?thesis
  proof (cases s)
    case Nil
    then show ?thesis using rel c by (simp add: isWithin_def)
  next
    case (Cons x xs)
    then have x: "path_name x" using assms c by simp
    obtain t where t: "join (lit ''/'') s = x @ t" "t = [] \<or> (\<exists>u. t = lit ''/'' @ u)"
      using join_starts [of "lit ''/''" x xs] Cons by blast
    have slash: "lit ''/'' = [of_char CHR ''/'']" by (simp add: lit_def)
    have ne: "x @ t \<noteq> []" "x \<noteq> []" using x by (auto simp: path_name_def)
    have nodots: "x @ t \<noteq> lit ''..''"
    proof
      assume dots: "x @ t = lit ''..''"
      have "t \<noteq> [] \<Longrightarrow> of_char CHR ''/'' \<in> set (lit ''..'')"
        using t(2) unfolding dots [symmetric] slash by auto
      moreover have "(of_char CHR ''/'' :: code_unit) \<notin> set (lit ''..'')" by (simp add: lit_def)
      ultimately have "t = []" by blast
      with dots x show False by (simp add: path_name_def)
    qed
    have noup: "\<not> startsWith (x @ t) (lit ''../'')"
    proof
      assume "startsWith (x @ t) (lit ''../'')"
      then obtain w where w: "x @ t = lit ''../'' @ w" by (auto simp: startsWith_iff)
      have "lit ''../'' @ w = lit ''..'' @ of_char CHR ''/'' # w" by (simp add: lit_def)
      with w have w: "x @ t = lit ''..'' @ of_char CHR ''/'' # w" by simp
      from this consider v where "x = lit ''..'' @ v" "v @ t = of_char CHR ''/'' # w"
        | v where "x @ v = lit ''..''" "t = v @ of_char CHR ''/'' # w"
        by (auto simp: append_eq_append_conv2)
      then show False
      proof cases
        case 1
        then show False using x t(2) by (cases v) (auto simp: path_name_def slash)
      next
        case 2
        have "v \<noteq> [] \<Longrightarrow> of_char CHR ''/'' \<in> set (lit ''..'')"
          using t(2) 2 unfolding 2(1) [symmetric] slash by (cases v) auto
        moreover have "(of_char CHR ''/'' :: code_unit) \<notin> set (lit ''..'')" by (simp add: lit_def)
        ultimately have "v = []" by blast
        with 2 x show False by (simp add: path_name_def)
      qed
    qed
    have noabs: "\<not> posix_isAbsolute (x @ t)"
      using x ne by (cases x) (auto simp: posix_isAbsolute_def startsWith_iff slash path_name_def)
    have "isWithin parent child" by (simp only: isWithin_def Let_def rel t(1)) (use ne nodots noup noabs in simp)
    then show ?thesis using c Cons by auto
  qed
next
  case False
  with relative_cases [of child parent] obtain n r
    where r: "relative_segments parent child = replicate (Suc n) (lit ''..'') @ r" by blast
  obtain t where t: "relative_path parent child = lit ''..'' @ t" "t = [] \<or> (\<exists>u. t = lit ''/'' @ u)"
    using join_starts [of "lit ''/''" "lit ''..''" "replicate n (lit ''..'') @ r"] by (auto simp: relative_path_def r)
  from t(2) have "\<not> isWithin parent child"
  proof
    assume "t = []"
    then show ?thesis by (simp add: isWithin_def t(1))
  next
    assume "\<exists>u. t = lit ''/'' @ u"
    then obtain u where "t = lit ''/'' @ u" by blast
    then have "relative_path parent child = lit ''../'' @ u" by (simp add: t(1) lit_def)
    then show ?thesis by (simp add: isWithin_def)
  qed
  with False show ?thesis by blast
qed

end
