(* ===== verification/License_Notices.thy ===== *)
theory License_Notices
  imports License_Paths
begin

text \<open>
  Finding a license in text (src/scripts/generate_third_party_licenses.mjs): notices embedded in
  the comments of a source file, the classification of their wording, and the license names of
  an SPDX expression.
\<close>

section \<open>Wording\<close>

record legal_source =
  so_isLicense :: bool
  so_label :: jstr
  so_text :: jstr
  so_licenseId :: "jstr option"

definition mentions_all :: "jstr \<Rightarrow> string list \<Rightarrow> bool" where
  "mentions_all text phrases \<longleftrightarrow> list_all (\<lambda>p. occurs (lit p) text) phrases"

text \<open>A notice with the name of its license.\<close>

definition classifiedNotice :: "jstr \<Rightarrow> (jstr \<times> jstr) option" where
  "classifiedNotice text =
     (if mentions_all text
           [''Redistribution and use in source and binary forms'', ''Neither the name'',
            ''THIS SOFTWARE IS PROVIDED'']
      then Some (lit ''BSD-3-Clause'', text)
      else if mentions_all text
           [''Permission is hereby granted, free of charge'',
            ''The above copyright notice and this permission notice'', ''THE SOFTWARE IS PROVIDED'']
      then Some (lit ''MIT'', text)
      else if mentions_all text
           [''Permission to use, copy, modify, and/or distribute'',
            ''with or without fee is hereby granted'', ''THE SOFTWARE IS PROVIDED'']
      then Some (lit ''ISC'', text)
      else None)"

section \<open>Line comments\<close>

text \<open>What follows the slashes of a line that is a comment.\<close>

definition after_slashes :: "jstr \<Rightarrow> jstr option" where
  "after_slashes line =
     (let rest = dropWhile is_js_space line in
      if startsWith rest (lit ''//'') then Some (drop 2 rest) else None)"

text \<open>\<open>/^\s*\/\/\s*Copyright\b/\<close>.\<close>

definition copyright_line :: "jstr \<Rightarrow> bool" where
  "copyright_line line =
     (case after_slashes line of
        None \<Rightarrow> False
      | Some rest \<Rightarrow>
          (let word = dropWhile is_js_space rest; after = drop 9 word in
           startsWith word (lit ''Copyright'') \<and> (after = [] \<or> \<not> word_unit (hd after))))"

text \<open>\<open>/^\s*\/\/(?:\s?(.*))?$/\<close>, where a dot stands for no line terminator.\<close>

definition is_line_end :: "code_unit \<Rightarrow> bool" where
  "is_line_end u \<longleftrightarrow> u = 10 \<or> u = 13 \<or> u = 0x2028 \<or> u = 0x2029"

definition comment_text :: "jstr \<Rightarrow> jstr option" where
  "comment_text line =
     Option.bind (after_slashes line) (\<lambda>rest.
       (let text = (if rest \<noteq> [] \<and> is_js_space (hd rest) then tl rest else rest) in
        if list_ex is_line_end text then None else Some text))"

fun comment_block :: "jstr list \<Rightarrow> jstr list" where
  "comment_block [] = []"
| "comment_block (line # ls) =
     (case comment_text line of None \<Rightarrow> [] | Some text \<Rightarrow> text # comment_block ls)"

fun line_comment_notice :: "jstr list \<Rightarrow> (jstr \<times> jstr) option" where
  "line_comment_notice [] = None"
| "line_comment_notice (line # ls) =
     (if copyright_line line then
        orOption (classifiedNotice (trimEnd (join [10] (comment_block (line # ls))) @ [10]))
          (line_comment_notice ls)
      else line_comment_notice ls)"

section \<open>Block comments\<close>

text \<open>The text before the first occurrence of a pattern and the text after it.\<close>

fun find_first :: "jstr \<Rightarrow> jstr \<Rightarrow> (jstr \<times> jstr) option" where
  "find_first p [] = (if p = [] then Some ([], []) else None)"
| "find_first p (u # us) =
     (if startsWith (u # us) p then Some ([], drop (length p) (u # us))
      else map_option (\<lambda>(before, after). (u # before, after)) (find_first p us))"

text \<open>\<open>\*+([\s\S]*?)\*\/\<close> behind a slash: as many stars as leave an end to be found.\<close>

fun block_match :: "nat \<Rightarrow> jstr \<Rightarrow> (jstr \<times> jstr) option" where
  "block_match 0 text = None"
| "block_match (Suc n) text =
     orOption (find_first (lit ''*/'') (drop (Suc n) text)) (block_match n text)"

definition star_run :: "jstr \<Rightarrow> nat" where
  "star_run text = length (takeWhile (\<lambda>u. u = of_char CHR ''*'') text)"

lemma find_first_split: "find_first p s = Some (before, after) \<Longrightarrow> s = before @ p @ after"
  by (induction p s arbitrary: before rule: find_first.induct)
     (auto simp: startsWith_iff split: if_splits)

lemma block_match_shorter: "block_match n s = Some (body, rest) \<Longrightarrow> length rest \<le> length s"
proof (induction n)
  case (Suc n)
  show ?case
  proof (cases "find_first (lit ''*/'') (drop (Suc n) s)")
    case None
    then show ?thesis using Suc by simp
  next
    case (Some r)
    then have "find_first (lit ''*/'') (drop (Suc n) s) = Some (body, rest)" using Suc.prems by simp
    from arg_cong [OF find_first_split [OF this], of length] show ?thesis by simp
  qed
qed simp

function block_comments :: "jstr \<Rightarrow> jstr list" where
  "block_comments [] = []"
| "block_comments (u # us) =
     (case (if u = of_char CHR ''/'' then block_match (star_run us) us else None) of
        Some (body, rest) \<Rightarrow> body # block_comments rest
      | None \<Rightarrow> block_comments us)"
  by pat_completeness auto
termination
  by (relation "measure length") (auto split: if_splits dest: block_match_shorter)

text \<open>\<open>line.replace(/^\s*\*? ?/, "")\<close>.\<close>

definition bare_line :: "jstr \<Rightarrow> jstr" where
  "bare_line line =
     (let a = dropWhile is_js_space line;
          b = (if startsWith a (lit ''*'') then tl a else a)
      in if startsWith b (lit '' '') then tl b else b)"

definition block_notice :: "jstr \<Rightarrow> (jstr \<times> jstr) option" where
  "block_notice body =
     classifiedNotice (trim (join [10] (map bare_line (split_on [10] body))) @ [10])"

fun first_block_notice :: "jstr list \<Rightarrow> (jstr \<times> jstr) option" where
  "first_block_notice [] = None"
| "first_block_notice (body # bodies) = orOption (block_notice body) (first_block_notice bodies)"

definition extractEmbeddedLegalNotice :: "jstr \<Rightarrow> (jstr \<times> jstr) option" where
  "extractEmbeddedLegalNotice raw =
     orOption (line_comment_notice (split_on [10] (normalizedText raw)))
       (first_block_notice (block_comments (normalizedText raw)))"

section \<open>License expressions\<close>

definition SPDX_OPERATORS :: "jstr list" where
  "SPDX_OPERATORS = map lit [''AND'', ''OR'', ''WITH'']"

definition FALLBACK_LICENSES :: "jstr list" where
  "FALLBACK_LICENSES = map lit [''Apache-2.0'', ''BSD-3-Clause'']"

definition token_unit :: "code_unit \<Rightarrow> bool" where
  "token_unit u \<longleftrightarrow>
     is_digit u \<or> unit_in CHR ''a'' CHR ''z'' u \<or> unit_in CHR ''A'' CHR ''Z'' u \<or> u \<in> set (lit ''.+-'')"

text \<open>\<open>expression.match(/[A-Za-z0-9.+-]+/g)\<close>; \<open>run\<close> is the token so far.\<close>

fun license_tokens :: "jstr \<Rightarrow> jstr \<Rightarrow> jstr list" where
  "license_tokens run [] = (if run = [] then [] else [run])"
| "license_tokens run (u # us) =
     (if token_unit u then license_tokens (run @ [u]) us
      else (if run = [] then [] else [run]) @ license_tokens [] us)"

definition license_token :: "jstr list \<Rightarrow> jstr \<Rightarrow> thrown + jstr list" where
  "license_token ids token =
     (if token \<in> set SPDX_OPERATORS then Inr ids
      else thenE (failIf (token \<notin> set FALLBACK_LICENSES) license_fail)
             (Inr (if token \<in> set ids then ids else ids @ [token])))"

definition parseFallbackLicenseIds :: "jstr \<Rightarrow> thrown + jstr list" where
  "parseFallbackLicenseIds expression =
     bindE (foldE license_token [] (license_tokens [] expression)) (\<lambda>ids.
     thenE (failIf (ids = []) license_fail) (Inr ids))"

end
