(* ===== verification/License_Inventory.thy ===== *)
theory License_Inventory
  imports License_Notices
begin

text \<open>
  The inventory of the licenses of bundled packages, src/scripts/generate_third_party_licenses.mjs:
  the packages that the esbuild metafile names, the license and notice files of each, the
  fallbacks of a package that ships none, the text that is written, and its check. Files are read
  from a tree that starts at the root of the file system; \<open>sdkRoot\<close>, the metafile and the output
  are absolute paths, and the output is not a link.
\<close>

section \<open>Bundled packages\<close>

text \<open>A package as the inventory lists it, and with the directories it was found in.\<close>

record listed_package =
  bp_id :: jstr
  bp_name :: jstr
  bp_version :: jstr
  bp_license :: jstr
  bp_inputs :: "jstr list"

record bundled_package = listed_package +
  bp_roots :: "abs_path list"

definition is_bundle_output :: "jstr \<Rightarrow> bool" where
  "is_bundle_output output \<longleftrightarrow> output = lit ''dist/index.cjs'' \<or> endsWith output (lit ''/dist/index.cjs'')"

definition contributes :: "jsval \<Rightarrow> bool" where
  "contributes contribution \<longleftrightarrow>
     isObject contribution \<and>
     (case field_of contribution ''bytesInOutput'' of JNum n \<Rightarrow> \<not> num_le n (num 0) | _ \<Rightarrow> False)"

definition node_modules :: "abs_path \<Rightarrow> abs_path" where
  "node_modules sdkRoot = sdkRoot @ [lit ''node_modules'']"

definition metadata_text :: "jsval \<Rightarrow> string \<Rightarrow> jstr" where
  "metadata_text v k = (case field_of v k of JStr s \<Rightarrow> s | _ \<Rightarrow> [])"

text \<open>The item of a package when one more input of it is met.\<close>

definition package_item ::
    "(jstr \<times> bundled_package) list \<Rightarrow> jsval \<Rightarrow> thrown + bundled_package" where
  "package_item items metadata =
     (let name = metadata_text metadata ''name''; version = metadata_text metadata ''version'';
          license = metadata_text metadata ''license''; packageId = name @ lit ''@'' @ version in
      case map_of items packageId of
        None \<Rightarrow> Inr \<lparr>bp_id = packageId, bp_name = name, bp_version = version, bp_license = license,
                  bp_inputs = [], bp_roots = []\<rparr>
      | Some item \<Rightarrow> thenE (failIf (bp_license item \<noteq> license) license_fail) (Inr item))"

definition add_file :: "bundled_package \<Rightarrow> abs_path \<Rightarrow> jstr \<Rightarrow> bundled_package" where
  "add_file item packageRoot input =
     item\<lparr>bp_roots := (if packageRoot \<in> set (bp_roots item) then bp_roots item else bp_roots item @ [packageRoot]),
          bp_inputs := bp_inputs item @ [input]\<rparr>"

definition add_input ::
    "node \<Rightarrow> abs_path \<Rightarrow> (jstr \<times> bundled_package) list \<Rightarrow> jstr \<times> jsval \<Rightarrow>
     thrown + (jstr \<times> bundled_package) list" where
  "add_input tree sdkRoot items entry =
     (let absoluteInput = resolve_path sdkRoot (fst entry) in
      if \<not> contributes (snd entry) \<or> \<not> isWithin (node_modules sdkRoot) absoluteInput then Inr items
      else
        bindE (findPackageRoot tree (node_modules sdkRoot) absoluteInput) (\<lambda>packageRoot.
        bindE (parseJsonFile tree (package_json packageRoot)) (\<lambda>metadata.
        thenE (present metadata)
        (thenE (failIf (\<not> nonempty_text (field_of metadata ''name'') \<or>
                        \<not> nonempty_text (field_of metadata ''version'') \<or>
                        \<not> nonempty_text (field_of metadata ''license'')) license_fail)
        (bindE (package_item items metadata) (\<lambda>item.
          Inr (set_prop items (bp_id item)
                 (add_file item packageRoot (relative_path packageRoot absoluteInput)))))))))"

definition bundle_inputs :: "jsval \<Rightarrow> thrown + (jstr \<times> jsval) list" where
  "bundle_inputs metafile =
     thenE (present metafile)
       (case field_of metafile ''outputs'' of
          JObj outputs \<Rightarrow>
            (case filter (\<lambda>e. is_bundle_output (fst e)) (object_order outputs) of
               [(_, JObj output)] \<Rightarrow>
                 (case own_prop output (lit ''inputs'') of
                    JObj inputs \<Rightarrow> Inr (object_order inputs)
                  | _ \<Rightarrow> Inl license_fail)
             | _ \<Rightarrow> Inl license_fail)
        | _ \<Rightarrow> Inl license_fail)"

definition bundledPackages :: "node \<Rightarrow> abs_path \<Rightarrow> abs_path \<Rightarrow> thrown + bundled_package list" where
  "bundledPackages tree sdkRoot metafilePath =
     bindE (parseJsonFile tree metafilePath) (\<lambda>metafile.
     bindE (bundle_inputs metafile) (\<lambda>inputs.
     bindE (foldE (add_input tree sdkRoot) [] inputs) (\<lambda>items.
     thenE (failIf (items = []) license_fail)
       (Inr (map (\<lambda>item. item\<lparr>bp_inputs := sort (remdups (bp_inputs item))\<rparr>)
               (sort_key bp_id (map snd items)))))))"

section \<open>License files\<close>

definition legal_stem :: "string list \<Rightarrow> jstr \<Rightarrow> bool" where
  "legal_stem stems name \<longleftrightarrow>
     list_ex (\<lambda>stem. startsWith (toLowerCase (take (length stem) name)) (lit stem) \<and>
        (case drop (length stem) name of [] \<Rightarrow> True | u # _ \<Rightarrow> u \<in> set (lit ''._-''))) stems"

definition LEGAL_FILE :: "jstr \<Rightarrow> bool" where
  "LEGAL_FILE = legal_stem [''license'', ''licence'', ''copying'', ''notice'']"

definition LICENSE_FILE :: "jstr \<Rightarrow> bool" where
  "LICENSE_FILE = legal_stem [''license'', ''licence'', ''copying'']"

text \<open>A file of a package root; \<open>byName\<close> is what earlier roots and files gave.\<close>

definition legal_entry ::
    "jstr \<Rightarrow> (jstr \<times> legal_source) list \<Rightarrow> jstr \<times> node \<Rightarrow> thrown + (jstr \<times> legal_source) list" where
  "legal_entry packageId byName entry =
     (case snd entry of
        File_Node payload \<Rightarrow>
          if \<not> LEGAL_FILE (fst entry) then Inr byName
          else
            (let text = normalizedText (buffer_utf8 payload) in
             thenE (failIf (trim text = []) license_fail)
             (thenE (failIf (case map_of byName (fst entry) of None \<Rightarrow> False
                             | Some existing \<Rightarrow> so_text existing \<noteq> text) license_fail)
               (Inr (set_prop byName (fst entry)
                  \<lparr>so_isLicense = LICENSE_FILE (fst entry), so_label = packageId @ lit ''/'' @ fst entry,
                   so_text = text, so_licenseId = None\<rparr>))))
      | _ \<Rightarrow> Inr byName)"

definition legal_root ::
    "node \<Rightarrow> jstr \<Rightarrow> (jstr \<times> legal_source) list \<Rightarrow> abs_path \<Rightarrow> thrown + (jstr \<times> legal_source) list" where
  "legal_root tree packageId byName packageRoot =
     bindE (dir_entries (find_node tree packageRoot)) (\<lambda>entries. foldE (legal_entry packageId) byName entries)"

definition sorted_roots :: "bundled_package \<Rightarrow> abs_path list" where
  "sorted_roots item = sort_key path_string (bp_roots item)"

definition legalSources :: "node \<Rightarrow> bundled_package \<Rightarrow> thrown + legal_source list" where
  "legalSources tree item =
     bindE (foldE (legal_root tree (bp_id item)) [] (sorted_roots item)) (\<lambda>byName.
       Inr (sort_key so_label (map snd byName)))"

section \<open>Embedded notices\<close>

text \<open>One input under one root; \<open>byText\<close> is keyed by the text of the notice.\<close>

definition add_notice ::
    "jstr \<Rightarrow> jstr \<Rightarrow> (jstr \<times> legal_source) list \<Rightarrow> (jstr \<times> jstr) option \<Rightarrow> (jstr \<times> legal_source) list" where
  "add_notice packageId input byText notice =
     (case notice of
        None \<Rightarrow> byText
      | Some (licenseId, text) \<Rightarrow>
          if hasKey byText text then byText
          else set_prop byText text
            \<lparr>so_isLicense = True,
             so_label = packageId @ lit ''/'' @ input @ lit '' (embedded '' @ licenseId @ lit '' notice)'',
             so_text = text, so_licenseId = Some licenseId\<rparr>)"

definition embedded_input ::
    "node \<Rightarrow> jstr \<Rightarrow> abs_path \<Rightarrow> (jstr \<times> legal_source) list \<Rightarrow> jstr \<Rightarrow>
     thrown + (jstr \<times> legal_source) list" where
  "embedded_input tree packageId packageRoot byText input =
     (let inputPath = resolve_path packageRoot input in
      if \<not> isWithin packageRoot inputPath \<or> \<not> is_regular (find_node tree inputPath) then Inr byText
      else bindE (node_bytes (find_node tree inputPath)) (\<lambda>payload.
        Inr (add_notice packageId input byText (extractEmbeddedLegalNotice (buffer_utf8 payload)))))"

definition embedded_root ::
    "node \<Rightarrow> bundled_package \<Rightarrow> (jstr \<times> legal_source) list \<Rightarrow> abs_path \<Rightarrow>
     thrown + (jstr \<times> legal_source) list" where
  "embedded_root tree item byText packageRoot = foldE (embedded_input tree (bp_id item) packageRoot) byText (bp_inputs item)"

definition embeddedLegalSources :: "node \<Rightarrow> bundled_package \<Rightarrow> thrown + legal_source list" where
  "embeddedLegalSources tree item =
     bindE (foldE (embedded_root tree item) [] (sorted_roots item)) (\<lambda>byText.
       Inr (sort_key so_label (map snd byText)))"

section \<open>Fallbacks\<close>

definition APACHE :: jstr where
  "APACHE = lit ''Apache-2.0''"

definition BSD :: jstr where
  "BSD = lit ''BSD-3-Clause''"

type_synonym package_sources = "(jstr \<times> legal_source list) list"

definition sources_of :: "package_sources \<Rightarrow> bundled_package \<Rightarrow> legal_source list" where
  "sources_of sources item = orElse (map_of sources (bp_id item)) []"

definition apache_candidates :: "bundled_package list \<Rightarrow> package_sources \<Rightarrow> legal_source list" where
  "apache_candidates packages own =
     concat (map (\<lambda>item. filter (\<lambda>source. so_isLicense source \<and>
         mentions_all (so_text source) [''Apache License'', ''Version 2.0'']) (sources_of own item))
       (filter (\<lambda>item. bp_license item = APACHE) packages))"

definition canonicalApacheSource :: "bundled_package list \<Rightarrow> package_sources \<Rightarrow> legal_source option" where
  "canonicalApacheSource packages own =
     (case sort_key so_label (apache_candidates packages own) of [] \<Rightarrow> None | s # _ \<Rightarrow> Some s)"

definition fallback_source ::
    "jstr \<Rightarrow> legal_source option \<Rightarrow> legal_source list \<Rightarrow> jstr \<Rightarrow> thrown + legal_source" where
  "fallback_source packageId apacheSource embedded licenseId =
     (if licenseId = APACHE then
        (case apacheSource of
           None \<Rightarrow> Inl license_fail
         | Some source \<Rightarrow>
             Inr \<lparr>so_isLicense = True,
                  so_label = so_label source @ lit '' (canonical Apache-2.0 text for '' @ packageId @ lit '')'',
                  so_text = so_text source, so_licenseId = None\<rparr>)
      else if licenseId = BSD then
        (case find (\<lambda>s. so_licenseId s = Some BSD) embedded of
           None \<Rightarrow> Inl license_fail
         | Some source \<Rightarrow> Inr source)
      else Inl license_fail)"

definition fallbackLicenseSources ::
    "bundled_package \<Rightarrow> legal_source option \<Rightarrow> legal_source list \<Rightarrow> thrown + legal_source list" where
  "fallbackLicenseSources item apacheSource embedded =
     bindE (parseFallbackLicenseIds (bp_license item)) (\<lambda>licenseIds.
       mapE (fallback_source (bp_id item) apacheSource embedded) licenseIds)"

section \<open>The text\<close>

fun uniqueSources :: "jstr list \<Rightarrow> legal_source list \<Rightarrow> legal_source list" where
  "uniqueSources seen [] = []"
| "uniqueSources seen (s # ss) =
     (if so_label s \<in> set seen then uniqueSources seen ss
      else s # uniqueSources (so_label s # seen) ss)"

definition DIVIDER :: jstr where
  "DIVIDER = replicate 79 (of_char CHR ''='')"

definition source_lines :: "legal_source \<Rightarrow> jstr list" where
  "source_lines source =
     [lit ''----- BEGIN '' @ so_label source @ lit '' -----'',
      trimEnd (so_text source),
      lit ''----- END '' @ so_label source @ lit '' -----'',
      []]"

definition package_lines :: "'a listed_package_scheme \<Rightarrow> legal_source list \<Rightarrow> jstr list" where
  "package_lines item sources =
     [DIVIDER,
      lit ''Package: '' @ bp_name item,
      lit ''Version: '' @ bp_version item,
      lit ''License: '' @ bp_license item,
      lit ''Bundled input files: '' @ dec_nat (length (bp_inputs item)),
      []] @ concat (map source_lines sources)"

text \<open>The sources a package is listed with: its licenses or their fallbacks, what its files
  embed, its notices.\<close>

definition package_licenses ::
    "legal_source option \<Rightarrow> package_sources \<Rightarrow> package_sources \<Rightarrow> bundled_package \<Rightarrow>
     thrown + legal_source list" where
  "package_licenses apacheSource own embedded item =
     (let sources = sources_of own item; licenses = filter so_isLicense sources;
          notices = filter (\<lambda>s. \<not> so_isLicense s) sources; inner = sources_of embedded item in
      bindE (if licenses = [] then fallbackLicenseSources item apacheSource inner else Inr licenses)
        (\<lambda>licenseSources. Inr (uniqueSources [] (licenseSources @ inner @ notices))))"

definition header_lines :: "nat \<Rightarrow> jstr list" where
  "header_lines n = map lit
     [''Medallion SDK bundled third-party licenses'',
      '''',
      ''Generated by scripts/generate_third_party_licenses.mjs from the esbuild'',
      ''metafile for dist/index.cjs. Do not edit this file manually.'',
      '''',
      ''Only packages with code embedded in the shipped CommonJS bundle are listed.'',
      ''Dependencies loaded externally retain the license files in their own packages.'',
      ''When a package omits a standalone license file, the labeled section uses'',
      ''canonical text from another bundled dependency's installed license file or'',
      ''a complete license notice embedded in that package's contributing source.'',
      ''''] @ [lit ''Bundled packages: '' @ dec_nat n, []]"

record license_inventory =
  li_packages :: "listed_package list"
  li_text :: jstr

definition per_package ::
    "(bundled_package \<Rightarrow> thrown + legal_source list) \<Rightarrow> bundled_package list \<Rightarrow> thrown + package_sources" where
  "per_package f packages = mapE (\<lambda>item. bindE (f item) (\<lambda>sources. Inr (bp_id item, sources))) packages"

definition buildThirdPartyLicenseInventory ::
    "node \<Rightarrow> abs_path \<Rightarrow> abs_path \<Rightarrow> thrown + license_inventory" where
  "buildThirdPartyLicenseInventory tree sdkRoot metafilePath =
     bindE (bundledPackages tree sdkRoot metafilePath) (\<lambda>packages.
     bindE (per_package (legalSources tree) packages) (\<lambda>own.
     bindE (per_package (embeddedLegalSources tree) packages) (\<lambda>embedded.
     bindE (mapE (package_licenses (canonicalApacheSource packages own) own embedded) packages) (\<lambda>listed.
       Inr \<lparr>li_packages = map listed_package.truncate packages,
            li_text = trimEnd (join [10] (header_lines (length packages) @
              concat (map2 package_lines packages listed))) @ [10]\<rparr>))))"

section \<open>Writing and checking\<close>

text \<open>\<open>mkdirSync(dirname(path), { recursive: true })\<close> and \<open>writeFileSync(path, payload)\<close>.\<close>

definition write_output :: "node \<Rightarrow> abs_path \<Rightarrow> byte list \<Rightarrow> thrown + node" where
  "write_output tree path payload =
     (case find_node tree path of
        Some (Dir_Node _) \<Rightarrow> Inl io_error
      | _ \<Rightarrow>
          (case put_node tree path (File_Node payload) of
             None \<Rightarrow> Inl io_error
           | Some tree' \<Rightarrow> Inr tree'))"

definition writeThirdPartyLicenses ::
    "node \<Rightarrow> abs_path \<Rightarrow> abs_path \<Rightarrow> abs_path \<Rightarrow> thrown + license_inventory \<times> node" where
  "writeThirdPartyLicenses tree sdkRoot metafilePath outputPath =
     bindE (buildThirdPartyLicenseInventory tree sdkRoot metafilePath) (\<lambda>inventory.
       bindE (write_output tree outputPath (buffer_from (li_text inventory))) (\<lambda>tree'.
         Inr (inventory, tree')))"

definition checkThirdPartyLicenses ::
    "node \<Rightarrow> abs_path \<Rightarrow> abs_path \<Rightarrow> abs_path \<Rightarrow> thrown + license_inventory" where
  "checkThirdPartyLicenses tree sdkRoot metafilePath outputPath =
     bindE (buildThirdPartyLicenseInventory tree sdkRoot metafilePath) (\<lambda>inventory.
     thenE (failIf (\<not> node_exists (find_node tree outputPath)) license_fail)
     (bindE (node_bytes (find_node tree outputPath)) (\<lambda>payload.
      thenE (failIf (buffer_utf8 payload \<noteq> li_text inventory) license_fail)
        (Inr inventory))))"

text \<open>\<open>runCli\<close> with the paths that it defaults to: the line it prints, and the tree.\<close>

definition DEFAULT_METAFILE :: "abs_path \<Rightarrow> abs_path" where
  "DEFAULT_METAFILE sdkRoot = sdkRoot @ [lit ''dist'', lit ''metafile-cjs.json'']"

definition DEFAULT_OUTPUT :: "abs_path \<Rightarrow> abs_path" where
  "DEFAULT_OUTPUT sdkRoot = sdkRoot @ [lit ''dist'', lit ''THIRD_PARTY_LICENSES.txt'']"

definition license_report :: "string \<Rightarrow> license_inventory \<Rightarrow> jstr" where
  "license_report verb inventory =
     lit verb @ lit '' dist/THIRD_PARTY_LICENSES.txt for '' @ dec_nat (length (li_packages inventory)) @
     lit '' bundled packages''"

definition runCli :: "node \<Rightarrow> abs_path \<Rightarrow> jstr list \<Rightarrow> thrown + jstr \<times> node" where
  "runCli tree sdkRoot args =
     (if args = [lit ''--write''] then
        bindE (writeThirdPartyLicenses tree sdkRoot (DEFAULT_METAFILE sdkRoot) (DEFAULT_OUTPUT sdkRoot))
          (\<lambda>(inventory, tree'). Inr (license_report ''generated'' inventory, tree'))
      else if args = [lit ''--check''] then
        bindE (checkThirdPartyLicenses tree sdkRoot (DEFAULT_METAFILE sdkRoot) (DEFAULT_OUTPUT sdkRoot))
          (\<lambda>inventory. Inr (license_report ''verified'' inventory, tree))
      else Inl license_fail)"

end
