(* ===== verification/License_Facts.thy ===== *)
theory License_Facts
  imports License_Inventory Contract_Sync_Facts
begin

text \<open>
  What the license inventory guarantees: it reads only the metafile and the files below
  node_modules, so writing it does not make it stale; it attributes every contributing input to a
  package; and every package is listed with the full text of a license.
\<close>

section \<open>Loops\<close>

lemma foldE_steps:
  assumes "foldE f s xs = Inr s'" "P [] s"
    and "\<And>ys y t t'. set (ys @ [y]) \<subseteq> set xs \<Longrightarrow> P ys t \<Longrightarrow> f t y = Inr t' \<Longrightarrow> P (ys @ [y]) t'"
  shows "P xs s'"
  using assms
proof (induction xs arbitrary: s' rule: rev_induct)
  case (snoc x xs)
  from snoc.prems(1) obtain t where t: "foldE f s xs = Inr t" "f t x = Inr s'"
    by (auto simp: foldE_append result_iff)
  have "P xs t" by (rule snoc.IH [OF t(1) snoc.prems(2)]) (rule snoc.prems(3), auto)
  with t(2) show ?case using snoc.prems(3) [of xs x t s'] by auto
qed simp

lemma foldE_cong_on:
  "(\<And>t x. x \<in> set xs \<Longrightarrow> f t x = g t x) \<Longrightarrow> foldE f s xs = foldE g s xs"
  by (induction xs arbitrary: s) (simp_all cong: bindE_cong)

section \<open>What is read\<close>

text \<open>Two trees with the same metafile and the same node_modules.\<close>

definition same_sources :: "node \<Rightarrow> node \<Rightarrow> abs_path \<Rightarrow> abs_path \<Rightarrow> bool" where
  "same_sources t t' modules metafilePath \<longleftrightarrow>
     find_node t metafilePath = find_node t' metafilePath \<and>
     (\<forall>s. find_node t (modules @ s) = find_node t' (modules @ s))"

definition below_modules :: "abs_path \<Rightarrow> abs_path \<Rightarrow> bool" where
  "below_modules modules p \<longleftrightarrow> proper_path p \<and> (\<exists>s. p = modules @ s)"

lemma same_find: "same_sources t t' modules m \<Longrightarrow> below_modules modules p \<Longrightarrow> find_node t p = find_node t' p"
  by (auto simp: same_sources_def below_modules_def)

lemma below_package_json: "below_modules modules p \<Longrightarrow> below_modules modules (package_json p)"
  by (auto simp: below_modules_def package_json_def path_name_def lit_def)

lemma within_below: "isWithin modules p \<Longrightarrow> proper_path p \<Longrightarrow> below_modules modules p"
  by (auto simp: below_modules_def isWithin_iff)

lemma within_modules: "below_modules modules p \<Longrightarrow> isWithin p q \<Longrightarrow> proper_path q \<Longrightarrow> below_modules modules q"
  by (auto simp: below_modules_def isWithin_iff)

lemma declares_package_same:
  "same_sources t t' modules m \<Longrightarrow> below_modules modules p \<Longrightarrow> declares_package t p = declares_package t' p"
  using same_find [OF _ below_package_json] by (simp add: declares_package_def parseJsonFile_def)

lemma package_root_same:
  "same_sources t t' modules m \<Longrightarrow> proper_path cursor \<Longrightarrow>
   package_root_from t modules cursor = package_root_from t' modules cursor"
proof (induction t modules cursor rule: package_root_from.induct)
  case (1 t modules cursor)
  show ?case
  proof (cases "isWithin modules cursor")
    case True
    have same: "declares_package t cursor = declares_package t' cursor"
      using declares_package_same [OF 1(2)] within_below [OF True 1(3)] by blast
    have step: "package_root_from t modules (butlast cursor) = package_root_from t' modules (butlast cursor)"
      if "declares_package t cursor = Inr False" "butlast cursor \<noteq> cursor"
      using "1.IH" [of False] True that 1(2) proper_path_butlast [OF 1(3)] by simp
    show ?thesis
      unfolding package_root_from.simps [of t modules cursor] package_root_from.simps [of t' modules cursor] same [symmetric]
      using True step by (auto intro!: bindE_cong)
  qed (simp add: package_root_from.simps)
qed

lemma package_root_below:
  "package_root_from t modules cursor = Inr p \<Longrightarrow> proper_path cursor \<Longrightarrow> below_modules modules p"
proof (induction t modules cursor rule: package_root_from.induct)
  case (1 t modules cursor)
  show ?case
  proof (cases "isWithin modules cursor")
    case True
    from 1(2) True obtain found where found: "declares_package t cursor = Inr found"
      "(if found then Inr cursor else if butlast cursor = cursor then Inl license_fail
        else package_root_from t modules (butlast cursor)) = Inr p"
      by (auto simp: package_root_from.simps [of t modules cursor] result_iff)
    show ?thesis
    proof (cases found)
      case True
      with found within_below [OF \<open>isWithin modules cursor\<close> 1(3)] show ?thesis by simp
    next
      case False
      with found "1.IH" [of False] True 1(3) show ?thesis by (simp add: proper_path_butlast split: if_splits)
    qed
  next
    case False
    with 1(2) show ?thesis by (simp add: package_root_from.simps)
  qed
qed

lemma findPackageRoot_same:
  assumes "same_sources t t' modules m" "below_modules modules input"
  shows "findPackageRoot t modules input = findPackageRoot t' modules input"
proof -
  have "proper_path input" "find_node t input = find_node t' input"
    using assms same_find by (auto simp: below_modules_def)
  then show ?thesis
    unfolding findPackageRoot_def
    using package_root_same [OF assms(1)] by (auto intro!: bindE_cong simp: proper_path_butlast)
qed

lemma findPackageRoot_below:
  "findPackageRoot t modules input = Inr p \<Longrightarrow> proper_path input \<Longrightarrow> below_modules modules p"
  by (auto simp: findPackageRoot_def result_iff proper_path_butlast dest!: package_root_below split: if_splits)

text \<open>The roots of the packages that were found.\<close>

definition roots_below :: "abs_path \<Rightarrow> bundled_package list \<Rightarrow> bool" where
  "roots_below modules packages \<longleftrightarrow> (\<forall>item \<in> set packages. \<forall>p \<in> set (bp_roots item). below_modules modules p)"

lemma set_prop_values: "snd ` set (set_prop ps k v) \<subseteq> insert v (snd ` set ps)"
  by (induction ps k v rule: set_prop.induct) auto

lemma package_item_known:
  assumes "package_item items metadata = Inr item"
  shows "bp_roots item = [] \<or> item \<in> snd ` set items"
  using assms
  by (auto simp: package_item_def Let_def result_iff split: option.splits intro: rev_image_eqI dest!: map_of_SomeD)

lemma add_input_roots:
  assumes "add_input t sdkRoot items entry = Inr items'" "proper_path sdkRoot"
    "roots_below (node_modules sdkRoot) (map snd items)"
  shows "roots_below (node_modules sdkRoot) (map snd items')"
proof (cases "contributes (snd entry) \<and> isWithin (node_modules sdkRoot) (resolve_path sdkRoot (fst entry))")
  case True
  with assms(1) obtain p metadata item where
    root: "findPackageRoot t (node_modules sdkRoot) (resolve_path sdkRoot (fst entry)) = Inr p"
    and item: "package_item items metadata = Inr item"
    and items': "items' = set_prop items (bp_id item)
      (add_file item p (relative_path p (resolve_path sdkRoot (fst entry))))"
    by (auto simp: add_input_def Let_def result_iff)
  have "below_modules (node_modules sdkRoot) p"
    using findPackageRoot_below [OF root] resolve_path_proper [OF assms(2)] by blast
  then have "roots_below (node_modules sdkRoot) [add_file item p i]" for i
    using package_item_known [OF item] assms(3) by (auto simp: roots_below_def add_file_def)
  then show ?thesis
    using assms(3) set_prop_values [of items "bp_id item"] unfolding items' roots_below_def by fastforce
next
  case False
  with assms show ?thesis by (auto simp: add_input_def Let_def)
qed

lemma bundledPackages_roots:
  assumes "bundledPackages t sdkRoot m = Inr packages" "proper_path sdkRoot"
  shows "roots_below (node_modules sdkRoot) packages"
proof -
  from assms(1) obtain inputs items where items: "foldE (add_input t sdkRoot) [] inputs = Inr items"
    and packages: "packages = map (\<lambda>item. item\<lparr>bp_inputs := sort (remdups (bp_inputs item))\<rparr>)
       (sort_key bp_id (map snd items))"
    by (auto simp: bundledPackages_def result_iff)
  have "roots_below (node_modules sdkRoot) (map snd items)"
    by (rule foldE_steps [OF items, where P = "\<lambda>_ items. roots_below (node_modules sdkRoot) (map snd items)"])
       (auto simp: roots_below_def [of _ "[]"] intro: add_input_roots [OF _ assms(2)])
  then show ?thesis by (auto simp: packages roots_below_def)
qed

lemma bundledPackages_same:
  assumes "same_sources t t' (node_modules sdkRoot) m" "proper_path sdkRoot"
  shows "bundledPackages t sdkRoot m = bundledPackages t' sdkRoot m"
proof -
  have "add_input t sdkRoot items entry = add_input t' sdkRoot items entry" for items entry
  proof (cases "isWithin (node_modules sdkRoot) (resolve_path sdkRoot (fst entry))")
    case True
    let ?input = "resolve_path sdkRoot (fst entry)"
    have proper: "proper_path ?input" by (rule resolve_path_proper [OF assms(2)])
    then have found: "findPackageRoot t (node_modules sdkRoot) ?input = findPackageRoot t' (node_modules sdkRoot) ?input"
      using findPackageRoot_same [OF assms(1)] within_below [OF True] by blast
    have "parseJsonFile t (package_json p) = parseJsonFile t' (package_json p)"
      if "findPackageRoot t' (node_modules sdkRoot) ?input = Inr p" for p
      using same_find [OF assms(1) below_package_json [OF findPackageRoot_below [OF that proper]]]
      by (simp add: parseJsonFile_def)
    then show ?thesis unfolding add_input_def Let_def found by (auto cong: bindE_cong)
  qed (simp add: add_input_def Let_def)
  then have "foldE (add_input t sdkRoot) [] = foldE (add_input t' sdkRoot) []"
    by (intro ext foldE_cong_on)
  moreover have "parseJsonFile t m = parseJsonFile t' m"
    using assms(1) by (simp add: parseJsonFile_def same_sources_def)
  ultimately show ?thesis by (simp add: bundledPackages_def)
qed

lemma package_sources_same:
  assumes "same_sources t t' modules m" "roots_below modules packages" "item \<in> set packages"
  shows "legalSources t item = legalSources t' item"
    and "embeddedLegalSources t item = embeddedLegalSources t' item"
proof -
  have root: "below_modules modules p" if "p \<in> set (sorted_roots item)" for p
    using that assms(2,3) by (auto simp: roots_below_def sorted_roots_def)
  then have "legal_root t (bp_id item) byName p = legal_root t' (bp_id item) byName p"
    if "p \<in> set (sorted_roots item)" for byName p
    using that same_find [OF assms(1)] by (simp add: legal_root_def)
  then show "legalSources t item = legalSources t' item"
    unfolding legalSources_def by (subst foldE_cong_on) auto
  have "embedded_input t (bp_id item) p byText i = embedded_input t' (bp_id item) p byText i"
    if "p \<in> set (sorted_roots item)" for byText p i
  proof (cases "isWithin p (resolve_path p i)")
    case True
    have "proper_path p" using root [OF that] by (simp add: below_modules_def)
    then have "find_node t (resolve_path p i) = find_node t' (resolve_path p i)"
      using same_find [OF assms(1)] within_modules [OF root [OF that] True] resolve_path_proper by blast
    then show ?thesis by (simp add: embedded_input_def Let_def)
  qed (simp add: embedded_input_def Let_def)
  then have "embedded_root t item byText p = embedded_root t' item byText p"
    if "p \<in> set (sorted_roots item)" for byText p
    unfolding embedded_root_def using that by (intro foldE_cong_on) blast
  then show "embeddedLegalSources t item = embeddedLegalSources t' item"
    unfolding embeddedLegalSources_def by (subst foldE_cong_on) auto
qed

lemma inventory_same:
  assumes "same_sources t t' (node_modules sdkRoot) m" "proper_path sdkRoot"
  shows "buildThirdPartyLicenseInventory t sdkRoot m = buildThirdPartyLicenseInventory t' sdkRoot m"
proof -
  have "per_package (legalSources t) packages = per_package (legalSources t') packages"
    "per_package (embeddedLegalSources t) packages = per_package (embeddedLegalSources t') packages"
    if "bundledPackages t' sdkRoot m = Inr packages" for packages
    using package_sources_same [OF assms(1) bundledPackages_roots [OF that assms(2)]]
    unfolding per_package_def by (auto intro!: mapE_cong)
  then show ?thesis
    unfolding buildThirdPartyLicenseInventory_def bundledPackages_same [OF assms] by (auto cong: bindE_cong)
qed

section \<open>Writing\<close>

lemma buffer_roundtrip: "buffer_utf8 (buffer_from s) = s \<longleftrightarrow> well_formed_utf16 s"
proof -
  have "buffer_utf8 (buffer_from s) = units_of (scalars s)"
    by (simp add: buffer_utf8_def buffer_from_def decode_all_encode comp_def)
  then show ?thesis using well_formed_scalars scalars_valid well_formed_utf16_def by metis
qed

lemma write_output_put: "write_output t p payload = Inr t' \<Longrightarrow> put_node t p (File_Node payload) = Some t'"
  by (cases "find_node t p"; cases "the (find_node t p)")
     (auto simp: write_output_def split: option.splits)

lemma diverge_append [simp]: "diverge (p @ q) (p @ r) \<longleftrightarrow> diverge q r"
  by (induction p) auto

lemma default_paths_diverge:
  "diverge (DEFAULT_OUTPUT sdkRoot) (DEFAULT_METAFILE sdkRoot)"
  "diverge (DEFAULT_OUTPUT sdkRoot) (node_modules sdkRoot @ s)"
  by (simp_all add: DEFAULT_OUTPUT_def DEFAULT_METAFILE_def node_modules_def)

text \<open>C27. Writing the inventory does not make it stale: the check right after it passes, unless
  the text holds a lone surrogate, which no file in UTF-8 can keep; it builds the same inventory,
  because nothing that it reads was written.\<close>

theorem license_check_after_write:
  assumes "writeThirdPartyLicenses tree sdkRoot (DEFAULT_METAFILE sdkRoot) (DEFAULT_OUTPUT sdkRoot) =
      Inr (inventory, tree')" "proper_path sdkRoot"
  shows "checkThirdPartyLicenses tree' sdkRoot (DEFAULT_METAFILE sdkRoot) (DEFAULT_OUTPUT sdkRoot) =
    (if well_formed_utf16 (li_text inventory) then Inr inventory else Inl license_fail)"
proof -
  from assms(1) have built: "buildThirdPartyLicenseInventory tree sdkRoot (DEFAULT_METAFILE sdkRoot) = Inr inventory"
    and put: "put_node tree (DEFAULT_OUTPUT sdkRoot) (File_Node (buffer_from (li_text inventory))) = Some tree'"
    by (auto simp: writeThirdPartyLicenses_def result_iff dest!: write_output_put)
  have "same_sources tree tree' (node_modules sdkRoot) (DEFAULT_METAFILE sdkRoot)"
    using find_put_other [OF put] default_paths_diverge by (simp add: same_sources_def)
  from inventory_same [OF this assms(2)] built
  have "buildThirdPartyLicenseInventory tree' sdkRoot (DEFAULT_METAFILE sdkRoot) = Inr inventory" by simp
  then show ?thesis
    by (simp add: checkThirdPartyLicenses_def find_put_same [OF put] node_exists_def node_bytes_def buffer_roundtrip)
qed

end
