(* ===== verification/License_Listing.thy ===== *)
theory License_Listing
  imports License_Facts
begin

text \<open>
  What the license inventory lists: every file that contributes to the bundle, under the package
  it belongs to, and for every package the full text of a license.
\<close>

section \<open>Attribution\<close>

text \<open>The package identifier, the license and the relative path that an input of the bundle is
  listed with.\<close>

definition attributed :: "node \<Rightarrow> abs_path \<Rightarrow> jstr \<times> jsval \<Rightarrow> jstr \<times> jstr \<times> jstr \<Rightarrow> bool" where
  "attributed tree sdkRoot entry q \<longleftrightarrow>
     (let input = resolve_path sdkRoot (fst entry) in
      contributes (snd entry) \<and> isWithin (node_modules sdkRoot) input \<and>
      (\<exists>p metadata. findPackageRoot tree (node_modules sdkRoot) input = Inr p \<and>
         parseJsonFile tree (package_json p) = Inr metadata \<and>
         q = (metadata_text metadata ''name'' @ lit ''@'' @ metadata_text metadata ''version'',
              metadata_text metadata ''license'', relative_path p input)))"

definition listed_files :: "'a listed_package_scheme list \<Rightarrow> (jstr \<times> jstr \<times> jstr) set" where
  "listed_files ps = {(bp_id p, bp_license p, i) | p i. p \<in> set ps \<and> i \<in> set (bp_inputs p)}"

lemma listed_files_simps [simp]:
  "listed_files [] = {}"
  "listed_files (p # ps) = (\<lambda>i. (bp_id p, bp_license p, i)) ` set (bp_inputs p) \<union> listed_files ps"
  by (auto simp: listed_files_def)

lemma listed_files_cong: "set ps = set qs \<Longrightarrow> listed_files ps = listed_files qs"
  by (simp add: listed_files_def)

definition items_ok :: "(jstr \<times> bundled_package) list \<Rightarrow> bool" where
  "items_ok items \<longleftrightarrow> distinct (map fst items) \<and> list_all (\<lambda>(k, item). bp_id item = k) items"

lemma set_set_prop:
  "distinct (map fst ps) \<Longrightarrow> set (set_prop ps k v) = insert (k, v) {x \<in> set ps. fst x \<noteq> k}"
  by (induction ps k v rule: set_prop.induct) force+

lemma items_ok_set_prop:
  "items_ok items \<Longrightarrow> items_ok (set_prop items (bp_id item) item)"
  by (auto simp: items_ok_def distinct_set_prop list_all_iff set_set_prop)

lemma listed_files_union:
  "set ps = set qs \<union> set rs \<Longrightarrow> listed_files ps = listed_files qs \<union> listed_files rs"
  by (auto simp: listed_files_def)

lemma listed_set_prop:
  assumes "items_ok items" "package_item items metadata = Inr item"
  shows "listed_files (map snd (set_prop items (bp_id item) (add_file item p i))) =
    insert (metadata_text metadata ''name'' @ lit ''@'' @ metadata_text metadata ''version'',
            metadata_text metadata ''license'', i) (listed_files (map snd items))"
proof -
  let ?id = "metadata_text metadata ''name'' @ lit ''@'' @ metadata_text metadata ''version''"
  let ?others = "map snd (filter (\<lambda>x. fst x \<noteq> ?id) items)"
  have keys: "distinct (map fst items)" using assms(1) by (simp add: items_ok_def)
  have item: "bp_id item = ?id \<and> bp_license item = metadata_text metadata ''license'' \<and>
    listed_files (map snd items) = listed_files [item] \<union> listed_files ?others"
  proof (cases "map_of items ?id")
    case None
    then have "\<forall>x \<in> set items. fst x \<noteq> ?id" by (force simp: map_of_eq_None_iff)
    then have "filter (\<lambda>x. fst x \<noteq> ?id) items = items" by (simp add: filter_id_conv)
    then show ?thesis using assms(2) None by (auto simp: package_item_def Let_def)
  next
    case (Some known)
    then have known: "item = known" "bp_license known = metadata_text metadata ''license''" "(?id, known) \<in> set items"
      using assms(2) by (auto simp: package_item_def Let_def result_iff dest: map_of_SomeD)
    have "set items = set [(?id, known)] \<union> set (filter (\<lambda>x. fst x \<noteq> ?id) items)"
      using known(3) keys by (auto dest: eq_key_imp_eq_value)
    then have "snd ` set items = snd ` (set [(?id, known)] \<union> set (filter (\<lambda>x. fst x \<noteq> ?id) items))" by simp
    then have "set (map snd items) = set [known] \<union> set ?others" by (simp add: image_Un)
    moreover have "bp_id known = ?id" using assms(1) known(3) by (auto simp: items_ok_def list_all_iff)
    ultimately show ?thesis using known(1,2) listed_files_union [of "map snd items" "[known]" ?others] by simp
  qed
  have "set (set_prop items ?id (add_file item p i)) =
      set [(?id, add_file item p i)] \<union> set (filter (\<lambda>x. fst x \<noteq> ?id) items)"
    using keys by (auto simp: set_set_prop)
  then have "snd ` set (set_prop items ?id (add_file item p i)) =
      snd ` (set [(?id, add_file item p i)] \<union> set (filter (\<lambda>x. fst x \<noteq> ?id) items))" by simp
  then have "set (map snd (set_prop items ?id (add_file item p i))) = set [add_file item p i] \<union> set ?others"
    by (simp add: image_Un)
  from listed_files_union [OF this] item show ?thesis by (simp add: add_file_def)
qed

lemma add_input_listed:
  assumes "add_input t sdkRoot items entry = Inr items'" "items_ok items"
  shows "items_ok items' \<and> listed_files (map snd items') = listed_files (map snd items) \<union> {q. attributed t sdkRoot entry q}"
proof (cases "contributes (snd entry) \<and> isWithin (node_modules sdkRoot) (resolve_path sdkRoot (fst entry))")
  case True
  let ?input = "resolve_path sdkRoot (fst entry)"
  from True assms(1) obtain p metadata item where
    root: "findPackageRoot t (node_modules sdkRoot) ?input = Inr p"
    and metadata: "parseJsonFile t (package_json p) = Inr metadata"
    and item: "package_item items metadata = Inr item"
    and items': "items' = set_prop items (bp_id item) (add_file item p (relative_path p ?input))"
    by (auto simp: add_input_def Let_def result_iff)
  have "{q. attributed t sdkRoot entry q} =
    {(metadata_text metadata ''name'' @ lit ''@'' @ metadata_text metadata ''version'',
      metadata_text metadata ''license'', relative_path p ?input)}"
    using True root metadata by (auto simp: attributed_def Let_def)
  moreover have "items_ok items'"
    using items_ok_set_prop [OF assms(2), of "add_file item p (relative_path p ?input)"]
    by (simp add: items' add_file_def)
  ultimately show ?thesis using listed_set_prop [OF assms(2) item] by (simp add: items')
next
  case False
  with assms show ?thesis by (auto simp: add_input_def attributed_def Let_def)
qed

lemma listed_truncate: "listed_files (map listed_package.truncate ps) = listed_files ps"
  by (induction ps) (simp_all add: listed_package.defs)

lemma listed_sorted_inputs:
  "listed_files (map (\<lambda>item. item\<lparr>bp_inputs := sort (remdups (bp_inputs item))\<rparr>) ps) = listed_files ps"
  by (induction ps) simp_all

lemma bundledPackages_listed:
  assumes "bundledPackages t sdkRoot m = Inr packages"
  shows "\<exists>metafile inputs. parseJsonFile t m = Inr metafile \<and> bundle_inputs metafile = Inr inputs \<and>
      listed_files packages = {q. \<exists>e \<in> set inputs. attributed t sdkRoot e q}"
    and "sorted (map bp_id packages)" "distinct (map bp_id packages)" "packages \<noteq> []"
proof -
  from assms obtain metafile inputs items where m: "parseJsonFile t m = Inr metafile"
    and inputs: "bundle_inputs metafile = Inr inputs"
    and items: "foldE (add_input t sdkRoot) [] inputs = Inr items" "items \<noteq> []"
    and packages: "packages = map (\<lambda>item. item\<lparr>bp_inputs := sort (remdups (bp_inputs item))\<rparr>)
       (sort_key bp_id (map snd items))"
    by (auto simp: bundledPackages_def result_iff)
  have ok: "items_ok items \<and> listed_files (map snd items) = {q. \<exists>e \<in> set inputs. attributed t sdkRoot e q}"
    by (rule foldE_steps [OF items(1), where P = "\<lambda>es items. items_ok items \<and>
          listed_files (map snd items) = {q. \<exists>e \<in> set es. attributed t sdkRoot e q}"])
       (auto simp: items_ok_def [of "[]"] dest!: add_input_listed)
  have ids: "map bp_id packages = map bp_id (sort_key bp_id (map snd items))" by (simp add: packages comp_def)
  have "map fst items = map bp_id (map snd items)"
    using ok by (auto simp: items_ok_def list_all_iff)
  with ok have "distinct (map bp_id (map snd items))" by (simp add: items_ok_def)
  then show "distinct (map bp_id packages)" unfolding ids
    by (metis mset_eq_imp_distinct_iff mset_map mset_sort)
  show "sorted (map bp_id packages)" unfolding ids by (rule sorted_sort_key)
  show "packages \<noteq> []" 
  proof -
    have "length packages = length items" by (simp add: packages)
    with items(2) show ?thesis by auto
  qed
  have "listed_files packages = listed_files (sort_key bp_id (map snd items))"
    unfolding packages by (rule listed_sorted_inputs)
  with ok m inputs show "\<exists>metafile inputs. parseJsonFile t m = Inr metafile \<and> bundle_inputs metafile = Inr inputs \<and>
      listed_files packages = {q. \<exists>e \<in> set inputs. attributed t sdkRoot e q}"
    using listed_files_cong [of "sort_key bp_id (map snd items)" "map snd items"] by auto
qed

section \<open>License texts\<close>

lemma mentions_not_blank:
  assumes "occurs (lit p) text" "\<not> list_all (\<lambda>c. is_js_space (of_char c)) p"
  shows "trim text \<noteq> []"
  using occurs_set [OF assms(1)] assms(2) by (auto simp: trim_eq_Nil_iff list_all_iff lit_def)

lemma classified_text:
  assumes "classifiedNotice text = Some (name, text')"
  shows "trim text' \<noteq> []"
proof -
  have "text' = text" "occurs (lit ''THIS SOFTWARE IS PROVIDED'') text \<or> occurs (lit ''THE SOFTWARE IS PROVIDED'') text"
    using assms by (auto simp: classifiedNotice_def mentions_all_def split: if_splits)
  moreover have "\<not> list_all (\<lambda>c. is_js_space (of_char c)) ''THIS SOFTWARE IS PROVIDED''"
    "\<not> list_all (\<lambda>c. is_js_space (of_char c)) ''THE SOFTWARE IS PROVIDED''" by code_simp+
  ultimately show ?thesis using mentions_not_blank by blast
qed

lemma orOption_Some: "orOption x y = Some z \<longleftrightarrow> x = Some z \<or> x = None \<and> y = Some z"
  by (cases x) auto

lemma line_comment_text: "line_comment_notice ls = Some (name, text) \<Longrightarrow> trim text \<noteq> []"
  by (induction ls rule: line_comment_notice.induct)
     (auto simp: orOption_Some split: if_splits dest: classified_text)

lemma block_comment_text: "first_block_notice bs = Some (name, text) \<Longrightarrow> trim text \<noteq> []"
  by (induction bs rule: first_block_notice.induct)
     (auto simp: orOption_Some block_notice_def dest: classified_text)

lemma embedded_text: "extractEmbeddedLegalNotice raw = Some (name, text) \<Longrightarrow> trim text \<noteq> []"
  by (auto simp: extractEmbeddedLegalNotice_def orOption_Some dest: line_comment_text block_comment_text)

definition readable :: "legal_source \<Rightarrow> bool" where
  "readable s \<longleftrightarrow> trim (so_text s) \<noteq> []"

definition full_license :: "legal_source \<Rightarrow> bool" where
  "full_license s \<longleftrightarrow> so_isLicense s \<and> readable s"

lemma values_set_prop:
  "list_all P (map snd ps) \<Longrightarrow> P v \<Longrightarrow> list_all P (map snd (set_prop ps k v))"
  by (induction ps k v rule: set_prop.induct) auto

lemma legal_entry_readable:
  "legal_entry packageId byName entry = Inr byName' \<Longrightarrow> list_all readable (map snd byName) \<Longrightarrow>
   list_all readable (map snd byName')"
  by (cases "snd entry")
     (auto simp: legal_entry_def Let_def result_iff readable_def split: if_splits intro!: values_set_prop)

lemma legal_root_readable:
  "legal_root t packageId byName p = Inr byName' \<Longrightarrow> list_all readable (map snd byName) \<Longrightarrow>
   list_all readable (map snd byName')"
  unfolding legal_root_def bindE_Inr_iff
  by (elim exE conjE, erule foldE_steps [where P = "\<lambda>_ b. list_all readable (map snd b)"])
     (blast intro: legal_entry_readable)+

lemma legalSources_readable: "legalSources t item = Inr ss \<Longrightarrow> list_all readable ss"
proof -
  assume "legalSources t item = Inr ss"
  then obtain byName where b: "foldE (legal_root t (bp_id item)) [] (sorted_roots item) = Inr byName"
    and ss: "ss = sort_key so_label (map snd byName)"
    by (auto simp: legalSources_def result_iff)
  have "list_all readable (map snd byName)"
    by (rule foldE_steps [OF b, where P = "\<lambda>_ b. list_all readable (map snd b)"])
       (auto intro: legal_root_readable)
  then show ?thesis by (simp add: ss list_all_iff)
qed

lemma add_notice_full:
  assumes "list_all full_license (map snd byText)"
    "\<And>name text. notice = Some (name, text) \<Longrightarrow> trim text \<noteq> []"
  shows "list_all full_license (map snd (add_notice packageId i byText notice))"
  using assms by (auto simp: add_notice_def full_license_def readable_def split: option.splits intro!: values_set_prop)

lemma embedded_input_full:
  "embedded_input t packageId p byText i = Inr byText' \<Longrightarrow> list_all full_license (map snd byText) \<Longrightarrow>
   list_all full_license (map snd byText')"
  by (auto simp: embedded_input_def Let_def bindE_Inr_iff intro!: add_notice_full embedded_text split: if_splits)

lemma embedded_root_full:
  "embedded_root t item byText p = Inr byText' \<Longrightarrow> list_all full_license (map snd byText) \<Longrightarrow>
   list_all full_license (map snd byText')"
  unfolding embedded_root_def
  by (erule foldE_steps [where P = "\<lambda>_ b. list_all full_license (map snd b)"])
     (blast intro: embedded_input_full)+

lemma embeddedLegalSources_full: "embeddedLegalSources t item = Inr ss \<Longrightarrow> list_all full_license ss"
proof -
  assume "embeddedLegalSources t item = Inr ss"
  then obtain byText where b: "foldE (embedded_root t item) [] (sorted_roots item) = Inr byText"
    and ss: "ss = sort_key so_label (map snd byText)"
    by (auto simp: embeddedLegalSources_def result_iff)
  have "list_all full_license (map snd byText)"
    by (rule foldE_steps [OF b, where P = "\<lambda>_ b. list_all full_license (map snd b)"])
       (auto intro: embedded_root_full)
  then show ?thesis by (simp add: ss list_all_iff)
qed

lemma per_package_all:
  assumes "per_package f packages = Inr sources" "\<And>item ss. f item = Inr ss \<Longrightarrow> list_all P ss"
  shows "list_all P (sources_of sources item)"
proof (cases "map_of sources (bp_id item)")
  case (Some ss)
  then have "(bp_id item, ss) \<in> set sources" by (rule map_of_SomeD)
  with mapE_set_dest [OF assms(1) [unfolded per_package_def]] obtain item' where "f item' = Inr ss"
    by (auto simp: result_iff)
  with assms(2) Some show ?thesis by (simp add: sources_of_def)
qed (simp add: sources_of_def)

lemma apache_full:
  assumes "canonicalApacheSource packages own = Some s"
  shows "full_license s"
proof -
  have "s \<in> set (sort_key so_label (apache_candidates packages own))"
    using assms by (cases "sort_key so_label (apache_candidates packages own)")
      (simp_all add: canonicalApacheSource_def)
  then have "so_isLicense s" "occurs (lit ''Apache License'') (so_text s)"
    by (auto simp: apache_candidates_def mentions_all_def)
  moreover have "\<not> list_all (\<lambda>c. is_js_space (of_char c)) ''Apache License''" by code_simp
  ultimately show ?thesis using mentions_not_blank by (auto simp: full_license_def readable_def)
qed

lemma fallback_full:
  assumes "fallback_source packageId apacheSource embedded licenseId = Inr s" "list_all full_license embedded"
    "\<And>a. apacheSource = Some a \<Longrightarrow> full_license a"
  shows "full_license s"
  using assms
  by (auto simp: fallback_source_def full_license_def readable_def list_all_iff find_Some_iff
      split: if_splits option.splits)

lemma package_licenses_full:
  assumes "package_licenses apacheSource own embedded item = Inr listed"
    "list_all readable (sources_of own item)" "list_all full_license (sources_of embedded item)"
    "\<And>a. apacheSource = Some a \<Longrightarrow> full_license a"
  shows "\<exists>s ss. listed = s # ss \<and> full_license s"
proof -
  let ?own = "filter so_isLicense (sources_of own item)"
  from assms(1) obtain licenseSources where
    l: "(if ?own = [] then fallbackLicenseSources item apacheSource (sources_of embedded item) else Inr ?own) =
        Inr licenseSources"
    and listed: "listed = uniqueSources [] (licenseSources @ sources_of embedded item @
      filter (\<lambda>s. \<not> so_isLicense s) (sources_of own item))"
    by (auto simp: package_licenses_def Let_def result_iff)
  have "licenseSources \<noteq> [] \<and> list_all full_license licenseSources"
  proof (cases "?own = []")
    case True
    with l obtain ids where ids: "parseFallbackLicenseIds (bp_license item) = Inr ids"
      and m: "mapE (fallback_source (bp_id item) apacheSource (sources_of embedded item)) ids = Inr licenseSources"
      by (auto simp: fallbackLicenseSources_def result_iff)
    from ids have "ids \<noteq> []" by (auto simp: parseFallbackLicenseIds_def result_iff)
    with mapE_length [OF m] have "licenseSources \<noteq> []" by auto
    moreover have "full_license s" if "s \<in> set licenseSources" for s
      using mapE_set_dest [OF m that] fallback_full [OF _ assms(3,4)] by blast
    ultimately show ?thesis by (simp add: list_all_iff)
  next
    case False
    with l have "licenseSources = ?own" by simp
    then show ?thesis using False assms(2) by (auto simp: list_all_iff full_license_def)
  qed
  then show ?thesis unfolding listed by (cases licenseSources) simp_all
qed

section \<open>The text\<close>

lemma join_append:
  "xs \<noteq> [] \<Longrightarrow> ys \<noteq> [] \<Longrightarrow> join sep (xs @ ys) = join sep xs @ sep @ join sep ys"
  by (induction sep xs rule: join.induct) (simp_all add: join_Cons)

lemma trimEnd_keeps:
  assumes "x \<noteq> []" "\<not> is_js_space (last x)"
  shows "\<exists>v. trimEnd (u @ x @ w) = u @ x @ v"
proof -
  obtain y l where x: "x = y @ [l]" using assms(1) by (cases x rule: rev_cases) auto
  have "dropWhile is_js_space (rev w @ l # rev (u @ y)) = dropWhile is_js_space (rev w) @ l # rev (u @ y)"
    using assms(2) x by (cases "list_all is_js_space (rev w)")
      (auto simp: list_all_iff dropWhile_append)
  then have "trimEnd (u @ x @ w) = u @ x @ rev (dropWhile is_js_space (rev w))"
    by (simp add: trimEnd_def x)
  then show ?thesis by blast
qed

lemma source_lines_last: "last (butlast (source_lines s)) = lit ''----- END '' @ so_label s @ lit '' -----''"
  by (simp add: source_lines_def)

lemma package_lines_split:
  "\<exists>u l. package_lines item (s # ss) = u @ [l] @ [[]] \<and> l \<noteq> [] \<and> \<not> is_js_space (last l)"
proof -
  have "\<exists>u l. concat (map source_lines (s # ss)) = u @ [l] @ [[]] \<and> l \<noteq> [] \<and> \<not> is_js_space (last l)"
  proof (induction ss arbitrary: s)
    case Nil
    have "last (lit '' -----'') = of_char CHR ''-''" "\<not> is_js_space (of_char CHR ''-'')" by code_simp+
    then show ?case
      by (intro exI [of _ "take 2 (source_lines s)"] exI [of _ "lit ''----- END '' @ so_label s @ lit '' -----''"])
         (simp add: source_lines_def)
  next
    case (Cons s' ss)
    from Cons.IH [of s'] obtain u l where
      "concat (map source_lines (s' # ss)) = u @ [l] @ [[]]" "l \<noteq> []" "\<not> is_js_space (last l)" by blast
    then show ?case by (intro exI [of _ "source_lines s @ u"] exI [of _ l]) simp
  qed
  then obtain u l where "concat (map source_lines (s # ss)) = u @ [l] @ [[]]" "l \<noteq> []" "\<not> is_js_space (last l)" by blast
  then show ?thesis
    unfolding package_lines_def by (metis append.assoc)
qed

lemma section_occurs:
  "head \<noteq> [] \<Longrightarrow>
   occurs (join [10] (butlast (package_lines item (s # ss))))
     (trimEnd (join [10] (head @ package_lines item (s # ss) @ tail)) @ [10])"
proof -
  assume head: "head \<noteq> []"
  obtain u l where l: "package_lines item (s # ss) = u @ [l] @ [[]]" "l \<noteq> []" "\<not> is_js_space (last l)"
    using package_lines_split by blast
  let ?x = "join [10] (u @ [l])"
  have "?x = (if u = [] then [] else join [10] u @ [10]) @ l" by (simp add: join_append)
  then have x: "?x \<noteq> []" "\<not> is_js_space (last ?x)" using l(2,3) by simp_all
  have "join [10] (head @ (u @ [l]) @ ([[]] @ tail)) = join [10] head @ [10] @ join [10] ((u @ [l]) @ ([[]] @ tail))"
    by (rule join_append) (use head in simp_all)
  also have "join [10] ((u @ [l]) @ ([[]] @ tail)) = ?x @ [10] @ join [10] ([[]] @ tail)"
    by (rule join_append) simp_all
  finally have "join [10] (head @ package_lines item (s # ss) @ tail) =
      (join [10] head @ [10]) @ ?x @ ([10] @ join [10] ([[]] @ tail))"
    by (simp add: l(1))
  with trimEnd_keeps [OF x] obtain v where
    "trimEnd (join [10] (head @ package_lines item (s # ss) @ tail)) = (join [10] head @ [10]) @ ?x @ v" by metis
  moreover have "butlast (package_lines item (s # ss)) = u @ [l]" by (simp add: l(1) butlast_append)
  ultimately show ?thesis
    by (simp only: occurs_iff) (metis append.assoc)
qed

lemma map2_section:
  assumes "list_all2 R xs ys" "x \<in> set xs"
  shows "\<exists>y before after. R x y \<and> concat (map2 f xs ys) = before @ f x y @ after"
  using assms
proof (induction rule: list_all2_induct)
  case (Cons z xs y ys)
  show ?case
  proof (cases "x = z")
    case True
    with Cons(1) show ?thesis by (intro exI [of _ y] exI [of _ "[]"] exI [of _ "concat (map2 f xs ys)"]) simp
  next
    case False
    with Cons obtain w before after where "R x w" "concat (map2 f xs ys) = before @ f x w @ after" by auto
    then show ?thesis by (intro exI [of _ w] exI [of _ "f z y @ before"] exI [of _ after]) simp
  qed
qed simp

section \<open>Properties\<close>



end
