(* ===== verification/License_Witnesses.thy ===== *)
theory License_Witnesses
  imports License_Listing Contract_Json_Facts
begin

text \<open>A checkout with two bundled packages, one of which has its license only through the other,
  on which the theorems on the license inventory are instantiated.\<close>

section \<open>The checkout\<close>

definition ascii_file :: "string \<Rightarrow> node" where
  "ascii_file s = File_Node (buffer_from (lit s))"

definition json_file :: "jsval \<Rightarrow> node" where
  "json_file v = File_Node (buffer_from (renderJson (\<lambda>_ _. 0) v))"

definition sample_metafile :: jsval where
  "sample_metafile = JObj [(lit ''outputs'', JObj [(lit ''dist/index.cjs'', JObj [(lit ''inputs'', JObj
     [(lit ''node_modules/a/i.js'', JObj [(lit ''bytesInOutput'', JNum (num 1))]),
      (lit ''node_modules/b/i.js'', JObj [(lit ''bytesInOutput'', JNum (num 2))])])])])]"

definition sample_package :: "string \<Rightarrow> jsval" where
  "sample_package name = JObj
     [(lit ''name'', JStr (lit name)), (lit ''version'', JStr (lit ''1'')), (lit ''license'', JStr (lit ''Apache-2.0''))]"

definition sample_checkout :: node where
  "sample_checkout = Dir_Node
     [(lit ''dist'', Dir_Node [(lit ''metafile-cjs.json'', json_file sample_metafile)]),
      (lit ''node_modules'', Dir_Node
         [(lit ''a'', Dir_Node
             [(lit ''LICENSE'', ascii_file ''Apache License Version 2.0''), (lit ''i.js'', ascii_file ''1''),
              (lit ''package.json'', json_file (sample_package ''a''))]),
          (lit ''b'', Dir_Node [(lit ''i.js'', ascii_file ''2''), (lit ''package.json'', json_file (sample_package ''b''))])])]"

lemma json_file_parses:
  assumes "json_document v" "list_all (\<lambda>u. u < 0x80) (renderJson (\<lambda>_ _. 0) v)"
    "find_node tree p = Some (json_file v)"
  shows "parseJsonFile tree p = Inr (normalizeJson (\<lambda>_ _. 0) v)"
  using assms
  by (simp add: parseJsonFile_def json_file_def node_bytes_def parseJson_def renderJson_parses
      buffer_roundtrip [THEN iffD2, OF ascii_well_formed])

lemma num_texts: "num_text (num 1) = lit ''1''" "num_text (num 2) = lit ''2''"
  by code_simp+

lemma sample_documents:
  "list_all (\<lambda>u. u < 0x80) (renderJson (\<lambda>_ _. 0) (sample_package ''a''))"
  "list_all (\<lambda>u. u < 0x80) (renderJson (\<lambda>_ _. 0) (sample_package ''b''))"
  "normalizeJson (\<lambda>_ _. 0) (sample_package ''a'') = sample_package ''a''"
  "normalizeJson (\<lambda>_ _. 0) (sample_package ''b'') = sample_package ''b''"
  "normalizeJson (\<lambda>_ _. 0) sample_metafile = sample_metafile"
  by code_simp+

lemma sample_metafile_ascii:
  "list_all (\<lambda>u. u < 0x80) (renderJson (\<lambda>_ _. 0) sample_metafile)"
  by code_simp

lemma sample_json_documents: "json_document sample_metafile" "json_document (sample_package name)"
proof -
  have "(1::int) \<le> MAX_SAFE" "(2::int) \<le> MAX_SAFE" by (simp_all add: MAX_SAFE_def)
  then show "json_document sample_metafile" "json_document (sample_package name)"
    by (simp_all add: sample_metafile_def sample_package_def is_double_num)
qed

section \<open>The packages\<close>

definition in_modules :: "string list \<Rightarrow> abs_path" where
  "in_modules names = lit ''node_modules'' # map lit names"

lemma sample_reads:
  "parseJsonFile sample_checkout (DEFAULT_METAFILE []) = Inr sample_metafile"
  "parseJsonFile sample_checkout (in_modules [''a'', ''package.json'']) = Inr (sample_package ''a'')"
  "parseJsonFile sample_checkout (in_modules [''b'', ''package.json'']) = Inr (sample_package ''b'')"
proof -
  have files: "find_node sample_checkout (DEFAULT_METAFILE []) = Some (json_file sample_metafile)"
    "find_node sample_checkout (in_modules [''a'', ''package.json'']) = Some (json_file (sample_package ''a''))"
    "find_node sample_checkout (in_modules [''b'', ''package.json'']) = Some (json_file (sample_package ''b''))"
    by (simp_all add: sample_checkout_def DEFAULT_METAFILE_def in_modules_def)
  show "parseJsonFile sample_checkout (DEFAULT_METAFILE []) = Inr sample_metafile"
    using json_file_parses [OF sample_json_documents(1) sample_metafile_ascii files(1)] by (simp only: sample_documents)
  show "parseJsonFile sample_checkout (in_modules [''a'', ''package.json'']) = Inr (sample_package ''a'')"
    using json_file_parses [OF sample_json_documents(2) sample_documents(1) files(2)] by (simp only: sample_documents)
  show "parseJsonFile sample_checkout (in_modules [''b'', ''package.json'']) = Inr (sample_package ''b'')"
    using json_file_parses [OF sample_json_documents(2) sample_documents(2) files(3)] by (simp only: sample_documents)
qed

lemma sample_paths:
  "resolve_path [] (lit ''node_modules/a/i.js'') = in_modules [''a'', ''i.js'']"
  "resolve_path [] (lit ''node_modules/b/i.js'') = in_modules [''b'', ''i.js'']"
  "resolve_path (in_modules [''a'']) (lit ''i.js'') = in_modules [''a'', ''i.js'']"
  "resolve_path (in_modules [''b'']) (lit ''i.js'') = in_modules [''b'', ''i.js'']"
  "isWithin (node_modules []) (in_modules [''a'', ''i.js''])" "isWithin (node_modules []) (in_modules [''b'', ''i.js''])"
  "isWithin (node_modules []) (in_modules [''a''])" "isWithin (node_modules []) (in_modules [''b''])"
  "isWithin (in_modules [''a'']) (in_modules [''a'', ''i.js''])" "isWithin (in_modules [''b'']) (in_modules [''b'', ''i.js''])"
  "relative_path (in_modules [''a'']) (in_modules [''a'', ''i.js'']) = lit ''i.js''"
  "relative_path (in_modules [''b'']) (in_modules [''b'', ''i.js'']) = lit ''i.js''"
  by code_simp+

lemma sample_files:
  "find_node sample_checkout (in_modules [''a'', ''i.js'']) = Some (ascii_file ''1'')"
  "find_node sample_checkout (in_modules [''b'', ''i.js'']) = Some (ascii_file ''2'')"
  "find_node sample_checkout (in_modules [''a'', ''package.json'']) = Some (json_file (sample_package ''a''))"
  "find_node sample_checkout (in_modules [''b'', ''package.json'']) = Some (json_file (sample_package ''b''))"
  "find_node sample_checkout (in_modules [''a'']) = Some (Dir_Node
     [(lit ''LICENSE'', ascii_file ''Apache License Version 2.0''), (lit ''i.js'', ascii_file ''1''),
      (lit ''package.json'', json_file (sample_package ''a''))])"
  "find_node sample_checkout (in_modules [''b'']) = Some (Dir_Node
     [(lit ''i.js'', ascii_file ''2''), (lit ''package.json'', json_file (sample_package ''b''))])"
  by (simp_all add: sample_checkout_def in_modules_def)

lemma lit_append: "lit s @ lit t = lit (s @ t)"
  by (simp add: lit_def)

lemma apache_nonempty: "APACHE \<noteq> []"
  by (simp add: APACHE_def)

lemma in_modules_simps:
  "package_json (in_modules ns) = in_modules (ns @ [''package.json''])"
  "ns \<noteq> [] \<Longrightarrow> butlast (in_modules ns) = in_modules (butlast ns)"
  by (simp_all add: package_json_def in_modules_def map_butlast)

lemma sample_fields:
  "field_of (sample_package n) ''name'' = JStr (lit n)" "field_of (sample_package n) ''version'' = JStr (lit ''1'')"
  "field_of (sample_package n) ''license'' = JStr APACHE" "present (sample_package n) = Inr ()"
  by (simp_all add: sample_package_def field_of_def APACHE_def present_def is_nullish_def)

lemma sample_declares:
  "declares_package sample_checkout (in_modules [''a'']) = Inr True"
  "declares_package sample_checkout (in_modules [''b'']) = Inr True"
  by (simp_all add: declares_package_def in_modules_simps sample_files json_file_def is_regular_def sample_reads
      sample_fields is_text_def)

lemma sample_roots:
  "findPackageRoot sample_checkout (node_modules []) (in_modules [''a'', ''i.js'']) = Inr (in_modules [''a''])"
  "findPackageRoot sample_checkout (node_modules []) (in_modules [''b'', ''i.js'']) = Inr (in_modules [''b''])"
  by (simp_all add: findPackageRoot_def stat_directory_def sample_files ascii_file_def node_exists_def is_regular_def
      in_modules_simps package_root_from.simps [of _ _ "in_modules [''a'']"]
      package_root_from.simps [of _ _ "in_modules [''b'']"] sample_paths sample_declares)

definition sample_bundled :: "string \<Rightarrow> bundled_package" where
  "sample_bundled n = \<lparr>bp_id = lit n @ lit ''@1'', bp_name = lit n, bp_version = lit ''1'', bp_license = APACHE,
     bp_inputs = [lit ''i.js''], bp_roots = [in_modules [n]]\<rparr>"

lemma sample_items:
  "add_input sample_checkout [] [] (lit ''node_modules/a/i.js'', JObj [(lit ''bytesInOutput'', JNum (num 1))]) =
     Inr [(lit ''a@1'', sample_bundled ''a'')]"
  "add_input sample_checkout [] [(lit ''a@1'', sample_bundled ''a'')]
       (lit ''node_modules/b/i.js'', JObj [(lit ''bytesInOutput'', JNum (num 2))]) =
     Inr [(lit ''a@1'', sample_bundled ''a''), (lit ''b@1'', sample_bundled ''b'')]"
  by (simp_all add: add_input_def sample_paths contributes_def isObject_def field_of_def [of "JObj _"] sample_roots in_modules_simps
      sample_reads sample_fields nonempty_text_def package_item_def metadata_text_def add_file_def sample_bundled_def
      lit_append Let_def apache_nonempty)

lemma sample_bundle_inputs:
  "bundle_inputs sample_metafile = Inr
     [(lit ''node_modules/a/i.js'', JObj [(lit ''bytesInOutput'', JNum (num 1))]),
      (lit ''node_modules/b/i.js'', JObj [(lit ''bytesInOutput'', JNum (num 2))])]"
  by code_simp

lemma sample_bundledPackages:
  "bundledPackages sample_checkout [] (DEFAULT_METAFILE []) = Inr [sample_bundled ''a'', sample_bundled ''b'']"
proof -
  have "lit ''a@1'' \<le> lit ''b@1''" by code_simp
  then have "sort_key bp_id [sample_bundled ''a'', sample_bundled ''b''] = [sample_bundled ''a'', sample_bundled ''b'']"
    by (simp add: sample_bundled_def lit_append)
  then show ?thesis
    by (simp add: bundledPackages_def sample_reads sample_bundle_inputs sample_items)
       (simp add: sample_bundled_def)
qed

section \<open>Their licenses\<close>

definition sample_license :: legal_source where
  "sample_license = \<lparr>so_isLicense = True, so_label = lit ''a@1/LICENSE'',
     so_text = lit ''Apache License Version 2.0'', so_licenseId = None\<rparr>"

lemma ascii_reads: "list_all (\<lambda>u. u < 0x80) (lit s) \<Longrightarrow> buffer_utf8 (buffer_from (lit s)) = lit s"
  by (simp add: buffer_roundtrip [THEN iffD2, OF ascii_well_formed])

lemma checkout_texts:
  "buffer_utf8 (buffer_from (lit ''Apache License Version 2.0'')) = lit ''Apache License Version 2.0''"
  "buffer_utf8 (buffer_from (lit ''1'')) = lit ''1''" "buffer_utf8 (buffer_from (lit ''2'')) = lit ''2''"
  "normalizedText (lit ''Apache License Version 2.0'') = lit ''Apache License Version 2.0''"
  "extractEmbeddedLegalNotice (lit ''1'') = None" "extractEmbeddedLegalNotice (lit ''2'') = None"
  "trim (lit ''Apache License Version 2.0'') \<noteq> []"
  "LEGAL_FILE (lit ''LICENSE'')" "LICENSE_FILE (lit ''LICENSE'')"
  "\<not> LEGAL_FILE (lit ''i.js'')" "\<not> LEGAL_FILE (lit ''package.json'')"
  by (rule ascii_reads, code_simp)+ code_simp+

lemma sample_legal:
  "legalSources sample_checkout (sample_bundled ''a'') = Inr [sample_license]"
  "legalSources sample_checkout (sample_bundled ''b'') = Inr []"
  by (simp_all add: legalSources_def sorted_roots_def sample_bundled_def legal_root_def sample_files dir_entries_def
      legal_entry_def ascii_file_def json_file_def checkout_texts sample_license_def lit_append)

lemma sample_embedded:
  "embeddedLegalSources sample_checkout (sample_bundled ''a'') = Inr []"
  "embeddedLegalSources sample_checkout (sample_bundled ''b'') = Inr []"
  by (simp_all add: embeddedLegalSources_def sorted_roots_def sample_bundled_def embedded_root_def embedded_input_def
      sample_paths sample_files ascii_file_def is_regular_def node_bytes_def checkout_texts add_notice_def)

definition sample_own :: package_sources where
  "sample_own = [(lit ''a@1'', [sample_license]), (lit ''b@1'', [])]"

definition sample_inner :: package_sources where
  "sample_inner = [(lit ''a@1'', []), (lit ''b@1'', [])]"

definition sample_listed :: "legal_source list list" where
  "sample_listed = [[sample_license], [sample_license\<lparr>so_label := lit ''a@1/LICENSE (canonical Apache-2.0 text for b@1)''\<rparr>]]"

definition sample_inventory :: license_inventory where
  "sample_inventory =
     \<lparr>li_packages = map listed_package.truncate [sample_bundled ''a'', sample_bundled ''b''],
      li_text = trimEnd (join [10] (header_lines 2 @
        concat (map2 package_lines [sample_bundled ''a'', sample_bundled ''b''] sample_listed))) @ [10]\<rparr>"

lemma sample_fallback: "parseFallbackLicenseIds APACHE = Inr [APACHE]"
  by code_simp

lemma sample_apache:
  "canonicalApacheSource [sample_bundled ''a'', sample_bundled ''b''] sample_own = Some sample_license"
  by code_simp

lemma sample_licenses:
  "package_licenses (Some sample_license) sample_own sample_inner (sample_bundled ''a'') = Inr (sample_listed ! 0)"
  "package_licenses (Some sample_license) sample_own sample_inner (sample_bundled ''b'') = Inr (sample_listed ! 1)"
  by (simp_all add: package_licenses_def sources_of_def sample_own_def sample_inner_def sample_bundled_def
      sample_license_def sample_listed_def fallbackLicenseSources_def sample_fallback fallback_source_def lit_append)

lemma sample_built:
  "buildThirdPartyLicenseInventory sample_checkout [] (DEFAULT_METAFILE []) = Inr sample_inventory"
proof -
  have "per_package (legalSources sample_checkout) [sample_bundled ''a'', sample_bundled ''b''] = Inr sample_own"
    "per_package (embeddedLegalSources sample_checkout) [sample_bundled ''a'', sample_bundled ''b''] = Inr sample_inner"
    by (simp_all add: per_package_def sample_legal sample_embedded sample_own_def sample_inner_def)
       (simp_all add: sample_bundled_def lit_append)
  then show ?thesis
    by (simp add: buildThirdPartyLicenseInventory_def sample_bundledPackages sample_apache sample_licenses
        sample_inventory_def) (simp add: sample_listed_def numeral_2_eq_2)
qed

section \<open>The theorems on them\<close>



lemma sample_written:
  "\<exists>tree'. writeThirdPartyLicenses sample_checkout [] (DEFAULT_METAFILE []) (DEFAULT_OUTPUT []) = Inr (sample_inventory, tree')"
  by (simp add: writeThirdPartyLicenses_def sample_built write_output_def DEFAULT_OUTPUT_def)
     (simp add: sample_checkout_def)

lemma join_units: "list_all P sep \<Longrightarrow> list_all (list_all P) ls \<Longrightarrow> list_all P (join sep ls)"
  by (induction sep ls rule: join.induct) auto

lemma trimEnd_units: "list_all P s \<Longrightarrow> list_all P (trimEnd s)"
  by (auto simp: trimEnd_def list_all_iff dest: set_dropWhileD)

lemma lit_units: "list_all (\<lambda>c. \<not> digit7 c) s \<Longrightarrow> list_all (\<lambda>u. u < 0x80) (lit s)"
proof -
  have "(of_char c :: code_unit) < 0x80" if "\<not> digit7 c" for c
    using that by (cases c) (auto simp: of_char_def of_bool_def)
  then show "list_all (\<lambda>c. \<not> digit7 c) s \<Longrightarrow> list_all (\<lambda>u. u < 0x80) (lit s)" by (simp add: lit_def list_all_iff)
qed

lemma sample_ascii: "list_all (\<lambda>u. u < 0x80) (li_text sample_inventory)"
proof -
  have number: "list_all (\<lambda>u. u < 0x80) (dec_nat n)" for n
    using all_digits_dec_nat [of n]
    by (auto simp: all_digits_def list_all_iff is_digit_def unit_in_def word_le_nat_alt word_less_nat_alt)
  have rule: "list_all P (replicate 79 x) \<longleftrightarrow> P x" for P and x :: code_unit by (simp add: list_all_iff)
  have texts: "list_all (list_all (\<lambda>u. u < 0x80)) (header_lines 2)"
    "list_all (list_all (\<lambda>u. u < 0x80)) (concat (map2 package_lines [sample_bundled ''a'', sample_bundled ''b''] sample_listed))"
    by (simp_all add: header_lines_def package_lines_def source_lines_def sample_bundled_def sample_listed_def
        sample_license_def fallback_source_def DIVIDER_def trimEnd_units lit_units listed_package.defs APACHE_def number rule)
  show ?thesis unfolding sample_inventory_def by (simp add: join_units trimEnd_units texts)
qed

theorem license_check_after_write_witness:
  "\<exists>tree'. writeThirdPartyLicenses sample_checkout [] (DEFAULT_METAFILE []) (DEFAULT_OUTPUT []) = Inr (sample_inventory, tree') \<and>
     checkThirdPartyLicenses tree' [] (DEFAULT_METAFILE []) (DEFAULT_OUTPUT []) = Inr sample_inventory"
proof -
  obtain tree' where w: "writeThirdPartyLicenses sample_checkout [] (DEFAULT_METAFILE []) (DEFAULT_OUTPUT []) = Inr (sample_inventory, tree')"
    using sample_written by blast
  with license_check_after_write [OF w] sample_ascii show ?thesis by (auto simp: ascii_well_formed)
qed

end
