(* ===== verification/Descriptor_Embedding.thy ===== *)
theory Descriptor_Embedding
  imports License_Facts Table_Pages
begin

text \<open>
  src/scripts/embed-connect-descriptor.mjs, which writes the descriptors of the two services as
  the modules connect-descriptor.ts and ingest-descriptor.ts: an array of base64 texts and a
  function that joins and decodes it. The files are those of a tree below the root directory of
  the SDK.
\<close>

section \<open>The module of a descriptor\<close>

record embedded_descriptor =
  ed_descriptor :: jstr
  ed_output :: jstr
  ed_constant :: jstr
  ed_functionName :: jstr

definition descriptors :: "embedded_descriptor list" where
  "descriptors =
     [\<lparr>ed_descriptor = lit ''proto/external-ingestion-v1.descriptor.binpb'',
       ed_output = lit ''src/connect-descriptor.ts'',
       ed_constant = lit ''CONNECT_DESCRIPTOR_BASE64'',
       ed_functionName = lit ''connectDescriptorBytes''\<rparr>,
      \<lparr>ed_descriptor = lit ''proto/ingest-v1.descriptor.binpb'',
       ed_output = lit ''src/ingest-descriptor.ts'',
       ed_constant = lit ''INGEST_DESCRIPTOR_BASE64'',
       ed_functionName = lit ''ingestDescriptorBytes''\<rparr>]"

text \<open>\<open>base64.match(/.{1,96}/g) ?? []\<close>: base64 has no line ends.\<close>

function base64_chunks :: "jstr \<Rightarrow> jstr list" where
  "base64_chunks s = (if s = [] then [] else take 96 s # base64_chunks (drop 96 s))"
  by pat_completeness auto
termination by (relation "measure length") auto

declare base64_chunks.simps [simp del]

definition chunk_line :: "jstr \<Rightarrow> jstr" where
  "chunk_line chunk = lit ''  '' @ [34] @ chunk @ [34] @ lit '',''"

text \<open>The lines before and after those of the chunks.\<close>

definition module_head :: "embedded_descriptor \<Rightarrow> jstr list" where
  "module_head item =
     [lit ''// Generated by pnpm proto:descriptor. Do not edit manually.'',
      lit ''import { Buffer } from '' @ [34] @ lit ''node:buffer'' @ [34] @ lit '';'',
      [],
      lit ''const '' @ ed_constant item @ lit '' = ['']"

definition module_tail :: "embedded_descriptor \<Rightarrow> jstr list" where
  "module_tail item =
     [lit ''].join('' @ [34, 34] @ lit '');'',
      [],
      lit ''export function '' @ ed_functionName item @ lit ''(): Uint8Array {'',
      lit ''  return new Uint8Array(Buffer.from('' @ ed_constant item @ lit '', '' @ [34] @ lit ''base64'' @ [34] @ lit ''));'',
      lit ''}'',
      []]"

definition descriptor_module :: "embedded_descriptor \<Rightarrow> byte list \<Rightarrow> jstr" where
  "descriptor_module item payload =
     join [10]
       (module_head item @
        (case base64_chunks (base64_encode payload) of [] \<Rightarrow> [[]] | cs \<Rightarrow> map chunk_line cs) @
        module_tail item)"

section \<open>The generated function\<close>

text \<open>What \<open>connectDescriptorBytes()\<close> returns from the constant of its module.\<close>

definition connectDescriptorBytes :: "jstr list \<Rightarrow> byte list" where
  "connectDescriptorBytes chunks = base64_decode (concat chunks)"

definition ingestDescriptorBytes :: "jstr list \<Rightarrow> byte list" where
  "ingestDescriptorBytes chunks = base64_decode (concat chunks)"

text \<open>The string literals of the array in the text of a module.\<close>

definition chunk_of_line :: "jstr \<Rightarrow> jstr option" where
  "chunk_of_line line =
     (if startsWith line (lit ''  '' @ [34]) then Some (takeWhile (\<lambda>u. u \<noteq> 34) (drop 3 line)) else None)"

definition module_chunks :: "jstr \<Rightarrow> jstr list" where
  "module_chunks source = List.map_filter chunk_of_line (split_on [10] source)"

section \<open>The script\<close>

definition under :: "abs_path \<Rightarrow> jstr \<Rightarrow> abs_path" where
  "under sdkRoot relative = sdkRoot @ join_segments relative"

text \<open>\<open>writeFileSync\<close> to a path that is not a link: its directory has to be there.\<close>

definition writeFileSync :: "node \<Rightarrow> abs_path \<Rightarrow> byte list \<Rightarrow> thrown + node" where
  "writeFileSync tree path payload =
     (case (find_node tree (butlast path), find_node tree path) of
        (Some (Dir_Node _), Some (Dir_Node _)) \<Rightarrow> Inl io_error
      | (Some (Dir_Node _), _) \<Rightarrow>
          (case put_node tree path (File_Node payload) of None \<Rightarrow> Inl io_error | Some tree' \<Rightarrow> Inr tree')
      | _ \<Rightarrow> Inl io_error)"

text \<open>One descriptor: the messages about stale outputs so far and the tree.\<close>

definition stale_message :: "embedded_descriptor \<Rightarrow> jstr" where
  "stale_message item = ed_output item @ lit '' is stale''"

definition embed_item ::
    "bool \<Rightarrow> abs_path \<Rightarrow> jstr list \<times> node \<Rightarrow> embedded_descriptor \<Rightarrow> thrown + jstr list \<times> node" where
  "embed_item checkOnly sdkRoot st item =
     (let outputPath = under sdkRoot (ed_output item) in
      bindE (node_bytes (find_node (snd st) (under sdkRoot (ed_descriptor item)))) (\<lambda>payload.
        if checkOnly then
          bindE (node_bytes (find_node (snd st) outputPath)) (\<lambda>current.
            Inr (if buffer_utf8 current \<noteq> descriptor_module item payload
                 then (fst st @ [stale_message item], snd st) else st))
        else
          bindE (writeFileSync (snd st) outputPath (buffer_from (descriptor_module item payload))) (\<lambda>tree'.
            Inr (fst st, tree'))))"

definition embed_descriptors :: "bool \<Rightarrow> abs_path \<Rightarrow> node \<Rightarrow> thrown + jstr list \<times> node" where
  "embed_descriptors checkOnly sdkRoot tree = foldE (embed_item checkOnly sdkRoot) ([], tree) descriptors"

text \<open>The script: the root it works in, and its exit code, messages and tree.\<close>

definition embed_root :: "abs_path \<Rightarrow> abs_path \<Rightarrow> jstr list \<Rightarrow> thrown + abs_path" where
  "embed_root scriptRoot cwd argv =
     (case dropWhile (\<lambda>a. a \<noteq> lit ''--root'') argv of
        [] \<Rightarrow> Inr scriptRoot
      | _ # rest \<Rightarrow>
          (case rest of
             [] \<Rightarrow> Inl license_fail
           | r # _ \<Rightarrow> if r = [] then Inl license_fail else Inr (resolve_path cwd r)))"

definition embed_script ::
    "abs_path \<Rightarrow> abs_path \<Rightarrow> jstr list \<Rightarrow> node \<Rightarrow> thrown + nat \<times> jstr list \<times> node" where
  "embed_script scriptRoot cwd argv tree =
     bindE (embed_root scriptRoot cwd argv) (\<lambda>sdkRoot.
     bindE (embed_descriptors (lit ''--check'' \<in> set argv) sdkRoot tree) (\<lambda>(stale, tree').
       Inr (if stale = [] then 0 else 1, stale, tree')))"

section \<open>The modules read back\<close>

lemma concat_base64_chunks: "concat (base64_chunks s) = s"
  by (induction s rule: base64_chunks.induct) (subst base64_chunks.simps, simp)

lemma base64_chunks_units: "c \<in> set (base64_chunks s) \<Longrightarrow> c \<noteq> [] \<and> length c \<le> 96 \<and> set c \<subseteq> set s"
proof (induction s rule: base64_chunks.induct)
  case (1 s)
  show ?case
  proof (cases "s = []")
    case True
    then show ?thesis using 1 by (simp add: base64_chunks.simps)
  next
    case False
    then consider "c = take 96 s" | "c \<in> set (base64_chunks (drop 96 s))"
      using 1(2) by (auto simp: base64_chunks.simps [of s])
    then show ?thesis
    proof cases
      case 1
      then show ?thesis using False by (auto dest: in_set_takeD)
    next
      case 2
      from "1.IH" [OF False this] show ?thesis by (auto dest: in_set_dropD)
    qed
  qed
qed

lemma base64_units: "u \<in> set (base64_encode payload) \<Longrightarrow> u < 0x80 \<and> u \<noteq> 10 \<and> u \<noteq> 34"
proof -
  assume u: "u \<in> set (base64_encode payload)"
  consider "u = b64_pad" | d where "d < 64" "u = b64_unit d"
    using u sextets_bound [OF byte_bound, of payload]
    by (auto simp: base64_encode_def list_all_iff split: if_splits)
  then show ?thesis
  proof cases
    case 1
    then show ?thesis by (simp add: b64_pad_def)
  next
    case (2 d)
    then show ?thesis using unat_b64_unit [of d]
      by (auto simp: word_less_nat_alt word_unat_eq_iff split: if_splits)
  qed
qed

lemma chunk_units:
  assumes "c \<in> set (base64_chunks (base64_encode payload))"
  shows "c \<noteq> []" "\<forall>u \<in> set c. u < 0x80 \<and> u \<noteq> 10 \<and> u \<noteq> 34"
  using base64_chunks_units [OF assms] base64_units by blast+

lemma split_join_single:
  assumes "ps \<noteq> []" "\<forall>p \<in> set ps. x \<notin> set p"
  shows "split_on [x] (join [x] ps) = ps"
proof -
  have piece: "x \<notin> set p \<Longrightarrow> split_on [x] (p @ x # s) = p # split_on [x] s" for p s
    by (induction p) (auto simp: split_on.simps(2))
  show ?thesis using assms
  proof (induction "[x]" ps rule: join.induct)
    case (2 p)
    then show ?case by (induction p) (auto simp: split_on.simps(2))
  next
    case (3 p q ps)
    then show ?case by (simp add: piece)
  qed simp
qed

definition fixed_line :: "jstr \<Rightarrow> bool" where
  "fixed_line l \<longleftrightarrow> list_all (\<lambda>u. u < 0x80 \<and> u \<noteq> 10) l \<and> chunk_of_line l = None"

lemma module_lines_fixed:
  "item \<in> set descriptors \<Longrightarrow> list_all fixed_line (module_head item @ [] # module_tail item)"
proof -
  have "list_all (\<lambda>item. list_all fixed_line (module_head item @ [] # module_tail item)) descriptors"
    by code_simp
  then show "item \<in> set descriptors \<Longrightarrow> ?thesis" by (simp add: list_all_iff)
qed

lemma chunk_line_reads:
  assumes "\<forall>u \<in> set c. u < 0x80 \<and> u \<noteq> 10 \<and> u \<noteq> 34"
  shows "chunk_of_line (chunk_line c) = Some c" "list_all (\<lambda>u. u < 0x80 \<and> u \<noteq> 10) (chunk_line c)"
proof -
  have quote: "takeWhile (\<lambda>u. u \<noteq> 34) (c @ 34 # s) = c" for s
    using assms by (subst takeWhile_append2) auto
  show "chunk_of_line (chunk_line c) = Some c"
    by (simp add: chunk_of_line_def chunk_line_def startsWith_iff lit_def quote)
  show "list_all (\<lambda>u. u < 0x80 \<and> u \<noteq> 10) (chunk_line c)"
    using assms by (simp add: chunk_line_def lit_def list_all_iff)
qed

lemma map_filter_None: "\<forall>x \<in> set xs. f x = None \<Longrightarrow> List.map_filter f xs = []"
  by (induction xs) (simp_all add: List.map_filter_simps)

lemma map_filter_Some: "\<forall>x \<in> set xs. f (g x) = Some x \<Longrightarrow> List.map_filter f (map g xs) = xs"
  by (induction xs) (simp_all add: List.map_filter_simps)

lemma map_filter_append: "List.map_filter f (xs @ ys) = List.map_filter f xs @ List.map_filter f ys"
  by (simp add: List.map_filter_def)

lemma descriptor_module_reads:
  assumes "item \<in> set descriptors"
  shows "module_chunks (descriptor_module item payload) = base64_chunks (base64_encode payload)"
    and "list_all (\<lambda>u. u < 0x80) (descriptor_module item payload)"
proof -
  let ?cs = "base64_chunks (base64_encode payload)"
  let ?middle = "case ?cs of [] \<Rightarrow> [[]] | cs \<Rightarrow> map chunk_line cs"
  let ?lines = "module_head item @ ?middle @ module_tail item"
  have chunks: "\<forall>c \<in> set ?cs. chunk_of_line (chunk_line c) = Some c \<and> list_all (\<lambda>u. u < 0x80 \<and> u \<noteq> 10) (chunk_line c)"
    using chunk_line_reads chunk_units(2) by blast
  have fixed: "\<forall>l \<in> set (module_head item) \<union> set (module_tail item). list_all (\<lambda>u. u < 0x80 \<and> u \<noteq> 10) l \<and> chunk_of_line l = None"
    and blank: "chunk_of_line [] = None"
    using module_lines_fixed [OF assms] by (auto simp: list_all_iff fixed_line_def)
  have middle: "List.map_filter chunk_of_line ?middle = ?cs"
    "\<forall>l \<in> set ?middle. list_all (\<lambda>u. u < 0x80 \<and> u \<noteq> 10) l"
    using chunks blank by (auto simp: map_filter_Some List.map_filter_simps split: list.split)
  then have units: "\<forall>l \<in> set ?lines. list_all (\<lambda>u. u < 0x80 \<and> u \<noteq> 10) l" using fixed by auto
  have "split_on [10] (descriptor_module item payload) = ?lines"
    unfolding descriptor_module_def using units
    by (intro split_join_single) (auto simp: module_head_def list_all_iff)
  then show "module_chunks (descriptor_module item payload) = ?cs"
    using fixed middle(1) by (simp add: module_chunks_def map_filter_append map_filter_None)
  show "list_all (\<lambda>u. u < 0x80) (descriptor_module item payload)"
    using set_join [of "[10]" ?lines] units by (fastforce simp: descriptor_module_def list_all_iff)
qed

section \<open>The script leaves nothing stale\<close>

lemma under_diverge: "diverge (under sdkRoot a) (under sdkRoot b) \<longleftrightarrow> diverge (join_segments a) (join_segments b)"
  by (simp add: under_def)

lemma writeFileSync_put:
  "writeFileSync t p payload = Inr t' \<Longrightarrow> put_node t p (File_Node payload) = Some t'"
  by (cases "find_node t (butlast p)"; cases "the (find_node t (butlast p))"; cases "find_node t p"; cases "the (find_node t p)")
     (auto simp: writeFileSync_def split: option.splits)

lemma embedded_paths_diverge:
  "item \<in> set descriptors \<Longrightarrow> item' \<in> set descriptors \<Longrightarrow>
   diverge (under sdkRoot (ed_output item)) (under sdkRoot (ed_descriptor item')) \<and>
   (ed_output item \<noteq> ed_output item' \<longrightarrow> diverge (under sdkRoot (ed_output item)) (under sdkRoot (ed_output item')))"
proof -
  have "list_all (\<lambda>item. list_all (\<lambda>item'. diverge (join_segments (ed_output item)) (join_segments (ed_descriptor item')) \<and>
      (ed_output item \<noteq> ed_output item' \<longrightarrow> diverge (join_segments (ed_output item)) (join_segments (ed_output item'))))
      descriptors) descriptors"
    by code_simp
  then show "item \<in> set descriptors \<Longrightarrow> item' \<in> set descriptors \<Longrightarrow> ?thesis"
    by (simp add: list_all_iff under_diverge)
qed

text \<open>What the outputs that were written hold: the module of the descriptor.\<close>

definition embedded :: "abs_path \<Rightarrow> node \<Rightarrow> embedded_descriptor \<Rightarrow> bool" where
  "embedded sdkRoot tree item \<longleftrightarrow>
     (\<exists>payload. node_bytes (find_node tree (under sdkRoot (ed_descriptor item))) = Inr payload \<and>
        node_bytes (find_node tree (under sdkRoot (ed_output item))) =
          Inr (buffer_from (descriptor_module item payload)))"

lemma embed_item_write:
  assumes "embed_item False sdkRoot st item = Inr st'" "item \<in> set descriptors"
  shows "fst st' = fst st" "embedded sdkRoot (snd st') item"
    and "item' \<in> set descriptors \<Longrightarrow> ed_output item \<noteq> ed_output item' \<Longrightarrow> embedded sdkRoot (snd st) item' \<Longrightarrow>
      embedded sdkRoot (snd st') item'"
    and "item' \<in> set descriptors \<Longrightarrow> find_node (snd st') (under sdkRoot (ed_descriptor item')) =
      find_node (snd st) (under sdkRoot (ed_descriptor item'))"
proof -
  from assms(1) obtain payload tree' where
    p: "node_bytes (find_node (snd st) (under sdkRoot (ed_descriptor item))) = Inr payload"
    and w: "writeFileSync (snd st) (under sdkRoot (ed_output item)) (buffer_from (descriptor_module item payload)) = Inr tree'"
    and st': "st' = (fst st, tree')"
    by (auto simp: embed_item_def Let_def result_iff)
  note put = writeFileSync_put [OF w]
  show "fst st' = fst st" by (simp add: st')
  show keep: "find_node (snd st') (under sdkRoot (ed_descriptor item')) = find_node (snd st) (under sdkRoot (ed_descriptor item'))"
    if "item' \<in> set descriptors" for item'
    using find_put_other [OF put] embedded_paths_diverge [OF assms(2) that] by (simp add: st')
  show "embedded sdkRoot (snd st') item"
    using p keep [OF assms(2)] find_put_same [OF put] by (simp add: embedded_def st' node_bytes_def)
  show "embedded sdkRoot (snd st') item'"
    if "item' \<in> set descriptors" "ed_output item \<noteq> ed_output item'" "embedded sdkRoot (snd st) item'"
    using that keep [OF that(1)] find_put_other [OF put] embedded_paths_diverge [OF assms(2) that(1)]
    by (simp add: embedded_def st')
qed

lemma embed_item_check:
  assumes "embedded sdkRoot (snd st) item" "item \<in> set descriptors"
  shows "embed_item True sdkRoot st item = Inr st"
  using assms(1) descriptor_module_reads(2) [OF assms(2)]
  by (auto simp: embedded_def embed_item_def buffer_roundtrip [THEN iffD2, OF ascii_well_formed])

lemma module_decodes:
  assumes "item \<in> set descriptors"
  shows "connectDescriptorBytes (module_chunks (descriptor_module item payload)) = payload"
    "ingestDescriptorBytes (module_chunks (descriptor_module item payload)) = payload"
  by (simp_all add: connectDescriptorBytes_def ingestDescriptorBytes_def descriptor_module_reads(1) [OF assms]
      concat_base64_chunks base64_roundtrip)

lemma descriptors_members:
  "descriptors = [descriptors ! 0, descriptors ! 1]" "descriptors ! 0 \<in> set descriptors" "descriptors ! 1 \<in> set descriptors"
  "ed_output (descriptors ! 1) \<noteq> ed_output (descriptors ! 0)"
  by (simp_all add: descriptors_def)

lemma embedding_decodes:
  assumes "embed_descriptors False sdkRoot tree = Inr (stale, tree')"
  shows "stale = [] \<and> embed_descriptors True sdkRoot tree' = Inr ([], tree') \<and>
    (\<exists>connect ingest source source'.
      node_bytes (find_node tree (under sdkRoot (lit ''proto/external-ingestion-v1.descriptor.binpb''))) = Inr connect \<and>
      node_bytes (find_node tree' (under sdkRoot (lit ''src/connect-descriptor.ts''))) = Inr (buffer_from source) \<and>
      connectDescriptorBytes (module_chunks source) = connect \<and>
      node_bytes (find_node tree (under sdkRoot (lit ''proto/ingest-v1.descriptor.binpb''))) = Inr ingest \<and>
      node_bytes (find_node tree' (under sdkRoot (lit ''src/ingest-descriptor.ts''))) = Inr (buffer_from source') \<and>
      ingestDescriptorBytes (module_chunks source') = ingest)"
proof -
  let ?c = "descriptors ! 0" and ?i = "descriptors ! 1"
  note members = descriptors_members
  from assms obtain st where first: "embed_item False sdkRoot ([], tree) ?c = Inr st"
    and second: "embed_item False sdkRoot st ?i = Inr (stale, tree')"
    unfolding embed_descriptors_def by (subst (asm) members(1)) (auto simp: result_iff)
  note s1 = embed_item_write [OF first members(2)] and s2 = embed_item_write [OF second members(3)]
  have stale: "stale = []" using s1(1) s2(1) by simp
  have both: "embedded sdkRoot tree' ?c" "embedded sdkRoot tree' ?i"
    using s2(2) s2(3) [OF members(2) members(4) s1(2)] by simp_all
  have "embed_item True sdkRoot ([], tree') ?c = Inr ([], tree')" "embed_item True sdkRoot ([], tree') ?i = Inr ([], tree')"
    using both members(2,3) by (intro embed_item_check; simp only: snd_conv)+
  then have check: "embed_descriptors True sdkRoot tree' = Inr ([], tree')"
    unfolding embed_descriptors_def by (subst members(1)) (simp only: foldE.simps bindE_simps)
  have same: "find_node tree' (under sdkRoot (ed_descriptor ?c)) = find_node tree (under sdkRoot (ed_descriptor ?c))"
    "find_node tree' (under sdkRoot (ed_descriptor ?i)) = find_node tree (under sdkRoot (ed_descriptor ?i))"
    using s1(4) s2(4) members by simp_all
  from both obtain connect ingest where
    "node_bytes (find_node tree (under sdkRoot (ed_descriptor ?c))) = Inr connect"
    "node_bytes (find_node tree' (under sdkRoot (ed_output ?c))) = Inr (buffer_from (descriptor_module ?c connect))"
    "node_bytes (find_node tree (under sdkRoot (ed_descriptor ?i))) = Inr ingest"
    "node_bytes (find_node tree' (under sdkRoot (ed_output ?i))) = Inr (buffer_from (descriptor_module ?i ingest))"
    unfolding embedded_def same by blast
  with module_decodes members(2,3) have
    "\<exists>connect ingest source source'.
      node_bytes (find_node tree (under sdkRoot (ed_descriptor ?c))) = Inr connect \<and>
      node_bytes (find_node tree' (under sdkRoot (ed_output ?c))) = Inr (buffer_from source) \<and>
      connectDescriptorBytes (module_chunks source) = connect \<and>
      node_bytes (find_node tree (under sdkRoot (ed_descriptor ?i))) = Inr ingest \<and>
      node_bytes (find_node tree' (under sdkRoot (ed_output ?i))) = Inr (buffer_from source') \<and>
      ingestDescriptorBytes (module_chunks source') = ingest" by blast
  then show ?thesis using stale check by (simp add: descriptors_def)
qed

text \<open>C28. The embedded descriptors are the descriptors: after the script has run, its check finds
  nothing stale, and the function of either generated module, joining and decoding the texts of
  the module, returns the bytes of the descriptor file.\<close>

theorem embedding_reads_back:
  assumes "embed_descriptors False sdkRoot tree = Inr (stale, tree')"
  shows "stale = [] \<and> embed_descriptors True sdkRoot tree' = Inr ([], tree') \<and>
    (\<exists>connect ingest source source'.
      node_bytes (find_node tree (under sdkRoot (lit ''proto/external-ingestion-v1.descriptor.binpb''))) = Inr connect \<and>
      node_bytes (find_node tree' (under sdkRoot (lit ''src/connect-descriptor.ts''))) = Inr (buffer_from source) \<and>
      connectDescriptorBytes (module_chunks source) = connect \<and>
      node_bytes (find_node tree (under sdkRoot (lit ''proto/ingest-v1.descriptor.binpb''))) = Inr ingest \<and>
      node_bytes (find_node tree' (under sdkRoot (lit ''src/ingest-descriptor.ts''))) = Inr (buffer_from source') \<and>
      ingestDescriptorBytes (module_chunks source') = ingest)"
  using assms by (rule embedding_decodes)

definition sample_sdk :: node where
  "sample_sdk = Dir_Node
     [(lit ''proto'', Dir_Node [(lit ''external-ingestion-v1.descriptor.binpb'', File_Node [1, 2, 3, 4]),
                                (lit ''ingest-v1.descriptor.binpb'', File_Node [])]),
      (lit ''src'', Dir_Node [])]"

lemma sample_embedded_paths:
  "map join_segments [lit ''proto/external-ingestion-v1.descriptor.binpb'', lit ''src/connect-descriptor.ts'',
     lit ''proto/ingest-v1.descriptor.binpb'', lit ''src/ingest-descriptor.ts''] =
   map (map lit) [[''proto'', ''external-ingestion-v1.descriptor.binpb''], [''src'', ''connect-descriptor.ts''],
     [''proto'', ''ingest-v1.descriptor.binpb''], [''src'', ''ingest-descriptor.ts'']]"
  by code_simp

lemma sample_sdk_embeds: "\<exists>tree'. embed_descriptors False [] sample_sdk = Inr ([], tree')"
  using sample_embedded_paths
  by (simp add: embed_descriptors_def descriptors_def embed_item_def under_def sample_sdk_def node_bytes_def writeFileSync_def)

theorem embedding_reads_back_witness:
  "\<exists>tree' source. embed_descriptors False [] sample_sdk = Inr ([], tree') \<and>
     embed_descriptors True [] tree' = Inr ([], tree') \<and>
     node_bytes (find_node tree' (under [] (lit ''src/connect-descriptor.ts''))) = Inr (buffer_from source) \<and>
     connectDescriptorBytes (module_chunks source) = [1, 2, 3, 4]"
proof -
  obtain tree' where e: "embed_descriptors False [] sample_sdk = Inr ([], tree')" using sample_sdk_embeds by blast
  have "node_bytes (find_node sample_sdk (under [] (lit ''proto/external-ingestion-v1.descriptor.binpb''))) = Inr [1, 2, 3, 4]"
    using sample_embedded_paths by (simp add: under_def sample_sdk_def node_bytes_def)
  with embedding_reads_back [OF e] e show ?thesis by auto
qed

end
