(* ===== verification/Release_Chain.thy ===== *)
theory Release_Chain
  imports Contract_Sync_Facts Descriptor_Embedding
begin

text \<open>
  The way of the contract into the SDK, over the three scripts that run one after the other:
  src/scripts/sync_external_ingestion_contract.mjs writes the derived files of a validated bundle,
  src/scripts/embed-connect-descriptor.mjs makes modules of the descriptors, and the function of
  the module hands the bytes to the client.
\<close>

section \<open>What a validated bundle is known to hold\<close>

lemma validated_descriptor:
  assumes "validateBundleState p depth st = Inr v" "deriveArtifacts p v = Inr derived"
  shows "\<exists>payload ds. artifact st (lit ''descriptor.binpb'') = Inr payload \<and>
    validateDescriptor p payload = Inr ds \<and> vb_descriptorState v = ds \<and>
    field_of (vb_manifest v) ''descriptor_sha256'' = JStr (cp_sha256 p payload) \<and>
    (LOCAL_DESCRIPTOR_RELATIVE, payload) \<in> set derived"
proof -
  from assms(1) obtain payload ds manifestPayload where
    p: "artifact st (lit ''descriptor.binpb'') = Inr payload" "validateDescriptor p payload = Inr ds"
      "vb_descriptorState v = ds" "vb_state v = st"
    and m: "validateManifest p manifestPayload payload ds = Inr (vb_manifest v)"
    by (auto simp: validateBundleState_def result_iff)
  from m have "field_of (vb_manifest v) ''descriptor_sha256'' = JStr (cp_sha256 p payload)"
    by (auto simp: validateManifest_def result_iff)
  with p assms(2) show ?thesis by (auto simp: deriveArtifacts_def result_iff)
qed

text \<open>A synchronised checkout holds the descriptor of the bundle where the embedding reads it.\<close>

lemma sync_writes_descriptor:
  assumes "syncContract p depth fails source tree = Inr (r, tree')"
  shows "\<exists>st v payload ds. readBundle p source = Inr st \<and> validateBundleState p depth st = Inr v \<and>
    artifact st (lit ''descriptor.binpb'') = Inr payload \<and> validateDescriptor p payload = Inr ds \<and>
    field_of (vb_manifest v) ''descriptor_sha256'' = JStr (cp_sha256 p payload) \<and>
    find_node tree' (join_segments LOCAL_DESCRIPTOR_RELATIVE) = Some (File_Node payload)"
proof -
  from assms obtain st v derived tree1 where
    s: "readBundle p source = Inr st" "validateBundleState p depth st = Inr v" "deriveArtifacts p v = Inr derived"
    and w: "foldE atomicWrite tree1 derived = Inr tree'"
    by (auto simp: syncContract_def result_iff)
  have "\<forall>item \<in> set derived. find_node tree' (join_segments (fst item)) = Some (File_Node (snd item))"
    using writes_found [OF w] places_diverge(2) derive_paths [OF s(3)] by simp
  with validated_descriptor [OF s(2,3)] s(1,2) show ?thesis by fastforce
qed

lemma contract_embedded:
  assumes "syncContract p depth fails source tree = Inr (r, tree1)"
    and "embed_descriptors False [] tree1 = Inr (stale, tree2)"
  shows "\<exists>st v payload ds content. readBundle p source = Inr st \<and> validateBundleState p depth st = Inr v \<and>
    artifact st (lit ''descriptor.binpb'') = Inr payload \<and> validateDescriptor p payload = Inr ds \<and>
    field_of (vb_manifest v) ''descriptor_sha256'' = JStr (cp_sha256 p payload) \<and>
    node_bytes (find_node tree2 (join_segments (lit ''src/connect-descriptor.ts''))) = Inr (buffer_from content) \<and>
    connectDescriptorBytes (module_chunks content) = payload"
proof -
  from sync_writes_descriptor [OF assms(1)] obtain st v payload ds where
    s: "readBundle p source = Inr st" "validateBundleState p depth st = Inr v"
      "artifact st (lit ''descriptor.binpb'') = Inr payload" "validateDescriptor p payload = Inr ds"
      "field_of (vb_manifest v) ''descriptor_sha256'' = JStr (cp_sha256 p payload)"
    and f: "find_node tree1 (join_segments LOCAL_DESCRIPTOR_RELATIVE) = Some (File_Node payload)"
    by blast
  from embedding_decodes [OF assms(2)] obtain connect content where
    "node_bytes (find_node tree1 (under [] (lit ''proto/external-ingestion-v1.descriptor.binpb''))) = Inr connect"
    "node_bytes (find_node tree2 (under [] (lit ''src/connect-descriptor.ts''))) = Inr (buffer_from content)"
    "connectDescriptorBytes (module_chunks content) = connect"
    by blast
  with f s show ?thesis
    by (simp add: under_def LOCAL_DESCRIPTOR_RELATIVE_def [symmetric] node_bytes_def) blast
qed

section \<open>The property\<close>

text \<open>C18. What a released SDK calls its descriptor is the descriptor of the contract: when the
  synchronisation and the embedding both succeed, the function of the generated module returns the
  bytes of the descriptor in the bundle that was read, a descriptor that passed every check of the
  gate and whose digest is the one in the manifest of the bundle.\<close>

theorem contract_reaches_sdk:
  "case bindE (syncContract p depth fails source tree) (\<lambda>(r, tree1). embed_descriptors False [] tree1) of
     Inl e \<Rightarrow> True
   | Inr (stale, tree2) \<Rightarrow>
       (\<exists>st v payload ds content. readBundle p source = Inr st \<and> validateBundleState p depth st = Inr v \<and>
          artifact st (lit ''descriptor.binpb'') = Inr payload \<and> validateDescriptor p payload = Inr ds \<and>
          field_of (vb_manifest v) ''descriptor_sha256'' = JStr (cp_sha256 p payload) \<and>
          node_bytes (find_node tree2 (join_segments (lit ''src/connect-descriptor.ts''))) = Inr (buffer_from content) \<and>
          connectDescriptorBytes (module_chunks content) = payload)"
proof (cases "syncContract p depth fails source tree")
  case (Inr q)
  then have sync: "syncContract p depth fails source tree = Inr (fst q, snd q)" by simp
  show ?thesis
  proof (cases "embed_descriptors False [] (snd q)")
    case (Inr o')
    with contract_embedded [OF sync, of "fst o'" "snd o'"] sync show ?thesis by (simp add: case_prod_beta)
  qed (simp add: sync case_prod_beta)
qed simp

section \<open>The registry and the retry decision\<close>

lemma known_reasons: "map fst MEDALLION_ERROR_REASON_POLICY = EXPECTED_ERROR_REASONS"
  by (simp add: MEDALLION_ERROR_REASON_POLICY_def EXPECTED_ERROR_REASONS_def)

lemma registry_domain:
  "validateErrorReasonPolicy p policy = Inr r \<Longrightarrow> field_of policy ''domain'' = JStr MEDALLION_ERROR_INFO_DOMAIN"
  by (auto simp: validateErrorReasonPolicy_def result_iff ERROR_INFO_DOMAIN_def MEDALLION_ERROR_INFO_DOMAIN_def)

text \<open>C19. The registry that the gate lets through and the table that the client consults before a
  retry speak of the same errors: an accepted registry has the domain of the table and lists
  exactly the reasons of the table, each once, and the check returns the document unchanged. So no
  error of the service can be in the registry without the client having a policy for it.\<close>

theorem registry_matches_sdk:
  assumes "validateErrorReasonPolicy p policy = Inr r" "json_document policy"
  shows "r = policy \<and> field_of policy ''domain'' = JStr MEDALLION_ERROR_INFO_DOMAIN \<and>
    mset (map (\<lambda>e. field_of e ''reason'') (items_of (field_of policy ''reasons''))) =
      mset (map (JStr \<circ> fst) MEDALLION_ERROR_REASON_POLICY) \<and>
    (\<exists>e \<in> set (items_of (field_of policy ''reasons'')). field_of e ''reason'' = JStr reason) =
      (map_of MEDALLION_ERROR_REASON_POLICY reason \<noteq> None)"
proof -
  let ?listed = "map (\<lambda>e. field_of e ''reason'') (items_of (field_of policy ''reasons''))"
  note listed = validateErrorReasonPolicy_reasons [OF assms]
  then have same: "mset ?listed = mset (map (JStr \<circ> fst) MEDALLION_ERROR_REASON_POLICY)"
    by (simp flip: known_reasons map_map)
  from arg_cong [OF this, of set_mset]
  have "JStr reason \<in> set ?listed \<longleftrightarrow> JStr reason \<in> set (map (JStr \<circ> fst) MEDALLION_ERROR_REASON_POLICY)"
    by (simp only: set_mset_mset)
  then have "JStr reason \<in> set ?listed \<longleftrightarrow> map_of MEDALLION_ERROR_REASON_POLICY reason \<noteq> None"
    by (auto simp: map_of_eq_None_iff)
  moreover have "(\<exists>e \<in> set (items_of (field_of policy ''reasons'')). field_of e ''reason'' = JStr reason) \<longleftrightarrow>
      JStr reason \<in> set ?listed"
    by (simp only: set_map image_iff) metis
  ultimately show ?thesis using listed same registry_domain [OF assms(1)] by blast
qed

theorem registry_matches_sdk_witness:
  "mset (map (\<lambda>e. field_of e ''reason'') (items_of (field_of sample_registry ''reasons''))) =
     mset (map (JStr \<circ> fst) MEDALLION_ERROR_REASON_POLICY)"
  using registry_matches_sdk [OF sample_registry_accepted sample_registry_document] by blast

end
