(* ===== verification/Spec2Isabelle.thy ===== *)
theory Spec2Isabelle
  imports Wire_Facts Contract_Sync_Facts License_Witnesses Release_Chain
begin

text \<open>
  A model of the Medallion TypeScript SDK, the sources under src/src, with the theorems that make
  it correct.

  The program. \<open>MedallionClient\<close> (client.ts) owns one HTTP transport, \<open>RequestClient\<close>
  (request.ts), and hands it to the clients of the three services: \<open>CdcClient\<close> (cdc.ts) and
  \<open>AuditClient\<close> (audit.ts) publish and list events through \<open>ProtocolConnectClient\<close>
  (protocol.ts), and \<open>TablesClient\<close> (tables.ts, ingest.ts) appends rows and runs queries. A
  call is validated, normalised to the JSON names of a protobuf descriptor, checked by
  protocol-preflight.ts, encoded, sent with retries, decoded, and checked against what was asked.

  What models what, from the bottom up.
  \<^item> \<open>Prelude\<close>: results of fallible code as sums (the left side is the thrown error), their
    sequencing, loops that may throw. \<open>Js_Text\<close>, \<open>Js_Utf8\<close>, \<open>Js_Value\<close>, \<open>Json\<close>,
    \<open>Js_Base64\<close>, \<open>Js_Date\<close>: the parts of JavaScript and its standard library that the
    sources use: strings of 16-bit code units, the UTF-8 coder, numbers as IEEE doubles, values,
    \<open>JSON.parse\<close> and quoting, base64, \<open>Date\<close>.
  \<^item> \<open>Sdk_Error\<close>, \<open>Redaction\<close>, \<open>Error_Info\<close>, \<open>Api_Error\<close>, \<open>Retry_Policy\<close>: errors.ts and
    error-policy.ts: the error classes, the redaction of secrets, the hand-written protobuf
    reader, the sanitised API error, and which errors may be retried.
  \<^item> \<open>Headers\<close>, \<open>Tracing\<close>, \<open>Request_Config\<close>, \<open>Request_Body\<close>, \<open>Request_Delay\<close>,
    \<open>Request_Dispatch\<close>, \<open>Request_Json\<close>: request.ts and tracing.ts: the constructor, the
    bounded body reader, the delays, one attempt as a step, the retry loop under one abort signal,
    and \<open>requestJson\<close>. What the environment does during a request is a script with an entry
    per attempt (\<open>attempt_env\<close>); the effects are a list (\<open>effect\<close>). \<open>Dispatch_Facts\<close> and
    \<open>Request_Facts\<close> hold the theorems.
  \<^item> \<open>Ids\<close>, \<open>Timestamps\<close>, \<open>Canonical_Json\<close>, \<open>Payload\<close>, \<open>Ingestion\<close>: ids.ts, payload.ts
    and ingestion.ts. A caller's payload is a reference into a heap of JavaScript objects, because
    the code detects cycles by identity.
    \<open>Payload_Roundtrip\<close> says what such a value means (\<open>stands_for\<close>, an inductive relation to JSON
    values): the canonical text exists exactly for values that mean something, and parses to it.
    \<open>Number_Text\<close> (\<open>Number::toString\<close> reads back for every double) and \<open>Json_Reads\<close> (which texts
    \<open>JSON.parse\<close> reads as which value, compositionally) carry this and the round trip of the gate.
  \<^item> \<open>Preflight\<close>: protocol-preflight.ts, with the locale \<open>batch_preflight\<close> for what CDC and
    audit batches share. \<open>Event_Fields\<close>, \<open>Cdc_Events\<close>, \<open>Audit_Events\<close>: the translation of
    events to and from the wire. \<open>Protocol\<close>: protocol.ts.
  \<^item> \<open>Pagination\<close>: the iteration over pages, with the relation \<open>page_chain\<close> that specifies it
    and the locale \<open>paged_source\<close>. \<open>Cdc_Client\<close>, \<open>Audit_Client\<close>: the two clients. \<open>Client_Facts\<close>: what
    they guarantee, through the interpretations of the locale. \<open>Client_Witnesses\<close>: concrete
    clients and servers on which the theorems are instantiated.
  \<^item> \<open>Js_Convert\<close>: conversions of the language that the tables service needs. \<open>Ingest\<close> and
    \<open>Ingest_Client\<close>: ingest.ts, the limits and patterns, the checks of requests, those of answers,
    and the seven calls. \<open>Tables_Client\<close>: tables.ts but for queries; \<open>Table_Query\<close>: the query with
    its poll loop, and the result that is read once. \<open>Medallion_Client\<close>: client.ts.
    \<open>Table_Facts\<close> (declarations, appends, the key of a write), \<open>Query_Facts\<close> (the poll loop
    against the relation \<open>polled\<close>, the pages of a result against \<open>page_chain\<close>), \<open>Table_Pages\<close>
    (the tables client as a \<open>paged_source\<close>, Arrow streams) and \<open>Count_Facts\<close> (64-bit counts read
    through doubles) hold the theorems, \<open>Table_Witnesses\<close> the concrete instances.

  \<^item> \<open>Client_Preflight\<close>: the CDC and audit clients and protocol-preflight.ts check the same batch, on
    both sides of the renaming of members by the descriptor. The locale \<open>event_family\<close>, interpreted
    on both families, shows what is left to the second check: distinct keys and times in range.
    \<open>Wire_Types\<close> has the interfaces of types.ts as types of JSON values (\<open>wire_type\<close>, \<open>has_type\<close>);
    \<open>Wire_Facts\<close> shows that the requests have the declared types, and that answers that have
    theirs are read without a TypeError.

  The contract gate. src/scripts/sync_external_ingestion_contract.mjs decides whether a contract
  export of the service may become part of the SDK, and derives from it the descriptor that
  protocol.ts loads and the registry of error reasons that errors.ts reads.
  \<^item> \<open>Contract_Json\<close>: its JSON rendering (\<open>renderJson\<close>) and parsing, exact member lists, safe paths,
    checksum files. \<open>Contract_Schema\<close>: \<open>validateJsonSchema\<close> with the relation \<open>conforms\<close> that it
    decides. \<open>Contract_Descriptor\<close>: the index of a descriptor and \<open>validateDescriptor\<close> with the
    worklist of the wire closure. \<open>Contract_Policies\<close>: the checks of the manifest, the idempotency
    policy, the error registry, the fixtures, the schemas and the attestation.
  \<^item> \<open>Contract_Bundle\<close>: \<open>readBundle\<close> over a directory as a tree (\<open>node\<close>). \<open>Contract_Render\<close> and
    \<open>Contract_Proto\<close>: the modules and the protobuf sources that are generated.
  \<^item> \<open>Contract_Sync\<close>: \<open>syncContract\<close>, \<open>checkContract\<close>, the command line, and \<open>writeVendoredExport\<close>
    as calls of the file system each of which may fail (\<open>vendor_step\<close>).
  \<^item> \<open>Contract_Json_Facts\<close> (rendered documents parse back), \<open>Contract_Facts\<close> (the closure against
    reachability, what an accepted artifact and an accepted registry are) and
    \<open>Contract_Sync_Facts\<close> (a synchronisation leaves no drift, the replacement is atomic).

  The other build scripts. \<open>Descriptor_Embedding\<close> is src/scripts/embed-connect-descriptor.mjs, which
  turns the descriptor that the gate accepted into connect-descriptor.ts, with the functions of the
  generated modules; its theorem says that they return the descriptor's bytes. \<open>Release_Chain\<close>
  composes the two scripts: the SDK returns the descriptor of the accepted contract, and its table of
  retryable reasons is the one of the accepted registry. \<open>License_Paths\<close>
  (paths, \<open>isWithin\<close>, package.json), \<open>License_Notices\<close> (notices in comments, license expressions)
  and \<open>License_Inventory\<close> are src/scripts/generate_third_party_licenses.mjs; \<open>License_Facts\<close> (the
  inventory depends only on its sources, so writing it does not make it stale),
  \<open>License_Listing\<close> (what it lists) and \<open>License_Witnesses\<close> (a checkout on which the theorems are
  instantiated) hold the theorems.

  Bounds. No fuel limits a result: the JSON parser runs with fuel proportional to the length of the
  text and never runs out (\<open>json_fuel_enough\<close>), the retry loop is bounded by \<open>maxAttempts\<close>
  (at most 5), the poll loop by 1000, the iterations over pages by 10000, and the other loops
  recurse on their input. The schema validator recurses along references, which may lead back to
  themselves, so it is given the depth of the call stack: it overflows when it runs out, and
  \<open>validator_decides_conformance\<close> says that a deep enough stack gives the answer.

  Conventions. A TypeScript-typed text is a string or absent; a value of type \<open>unknown\<close>, and every
  member of a request or an answer of the ingest service, is a \<open>jsval\<close>. An object is a list of members in insertion order. The messages of validation errors
  and the paths in them are left out; codes, request ids and causes are kept. An event given by
  the caller is a record of its typed members, with the names of other own members beside it; a
  member that is present with the value \<open>undefined\<close> is an absent one.

  Parameters. The protobuf codec, the parsed descriptor and the options of its fields, the URL parser, \<open>fetch\<close>, the clock,
  random numbers and UUIDs, SHA-1 and SHA-256, \<open>localeCompare\<close>, \<open>RegExp\<close> on the patterns of a
  schema, gofmt and buf, the tracer and the propagator are not code under src/ and are arguments
  of the definitions that use them. A decoded response is read at the types that the descriptor
  declares.

  Not modelled. The base64 constants of connect-descriptor.ts and ingest-descriptor.ts are
  generated data; index.ts only re-exports; the examples are straight-line uses of the clients;
  the Go and Python SDKs and the shell and Python scripts are not TypeScript. Of the contract gate
  and the license inventory, the sentences of their failures, links to directories, input and
  output errors while the derived files are written, and the spawning of gofmt and buf are left
  out. Objects whose prototype was changed through a \<open>__proto__\<close> member, arrays or objects that
  occur twice in a table declaration, and consumers that abandon an iteration half way (what they
  have seen is a prefix of what the model yields), are outside of the model.
\<close>

section \<open>The enumerations of the wire\<close>

text \<open>
  The texts of the enumerations survive the wire: an operation, an outcome or an origin is
  written as the one text that is read back as it, and the texts that the preflight lets through
  are exactly those that the reader of listed events knows.
\<close>

theorem wire_enums_roundtrip:
  "(cdcOperation (Some (operation_text op)) = Inr t \<longleftrightarrow> cdcOperationFromWire (JStr t) = Some op) \<and>
   (auditOutcome (Some (outcome_text out)) = Inr t \<longleftrightarrow> auditOutcomeFromWire (JStr t) = Some out) \<and>
   (auditOrigin (origin_text orig) = Inr t \<longleftrightarrow> auditOriginFromWire (JStr t) = Some orig) \<and>
   (t \<in> set CDC_OPERATIONS \<longleftrightarrow> cdcOperationFromWire (JStr t) \<noteq> None) \<and>
   (t \<in> set AUDIT_OUTCOMES \<longleftrightarrow> auditOutcomeFromWire (JStr t) \<noteq> None) \<and>
   (t \<in> set AUDIT_ORIGINS \<longleftrightarrow> auditOriginFromWire (JStr t) \<noteq> None)"
proof (intro conjI)
  show "cdcOperation (Some (operation_text op)) = Inr t \<longleftrightarrow> cdcOperationFromWire (JStr t) = Some op"
    by (cases op) (auto simp: cdcOperation_def operation_text_def cdcOperationFromWire_def)
  show "auditOutcome (Some (outcome_text out)) = Inr t \<longleftrightarrow> auditOutcomeFromWire (JStr t) = Some out"
    by (cases out) (auto simp: auditOutcome_def outcome_text_def auditOutcomeFromWire_def)
  show "auditOrigin (origin_text orig) = Inr t \<longleftrightarrow> auditOriginFromWire (JStr t) = Some orig"
    by (cases orig) (auto simp: auditOrigin_def origin_text_def auditOriginFromWire_def)
qed (auto simp: CDC_OPERATIONS_def AUDIT_OUTCOMES_def AUDIT_ORIGINS_def cdcOperationFromWire_def
      auditOutcomeFromWire_def auditOriginFromWire_def)

end
